(* ===== verification/Prelude.thy ===== *)
theory Prelude
  imports Complex_Main
begin

text \<open>
  Shared vocabulary of the development: the error values that stand for a raised
  \<open>ApiError\<close>, identifiers, clock readings and JSON values, and the operations on
  database tables that every component uses.

  A table is the list of its rows in insertion order.  \<open>session.get\<close> and a
  \<open>session.scalar(select(...))\<close> are \<open>find\<close>, \<open>session.scalars(select(...)).all()\<close> is
  \<open>filter\<close>, \<open>session.add\<close> appends, and assigning to the attributes of a loaded row is
  \<open>modify_where\<close> on the primary key.
\<close>

section \<open>Errors, identifiers, time\<close>

text \<open>
  \<open>ApiError(status_code, code, message, details, headers)\<close>: the status and the machine
  readable code are kept, the text for humans, the details and the headers are not.
\<close>

datatype api_error = ApiError (err_status: int) (err_code: string)

definition not_found :: api_error where
  "not_found = ApiError 404 ''NOT_FOUND''"

definition conflict_error :: "string \<Rightarrow> api_error" where
  "conflict_error code = ApiError 409 code"

type_synonym ident = string
type_synonym time = int
type_synonym utext = "nat list"

text \<open>
  A \<open>datetime\<close> is the number of microseconds since the epoch (always UTC: \<open>as_utc\<close>), a
  \<open>timedelta\<close> a number of microseconds.  Machine strings (identifiers, roles, states,
  keys) are \<open>string\<close>; text typed by people is the list of its code points.
\<close>

definition seconds :: "int \<Rightarrow> int" where "seconds n = n * 1000000"
definition minutes :: "int \<Rightarrow> int" where "minutes n = seconds (60 * n)"
definition hours :: "int \<Rightarrow> int" where "hours n = minutes (60 * n)"
definition days :: "int \<Rightarrow> int" where "days n = hours (24 * n)"

text \<open>The code points of a literal of ASCII characters.\<close>

definition codes :: "string \<Rightarrow> utext" where
  "codes s = map of_char s"

text \<open>
  What a request reads from its surroundings: the clock (one reading per operation), the
  identifier supply \<open>new_id\<close> (uuid7, a third-party generator) and the request id of the
  context variable.
\<close>

record env =
  now :: time
  new_id :: "nat \<Rightarrow> ident"
  request_ctx :: "string option"

section \<open>JSON values\<close>

text \<open>\<open>JText\<close> is a string of text typed by people, \<open>JStr\<close> every other string.\<close>

datatype json =
    JNull
  | JBool bool
  | JInt int
  | JNum rat
  | JStr string
  | JText utext
  | JArr "json list"
  | JObj "(string \<times> json) list"

text \<open>\<open>d.get(k)\<close>, with None for a missing key.\<close>

fun jget :: "json \<Rightarrow> string \<Rightarrow> json" where
  "jget (JObj kvs) k = (case map_of kvs k of None \<Rightarrow> JNull | Some v \<Rightarrow> v)"
| "jget _ k = JNull"

text \<open>The truth value Python gives to a value.\<close>

fun truthy :: "json \<Rightarrow> bool" where
  "truthy JNull = False"
| "truthy (JBool b) = b"
| "truthy (JInt i) = (i \<noteq> 0)"
| "truthy (JNum q) = (q \<noteq> 0)"
| "truthy (JStr s) = (s \<noteq> [])"
| "truthy (JText s) = (s \<noteq> [])"
| "truthy (JArr xs) = (xs \<noteq> [])"
| "truthy (JObj kvs) = (kvs \<noteq> [])"

fun is_dict :: "json \<Rightarrow> bool" where
  "is_dict (JObj kvs) = True"
| "is_dict _ = False"

text \<open>\<open>a or b\<close> on optional strings: the empty string counts as missing.\<close>

definition or_else :: "string option \<Rightarrow> string option \<Rightarrow> string option" where
  "or_else a b = (case a of None \<Rightarrow> b | Some s \<Rightarrow> if s = [] then b else a)"

section \<open>Tables\<close>

named_theorems table_simps

definition modify_where :: "('r \<Rightarrow> bool) \<Rightarrow> ('r \<Rightarrow> 'r) \<Rightarrow> 'r list \<Rightarrow> 'r list" where
  "modify_where P f rs = map (\<lambda>r. if P r then f r else r) rs"

lemma modify_where_Nil [simp]: "modify_where P f [] = []"
  by (simp add: modify_where_def)

lemma modify_where_Cons [simp]:
  "modify_where P f (r # rs) = (if P r then f r else r) # modify_where P f rs"
  by (simp add: modify_where_def)

lemma modify_where_append [simp]:
  "modify_where P f (rs @ ss) = modify_where P f rs @ modify_where P f ss"
  by (simp add: modify_where_def)

lemma length_modify_where [simp]: "length (modify_where P f rs) = length rs"
  by (simp add: modify_where_def)

lemma modify_where_none: "(\<And>r. r \<in> set rs \<Longrightarrow> \<not> P r) \<Longrightarrow> modify_where P f rs = rs"
  by (induction rs) auto

lemma set_modify_where: "set (modify_where P f rs) = (\<lambda>r. if P r then f r else r) ` set rs"
  by (simp add: modify_where_def)

lemma in_modify_where_iff:
  "r' \<in> set (modify_where P f rs) \<longleftrightarrow> (\<exists>r \<in> set rs. r' = (if P r then f r else r))"
  by (auto simp: set_modify_where)

lemma map_modify_where:
  "(\<And>r. P r \<Longrightarrow> g (f r) = g r) \<Longrightarrow> map g (modify_where P f rs) = map g rs"
  by (induction rs) auto

lemma filter_modify_where_inv:
  "(\<And>r. P r \<Longrightarrow> Q (f r) = Q r) \<Longrightarrow>
    filter Q (modify_where P f rs) = modify_where P f (filter Q rs)"
  by (induction rs) auto

lemma find_append:
  "find P (xs @ ys) = (case find P xs of None \<Rightarrow> find P ys | Some x \<Rightarrow> Some x)"
  by (induction xs) auto

lemma find_SomeD: "find P xs = Some x \<Longrightarrow> x \<in> set xs \<and> P x"
  by (induction xs) (auto split: if_splits)

lemma find_NoneD: "find P xs = None \<Longrightarrow> x \<in> set xs \<Longrightarrow> \<not> P x"
  by (induction xs) (auto split: if_splits)

lemma find_unique:
  assumes "distinct (map key rs)" "r \<in> set rs"
  shows "find (\<lambda>x. key x = key r) rs = Some r"
  using assms by (induction rs) (auto simp: rev_image_eqI)

text \<open>
  The interface between a component and the table it keeps: an update of a row never
  changes the column it was found by.  Everything else (other rows keep their value, keys
  stay distinct, the row found afterwards is the updated one) follows once for all.
\<close>

locale keyed_update =
  fixes key :: "'r \<Rightarrow> 'k" and upd :: "'r \<Rightarrow> 'r"
  assumes key_upd: "key (upd r) = key r"
begin

lemma find_where:
  "find (\<lambda>r. key r = k) (modify_where P upd rs)
     = map_option (\<lambda>r. if P r then upd r else r) (find (\<lambda>r. key r = k) rs)"
  by (induction rs) (auto simp: key_upd)

lemma find_same:
  "find (\<lambda>r. key r = k) (modify_where (\<lambda>r. key r = k) upd rs)
     = map_option upd (find (\<lambda>r. key r = k) rs)"
  by (induction rs) (auto simp: key_upd)

lemma find_other:
  "k' \<noteq> k \<Longrightarrow> find (\<lambda>r. key r = k') (modify_where (\<lambda>r. key r = k) upd rs)
     = find (\<lambda>r. key r = k') rs"
  by (induction rs) (auto simp: key_upd)

lemma keys: "map key (modify_where P upd rs) = map key rs"
  by (induction rs) (auto simp: key_upd)

lemma keys_distinct: "distinct (map key rs) \<Longrightarrow> distinct (map key (modify_where P upd rs))"
  by (simp add: keys)

end

text \<open>A row found by its key is found again, and only grown, after an update and an insertion.\<close>

lemma find_grown:
  assumes "find (\<lambda>r. key r = k) rs = Some r"
    and "\<And>x. P x \<Longrightarrow> key (f x) = key x" "\<And>x. P x \<Longrightarrow> le x (f x)" "\<And>x. le x x"
  shows "\<exists>r'. find (\<lambda>r. key r = k) (modify_where P f rs @ new) = Some r' \<and> le r r'"
  using assms by (induction rs) (auto split: if_splits)

text \<open>
  The interface between one operation and any number of them: what is observed under a key
  only grows in an order.
\<close>

locale growing =
  fixes step :: "'op \<Rightarrow> 'db \<Rightarrow> 'db" and obs :: "'db \<Rightarrow> 'k \<Rightarrow> 'r option"
    and le :: "'r \<Rightarrow> 'r \<Rightarrow> bool"
  assumes le_refl: "le r r"
    and le_trans: "le r s \<Longrightarrow> le s t \<Longrightarrow> le r t"
    and grows: "obs db k = Some r \<Longrightarrow> \<exists>r'. obs (step x db) k = Some r' \<and> le r r'"
begin

lemma grows_run: "obs db k = Some r \<Longrightarrow> \<exists>r'. obs (fold step ops db) k = Some r' \<and> le r r'"
proof (induction ops arbitrary: db r)
  case Nil
  then show ?case using le_refl by auto
next
  case (Cons x ops)
  then show ?case using grows [OF Cons.prems, of x] le_trans by fastforce
qed

end

section \<open>Consecutive numbering\<close>

text \<open>\<open>consec n xs\<close>: the list is \<open>n + 1, n + 2, \<dots>\<close>\<close>

fun consec :: "int \<Rightarrow> int list \<Rightarrow> bool" where
  "consec n [] = True"
| "consec n (x # xs) = (x = n + 1 \<and> consec x xs)"

lemma consec_append:
  "consec n (xs @ ys) \<longleftrightarrow> consec n xs \<and> consec (n + int (length xs)) ys"
proof (induction xs arbitrary: n)
  case Nil
  then show ?case by simp
next
  case (Cons x xs)
  show ?case by (auto simp: Cons.IH algebra_simps)
qed

lemma consec_set: "consec n xs \<Longrightarrow> set xs = {n + 1 .. n + int (length xs)}"
  by (induction xs arbitrary: n) auto

lemma consec_sorted: "consec n xs \<Longrightarrow> sorted_wrt (<) xs"
proof (induction xs arbitrary: n)
  case Nil
  then show ?case by simp
next
  case (Cons x xs)
  then show ?case using consec_set [of x xs] by auto
qed

lemma sorted_less_distinct: "sorted_wrt (<) (xs :: int list) \<Longrightarrow> distinct xs"
  by (induction xs) auto

lemma consec_distinct: "consec n xs \<Longrightarrow> distinct xs"
  by (rule sorted_less_distinct [OF consec_sorted])

section \<open>Results of fallible operations\<close>

lemma map_sum_Inr: "map_sum id f m = Inr y \<longleftrightarrow> (\<exists>x. m = Inr x \<and> y = f x)"
  by (cases m) auto

section \<open>Invariants of step relations\<close>

text \<open>
  The interface between the detailed operations of a component and the abstract steps they
  are made of: what every step keeps holds after any number of them.
\<close>

locale kept_by =
  fixes step :: "'s \<Rightarrow> 's \<Rightarrow> bool" and inv :: "'s \<Rightarrow> bool"
  assumes kept: "step s t \<Longrightarrow> inv s \<Longrightarrow> inv t"
begin

lemma kept_star: "step\<^sup>*\<^sup>* s t \<Longrightarrow> inv s \<Longrightarrow> inv t"
  by (induction rule: rtranclp_induct) (auto intro: kept)

lemma kept_run: "(\<And>x s. step\<^sup>*\<^sup>* s (run x s)) \<Longrightarrow> inv s \<Longrightarrow> inv (fold run xs s)"
proof (induction xs arbitrary: s)
  case Nil
  then show ?case by simp
next
  case (Cons x xs)
  show ?case using Cons.IH [OF Cons.prems(1) kept_star [OF Cons.prems]] by simp
qed

end

end
