(* ===== verification/Security.thy ===== *)
theory Security
  imports Prelude
begin

text \<open>
  The authenticated subject of a request and the access checks built on it
  (\<open>security.py\<close>, \<open>dependencies.py\<close>, the access functions of \<open>services/reports.py\<close>).
\<close>

section \<open>Actors\<close>

datatype subject_type = Account | Device

record actor =
  ac_subject_type :: subject_type
  ac_subject_id :: ident
  ac_role :: string
  ac_token_version :: int
  ac_incident_ids :: "ident list"
  ac_username :: "string option"
  ac_region_code :: "string option"

definition is_resident :: "actor \<Rightarrow> bool" where
  "is_resident a \<longleftrightarrow> ac_role a = ''resident''"

definition subject_name :: "subject_type \<Rightarrow> string" where
  "subject_name t = (case t of Account \<Rightarrow> ''account'' | Device \<Rightarrow> ''device'')"

text \<open>\<open>f"{subject_type}:{subject_id}"\<close>, the owner of idempotency records and rate limits.\<close>

definition actor_key :: "actor \<Rightarrow> string" where
  "actor_key a = subject_name (ac_subject_type a) @ '':'' @ ac_subject_id a"

section \<open>Checks\<close>

definition require_roles :: "string list \<Rightarrow> actor \<Rightarrow> api_error + actor" where
  "require_roles roles a =
     (if ac_role a \<notin> set roles then Inl (ApiError 403 ''FORBIDDEN'') else Inr a)"

definition ensure_incident_access ::
    "actor \<Rightarrow> ident \<Rightarrow> ident option \<Rightarrow> api_error + unit" where
  "ensure_incident_access a incident_id header =
     (if header \<noteq> None \<and> header \<noteq> Some incident_id
      then Inl (ApiError 403 ''INCIDENT_CONTEXT_MISMATCH'')
      else if incident_id \<notin> set (ac_incident_ids a)
      then Inl (ApiError 403 ''INCIDENT_ACCESS_DENIED'')
      else Inr ())"

text \<open>
  \<open>decode_access_token\<close>: the verification of the token is \<open>jwt.decode\<close> (third party), the
  check of the \<open>typ\<close> claim is the code's.
\<close>

definition decode_access_token :: "(string \<Rightarrow> json option) \<Rightarrow> string \<Rightarrow> api_error + json" where
  "decode_access_token jwt_decode token =
     (case jwt_decode token of
        None \<Rightarrow> Inl (ApiError 401 ''INVALID_ACCESS_TOKEN'')
      | Some payload \<Rightarrow>
          if jget payload ''typ'' \<noteq> JStr ''access''
          then Inl (ApiError 401 ''INVALID_ACCESS_TOKEN'') else Inr payload)"

lemma ensure_incident_access_ok:
  "ensure_incident_access a i h = Inr () \<longleftrightarrow>
     (h = None \<or> h = Some i) \<and> i \<in> set (ac_incident_ids a)"
  by (auto simp: ensure_incident_access_def)

lemma require_roles_ok: "require_roles roles a = Inr b \<longleftrightarrow> b = a \<and> ac_role a \<in> set roles"
  by (auto simp: require_roles_def)

lemma actor_key_inject:
  "actor_key a = actor_key b \<longleftrightarrow>
     ac_subject_type a = ac_subject_type b \<and> ac_subject_id a = ac_subject_id b"
  by (cases "ac_subject_type a"; cases "ac_subject_type b")
    (auto simp: actor_key_def subject_name_def)

end
