(* ===== verification/Idempotency.thy ===== *)
theory Idempotency
  imports Security Strings
begin

text \<open>
  The persistent idempotency layer of \<open>middleware.py\<close> and its transactional twin
  \<open>services/idempotency.py\<close>: which requests are covered, how a key is reserved, replayed,
  finished or released, and the wrapper around the rest of the application.

  The rest of the application is the parameter \<open>call_next\<close>, a function of the world it
  works on; \<open>sha256\<close>, \<open>json.loads\<close> and \<open>json.dumps\<close> are parameters too.
\<close>

section \<open>Requests\<close>

record request =
  rq_method :: string
  rq_path :: string
  rq_idempotency_key :: "string option"
  rq_authorization :: "string option"
  rq_client_host :: "string option"
  rq_incident_header :: "string option"
  rq_content_type :: string
  rq_body :: string

definition report_create_path :: "seg list" where
  "report_create_path =
     [Fixed [], Fixed ''api'', Fixed ''v1'', Fixed ''incidents'', Any, Fixed ''reports'']"

definition upload_content_path :: "seg list" where
  "upload_content_path =
     [Fixed [], Fixed ''api'', Fixed ''v1'', Fixed ''uploads'', Any, Fixed ''content'']"

definition report_resource_path :: "seg list" where
  "report_resource_path = [Fixed [], Fixed ''api'', Fixed ''v1'', Fixed ''reports'', Any]"

definition ai_brief_path :: "seg list" where
  "ai_brief_path =
     [Fixed [], Fixed ''api'', Fixed ''v1'', Fixed ''incidents'', Any, Fixed ''ai-command-briefs'']"

definition under_path :: "string \<Rightarrow> string \<Rightarrow> bool" where
  "under_path path base \<longleftrightarrow> path = base \<or> starts_with path (base @ ''/'')"

definition idempotency_eligible :: "string \<Rightarrow> string \<Rightarrow> bool" where
  "idempotency_eligible method path =
     (if upper method \<notin> {''POST'', ''PUT''} \<or> \<not> starts_with path ''/api/v1/'' then False
      else if under_path path ''/api/v1/auth'' then False
      else if under_path path ''/api/v1/anonymous-sessions'' then False
      else if under_path path ''/api/v1/resident-device-sessions'' then False
      else if upper method = ''PUT'' \<and> path_matches upload_content_path path then False
      else \<not> (upper method = ''POST'' \<and> path_matches report_create_path path))"

definition request_actor_key :: "(string \<Rightarrow> json option) \<Rightarrow> request \<Rightarrow> string option" where
  "request_actor_key jwt_decode rq =
     (case rq_authorization rq of
        None \<Rightarrow> None
      | Some authorization \<Rightarrow>
          let scheme = before_char CHR '' '' authorization;
              token = after_char CHR '' '' authorization
          in if authorization = [] \<or> lower scheme \<noteq> ''bearer'' \<or> token = [] then None
             else (case decode_access_token jwt_decode token of
                Inl _ \<Rightarrow> None
              | Inr payload \<Rightarrow>
                  (case (jget payload ''subject_type'', jget payload ''sub'') of
                     (JStr st, JStr sub) \<Rightarrow>
                       if st = ''account'' \<or> st = ''device'' then Some (st @ '':'' @ sub) else None
                   | _ \<Rightarrow> None)))"

definition request_fingerprint ::
    "(json \<Rightarrow> string) \<Rightarrow> (string \<Rightarrow> json option) \<Rightarrow> (string \<Rightarrow> string) \<Rightarrow> request \<Rightarrow> string" where
  "request_fingerprint request_hash loads sha256_bytes rq =
     (let content_type = lower (strip (before_char CHR '';'' (rq_content_type rq)));
          opaque = request_hash (JObj [(''content_type'', JStr content_type),
                                       (''sha256'', JStr (sha256_bytes (rq_body rq)))])
      in if content_type = ''application/json'' \<or> ends_with content_type ''+json''
         then (case loads (rq_body rq) of Some v \<Rightarrow> request_hash v | None \<Rightarrow> opaque)
         else opaque)"

section \<open>Records and reservations\<close>

record idem_row =
  ir_id :: ident
  ir_actor_key :: string
  ir_route :: string
  ir_key :: string
  ir_request_hash :: string
  ir_response_status :: int
  ir_response_body :: "json option"
  ir_created_at :: time
  ir_expires_at :: time

type_synonym slot = "string \<times> string \<times> string"

text \<open>The columns of the unique constraint.\<close>

definition slot_of :: "idem_row \<Rightarrow> slot" where
  "slot_of r = (ir_actor_key r, ir_route r, ir_key r)"

definition find_slot :: "idem_row list \<Rightarrow> slot \<Rightarrow> idem_row option" where
  "find_slot rows s = find (\<lambda>r. slot_of r = s) rows"

definition reuse_row :: "int \<Rightarrow> time \<Rightarrow> string \<Rightarrow> idem_row \<Rightarrow> idem_row" where
  "reuse_row window t fingerprint r =
     r\<lparr>ir_request_hash := fingerprint, ir_response_status := 0, ir_response_body := None,
       ir_created_at := t, ir_expires_at := t + window\<rparr>"

definition new_row :: "int \<Rightarrow> time \<Rightarrow> ident \<Rightarrow> slot \<Rightarrow> string \<Rightarrow> idem_row" where
  "new_row window t rid s fingerprint =
     \<lparr>ir_id = rid, ir_actor_key = fst s, ir_route = fst (snd s), ir_key = snd (snd s),
      ir_request_hash = fingerprint, ir_response_status = 0, ir_response_body = None,
      ir_created_at = t, ir_expires_at = t + window\<rparr>"

datatype outcome = Reservation ident | Replay int json

definition valid_key :: "string \<Rightarrow> bool" where
  "valid_key key \<longleftrightarrow> key \<noteq> [] \<and> length key \<le> 200"

definition reserve_or_replay ::
    "int \<Rightarrow> time \<Rightarrow> ident \<Rightarrow> slot \<Rightarrow> string \<Rightarrow> idem_row list
      \<Rightarrow> (api_error + outcome) \<times> idem_row list" where
  "reserve_or_replay window t rid s fingerprint rows =
     (if \<not> valid_key (snd (snd s)) then (Inl (ApiError 422 ''INVALID_IDEMPOTENCY_KEY''), rows)
      else case find_slot rows s of
        Some existing \<Rightarrow>
          if ir_expires_at existing \<le> t
          then (Inr (Reservation (ir_id existing)),
                modify_where (\<lambda>r. ir_id r = ir_id existing) (reuse_row window t fingerprint) rows)
          else if ir_request_hash existing \<noteq> fingerprint
          then (Inl (ApiError 409 ''IDEMPOTENCY_CONFLICT''), rows)
          else (case ir_response_body existing of
             None \<Rightarrow> (Inl (ApiError 409 ''IDEMPOTENCY_IN_PROGRESS''), rows)
           | Some body \<Rightarrow> (Inr (Replay (ir_response_status existing) body), rows))
      | None \<Rightarrow> (Inr (Reservation rid), rows @ [new_row window t rid s fingerprint]))"

definition release_reservation :: "ident \<Rightarrow> idem_row list \<Rightarrow> idem_row list" where
  "release_reservation rid rows =
     filter (\<lambda>r. \<not> (ir_id r = rid \<and> ir_response_body r = None)) rows"

definition finish_row :: "int \<Rightarrow> json \<Rightarrow> idem_row \<Rightarrow> idem_row" where
  "finish_row status_code body r =
     r\<lparr>ir_response_status := status_code, ir_response_body := Some body\<rparr>"

definition finish_reservation ::
    "ident \<Rightarrow> int \<Rightarrow> json \<Rightarrow> idem_row list \<Rightarrow> idem_row list" where
  "finish_reservation rid status_code body rows =
     modify_where (\<lambda>r. ir_id r = rid) (finish_row status_code body) rows"

text \<open>
  \<open>replay_or_reserve\<close> and \<open>finish\<close> of \<open>services/idempotency.py\<close>: the same decisions inside the
  transaction of the handler (report creation), with the stored body as the result of a replay
  and the record object in the hands of the caller.
\<close>

definition replay_or_reserve ::
    "int \<Rightarrow> time \<Rightarrow> ident \<Rightarrow> actor \<Rightarrow> string \<Rightarrow> string \<Rightarrow> string \<Rightarrow> idem_row list
      \<Rightarrow> (api_error + (ident + json)) \<times> idem_row list" where
  "replay_or_reserve window t rid actr route key digest rows =
     (if key = [] \<or> length key > 200 then (Inl (ApiError 422 ''INVALID_IDEMPOTENCY_KEY''), rows)
      else case find (\<lambda>r. ir_actor_key r = actor_key actr \<and> ir_route r = route \<and> ir_key r = key)
                  rows of
        Some existing \<Rightarrow>
          if ir_expires_at existing \<le> t
          then (Inr (Inl (ir_id existing)),
                modify_where (\<lambda>r. ir_id r = ir_id existing) (reuse_row window t digest) rows)
          else if ir_request_hash existing \<noteq> digest
          then (Inl (ApiError 409 ''IDEMPOTENCY_CONFLICT''), rows)
          else (case ir_response_body existing of
             None \<Rightarrow> (Inl (ApiError 409 ''IDEMPOTENCY_IN_PROGRESS''), rows)
           | Some body \<Rightarrow> (Inr (Inr body), rows))
      | None \<Rightarrow> (Inr (Inl rid), rows @ [new_row window t rid (actor_key actr, route, key) digest]))"

fun service_view :: "api_error + outcome \<Rightarrow> api_error + (ident + json)" where
  "service_view (Inl e) = Inl e"
| "service_view (Inr (Reservation rid)) = Inr (Inl rid)"
| "service_view (Inr (Replay st b)) = Inr (Inr b)"

lemma replay_or_reserve_eq:
  "replay_or_reserve window t rid actr route key digest rows =
     (let r = reserve_or_replay window t rid (actor_key actr, route, key) digest rows
      in (service_view (fst r), snd r))"
  by (auto simp: replay_or_reserve_def reserve_or_replay_def valid_key_def find_slot_def slot_of_def
      Let_def split: option.splits)

section \<open>The wrapper around the application\<close>

text \<open>
  What the rest of the application does with a request: it raises, or it answers with a
  status and a body stream, which may itself fail while it is read.  The wrapper answers
  with a response of its own (\<open>Answer\<close>: status and body), an error envelope (\<open>Failed\<close>) or
  lets the exception through.
\<close>

datatype call_result = Call_Raised | Call_Returned int "string option"

datatype http_answer = Propagate | Answer int string | Stream_Raised int | Failed api_error

text \<open>Database failures that \<open>except Exception\<close> covers.\<close>

record faults =
  reserve_fails :: bool
  finish_fails :: bool
  release_fails :: bool

record idem_config =
  cfg_window :: int
  cfg_hash :: "json \<Rightarrow> string"
  cfg_loads :: "string \<Rightarrow> json option"
  cfg_dumps :: "json \<Rightarrow> string"
  cfg_sha256 :: "string \<Rightarrow> string"
  cfg_jwt :: "string \<Rightarrow> json option"

definition safe_release :: "faults \<Rightarrow> ident \<Rightarrow> idem_row list \<Rightarrow> idem_row list" where
  "safe_release flt rid rows = (if release_fails flt then rows else release_reservation rid rows)"

fun pass_through :: "call_result \<Rightarrow> http_answer" where
  "pass_through Call_Raised = Propagate"
| "pass_through (Call_Returned st None) = Stream_Raised st"
| "pass_through (Call_Returned st (Some body)) = Answer st body"

definition replay_response :: "(json \<Rightarrow> string) \<Rightarrow> int \<Rightarrow> json \<Rightarrow> http_answer" where
  "replay_response dumps st body = (if st = 204 then Answer 204 [] else Answer st (dumps body))"

definition fingerprint_of :: "idem_config \<Rightarrow> request \<Rightarrow> string" where
  "fingerprint_of cfg rq = request_fingerprint (cfg_hash cfg) (cfg_loads cfg) (cfg_sha256 cfg) rq"

text \<open>After the reservation: run the application, then keep or release the reservation.\<close>

definition run_reserved ::
    "idem_config \<Rightarrow> faults \<Rightarrow> ident \<Rightarrow> ('w \<Rightarrow> call_result \<times> 'w) \<Rightarrow> idem_row list \<Rightarrow> 'w
      \<Rightarrow> http_answer \<times> idem_row list \<times> 'w" where
  "run_reserved cfg flt rid call_next rows w =
     (case call_next w of
        (Call_Raised, w') \<Rightarrow> (Propagate, safe_release flt rid rows, w')
      | (Call_Returned st body, w') \<Rightarrow>
          if \<not> (200 \<le> st \<and> st < 300)
          then (pass_through (Call_Returned st body), safe_release flt rid rows, w')
          else (case body of
             None \<Rightarrow> (Propagate, safe_release flt rid rows, w')
           | Some b \<Rightarrow>
               let parsed = (if st = 204 then Some (JObj []) else
                     (case cfg_loads cfg b of
                        Some v \<Rightarrow> if is_dict v then Some v else None
                      | None \<Rightarrow> None))
               in (case parsed of
                  None \<Rightarrow> (Answer st b, safe_release flt rid rows, w')
                | Some response_body \<Rightarrow>
                    (Answer st b,
                     (if finish_fails flt then rows
                      else finish_reservation rid st response_body rows), w'))))"

definition call_with_idempotency ::
    "idem_config \<Rightarrow> faults \<Rightarrow> time \<Rightarrow> ident \<Rightarrow> request \<Rightarrow> ('w \<Rightarrow> call_result \<times> 'w)
      \<Rightarrow> idem_row list \<times> 'w \<Rightarrow> http_answer \<times> idem_row list \<times> 'w" where
  "call_with_idempotency cfg flt t rid rq call_next st =
     (let rows = fst st; w = snd st;
          through = (case call_next w of (res, w') \<Rightarrow> (pass_through res, rows, w'))
      in case rq_idempotency_key rq of
           None \<Rightarrow> through
         | Some key \<Rightarrow>
             if \<not> idempotency_eligible (rq_method rq) (rq_path rq) then through
             else (case request_actor_key (cfg_jwt cfg) rq of
                None \<Rightarrow> through
              | Some actr \<Rightarrow>
                  let s = (actr, upper (rq_method rq) @ '':'' @ rq_path rq, key)
                  in if valid_key key \<and> reserve_fails flt
                     then (Failed (ApiError 503 ''IDEMPOTENCY_UNAVAILABLE''), rows, w)
                     else (case reserve_or_replay (cfg_window cfg) t rid s
                                  (fingerprint_of cfg rq) rows of
                        (Inl err, rows') \<Rightarrow> (Failed err, rows', w)
                      | (Inr (Replay code body), rows') \<Rightarrow>
                          (replay_response (cfg_dumps cfg) code body, rows', w)
                      | (Inr (Reservation rsv), rows') \<Rightarrow>
                          run_reserved cfg flt rsv call_next rows' w)))"

section \<open>The table\<close>

definition idem_ok :: "idem_row list \<Rightarrow> bool" where
  "idem_ok rows \<longleftrightarrow> distinct (map ir_id rows) \<and> distinct (map slot_of rows)"

lemma slot_of_upd [simp]:
  "slot_of (reuse_row window t fp r) = slot_of r" "ir_id (reuse_row window t fp r) = ir_id r"
  "slot_of (finish_row st b r) = slot_of r" "ir_id (finish_row st b r) = ir_id r"
  "slot_of (new_row window t rid s fp) = s" "ir_id (new_row window t rid s fp) = rid"
  by (simp_all add: slot_of_def reuse_row_def finish_row_def new_row_def)

interpretation reuse: keyed_update ir_id "reuse_row window t fp" for window t fp
  by unfold_locales simp

interpretation finish: keyed_update ir_id "finish_row st b" for st b
  by unfold_locales simp

interpretation reuse_slot: keyed_update slot_of "reuse_row window t fp" for window t fp
  by unfold_locales simp

interpretation finish_slot: keyed_update slot_of "finish_row st b" for st b
  by unfold_locales simp

lemma find_slot_modify:
  assumes "\<And>r. slot_of (f r) = slot_of r"
  shows "find_slot (modify_where P f rows) s
     = map_option (\<lambda>r. if P r then f r else r) (find_slot rows s)"
  using assms by (induction rows) (auto simp: find_slot_def)

lemma find_slot_reuse:
  "find_slot (modify_where P (reuse_row window t fp) rows) s
     = map_option (\<lambda>r. if P r then reuse_row window t fp r else r) (find_slot rows s)"
  by (rule find_slot_modify) simp

lemma find_slot_Some: "find_slot rows s = Some r \<Longrightarrow> r \<in> set rows \<and> slot_of r = s"
  by (auto simp: find_slot_def dest: find_SomeD)

lemma find_slot_finish:
  "find_slot (finish_reservation rid st b rows) s
     = map_option (\<lambda>r. if ir_id r = rid then finish_row st b r else r) (find_slot rows s)"
  by (simp add: finish_reservation_def find_slot_modify)

lemma find_slot_release:
  assumes "distinct (map slot_of rows)"
  shows "find_slot (release_reservation rid rows) s =
    (case find_slot rows s of None \<Rightarrow> None
     | Some r \<Rightarrow> if ir_id r = rid \<and> ir_response_body r = None then None else Some r)"
  using assms
proof (induction rows)
  case Nil
  then show ?case by (simp add: find_slot_def release_reservation_def)
next
  case (Cons x rows)
  have "find_slot rows (slot_of x) = None"
    using Cons.prems by (auto simp: find_slot_def find_None_iff) (metis imageI)
  with Cons show ?case
    by (auto simp: find_slot_def release_reservation_def split: option.splits)
qed

lemma idem_ok_finish: "idem_ok rows \<Longrightarrow> idem_ok (finish_reservation rid st b rows)"
  by (simp add: idem_ok_def finish_reservation_def finish.keys_distinct
      finish_slot.keys_distinct)

lemma idem_ok_release: "idem_ok rows \<Longrightarrow> idem_ok (release_reservation rid rows)"
  by (simp add: idem_ok_def release_reservation_def distinct_map_filter)

lemma ids_finish: "ir_id ` set (finish_reservation rid st b rows) = ir_id ` set rows"
  unfolding finish_reservation_def by (metis finish.keys list.set_map)

lemma ids_release: "ir_id ` set (release_reservation rid rows) \<subseteq> ir_id ` set rows"
  by (auto simp: release_reservation_def)

lemma same_id_same_row:
  "idem_ok rows \<Longrightarrow> r \<in> set rows \<Longrightarrow> r' \<in> set rows \<Longrightarrow> ir_id r = ir_id r' \<Longrightarrow> r = r'"
  by (auto simp: idem_ok_def distinct_map inj_on_def)

section \<open>What the operations do to a slot\<close>

text \<open>
  The abstract store behind the table: for each slot the fingerprint of the request, when it
  expires and the response once there is one.
\<close>

record entry =
  en_hash :: string
  en_expires :: time
  en_response :: "(int \<times> json) option"

definition entry_of :: "idem_row \<Rightarrow> entry" where
  "entry_of r = \<lparr>en_hash = ir_request_hash r, en_expires = ir_expires_at r,
     en_response = map_option (Pair (ir_response_status r)) (ir_response_body r)\<rparr>"

definition store_of :: "idem_row list \<Rightarrow> slot \<Rightarrow> entry option" where
  "store_of rows s = map_option entry_of (find_slot rows s)"

datatype verdict = Invalid_Key | Conflict | In_Progress | Replayed int json | Reserved

definition spec_verdict :: "time \<Rightarrow> slot \<Rightarrow> string \<Rightarrow> (slot \<rightharpoonup> entry) \<Rightarrow> verdict" where
  "spec_verdict t s fp m =
     (if \<not> valid_key (snd (snd s)) then Invalid_Key
      else case m s of None \<Rightarrow> Reserved
      | Some en \<Rightarrow>
          if en_expires en \<le> t then Reserved
          else if en_hash en \<noteq> fp then Conflict
          else (case en_response en of None \<Rightarrow> In_Progress | Some (st, b) \<Rightarrow> Replayed st b))"

definition spec_store :: "int \<Rightarrow> time \<Rightarrow> slot \<Rightarrow> string \<Rightarrow> (slot \<rightharpoonup> entry) \<Rightarrow> (slot \<rightharpoonup> entry)" where
  "spec_store window t s fp m =
     (if spec_verdict t s fp m = Reserved
      then m(s \<mapsto> \<lparr>en_hash = fp, en_expires = t + window, en_response = None\<rparr>) else m)"

fun verdict_of :: "api_error + outcome \<Rightarrow> verdict" where
  "verdict_of (Inr (Reservation rid)) = Reserved"
| "verdict_of (Inr (Replay st b)) = Replayed st b"
| "verdict_of (Inl e) =
     (if err_code e = ''INVALID_IDEMPOTENCY_KEY'' then Invalid_Key
      else if err_code e = ''IDEMPOTENCY_CONFLICT'' then Conflict else In_Progress)"

lemma reserve_verdict:
  "verdict_of (fst (reserve_or_replay window t rid s fp rows)) = spec_verdict t s fp (store_of rows)"
  by (simp add: reserve_or_replay_def spec_verdict_def store_of_def entry_of_def
      split: option.splits)

lemma reserve_reservedD:
  assumes "reserve_or_replay window t rid s fp rows = (Inr (Reservation rsv), rows')"
    and "idem_ok rows" "rid \<notin> ir_id ` set rows"
  shows "idem_ok rows'" "ir_id ` set rows' \<subseteq> insert rid (ir_id ` set rows)"
    "\<exists>r. find_slot rows' s = Some r \<and> ir_id r = rsv \<and> ir_response_body r = None
       \<and> ir_request_hash r = fp \<and> ir_expires_at r = t + window"
    "s' \<noteq> s \<Longrightarrow> find_slot rows' s' = find_slot rows s'"
    "\<forall>x. find_slot rows s = Some x \<longrightarrow> ir_expires_at x \<le> t"
proof -
  consider (fresh) "find_slot rows s = None" "rsv = rid"
      "rows' = rows @ [new_row window t rid s fp]"
    | (reuse) ex where "find_slot rows s = Some ex" "ir_expires_at ex \<le> t" "rsv = ir_id ex"
      "rows' = modify_where (\<lambda>r. ir_id r = ir_id ex) (reuse_row window t fp) rows"
    using assms(1)
    by (auto simp: reserve_or_replay_def split: option.splits if_splits)
  then have "idem_ok rows' \<and> ir_id ` set rows' \<subseteq> insert rid (ir_id ` set rows)
    \<and> (\<exists>r. find_slot rows' s = Some r \<and> ir_id r = rsv \<and> ir_response_body r = None
       \<and> ir_request_hash r = fp \<and> ir_expires_at r = t + window)
    \<and> (s' \<noteq> s \<longrightarrow> find_slot rows' s' = find_slot rows s')
    \<and> (\<forall>x. find_slot rows s = Some x \<longrightarrow> ir_expires_at x \<le> t)"
  proof cases
    case fresh
    have "\<forall>r \<in> set rows. slot_of r \<noteq> s"
      using fresh(1) by (simp add: find_slot_def find_None_iff)
    with fresh assms(2,3) show ?thesis
      by (auto simp: idem_ok_def find_slot_def find_append new_row_def slot_of_def
          split: option.splits)
  next
    case reuse
    have same: "slot_of r = s" if "r \<in> set rows" "ir_id r = ir_id ex" for r
      using same_id_same_row [OF assms(2) that(1) _ that(2)] find_slot_Some [OF reuse(1)] by simp
    have other: "map_option (\<lambda>r. if ir_id r = ir_id ex then reuse_row window t fp r else r)
        (find_slot rows s') = find_slot rows s'" if "s' \<noteq> s"
      using that find_slot_Some [of rows s'] same
      by (cases "find_slot rows s'") auto
    have "ir_id ` set rows' = ir_id ` set rows"
      using reuse.keys [of "\<lambda>r. ir_id r = ir_id ex" window t fp rows]
      unfolding reuse(4) by (metis list.set_map)
    moreover have "find_slot rows' s' = find_slot rows s'" if "s' \<noteq> s"
      using other [OF that] unfolding reuse(4) by (simp add: find_slot_reuse)
    moreover have "find_slot rows' s = Some (reuse_row window t fp ex)"
      unfolding reuse(4) by (simp add: find_slot_reuse reuse(1))
    moreover have "idem_ok rows'"
      using assms(2) unfolding reuse(4) by (simp add: idem_ok_def reuse.keys reuse_slot.keys)
    ultimately show ?thesis
      using reuse(1-3) by (auto simp: reuse_row_def)
  qed
  then show "idem_ok rows'" "ir_id ` set rows' \<subseteq> insert rid (ir_id ` set rows)"
    "\<exists>r. find_slot rows' s = Some r \<and> ir_id r = rsv \<and> ir_response_body r = None
       \<and> ir_request_hash r = fp \<and> ir_expires_at r = t + window"
    "s' \<noteq> s \<Longrightarrow> find_slot rows' s' = find_slot rows s'"
    "\<forall>x. find_slot rows s = Some x \<longrightarrow> ir_expires_at x \<le> t"
    by blast+
qed

lemma reserve_not_reservedD:
  assumes "reserve_or_replay window t rid s fp rows = (res, rows')"
    and "\<And>rsv. res \<noteq> Inr (Reservation rsv)"
  shows "rows' = rows"
  using assms by (auto simp: reserve_or_replay_def split: option.splits if_splits)

section \<open>One call, seen from its slot\<close>

definition slot_of_request :: "idem_config \<Rightarrow> request \<Rightarrow> slot option" where
  "slot_of_request cfg rq =
     (case rq_idempotency_key rq of None \<Rightarrow> None
      | Some key \<Rightarrow>
          if \<not> idempotency_eligible (rq_method rq) (rq_path rq) then None
          else map_option (\<lambda>a. (a, upper (rq_method rq) @ '':'' @ rq_path rq, key))
                 (request_actor_key (cfg_jwt cfg) rq))"

lemma call_not_covered:
  "slot_of_request cfg rq = None \<Longrightarrow>
     call_with_idempotency cfg flt t rid rq call_next (rows, w) =
       (pass_through (fst (call_next w)), rows, snd (call_next w))"
  by (auto simp: call_with_idempotency_def slot_of_request_def Let_def
      split: option.splits if_splits prod.splits)

lemma call_covered:
  "slot_of_request cfg rq = Some s \<Longrightarrow>
     call_with_idempotency cfg flt t rid rq call_next (rows, w) =
       (if valid_key (snd (snd s)) \<and> reserve_fails flt
        then (Failed (ApiError 503 ''IDEMPOTENCY_UNAVAILABLE''), rows, w)
        else (case reserve_or_replay (cfg_window cfg) t rid s (fingerprint_of cfg rq) rows of
            (Inl err, rows') \<Rightarrow> (Failed err, rows', w)
          | (Inr (Replay code body), rows') \<Rightarrow>
              (replay_response (cfg_dumps cfg) code body, rows', w)
          | (Inr (Reservation rsv), rows') \<Rightarrow> run_reserved cfg flt rsv call_next rows' w))"
  by (auto simp: call_with_idempotency_def slot_of_request_def Let_def
      split: option.splits if_splits)

text \<open>A reservation only ever touches its own record.\<close>

lemma run_reserved_table:
  assumes "idem_ok rows"
    and "run_reserved cfg flt rsv call_next rows w = (ans, rows', w')"
  shows "idem_ok rows'" "ir_id ` set rows' \<subseteq> ir_id ` set rows"
    "find_slot rows s = Some r \<Longrightarrow> ir_id r \<noteq> rsv \<Longrightarrow> find_slot rows' s = Some r"
proof -
  have cases: "rows' = rows \<or> rows' = release_reservation rsv rows
      \<or> (\<exists>st b. rows' = finish_reservation rsv st b rows)"
    using assms(2)
    by (auto simp: run_reserved_def safe_release_def Let_def
        split: prod.splits call_result.splits option.splits if_splits)
  then show "idem_ok rows'" using assms(1) by (auto simp: idem_ok_finish idem_ok_release)
  show "ir_id ` set rows' \<subseteq> ir_id ` set rows"
    using cases ids_release [of rsv rows] ids_finish [of rsv _ _ rows] by (metis order_refl)
  have "distinct (map slot_of rows)" using assms(1) by (simp add: idem_ok_def)
  then show "find_slot rows s = Some r \<Longrightarrow> ir_id r \<noteq> rsv \<Longrightarrow> find_slot rows' s = Some r"
    using cases by (auto simp: find_slot_release find_slot_finish)
qed

definition completed ::
    "idem_row list \<Rightarrow> slot \<Rightarrow> string \<Rightarrow> int \<Rightarrow> json \<Rightarrow> time \<Rightarrow> bool" where
  "completed rows s fp st b expires \<longleftrightarrow>
     (\<exists>r. find_slot rows s = Some r \<and> ir_request_hash r = fp \<and> ir_response_status r = st
        \<and> ir_response_body r = Some b \<and> ir_expires_at r = expires)"

lemma completed_replays:
  "completed rows s fp st b expires \<Longrightarrow> t < expires \<Longrightarrow> valid_key (snd (snd s)) \<Longrightarrow>
     reserve_or_replay window t rid s fp rows = (Inr (Replay st b), rows)"
  by (auto simp: completed_def reserve_or_replay_def)

lemma completed_call:
  assumes "idem_ok rows" "rid \<notin> ir_id ` set rows" "t < expires"
    and compl: "completed rows s fp st b expires"
    and call: "call_with_idempotency cfg flt t rid rq call_next (rows, w) = (ans, rows', w')"
  shows "idem_ok rows' \<and> ir_id ` set rows' \<subseteq> insert rid (ir_id ` set rows)
     \<and> completed rows' s fp st b expires"
proof (cases "slot_of_request cfg rq")
  case None
  with assms show ?thesis by (auto simp: call_not_covered)
next
  case (Some s')
  let ?fp = "fingerprint_of cfg rq"
  obtain res rows1 where
    res: "reserve_or_replay (cfg_window cfg) t rid s' ?fp rows = (res, rows1)"
    by fastforce
  show ?thesis
  proof (cases "\<exists>rsv. res = Inr (Reservation rsv) \<and> \<not> (valid_key (snd (snd s')) \<and> reserve_fails flt)")
    case False
    then have "rows' = rows"
      using call reserve_not_reservedD [OF res]
      by (auto simp: call_covered [OF Some] res split: sum.splits outcome.splits if_splits)
    with assms show ?thesis by auto
  next
    case True
    then obtain rsv where rsv: "res = Inr (Reservation rsv)"
      and go: "\<not> (valid_key (snd (snd s')) \<and> reserve_fails flt)" by auto
    note d = reserve_reservedD [OF res [unfolded rsv] assms(1,2)]
    have run: "run_reserved cfg flt rsv call_next rows1 w = (ans, rows', w')"
      using call go by (simp add: call_covered [OF Some] res rsv)
    from compl obtain r where r: "find_slot rows s = Some r" "ir_expires_at r = expires"
      by (auto simp: completed_def)
    have ne: "s \<noteq> s'" using d(5) r assms(3) by auto
    then have r1: "find_slot rows1 s = Some r" using d(4) r by metis
    obtain r' where r': "find_slot rows1 s' = Some r'" "ir_id r' = rsv" using d(3) by auto
    have "ir_id r \<noteq> rsv"
      using same_id_same_row [OF d(1), of r r'] find_slot_Some [OF r1] find_slot_Some [OF r'(1)]
        ne r'(2) by auto
    with run_reserved_table [OF d(1) run] r1 d(2) compl r show ?thesis
      by (auto simp: completed_def)
  qed
qed

section \<open>Runs of calls, one after the other\<close>

fun run_calls ::
    "idem_config \<Rightarrow> (request \<Rightarrow> 'w \<Rightarrow> call_result \<times> 'w) \<Rightarrow> (faults \<times> time \<times> ident \<times> request) list
      \<Rightarrow> idem_row list \<times> 'w \<Rightarrow> idem_row list \<times> 'w" where
  "run_calls cfg app [] st = st"
| "run_calls cfg app ((flt, t, rid, rq) # xs) st =
     run_calls cfg app xs (snd (call_with_idempotency cfg flt t rid rq (app rq) st))"

definition call_ids :: "(faults \<times> time \<times> ident \<times> request) list \<Rightarrow> ident list" where
  "call_ids xs = map (\<lambda>(flt, t, rid, rq). rid) xs"

lemma completed_run:
  assumes "idem_ok rows" "completed rows s fp st b expires"
    and "distinct (call_ids xs)" "set (call_ids xs) \<inter> ir_id ` set rows = {}"
    and "\<forall>(flt, t, rid, rq) \<in> set xs. t < expires"
  shows "completed (fst (run_calls cfg app xs (rows, w))) s fp st b expires"
  using assms
proof (induction xs arbitrary: rows w)
  case Nil
  then show ?case by simp
next
  case (Cons x xs)
  obtain flt t rid rq where x: "x = (flt, t, rid, rq)" by (cases x)
  obtain ans rows1 w1 where
    c: "call_with_idempotency cfg flt t rid rq (app rq) (rows, w) = (ans, rows1, w1)"
    by (metis surj_pair)
  have step: "idem_ok rows1 \<and> ir_id ` set rows1 \<subseteq> insert rid (ir_id ` set rows)
      \<and> completed rows1 s fp st b expires"
    using Cons.prems by (intro completed_call [OF _ _ _ _ c]) (auto simp: x call_ids_def)
  have "set (call_ids xs) \<inter> insert rid (ir_id ` set rows) = {}"
    using Cons.prems(3,4) by (auto simp: x call_ids_def)
  with step have "set (call_ids xs) \<inter> ir_id ` set rows1 = {}" by blast
  with step have "completed (fst (run_calls cfg app xs (rows1, w1))) s fp st b expires"
    using Cons.prems by (intro Cons.IH) (auto simp: x call_ids_def)
  then show ?case by (simp add: x c)
qed

section \<open>Properties\<close>

text \<open>
  C10. The table implements the abstract store of idempotency slots: the decision of
  \<open>_reserve_or_replay\<close> is the store's (invalid key, conflict, in progress, replay or a new
  reservation, in this order of checks), the store changes only by a new or expired slot
  being taken, and primary keys and slots stay unique.
\<close>

theorem reserve_refines_store:
  assumes "idem_ok rows" "rid \<notin> ir_id ` set rows"
  shows "verdict_of (fst (reserve_or_replay window t rid s fp rows))
           = spec_verdict t s fp (store_of rows)
       \<and> store_of (snd (reserve_or_replay window t rid s fp rows))
           = spec_store window t s fp (store_of rows)
       \<and> idem_ok (snd (reserve_or_replay window t rid s fp rows))"
proof -
  obtain res rows' where
    res: "reserve_or_replay window t rid s fp rows = (res, rows')" by fastforce
  have v: "verdict_of res = spec_verdict t s fp (store_of rows)"
    using reserve_verdict [of window t rid s fp rows] by (simp add: res)
  show ?thesis
  proof (cases "\<exists>rsv. res = Inr (Reservation rsv)")
    case True
    then obtain rsv where rsv: "res = Inr (Reservation rsv)" ..
    note d = reserve_reservedD [OF res [unfolded rsv] assms]
    obtain r where r: "find_slot rows' s = Some r" "ir_response_body r = None"
      "ir_request_hash r = fp" "ir_expires_at r = t + window" using d(3) by auto
    have "store_of rows' s' = spec_store window t s fp (store_of rows) s'" for s'
      using v rsv r d(4) [of s']
      by (cases "s' = s") (auto simp: spec_store_def store_of_def entry_of_def)
    then have "store_of rows' = spec_store window t s fp (store_of rows)" ..
    with v d(1) show ?thesis by (simp add: res)
  next
    case False
    have "verdict_of res \<noteq> Reserved"
      using False by (cases res rule: verdict_of.cases) auto
    with v False reserve_not_reservedD [OF res] assms(1) show ?thesis
      by (auto simp: res spec_store_def)
  qed
qed

theorem reserve_refines_store_witness:
  "store_of (snd (reserve_or_replay 10 0 ''x'' (''a'', ''r'', ''k'') ''h'' [])) (''a'', ''r'', ''k'')
     = Some \<lparr>en_hash = ''h'', en_expires = 10, en_response = None\<rparr>"
proof -
  have "idem_ok []" "''x'' \<notin> ir_id ` set []" by (simp_all add: idem_ok_def)
  from reserve_refines_store [OF this, of 10 0 "(''a'', ''r'', ''k'')" "''h''"]
  show ?thesis
    by (simp add: spec_store_def spec_verdict_def valid_key_def store_of_def find_slot_def)
qed

text \<open>
  C11. Exactly once: when the first request with a key is answered with a 2xx JSON object,
  the application is not run again for that key. Whatever other requests are served in
  between within the window (failing ones, other keys, database faults included), the same
  request is answered with the recorded status and body, and neither the table nor the
  world behind the application changes.
\<close>

theorem exactly_once_within_window:
  assumes "idem_ok rows" "rid \<notin> ir_id ` set rows"
    and slot: "slot_of_request cfg rq = Some s" and key: "valid_key (snd (snd s))"
    and unused: "find_slot rows s = None"
    and app: "app rq w = (Call_Returned st (Some b), w1)"
    and ok: "200 \<le> st" "st < 300" "st \<noteq> 204" "cfg_loads cfg b = Some v" "is_dict v"
    and faults: "\<not> reserve_fails flt" "\<not> finish_fails flt" "\<not> reserve_fails flt'"
    and others: "distinct (call_ids xs)" "set (call_ids xs) \<inter> insert rid (ir_id ` set rows) = {}"
    and window: "\<forall>(flt, t', rid, rq) \<in> set xs. t' < t + cfg_window cfg" "t' < t + cfg_window cfg"
    and again: "slot_of_request cfg rq' = Some s" "fingerprint_of cfg rq' = fingerprint_of cfg rq"
  shows "\<exists>rows1. call_with_idempotency cfg flt t rid rq (app rq) (rows, w) = (Answer st b, rows1, w1)
     \<and> (let st2 = run_calls cfg app xs (rows1, w1) in
        call_with_idempotency cfg flt' t' rid' rq' (app rq') st2 = (Answer st (cfg_dumps cfg v), st2))"
proof -
  let ?fp = "fingerprint_of cfg rq"
  let ?row = "new_row (cfg_window cfg) t rid s ?fp"
  let ?rows1 = "finish_reservation rid st v (rows @ [?row])"
  have res: "reserve_or_replay (cfg_window cfg) t rid s ?fp rows
      = (Inr (Reservation rid), rows @ [?row])"
    using unused key by (simp add: reserve_or_replay_def)
  note d = reserve_reservedD [OF res assms(1,2)]
  have first: "call_with_idempotency cfg flt t rid rq (app rq) (rows, w) = (Answer st b, ?rows1, w1)"
    using faults ok app by (simp add: call_covered [OF slot] res run_reserved_def)
  have "find_slot (rows @ [?row]) s = Some ?row"
    using unused by (simp add: find_slot_def find_append)
  then have found: "find_slot ?rows1 s = Some (finish_row st v ?row)"
    by (simp add: find_slot_finish)
  have comp: "completed ?rows1 s ?fp st v (t + cfg_window cfg)"
    unfolding completed_def found by (simp add: finish_row_def new_row_def)
  have ids: "ir_id ` set ?rows1 = insert rid (ir_id ` set rows)"
    by (simp add: ids_finish)
  obtain rows2 w2 where run: "run_calls cfg app xs (?rows1, w1) = (rows2, w2)" by fastforce
  have "completed (fst (run_calls cfg app xs (?rows1, w1))) s ?fp st v (t + cfg_window cfg)"
    by (rule completed_run [OF idem_ok_finish [OF d(1)] comp others(1) _ window(1)])
      (simp only: ids others(2))
  then have "reserve_or_replay (cfg_window cfg) t' rid' s ?fp rows2 = (Inr (Replay st v), rows2)"
    using completed_replays window(2) key by (simp add: run)
  then have "call_with_idempotency cfg flt' t' rid' rq' (app rq') (rows2, w2)
      = (Answer st (cfg_dumps cfg v), rows2, w2)"
    using faults(3) ok(3) again(2)
    by (simp add: call_covered [OF again(1)] replay_response_def)
  with first run show ?thesis by (auto simp: Let_def)
qed

text \<open>A request and an application for the witnesses: every call creates one more resource.\<close>

definition demo_config :: idem_config where
  "demo_config = \<lparr>cfg_window = 10, cfg_hash = (\<lambda>_. ''h''), cfg_loads = (\<lambda>_. Some (JObj [])),
     cfg_dumps = (\<lambda>_. ''{}''), cfg_sha256 = (\<lambda>s. s),
     cfg_jwt = (\<lambda>_. Some (JObj [(''typ'', JStr ''access''), (''subject_type'', JStr ''account''),
                                    (''sub'', JStr ''u1'')]))\<rparr>"

definition demo_request :: request where
  "demo_request = \<lparr>rq_method = ''post'', rq_path = ''/api/v1/conflicts'',
     rq_idempotency_key = Some ''k1'', rq_authorization = Some ''Bearer tok'',
     rq_client_host = None, rq_incident_header = None,
     rq_content_type = ''application/json'', rq_body = ''{}''\<rparr>"

definition demo_app :: "request \<Rightarrow> nat \<Rightarrow> call_result \<times> nat" where
  "demo_app rq w = (Call_Returned 201 (Some ''{}''), Suc w)"

definition no_faults :: faults where
  "no_faults = \<lparr>reserve_fails = False, finish_fails = False, release_fails = False\<rparr>"

lemma demo_slot:
  "slot_of_request demo_config demo_request
     = Some (''account:u1'', ''POST:/api/v1/conflicts'', ''k1'')"
  by code_simp

theorem exactly_once_within_window_witness:
  "\<exists>rows1. call_with_idempotency demo_config no_faults 0 ''a'' demo_request
       (demo_app demo_request) ([], 0) = (Answer 201 ''{}'', rows1, 1)
     \<and> call_with_idempotency demo_config no_faults 9 ''b'' demo_request
       (demo_app demo_request) (rows1, 1) = (Answer 201 ''{}'', rows1, 1)"
proof -
  have "\<exists>rows1. call_with_idempotency demo_config no_faults 0 ''a'' demo_request
       (demo_app demo_request) ([], 0) = (Answer 201 ''{}'', rows1, Suc 0)
     \<and> (let st2 = run_calls demo_config demo_app [] (rows1, Suc 0) in
        call_with_idempotency demo_config no_faults 9 ''b'' demo_request
          (demo_app demo_request) st2 = (Answer 201 (cfg_dumps demo_config (JObj [])), st2))"
    by (rule exactly_once_within_window [where rq = demo_request, OF _ _ demo_slot])
      (simp_all add: idem_ok_def valid_key_def find_slot_def demo_app_def demo_config_def
        no_faults_def call_ids_def demo_slot [unfolded demo_config_def])
  moreover have "cfg_dumps demo_config (JObj []) = ''{}''" by (simp add: demo_config_def)
  ultimately show ?thesis by (simp add: Let_def)
qed

section \<open>Requests in flight at the same time\<close>

text \<open>
  The interleaved view: the reservation, the run of the application and the end of a call are
  separate steps, so several calls may be in flight.  \<open>Begin\<close> is a call that got a
  reservation, \<open>Finish\<close> and \<open>Release\<close> are its two ends.  The one assumption is that a call ends
  before its reservation expires (24 hours): a step is only taken while that is so.
\<close>

record idem_system =
  sys_rows :: "idem_row list"
  sys_flying :: "(ident \<times> slot \<times> time) list"

definition timely :: "int \<Rightarrow> time \<Rightarrow> idem_system \<Rightarrow> bool" where
  "timely window t sys \<longleftrightarrow> (\<forall>(rid, s, began) \<in> set (sys_flying sys). t < began + window)"

inductive idem_step :: "int \<Rightarrow> idem_system \<Rightarrow> idem_system \<Rightarrow> bool" for window where
  Begin: "timely window t sys \<Longrightarrow> rid \<notin> ir_id ` set (sys_rows sys)
    \<Longrightarrow> reserve_or_replay window t rid s fp (sys_rows sys) = (Inr (Reservation rsv), rows')
    \<Longrightarrow> idem_step window sys \<lparr>sys_rows = rows', sys_flying = (rsv, s, t) # sys_flying sys\<rparr>"
| Finish: "timely window t sys \<Longrightarrow> (rsv, s, began) \<in> set (sys_flying sys)
    \<Longrightarrow> idem_step window sys \<lparr>sys_rows = finish_reservation rsv st b (sys_rows sys),
          sys_flying = filter (\<lambda>(i, _, _). i \<noteq> rsv) (sys_flying sys)\<rparr>"
| Release: "timely window t sys \<Longrightarrow> (rsv, s, began) \<in> set (sys_flying sys)
    \<Longrightarrow> idem_step window sys \<lparr>sys_rows = release_reservation rsv (sys_rows sys),
          sys_flying = filter (\<lambda>(i, _, _). i \<noteq> rsv) (sys_flying sys)\<rparr>"

inductive idem_reachable :: "int \<Rightarrow> idem_system \<Rightarrow> bool" for window where
  start: "idem_reachable window \<lparr>sys_rows = [], sys_flying = []\<rparr>"
| step: "idem_reachable window sys \<Longrightarrow> idem_step window sys sys' \<Longrightarrow> idem_reachable window sys'"

text \<open>Every call in flight holds the unfinished record of its slot, and slots are distinct.\<close>

definition flight_ok :: "int \<Rightarrow> idem_system \<Rightarrow> bool" where
  "flight_ok window sys \<longleftrightarrow> idem_ok (sys_rows sys)
     \<and> distinct (map (\<lambda>(i, s, b). s) (sys_flying sys))
     \<and> (\<forall>(rsv, s, began) \<in> set (sys_flying sys). \<exists>r. find_slot (sys_rows sys) s = Some r
          \<and> ir_id r = rsv \<and> ir_response_body r = None \<and> ir_expires_at r = began + window)"

lemma flight_okD:
  assumes "flight_ok window sys" "(rsv, s, began) \<in> set (sys_flying sys)"
  obtains r where "find_slot (sys_rows sys) s = Some r" "ir_id r = rsv"
    "ir_response_body r = None" "ir_expires_at r = began + window"
proof -
  have "\<forall>x \<in> set (sys_flying sys). case x of (rsv, s, began) \<Rightarrow>
      \<exists>r. find_slot (sys_rows sys) s = Some r \<and> ir_id r = rsv
        \<and> ir_response_body r = None \<and> ir_expires_at r = began + window"
    using assms(1) by (simp add: flight_ok_def)
  from bspec [OF this assms(2)] show ?thesis using that by auto
qed

lemma flight_ok_end:
  assumes ok: "flight_ok window sys" and fly: "(rsv, s, began) \<in> set (sys_flying sys)"
    and rows: "rows' = finish_reservation rsv st b (sys_rows sys)
      \<or> rows' = release_reservation rsv (sys_rows sys)"
  shows "flight_ok window \<lparr>sys_rows = rows',
    sys_flying = filter (\<lambda>(i, _, _). i \<noteq> rsv) (sys_flying sys)\<rparr>"
proof -
  have idem: "idem_ok (sys_rows sys)" and slots: "distinct (map slot_of (sys_rows sys))"
    using ok by (simp_all add: flight_ok_def idem_ok_def)
  have keep: "find_slot rows' s' = Some r" if "find_slot (sys_rows sys) s' = Some r" "ir_id r \<noteq> rsv"
    for s' r
    using rows that by (auto simp: find_slot_finish find_slot_release [OF slots])
  have "idem_ok rows'" using rows idem by (auto simp: idem_ok_finish idem_ok_release)
  moreover have "distinct (map (\<lambda>(i, s, b). s)
      (filter (\<lambda>(i, _, _). i \<noteq> rsv) (sys_flying sys)))"
    using ok by (simp add: flight_ok_def distinct_map_filter)
  ultimately show ?thesis
    using ok keep by (fastforce simp: flight_ok_def)
qed

lemma flight_ok_step: "idem_step window sys sys' \<Longrightarrow> flight_ok window sys \<Longrightarrow> flight_ok window sys'"
proof (induction rule: idem_step.induct)
  case (Begin t sys rid s fp rsv rows')
  have idem: "idem_ok (sys_rows sys)" using Begin.prems by (simp add: flight_ok_def)
  note d = reserve_reservedD [OF Begin.hyps(3) idem Begin.hyps(2)]
  have free: "s' \<noteq> s" if fly: "(i, s', b) \<in> set (sys_flying sys)" for i s' b
  proof
    assume "s' = s"
    then obtain r where "find_slot (sys_rows sys) s = Some r" "ir_expires_at r = b + window"
      using Begin.prems fly by (fastforce simp: flight_ok_def)
    then show False using d(5) Begin.hyps(1) fly by (force simp: timely_def)
  qed
  have "find_slot rows' s' = find_slot (sys_rows sys) s'"
    if "(i, s', b) \<in> set (sys_flying sys)" for i s' b
    by (rule d(4) [OF free [OF that]])
  with d(1,3) Begin.prems free show ?case by (fastforce simp: flight_ok_def)
qed (auto intro: flight_ok_end)

lemma flight_ok_reachable: "idem_reachable window sys \<Longrightarrow> flight_ok window sys"
proof (induction rule: idem_reachable.induct)
  case start
  show ?case by (simp add: flight_ok_def idem_ok_def)
next
  case (step sys sys')
  then show ?case by (blast intro: flight_ok_step)
qed

text \<open>
  C12. No two calls with the same actor, route and key run the application at the same time:
  in every reachable state of the interleaved system the calls in flight have different
  slots, and a new call for a slot in flight is refused with \<open>409 IDEMPOTENCY_IN_PROGRESS\<close>
  or \<open>409 IDEMPOTENCY_CONFLICT\<close>.
\<close>

theorem one_flight_per_key:
  assumes "idem_reachable window sys"
  shows "distinct (map (\<lambda>(rsv, s, began). s) (sys_flying sys))
    \<and> (\<forall>rsv s began t rid fp. (rsv, s, began) \<in> set (sys_flying sys) \<longrightarrow> t < began + window
        \<longrightarrow> valid_key (snd (snd s))
        \<longrightarrow> reserve_or_replay window t rid s fp (sys_rows sys)
          \<in> {(Inl (ApiError 409 ''IDEMPOTENCY_IN_PROGRESS''), sys_rows sys),
             (Inl (ApiError 409 ''IDEMPOTENCY_CONFLICT''), sys_rows sys)})"
proof (intro conjI allI impI)
  have ok: "flight_ok window sys" by (rule flight_ok_reachable [OF assms])
  then show "distinct (map (\<lambda>(rsv, s, began). s) (sys_flying sys))" by (simp add: flight_ok_def)
  fix rsv s began t rid fp
  assume "(rsv, s, began) \<in> set (sys_flying sys)" "t < began + window" "valid_key (snd (snd s))"
  with ok show "reserve_or_replay window t rid s fp (sys_rows sys)
        \<in> {(Inl (ApiError 409 ''IDEMPOTENCY_IN_PROGRESS''), sys_rows sys),
           (Inl (ApiError 409 ''IDEMPOTENCY_CONFLICT''), sys_rows sys)}"
    by (fastforce simp: flight_ok_def reserve_or_replay_def)
qed

theorem one_flight_per_key_witness:
  "\<exists>sys. idem_reachable 10 sys \<and> sys_flying sys \<noteq> []
     \<and> distinct (map (\<lambda>(rsv, s, began). s) (sys_flying sys))"
proof -
  let ?s = "(''a'', ''r'', ''k'')"
  have "reserve_or_replay 10 0 ''x'' ?s ''h'' [] =
      (Inr (Reservation ''x''), [new_row 10 0 ''x'' ?s ''h''])"
    by (simp add: reserve_or_replay_def find_slot_def valid_key_def)
  then have "idem_step 10 \<lparr>sys_rows = [], sys_flying = []\<rparr>
      \<lparr>sys_rows = [new_row 10 0 ''x'' ?s ''h''], sys_flying = [(''x'', ?s, 0)]\<rparr>"
    using idem_step.Begin [of 10 0 "\<lparr>sys_rows = [], sys_flying = []\<rparr>" "''x''" ?s "''h''"]
    by (simp add: timely_def)
  then have "idem_reachable 10
      \<lparr>sys_rows = [new_row 10 0 ''x'' ?s ''h''], sys_flying = [(''x'', ?s, 0)]\<rparr>"
    by (rule idem_reachable.step [OF idem_reachable.start])
  from this one_flight_per_key [OF this, THEN conjunct1] show ?thesis by force
qed

end
