(* ===== verification/RateLimit.thy ===== *)
theory RateLimit
  imports Idempotency
begin

text \<open>
  The in-process rate limiter of \<open>middleware.py\<close>: \<open>_RateLimiter.check\<close> keeps, per key, the
  times of the accepted requests of the last 60 seconds, and \<open>_rate_limit_rule\<close> chooses the
  key and the limit of a request.  Times are the readings of \<open>time.monotonic()\<close> in seconds.
\<close>

section \<open>The sliding window\<close>

type_synonym limiter = "string \<Rightarrow> rat list"

datatype limit_result = Allowed | Retry_After int | Index_Error

definition evict :: "rat \<Rightarrow> rat list \<Rightarrow> rat list" where
  "evict cutoff entries = dropWhile (\<lambda>t. t \<le> cutoff) entries"

text \<open>\<open>int(q)\<close> rounds towards zero.\<close>

definition trunc :: "rat \<Rightarrow> int" where
  "trunc q = (if 0 \<le> q then \<lfloor>q\<rfloor> else \<lceil>q\<rceil>)"

definition rate_check :: "rat \<Rightarrow> string \<Rightarrow> int \<Rightarrow> limiter \<Rightarrow> limit_result \<times> limiter" where
  "rate_check t key limit lm =
     (let entries = evict (t - 60) (lm key) in
      if int (length entries) \<ge> limit
      then (case entries of
          [] \<Rightarrow> (Index_Error, lm(key := entries))
        | oldest # _ \<Rightarrow> (Retry_After (max 1 (trunc (60 - (t - oldest)))), lm(key := entries)))
      else (Allowed, lm(key := entries @ [t])))"

section \<open>Which limit applies\<close>

record limits =
  rate_limit_enabled :: bool
  anonymous_sessions_per_minute :: int
  report_creates_per_minute :: int
  report_updates_per_minute :: int
  ai_refinements_per_minute :: int
  ai_briefs_per_minute :: int

definition rate_limit_rule ::
    "limits \<Rightarrow> (string \<Rightarrow> json option) \<Rightarrow> request \<Rightarrow> (string \<times> int) option" where
  "rate_limit_rule cfg jwt rq =
     (if \<not> rate_limit_enabled cfg then None
      else
        let rm = upper (rq_method rq);
            path = rq_path rq;
            actr = request_actor_key jwt rq;
            client_host = (case rq_client_host rq of None \<Rightarrow> ''unknown'' | Some h \<Rightarrow> h);
            incident = (case rq_incident_header rq of None \<Rightarrow> ''none'' | Some i \<Rightarrow> i);
            scoped = (\<lambda>rule a. rule @ '':'' @ a @ '':'' @ incident)
        in if rm = ''POST'' \<and> path \<in> {''/api/v1/anonymous-sessions'',
                                           ''/api/v1/resident-device-sessions''}
           then Some (''anonymous_session:ip:'' @ client_host, anonymous_sessions_per_minute cfg)
           else (case actr of None \<Rightarrow> None
             | Some a \<Rightarrow>
                 if rm = ''POST'' \<and> path_matches report_create_path path
                 then Some (scoped ''report_create'' a, report_creates_per_minute cfg)
                 else if rm = ''PATCH'' \<and> path_matches report_resource_path path
                 then Some (scoped ''report_update'' a, report_updates_per_minute cfg)
                 else if rm = ''POST'' \<and> path = ''/api/v1/ai/report-refinements''
                 then Some (scoped ''ai_refinement'' a, ai_refinements_per_minute cfg)
                 else if rm = ''POST'' \<and> path_matches ai_brief_path path
                 then Some (scoped ''ai_brief'' a, ai_briefs_per_minute cfg)
                 else None))"

section \<open>Lemmas on one key\<close>

lemma evict_suffix: "\<exists>pre. es = pre @ evict c es \<and> (\<forall>x \<in> set pre. x \<le> c)"
  unfolding evict_def
  by (metis set_takeWhileD takeWhile_dropWhile_id)

lemma evict_sorted: "sorted es \<Longrightarrow> evict c es = filter (\<lambda>x. c < x) es"
proof (induction es)
  case Nil
  then show ?case by (simp add: evict_def)
next
  case (Cons x es)
  show ?case
  proof (cases "x \<le> c")
    case True
    with Cons show ?thesis by (simp add: evict_def)
  next
    case False
    with Cons.prems have "\<forall>y \<in> set (x # es). c < y" by force
    then have "filter (\<lambda>y. c < y) (x # es) = x # es" by (simp only: filter_id_conv)
    with False show ?thesis by (simp only: evict_def dropWhile.simps if_False)
  qed
qed

text \<open>
  A history of checks of one key: the times at which it was called, in order, and the times
  it accepted.
\<close>

fun accepted :: "string \<Rightarrow> int \<Rightarrow> rat list \<Rightarrow> limiter \<Rightarrow> rat list \<times> limiter" where
  "accepted key limit [] lm = ([], lm)"
| "accepted key limit (t # ts) lm =
     (case rate_check t key limit lm of
        (Allowed, lm') \<Rightarrow> (let r = accepted key limit ts lm' in (t # fst r, snd r))
      | (_, lm') \<Rightarrow> accepted key limit ts lm')"

text \<open>The invariant: the entries are the accepted times that are younger than a minute.\<close>

definition window_inv :: "rat list \<Rightarrow> rat \<Rightarrow> int \<Rightarrow> rat list \<Rightarrow> bool" where
  "window_inv past t limit entries \<longleftrightarrow> sorted past \<and> (\<forall>x \<in> set past. x \<le> t)
     \<and> filter (\<lambda>x. t - 60 < x) past = filter (\<lambda>x. t - 60 < x) entries
     \<and> sorted entries \<and> (\<forall>x \<in> set entries. x \<le> t) \<and> int (length entries) \<le> limit"

lemma filter_later:
  fixes c d :: rat
  assumes "c \<le> d" "filter (\<lambda>x. c < x) xs = filter (\<lambda>x. c < x) ys"
  shows "filter (\<lambda>x. d < x) xs = filter (\<lambda>x. d < x) ys"
proof -
  have "filter (\<lambda>x. d < x) zs = filter (\<lambda>x. d < x) (filter (\<lambda>x. c < x) zs)" for zs
    using assms(1) by (auto intro: filter_cong)
  with assms(2) show ?thesis by metis
qed

lemma window_inv_check:
  assumes inv: "window_inv past t0 limit (lm key)" and "t0 \<le> t"
    and chk: "rate_check t key limit lm = (res, lm')"
  shows "window_inv (if res = Allowed then past @ [t] else past) t limit (lm' key)"
proof -
  let ?es = "evict (t - 60) (lm key)"
  note i = inv [unfolded window_inv_def]
  have es: "?es = filter (\<lambda>x. t - 60 < x) (lm key)"
    by (rule evict_sorted) (use i in blast)
  have same: "filter (\<lambda>x. t - 60 < x) past = filter (\<lambda>x. t - 60 < x) (lm key)"
    by (rule filter_later [of "t0 - 60"]) (use assms(2) in simp, use i in blast)
  have past: "sorted past" "\<forall>x \<in> set past. x \<le> t"
    using i assms(2) by (blast, meson order_trans)
  have entries: "sorted (lm key)" "\<forall>x \<in> set (lm key). x \<le> t"
    and len: "int (length (lm key)) \<le> limit"
    using i assms(2) by (blast, meson order_trans, blast)
  have sorted_es: "sorted ?es" unfolding es by (rule sorted_wrt_filter [OF entries(1)])
  have es_le: "\<forall>x \<in> set ?es. x \<le> t" unfolding es using entries(2) by simp
  have es_len: "int (length ?es) \<le> limit"
    unfolding es using len length_filter_le [of "\<lambda>x. t - 60 < x" "lm key"] by linarith
  have es_id: "filter (\<lambda>x. t - 60 < x) ?es = filter (\<lambda>x. t - 60 < x) (lm key)"
    unfolding es by simp
  have res: "(res = Allowed \<and> lm' key = ?es @ [t] \<and> int (length ?es) < limit)
      \<or> (res \<noteq> Allowed \<and> lm' key = ?es)"
    using chk by (auto simp: rate_check_def Let_def split: if_splits list.splits)
  then show ?thesis
  proof
    assume a: "res = Allowed \<and> lm' key = ?es @ [t] \<and> int (length ?es) < limit"
    have "sorted (past @ [t])" "sorted (?es @ [t])"
      using past sorted_es es_le by (simp_all add: sorted_append)
    with a past es_le same es_id show ?thesis by (simp add: window_inv_def)
  next
    assume "res \<noteq> Allowed \<and> lm' key = ?es"
    with past sorted_es es_le es_len same es_id show ?thesis by (simp add: window_inv_def)
  qed
qed

lemma accepted_window:
  assumes "window_inv past t0 limit (lm key)" "sorted ts" "\<forall>t \<in> set ts. t0 \<le> t"
  shows "\<exists>t1. window_inv (past @ fst (accepted key limit ts lm)) t1 limit
      (snd (accepted key limit ts lm) key) \<and> t1 \<in> insert t0 (set ts)"
  using assms
proof (induction ts arbitrary: past t0 lm)
  case Nil
  then show ?case by auto
next
  case (Cons t ts)
  obtain res lm' where chk: "rate_check t key limit lm = (res, lm')" by fastforce
  let ?past = "if res = Allowed then past @ [t] else past"
  have inv: "window_inv ?past t limit (lm' key)"
    by (rule window_inv_check [OF Cons.prems(1) _ chk]) (use Cons.prems(3) in simp)
  have ts: "sorted ts" "\<forall>x \<in> set ts. t \<le> x" "t0 \<le> t" using Cons.prems(2,3) by simp_all
  obtain t1 where t1: "window_inv (?past @ fst (accepted key limit ts lm')) t1 limit
      (snd (accepted key limit ts lm') key)" "t1 \<in> insert t (set ts)"
    using Cons.IH [where past = ?past and ?t0.0 = t and lm = lm', OF inv ts(1,2)] by blast
  have same: "past @ fst (accepted key limit (t # ts) lm) = ?past @ fst (accepted key limit ts lm')"
    "snd (accepted key limit (t # ts) lm) = snd (accepted key limit ts lm')"
    by (cases res; simp add: chk Let_def)+
  have "t1 \<in> insert t0 (set (t # ts))" using t1(2) by simp
  then show ?case unfolding same using t1(1) by blast
qed

lemma accepted_append:
  "fst (accepted key limit (ts @ us) lm)
     = fst (accepted key limit ts lm) @ fst (accepted key limit us (snd (accepted key limit ts lm)))"
  by (induction ts arbitrary: lm) (auto simp: Let_def split: prod.splits limit_result.splits)

lemma accepted_subset: "set (fst (accepted key limit ts lm)) \<subseteq> set ts"
proof (induction ts arbitrary: lm)
  case Nil
  then show ?case by simp
next
  case (Cons t ts)
  obtain res lm' where "rate_check t key limit lm = (res, lm')" by fastforce
  then show ?case using Cons.IH [of lm'] by (cases res) (auto simp: Let_def)
qed

lemma window_inv_start: "0 \<le> limit \<Longrightarrow> window_inv [] t limit []"
  by (simp add: window_inv_def)

lemma window_inv_count:
  assumes "window_inv past t limit es"
  shows "int (length (filter (\<lambda>x. t - 60 < x) past)) \<le> limit"
proof -
  have same: "filter (\<lambda>x. t - 60 < x) past = filter (\<lambda>x. t - 60 < x) es"
    and len: "int (length es) \<le> limit"
    using assms by (simp_all add: window_inv_def)
  show ?thesis unfolding same using len length_filter_le [of "\<lambda>x. t - 60 < x" es] by linarith
qed

section \<open>Properties\<close>

text \<open>
  C29. The limiter keeps its promise for every window, not only for the minute before a check:
  starting from a key without entries, whatever the times at which a client calls (as the
  monotonic clock gives them, in order), no half-open interval of 60 seconds contains more
  accepted requests than the limit.
\<close>

theorem rate_window_bound:
  assumes "lm key = []" "0 \<le> limit" "sorted ts"
  shows "int (length (filter (\<lambda>x. u - 60 < x \<and> x \<le> u) (fst (accepted key limit ts lm)))) \<le> limit"
proof -
  let ?pre = "takeWhile (\<lambda>x. x \<le> u) ts" and ?post = "dropWhile (\<lambda>x. x \<le> u) ts"
  let ?acc = "fst (accepted key limit ?pre lm)"
  let ?rest = "fst (accepted key limit ?post (snd (accepted key limit ?pre lm)))"
  have split: "fst (accepted key limit ts lm) = ?acc @ ?rest"
    using accepted_append [of key limit ?pre ?post lm] by simp
  have "?post = filter (\<lambda>x. u < x) ts"
    using evict_sorted [OF assms(3), of u] by (simp add: evict_def)
  then have "\<forall>x \<in> set ?rest. u < x" using accepted_subset [of key limit ?post] by fastforce
  then have none: "filter (\<lambda>x. u - 60 < x \<and> x \<le> u) ?rest = []" by (fastforce simp: filter_empty_conv)
  show ?thesis
  proof (cases ?pre)
    case Nil
    then show ?thesis unfolding split filter_append none using assms(2) by simp
  next
    case (Cons t0 pre)
    have pre_le: "\<forall>x \<in> set ?pre. x \<le> u" by (auto dest: set_takeWhileD)
    have "sorted ?pre" using assms(3) by (rule sorted_takeWhile)
    moreover from this have "\<forall>x \<in> set ?pre. t0 \<le> x" unfolding Cons by simp
    moreover have "window_inv [] t0 limit (lm key)"
      unfolding assms(1) by (rule window_inv_start [OF assms(2)])
    ultimately obtain t1 where t1: "window_inv ([] @ ?acc) t1 limit
        (snd (accepted key limit ?pre lm) key)" "t1 \<in> insert t0 (set ?pre)"
      using accepted_window [where past = "[]" and ?t0.0 = t0 and ts = ?pre] by blast
    have "t1 \<le> u" using t1(2) pre_le unfolding Cons by auto
    have narrow: "filter (\<lambda>x. u - 60 < x \<and> x \<le> u) zs
        = filter (\<lambda>x. u - 60 < x \<and> x \<le> u) (filter (\<lambda>x. t1 - 60 < x) zs)" for zs
      using \<open>t1 \<le> u\<close> by (induction zs) auto
    have "length (filter (\<lambda>x. u - 60 < x \<and> x \<le> u) ?acc)
        \<le> length (filter (\<lambda>x. t1 - 60 < x) ?acc)"
      unfolding narrow [of ?acc] by (rule length_filter_le)
    then show ?thesis
      unfolding split filter_append none using window_inv_count [OF t1(1)] by simp
  qed
qed

theorem rate_window_bound_witness:
  "fst (accepted ''k'' 2 [0, 10, 20, 60, 61, 71] (\<lambda>_. [])) = [0, 10, 60, 71]
   \<and> int (length (filter (\<lambda>x. 71 - 60 < x \<and> x \<le> 71)
       (fst (accepted ''k'' 2 [0, 10, 20, 60, 61, 71] (\<lambda>_. []))))) \<le> 2"
proof
  show "fst (accepted ''k'' 2 [0, 10, 20, 60, 61, 71] (\<lambda>_. [])) = [0, 10, 60, 71]"
    by (simp add: rate_check_def evict_def)
  show "int (length (filter (\<lambda>x. 71 - 60 < x \<and> x \<le> 71)
       (fst (accepted ''k'' 2 [0, 10, 20, 60, 61, 71] (\<lambda>_. []))))) \<le> 2"
    by (rule rate_window_bound) simp_all
qed

text \<open>
  What a refused client is told: \<open>Retry-After\<close> is between 1 and 60 seconds, and one second
  more than it is always enough.  (It alone is not: the fraction of a second is cut off, as
  the witness shows: told 59 at time 1, the client is refused again at time 60.)
\<close>

theorem retry_after_enough:
  assumes "window_inv past t0 limit (lm key)" "t0 \<le> t" "0 < limit"
    and "rate_check t key limit lm = (Retry_After n, lm')" "t + of_int n + 1 \<le> t'"
  shows "1 \<le> n \<and> n \<le> 60 \<and> fst (rate_check t' key limit lm') = Allowed"
proof -
  obtain oldest es where es: "evict (t - 60) (lm key) = oldest # es"
    and n: "n = max 1 (trunc (60 - (t - oldest)))" and lm': "lm' key = oldest # es"
    using assms(4) by (auto simp: rate_check_def Let_def split: if_splits list.splits)
  have inv: "window_inv past t limit (oldest # es)"
    using window_inv_check [OF assms(1,2,4)] lm' by simp
  then have old: "oldest \<le> t" and len: "int (length es) < limit" by (simp_all add: window_inv_def)
  have "sorted (lm key)" using assms(1) by (simp add: window_inv_def)
  then have "oldest \<in> set (filter (\<lambda>x. t - 60 < x) (lm key))"
    using es evict_sorted [of "lm key" "t - 60"] by simp
  then have young: "t - 60 < oldest" by simp
  have floor: "trunc (60 - (t - oldest)) = \<lfloor>60 - (t - oldest)\<rfloor>" using young by (simp add: trunc_def)
  have bounds: "1 \<le> n" "n \<le> 60" using old unfolding n floor by (simp_all add: floor_le_iff)
  have "60 - (t - oldest) < of_int n + 1" unfolding n floor by linarith
  then have gone: "oldest \<le> t' - 60" using assms(5) by linarith
  have "length (evict (t' - 60) (oldest # es)) \<le> length es"
    using gone by (simp add: evict_def length_dropWhile_le)
  then have "fst (rate_check t' key limit lm') = Allowed"
    unfolding rate_check_def Let_def lm' using len by simp
  with bounds show ?thesis by simp
qed

theorem retry_after_enough_witness:
  "fst (rate_check 1 ''k'' 1 (\<lambda>_. [1/2])) = Retry_After 59
   \<and> fst (rate_check 60 ''k'' 1 (snd (rate_check 1 ''k'' 1 (\<lambda>_. [1/2])))) = Retry_After 1
   \<and> fst (rate_check 61 ''k'' 1 (snd (rate_check 1 ''k'' 1 (\<lambda>_. [1/2])))) = Allowed"
proof -
  have a: "rate_check 1 ''k'' 1 (\<lambda>_. [1/2])
      = (Retry_After 59, (\<lambda>_. [1/2])(''k'' := [1/2]))"
    by (simp add: rate_check_def evict_def trunc_def floor_eq_iff Let_def)
  have "window_inv [1/2] 1 1 [1/2]" by (simp add: window_inv_def)
  then have "fst (rate_check 61 ''k'' 1 ((\<lambda>_. [1/2])(''k'' := [1/2]))) = Allowed"
    using retry_after_enough [OF _ _ _ a, of "[1/2]" 1 61] by simp
  moreover have "fst (rate_check 60 ''k'' 1 ((\<lambda>_. [1/2])(''k'' := [1/2]))) = Retry_After 1"
    by (simp add: rate_check_def evict_def trunc_def Let_def)
  ultimately show ?thesis by (simp add: a)
qed

text \<open>
  A limit of zero or less never limits: \<open>entries[0]\<close> of an empty deque raises, so the
  request ends in an unhandled error and not in a 429.
\<close>

theorem zero_limit_crashes:
  assumes "limit \<le> 0" "lm key = []"
  shows "rate_check t key limit lm = (Index_Error, lm)"
proof -
  have "lm(key := []) = lm" using assms(2) by auto
  with assms show ?thesis by (simp add: rate_check_def evict_def)
qed

theorem zero_limit_crashes_witness:
  "rate_check 0 ''k'' 0 (\<lambda>_. []) = (Index_Error, \<lambda>_. [])"
  by (rule zero_limit_crashes) simp_all

end
