(* ===== verification/Events.thy ===== *)
theory Events
  imports Security
begin

text \<open>
  The audit trail and the transactional outbox (\<open>services/events.py\<close>), over the rows of
  \<open>models.py\<close> they read and write: incidents with their three counters, AI analyses, audit
  entries and outbox events.  The other components extend \<open>ev_db\<close> with their tables.

  The \<open>session.info\<close> markers and the key of the running transaction are part of the state,
  as is the set of analyses whose new \<open>is_stale\<close> flag has not been flushed yet: the query
  for current briefs runs under \<open>session.no_autoflush\<close> and sees the database, not the
  pending objects.
\<close>

section \<open>Rows\<close>

record incident =
  inc_id :: ident
  inc_alias :: "string option"
  inc_name :: string
  inc_status :: string
  inc_closed_at :: "time option"
  inc_started_at :: time
  inc_center_latitude :: "real option"
  inc_center_longitude :: "real option"
  inc_map_coordinate_system :: string
  inc_map_default_zoom :: real
  inc_feature_flags :: json
  inc_event_sequence :: int
  inc_data_revision :: int
  inc_map_revision :: int
  inc_type :: string
  inc_timezone :: string

record ai_analysis =
  an_id :: ident
  an_incident_id :: ident
  an_analysis_type :: string
  an_status :: string
  an_input_snapshot :: json
  an_context_package :: "json option"
  an_context_sha256 :: "string option"
  an_output :: "json option"
  an_prompt_version :: string
  an_created_by_id :: "ident option"
  an_input_version :: int
  an_is_stale :: bool
  an_stale_at :: "time option"
  an_stale_reason :: "string option"

record envelope =
  env_event_id :: ident
  env_type :: string
  env_incident_id :: ident
  env_sequence :: int
  env_resource_type :: string
  env_resource_id :: "ident option"
  env_resource_revision :: "int option"
  env_occurred_at :: time
  env_visibility :: string
  env_owner_device_id :: "ident option"
  env_request_id :: "string option"
  env_data :: json
  env_payload :: json

record outbox_row =
  ob_id :: ident
  ob_incident_id :: ident
  ob_sequence :: int
  ob_event_type :: string
  ob_visibility :: string
  ob_resource_type :: string
  ob_resource_id :: "ident option"
  ob_resource_revision :: "int option"
  ob_owner_device_id :: "ident option"
  ob_payload :: envelope
  ob_request_id :: "string option"
  ob_occurred_at :: time
  ob_published_at :: "time option"
  ob_publish_attempts :: int

record audit_row =
  au_actor_type :: string
  au_actor_id :: "ident option"
  au_incident_id :: "ident option"
  au_action :: string
  au_resource_type :: string
  au_resource_id :: "ident option"
  au_request_id :: "string option"
  au_created_at :: time

record ev_db =
  db_incidents :: "incident list"
  db_analyses :: "ai_analysis list"
  db_outbox :: "outbox_row list"
  db_audit :: "audit_row list"
  tx_key :: nat
  data_marker :: "(nat \<times> ident) option"
  map_marker :: "(nat \<times> ident) option"
  pending_stale :: "ident list"
  id_count :: nat

text \<open>\<open>session.flush()\<close>, and the autoflush before any other query; \<open>session.begin()\<close>.\<close>

definition flush :: "'a ev_db_scheme \<Rightarrow> 'a ev_db_scheme" where
  "flush db = db\<lparr>pending_stale := []\<rparr>"

definition begin_tx :: "nat \<Rightarrow> 'a ev_db_scheme \<Rightarrow> 'a ev_db_scheme" where
  "begin_tx t db = db\<lparr>tx_key := t, pending_stale := []\<rparr>"

definition get_incident_by_id :: "'a ev_db_scheme \<Rightarrow> ident \<Rightarrow> incident option" where
  "get_incident_by_id db i = find (\<lambda>x. inc_id x = i) (db_incidents db)"

section \<open>Audit\<close>

definition record_audit ::
    "env \<Rightarrow> actor option \<Rightarrow> ident option \<Rightarrow> string \<Rightarrow> string \<Rightarrow> ident option
      \<Rightarrow> string option \<Rightarrow> 'a ev_db_scheme \<Rightarrow> 'a ev_db_scheme" where
  "record_audit e actr incident_id action resource_type resource_id request_id db =
     db\<lparr>db_audit := db_audit db @
       [\<lparr>au_actor_type = (case actr of None \<Rightarrow> ''system''
                           | Some a \<Rightarrow> subject_name (ac_subject_type a)),
         au_actor_id = map_option ac_subject_id actr,
         au_incident_id = incident_id,
         au_action = action,
         au_resource_type = resource_type,
         au_resource_id = resource_id,
         au_request_id = or_else request_id (request_ctx e),
         au_created_at = now e\<rparr>]\<rparr>"

section \<open>The outbox\<close>

record emission =
  em_event_type :: string
  em_resource_type :: string
  em_resource_id :: "ident option"
  em_resource_revision :: "int option"
  em_payload :: json
  em_visibility :: string
  em_owner_device_id :: "ident option"
  em_request_id :: "string option"

definition data_affecting :: "string \<Rightarrow> bool" where
  "data_affecting t \<longleftrightarrow> t \<in> set [''incident'', ''report'', ''attachment'', ''blind_spot'',
     ''question'', ''directed_answer'', ''fragment'', ''conflict'', ''fact'']"

definition map_affecting :: "string \<Rightarrow> bool" where
  "map_affecting t \<longleftrightarrow>
     t \<in> set [''report'', ''blind_spot'', ''fact'', ''conflict'', ''fragment'']"

text \<open>
  The row and its envelope: \<open>new_id\<close> is asked twice, for the event id in the envelope
  (\<open>k\<close>) and for the primary key of the row (\<open>k + 1\<close>).
\<close>

definition outbox_entry ::
    "env \<Rightarrow> nat \<Rightarrow> ident \<Rightarrow> int \<Rightarrow> string option \<Rightarrow> emission \<Rightarrow> outbox_row" where
  "outbox_entry e k iid sqn rid em =
     \<lparr>ob_id = new_id e (Suc k), ob_incident_id = iid, ob_sequence = sqn,
      ob_event_type = em_event_type em, ob_visibility = em_visibility em,
      ob_resource_type = em_resource_type em, ob_resource_id = em_resource_id em,
      ob_resource_revision = em_resource_revision em,
      ob_owner_device_id = em_owner_device_id em,
      ob_payload =
        \<lparr>env_event_id = new_id e k, env_type = em_event_type em, env_incident_id = iid,
         env_sequence = sqn, env_resource_type = em_resource_type em,
         env_resource_id = em_resource_id em,
         env_resource_revision = em_resource_revision em, env_occurred_at = now e,
         env_visibility = em_visibility em, env_owner_device_id = em_owner_device_id em,
         env_request_id = rid, env_data = em_payload em, env_payload = em_payload em\<rparr>,
      ob_request_id = rid, ob_occurred_at = now e,
      ob_published_at = None, ob_publish_attempts = 0\<rparr>"

text \<open>The query for briefs to be marked stale, as the database sees it (no autoflush).\<close>

definition current_briefs :: "'a ev_db_scheme \<Rightarrow> incident \<Rightarrow> ai_analysis list" where
  "current_briefs db inc =
     filter (\<lambda>a. an_incident_id a = inc_id inc \<and> an_analysis_type a = ''command_brief''
               \<and> an_status a = ''succeeded''
               \<and> (\<not> an_is_stale a \<or> an_id a \<in> set (pending_stale db))
               \<and> an_input_version a \<noteq> inc_data_revision inc) (db_analyses db)"

definition stale_emission :: "string \<Rightarrow> incident \<Rightarrow> ai_analysis \<Rightarrow> emission" where
  "stale_emission event_type inc a =
     \<lparr>em_event_type = ''command_brief.stale'', em_resource_type = ''ai_analysis'',
      em_resource_id = Some (an_id a), em_resource_revision = Some (an_input_version a),
      em_payload = JObj [(''analysis_id'', JStr (an_id a)),
                         (''reason'', JStr (''incident_changed:'' @ event_type)),
                         (''current_data_revision'', JInt (inc_data_revision inc))],
      em_visibility = ''operators'', em_owner_device_id = None, em_request_id = None\<rparr>"

text \<open>The loop over the briefs: each takes the next sequence number.\<close>

fun stale_rows ::
    "env \<Rightarrow> nat \<Rightarrow> incident \<Rightarrow> int \<Rightarrow> string option \<Rightarrow> string \<Rightarrow> ai_analysis list
      \<Rightarrow> outbox_row list" where
  "stale_rows e k inc sqn rid event_type [] = []"
| "stale_rows e k inc sqn rid event_type (a # rest) =
     outbox_entry e k (inc_id inc) (sqn + 1) rid (stale_emission event_type inc a)
       # stale_rows e (k + 2) inc (sqn + 1) rid event_type rest"

definition mark_brief_stale :: "env \<Rightarrow> string \<Rightarrow> ai_analysis \<Rightarrow> ai_analysis" where
  "mark_brief_stale e event_type a =
     a\<lparr>an_is_stale := True, an_stale_at := Some (now e),
       an_stale_reason := Some (''incident_changed:'' @ event_type)\<rparr>"

definition invalidated_emission :: "incident \<Rightarrow> emission" where
  "invalidated_emission inc =
     \<lparr>em_event_type = ''map_view.invalidated'', em_resource_type = ''map_view'',
      em_resource_id = Some (inc_id inc), em_resource_revision = Some (inc_map_revision inc),
      em_payload = JObj [(''map_revision'', JInt (inc_map_revision inc))],
      em_visibility = ''public'', em_owner_device_id = None, em_request_id = None\<rparr>"

text \<open>
  \<open>emit_event\<close> on the incident object: the counters, the markers, the rows appended and the
  briefs marked.  \<open>emit_event\<close> writes them to the tables and returns the id of the row.
\<close>

record emit_result =
  er_incident :: incident
  er_data_marker :: "(nat \<times> ident) option"
  er_map_marker :: "(nat \<times> ident) option"
  er_stale :: "ai_analysis list"
  er_rows :: "outbox_row list"

definition emit_core :: "env \<Rightarrow> emission \<Rightarrow> 'a ev_db_scheme \<Rightarrow> incident \<Rightarrow> emit_result" where
  "emit_core e em db inc0 =
    (let transaction_key = (tx_key db, inc_id inc0);
         rt = em_resource_type em;
         inc1 = inc0\<lparr>inc_event_sequence := inc_event_sequence inc0 + 1\<rparr>;
         data_bump = (data_affecting rt \<and> data_marker db \<noteq> Some transaction_key);
         inc2 = (if data_bump then inc1\<lparr>inc_data_revision := inc_data_revision inc1 + 1\<rparr>
                 else inc1);
         map_bumped = (map_affecting rt \<and> map_marker db \<noteq> Some transaction_key);
         inc3 = (if map_bumped then inc2\<lparr>inc_map_revision := inc_map_revision inc2 + 1\<rparr>
                 else inc2);
         rid = or_else (em_request_id em) (request_ctx e);
         k = id_count db;
         row = outbox_entry e k (inc_id inc3) (inc_event_sequence inc3) rid em;
         stale = (if data_affecting rt then current_briefs db inc3 else []);
         stale_events =
           stale_rows e (k + 2) inc3 (inc_event_sequence inc3) rid (em_event_type em) stale;
         inc4 = inc3\<lparr>inc_event_sequence := inc_event_sequence inc3 + int (length stale)\<rparr>;
         inc5 = (if map_bumped then inc4\<lparr>inc_event_sequence := inc_event_sequence inc4 + 1\<rparr>
                 else inc4);
         map_rows = (if map_bumped
           then [outbox_entry e (k + 2 + 2 * length stale) (inc_id inc5)
                   (inc_event_sequence inc5) rid (invalidated_emission inc5)]
           else [])
     in \<lparr>er_incident = inc5,
         er_data_marker = (if data_bump then Some transaction_key else data_marker db),
         er_map_marker = (if map_bumped then Some transaction_key else map_marker db),
         er_stale = stale,
         er_rows = row # stale_events @ map_rows\<rparr>)"

definition store_emit ::
    "env \<Rightarrow> emission \<Rightarrow> emit_result \<Rightarrow> 'a ev_db_scheme \<Rightarrow> 'a ev_db_scheme" where
  "store_emit e em r db =
     db\<lparr>db_incidents := modify_where (\<lambda>x. inc_id x = inc_id (er_incident r))
          (\<lambda>_. er_incident r) (db_incidents db),
       db_analyses := modify_where (\<lambda>a. a \<in> set (er_stale r))
          (mark_brief_stale e (em_event_type em)) (db_analyses db),
       db_outbox := db_outbox db @ er_rows r,
       data_marker := er_data_marker r,
       map_marker := er_map_marker r,
       pending_stale := map an_id (er_stale r) @ pending_stale db,
       id_count := id_count db + 2 * length (er_rows r)\<rparr>"

definition emit_event ::
    "env \<Rightarrow> ident \<Rightarrow> emission \<Rightarrow> 'a ev_db_scheme \<Rightarrow> ident option \<times> 'a ev_db_scheme" where
  "emit_event e iid em db =
     (case get_incident_by_id db iid of
        None \<Rightarrow> (None, db)
      | Some inc \<Rightarrow>
          (Some (new_id e (Suc (id_count db))), store_emit e em (emit_core e em db inc) db))"

text \<open>The events of one transaction, in the order the handler emits them.\<close>

definition emit_all :: "env \<Rightarrow> ident \<Rightarrow> emission list \<Rightarrow> 'a ev_db_scheme \<Rightarrow> 'a ev_db_scheme" where
  "emit_all e iid ems db = fold (\<lambda>em d. snd (emit_event e iid em d)) ems db"

section \<open>The shape of one emission\<close>

text \<open>
  Every other table a component adds to \<open>ev_db\<close> is untouched by audit and outbox: these
  are the frame facts the components use.
\<close>

lemma record_audit_frame [simp]:
  "db_incidents (record_audit e a i ac rt ri rq db) = db_incidents db"
  "db_analyses (record_audit e a i ac rt ri rq db) = db_analyses db"
  "db_outbox (record_audit e a i ac rt ri rq db) = db_outbox db"
  "ev_db.more (record_audit e a i ac rt ri rq db) = ev_db.more db"
  "data_marker (record_audit e a i ac rt ri rq db) = data_marker db"
  "map_marker (record_audit e a i ac rt ri rq db) = map_marker db"
  "tx_key (record_audit e a i ac rt ri rq db) = tx_key db"
  "id_count (record_audit e a i ac rt ri rq db) = id_count db"
  "pending_stale (record_audit e a i ac rt ri rq db) = pending_stale db"
  by (simp_all add: record_audit_def)

lemma emit_event_frame [simp]:
  "ev_db.more (snd (emit_event e iid em db)) = ev_db.more db"
  "tx_key (snd (emit_event e iid em db)) = tx_key db"
  "db_audit (snd (emit_event e iid em db)) = db_audit db"
  by (simp_all add: emit_event_def store_emit_def split: option.splits)

lemma outbox_entry_simps [simp]:
  "ob_sequence (outbox_entry e k i s rid em) = s"
  "ob_incident_id (outbox_entry e k i s rid em) = i"
  "ob_event_type (outbox_entry e k i s rid em) = em_event_type em"
  "ob_visibility (outbox_entry e k i s rid em) = em_visibility em"
  "ob_resource_id (outbox_entry e k i s rid em) = em_resource_id em"
  "ob_resource_revision (outbox_entry e k i s rid em) = em_resource_revision em"
  "ob_published_at (outbox_entry e k i s rid em) = None"
  "env_sequence (ob_payload (outbox_entry e k i s rid em)) = s"
  "env_incident_id (ob_payload (outbox_entry e k i s rid em)) = i"
  "env_visibility (ob_payload (outbox_entry e k i s rid em)) = em_visibility em"
  "env_owner_device_id (ob_payload (outbox_entry e k i s rid em)) = em_owner_device_id em"
  "ob_owner_device_id (outbox_entry e k i s rid em) = em_owner_device_id em"
  by (simp_all add: outbox_entry_def)

lemma length_stale_rows [simp]: "length (stale_rows e k inc s rid t as) = length as"
  by (induction as arbitrary: k s) auto

lemma stale_rows_incident:
  "r \<in> set (stale_rows e k inc s rid t as) \<Longrightarrow> ob_incident_id r = inc_id inc"
  by (induction as arbitrary: k s) auto

lemma stale_rows_type:
  "r \<in> set (stale_rows e k inc s rid t as) \<Longrightarrow>
     ob_event_type r = ''command_brief.stale'' \<and> ob_visibility r = ''operators''"
  by (induction as arbitrary: k s) (auto simp: stale_emission_def)

lemma stale_rows_resources:
  "map ob_resource_id (stale_rows e k inc s rid t as) = map (\<lambda>a. Some (an_id a)) as"
  by (induction as arbitrary: k s) (auto simp: stale_emission_def)

lemma stale_rows_consec: "consec s (map ob_sequence (stale_rows e k inc s rid t as))"
  by (induction as arbitrary: k s) auto

lemma emit_core_id [simp]: "inc_id (er_incident (emit_core e em db inc)) = inc_id inc"
  by (simp add: emit_core_def Let_def)

lemma emit_core_rows_incident:
  "r \<in> set (er_rows (emit_core e em db inc)) \<Longrightarrow> ob_incident_id r = inc_id inc"
  by (auto simp: emit_core_def Let_def dest: stale_rows_incident split: if_splits)

lemma emit_core_consec:
  "consec (inc_event_sequence inc) (map ob_sequence (er_rows (emit_core e em db inc)))"
  using stale_rows_consec by (auto simp: emit_core_def Let_def consec_append)

lemma emit_core_sequence:
  "inc_event_sequence (er_incident (emit_core e em db inc))
     = inc_event_sequence inc + int (length (er_rows (emit_core e em db inc)))"
  by (simp add: emit_core_def Let_def)

lemma get_incident_emit:
  assumes "get_incident_by_id db iid = Some inc"
  shows "get_incident_by_id (snd (emit_event e iid em db)) i =
    (if i = iid then Some (er_incident (emit_core e em db inc)) else get_incident_by_id db i)"
proof -
  let ?inc' = "er_incident (emit_core e em db inc)"
  have id: "inc_id inc = iid"
    using assms by (auto simp: get_incident_by_id_def dest: find_SomeD)
  have "find (\<lambda>x. inc_id x = i)
      (modify_where (\<lambda>x. inc_id x = iid) (\<lambda>_. ?inc') rows) =
      (if i = iid then map_option (\<lambda>_. ?inc') (find (\<lambda>x. inc_id x = iid) rows)
       else find (\<lambda>x. inc_id x = i) rows)" for rows
    using id by (induction rows) auto
  with assms id show ?thesis
    by (simp add: emit_event_def store_emit_def get_incident_by_id_def)
qed

section \<open>The log of an incident is numbered without gaps\<close>

text \<open>
  What the realtime replay and the outbox publisher rely on, as an interface: a log per
  incident with a counter, where appending adds rows that carry the next numbers.  From it
  follows, for any history of appends, that the numbers of a log that starts empty are
  exactly \<open>1..counter\<close> in order.
\<close>

locale event_log =
  fixes seqs :: "'db \<Rightarrow> 'i \<Rightarrow> int list"
    and counter :: "'db \<Rightarrow> 'i \<Rightarrow> int"
    and append :: "'a \<Rightarrow> 'db \<Rightarrow> 'db"
  assumes append_batch: "\<exists>new. seqs (append a db) i = seqs db i @ new
      \<and> consec (counter db i) new \<and> counter (append a db) i = counter db i + int (length new)"
begin

definition numbered :: "'db \<Rightarrow> 'i \<Rightarrow> bool" where
  "numbered db i \<longleftrightarrow> consec 0 (seqs db i) \<and> counter db i = int (length (seqs db i))"

lemma numbered_append: "numbered db i \<Longrightarrow> numbered (append a db) i"
  using append_batch [of a db i] by (auto simp: numbered_def consec_append)

lemma numbered_run: "numbered db i \<Longrightarrow> numbered (fold append as db) i"
  by (induction as arbitrary: db) (auto intro: numbered_append)

lemma numbered_set: "numbered db i \<Longrightarrow> set (seqs db i) = {1 .. counter db i}"
  by (auto simp: numbered_def dest: consec_set)

lemma numbered_sorted: "numbered db i \<Longrightarrow> sorted_wrt (<) (seqs db i)"
  by (auto simp: numbered_def dest: consec_sorted)

lemma counter_mono: "counter db i \<le> counter (append a db) i"
  using append_batch [of a db i] by auto

end

definition log_of :: "'a ev_db_scheme \<Rightarrow> ident \<Rightarrow> outbox_row list" where
  "log_of db i = filter (\<lambda>r. ob_incident_id r = i) (db_outbox db)"

definition sequence_of :: "'a ev_db_scheme \<Rightarrow> ident \<Rightarrow> int" where
  "sequence_of db i =
     (case get_incident_by_id db i of None \<Rightarrow> 0 | Some inc \<Rightarrow> inc_event_sequence inc)"

definition emit_step :: "env \<times> ident \<times> emission \<Rightarrow> 'a ev_db_scheme \<Rightarrow> 'a ev_db_scheme" where
  "emit_step x db = (case x of (e, iid, em) \<Rightarrow> snd (emit_event e iid em db))"

lemma emit_step_batch:
  "\<exists>new. map ob_sequence (log_of (emit_step x db) i) = map ob_sequence (log_of db i) @ new
     \<and> consec (sequence_of db i) new
     \<and> sequence_of (emit_step x db) i = sequence_of db i + int (length new)"
proof -
  obtain e iid em where x: "x = (e, iid, em)" by (cases x)
  show ?thesis
  proof (cases "get_incident_by_id db iid")
    case None
    then show ?thesis by (simp add: x emit_step_def emit_event_def)
  next
    case (Some inc)
    let ?rows = "er_rows (emit_core e em db inc)"
    have id: "inc_id inc = iid"
      using Some by (auto simp: get_incident_by_id_def dest: find_SomeD)
    have log: "log_of (snd (emit_event e iid em db)) i
        = log_of db i @ (if i = iid then ?rows else [])"
      using id by (auto simp: log_of_def emit_event_def Some store_emit_def
          filter_empty_conv filter_id_conv dest: emit_core_rows_incident)
    show ?thesis
      by (intro exI [of _ "if i = iid then map ob_sequence ?rows else []"])
        (simp add: log sequence_of_def Some x emit_step_def get_incident_emit [OF Some]
          emit_core_consec emit_core_sequence)
  qed
qed

interpretation outbox: event_log
  "\<lambda>db i. map ob_sequence (log_of db i)" sequence_of emit_step
  by unfold_locales (rule emit_step_batch)

section \<open>Counters and invalidations per transaction\<close>

definition fresh_key :: "'a ev_db_scheme \<Rightarrow> (nat \<times> ident) option \<Rightarrow> ident \<Rightarrow> bool" where
  "fresh_key db marker iid \<longleftrightarrow> marker \<noteq> Some (tx_key db, iid)"

definition invalidations :: "outbox_row list \<Rightarrow> nat" where
  "invalidations rows = length (filter (\<lambda>r. ob_event_type r = ''map_view.invalidated'') rows)"

lemma invalidations_append [simp]:
  "invalidations (xs @ ys) = invalidations xs + invalidations ys"
  by (simp add: invalidations_def)

lemma invalidations_stale [simp]: "invalidations (stale_rows e k inc s rid t as) = 0"
  by (auto simp: invalidations_def filter_empty_conv dest: stale_rows_type)

lemma emit_core_counters:
  assumes "inc_id inc = iid"
  shows "inc_data_revision (er_incident (emit_core e em db inc)) = inc_data_revision inc
      + (if data_affecting (em_resource_type em) \<and> fresh_key db (data_marker db) iid then 1 else 0)"
    and "inc_map_revision (er_incident (emit_core e em db inc)) = inc_map_revision inc
      + (if map_affecting (em_resource_type em) \<and> fresh_key db (map_marker db) iid then 1 else 0)"
    and "er_data_marker (emit_core e em db inc) =
      (if data_affecting (em_resource_type em) then Some (tx_key db, iid) else data_marker db)"
    and "er_map_marker (emit_core e em db inc) =
      (if map_affecting (em_resource_type em) then Some (tx_key db, iid) else map_marker db)"
    and "em_event_type em \<noteq> ''map_view.invalidated'' \<Longrightarrow>
      invalidations (er_rows (emit_core e em db inc)) =
      (if map_affecting (em_resource_type em) \<and> fresh_key db (map_marker db) iid then 1 else 0)"
  using assms
  by (auto simp: emit_core_def Let_def fresh_key_def invalidations_def
      invalidated_emission_def filter_empty_conv dest: stale_rows_type)

lemma emit_event_found:
  "get_incident_by_id db iid = Some inc \<Longrightarrow>
     snd (emit_event e iid em db) = store_emit e em (emit_core e em db inc) db"
  by (simp add: emit_event_def)

lemma store_emit_simps [simp]:
  "data_marker (store_emit e em r db) = er_data_marker r"
  "map_marker (store_emit e em r db) = er_map_marker r"
  "tx_key (store_emit e em r db) = tx_key db"
  "db_outbox (store_emit e em r db) = db_outbox db @ er_rows r"
  by (simp_all add: store_emit_def)

lemma emit_all_counters:
  assumes "get_incident_by_id db iid = Some inc"
    and "\<forall>em \<in> set ems. em_event_type em \<noteq> ''map_view.invalidated''"
  shows "\<exists>inc' new. get_incident_by_id (emit_all e iid ems db) iid = Some inc'
     \<and> db_outbox (emit_all e iid ems db) = db_outbox db @ new
     \<and> inc_data_revision inc' = inc_data_revision inc
         + (if fresh_key db (data_marker db) iid
               \<and> (\<exists>em \<in> set ems. data_affecting (em_resource_type em)) then 1 else 0)
     \<and> inc_map_revision inc' = inc_map_revision inc
         + (if fresh_key db (map_marker db) iid
               \<and> (\<exists>em \<in> set ems. map_affecting (em_resource_type em)) then 1 else 0)
     \<and> invalidations new =
         (if fresh_key db (map_marker db) iid
             \<and> (\<exists>em \<in> set ems. map_affecting (em_resource_type em)) then 1 else 0)"
  using assms
proof (induction ems arbitrary: db inc)
  case Nil
  then show ?case by (simp add: emit_all_def invalidations_def)
next
  case (Cons em ems)
  let ?r = "emit_core e em db inc"
  let ?db = "store_emit e em ?r db"
  have id: "inc_id inc = iid"
    using Cons.prems(1) by (auto simp: get_incident_by_id_def dest: find_SomeD)
  have step: "snd (emit_event e iid em db) = ?db"
    by (rule emit_event_found [OF Cons.prems(1)])
  have got: "get_incident_by_id ?db iid = Some (er_incident ?r)"
    using get_incident_emit [OF Cons.prems(1), of e em iid] step by simp
  have unfold: "emit_all e iid (em # ems) db = emit_all e iid ems ?db"
    by (simp add: emit_all_def step)
  note c = emit_core_counters [where e = e and em = em and db = db, OF id]
  have inv: "invalidations (er_rows ?r) =
      (if map_affecting (em_resource_type em) \<and> fresh_key db (map_marker db) iid then 1 else 0)"
    using Cons.prems(2) by (intro c(5)) simp
  obtain inc' new where ih:
    "get_incident_by_id (emit_all e iid ems ?db) iid = Some inc'"
    "db_outbox (emit_all e iid ems ?db) = db_outbox ?db @ new"
    "inc_data_revision inc' = inc_data_revision (er_incident ?r)
         + (if fresh_key ?db (data_marker ?db) iid
               \<and> (\<exists>em \<in> set ems. data_affecting (em_resource_type em)) then 1 else 0)"
    "inc_map_revision inc' = inc_map_revision (er_incident ?r)
         + (if fresh_key ?db (map_marker ?db) iid
               \<and> (\<exists>em \<in> set ems. map_affecting (em_resource_type em)) then 1 else 0)"
    "invalidations new =
         (if fresh_key ?db (map_marker ?db) iid
             \<and> (\<exists>em \<in> set ems. map_affecting (em_resource_type em)) then 1 else 0)"
    using Cons.IH [OF got] Cons.prems(2) by auto
  show ?case
    unfolding unfold
    by (intro exI [of _ inc'] exI [of _ "er_rows ?r @ new"])
      (auto simp: ih c inv fresh_key_def)
qed

section \<open>Briefs and their stale notices\<close>

text \<open>
  The outcome of the no-autoflush query: after an emission the briefs just marked are still
  current for the next query of the same transaction, unless a flush came in between.
\<close>

lemma mark_brief_stale_simps [simp]:
  "an_id (mark_brief_stale e t a) = an_id a"
  "an_incident_id (mark_brief_stale e t a) = an_incident_id a"
  "an_analysis_type (mark_brief_stale e t a) = an_analysis_type a"
  "an_status (mark_brief_stale e t a) = an_status a"
  "an_input_version (mark_brief_stale e t a) = an_input_version a"
  "an_is_stale (mark_brief_stale e t a)"
  by (simp_all add: mark_brief_stale_def)

interpretation brief: keyed_update an_id "mark_brief_stale e t" for e t
  by unfold_locales simp

lemma emit_core_stale:
  "er_stale (emit_core e em db inc) =
     (if data_affecting (em_resource_type em)
      then current_briefs db (er_incident (emit_core e em db inc)) else [])"
  by (auto simp: emit_core_def Let_def current_briefs_def)

lemma current_briefs_cong:
  "inc_id i = inc_id j \<Longrightarrow> inc_data_revision i = inc_data_revision j \<Longrightarrow>
     current_briefs db i = current_briefs db j"
  by (simp add: current_briefs_def)

lemma current_briefs_after_emit:
  assumes "distinct (map an_id (db_analyses db))"
    and da: "data_affecting (em_resource_type em)"
    and r: "r = emit_core e em db inc"
    and rev: "inc_id j = inc_id inc" "inc_data_revision j = inc_data_revision (er_incident r)"
  shows "map an_id (current_briefs (store_emit e em r db) j) = map an_id (er_stale r)"
    and "current_briefs (flush (store_emit e em r db)) j = []"
proof -
  have st: "er_stale r = current_briefs db j"
    using da rev unfolding r emit_core_stale by (simp add: current_briefs_cong)
  let ?as = "db_analyses db"
  let ?Q = "\<lambda>a. an_incident_id a = inc_id j \<and> an_analysis_type a = ''command_brief''
               \<and> an_status a = ''succeeded'' \<and> an_input_version a \<noteq> inc_data_revision j"
  let ?C = "\<lambda>a. ?Q a \<and> (\<not> an_is_stale a \<or> an_id a \<in> set (pending_stale db))"
  have cur: "current_briefs db j = filter ?C ?as"
    by (auto simp: current_briefs_def intro: filter_cong)
  have ids: "an_id a \<in> an_id ` set (filter ?C ?as) \<longleftrightarrow> ?C a" if "a \<in> set ?as" for a
    using assms(1) that by (auto simp: distinct_map inj_on_def)
  have gen: "map an_id (filter (\<lambda>a. ?Q a \<and> (\<not> an_is_stale a \<or>
        an_id a \<in> an_id ` set (filter ?C ?as) \<union> set (pending_stale db)))
      (modify_where (\<lambda>a. a \<in> set (filter ?C ?as)) (mark_brief_stale e t) bs))
      = map an_id (filter ?C bs)" if "set bs \<subseteq> set ?as" for bs t
    using that
  proof (induction bs)
    case Nil
    then show ?case by simp
  next
    case (Cons b bs)
    then have "an_id b \<in> an_id ` set (filter ?C ?as) \<longleftrightarrow> ?C b" using ids by simp
    moreover have "b \<in> set ?as" using Cons.prems by simp
    ultimately show ?case using Cons by auto
  qed
  show "map an_id (current_briefs (store_emit e em r db) j) = map an_id (er_stale r)"
  proof -
    have "current_briefs (store_emit e em r db) j =
      filter (\<lambda>a. ?Q a \<and> (\<not> an_is_stale a \<or>
          an_id a \<in> an_id ` set (filter ?C ?as) \<union> set (pending_stale db)))
        (modify_where (\<lambda>a. a \<in> set (filter ?C ?as)) (mark_brief_stale e (em_event_type em)) ?as)"
      unfolding current_briefs_def [of "store_emit e em r db"]
      by (simp add: store_emit_def st cur) (rule filter_cong; auto)
    then show ?thesis using gen [of ?as "em_event_type em"] st cur by simp
  qed
  show "current_briefs (flush (store_emit e em r db)) j = []"
    unfolding current_briefs_def flush_def store_emit_def st cur
    by (auto simp: filter_empty_conv set_modify_where)
qed

section \<open>Properties\<close>

text \<open>A small database for the witnesses: one active incident and one finished brief.\<close>

definition demo_env :: env where
  "demo_env = \<lparr>now = 0, new_id = (\<lambda>n. replicate n CHR ''i''), request_ctx = None\<rparr>"

definition demo_incident :: incident where
  "demo_incident = \<lparr>inc_id = ''inc'', inc_alias = None, inc_name = ''flood'',
     inc_status = ''active'', inc_closed_at = None, inc_started_at = 0,
     inc_center_latitude = None, inc_center_longitude = None,
     inc_map_coordinate_system = ''gcj02'', inc_map_default_zoom = 12,
     inc_feature_flags = JObj [], inc_event_sequence = 0, inc_data_revision = 0,
     inc_map_revision = 0, inc_type = ''flood'', inc_timezone = ''Asia/Shanghai''\<rparr>"

definition demo_brief :: ai_analysis where
  "demo_brief = \<lparr>an_id = ''brief'', an_incident_id = ''inc'',
     an_analysis_type = ''command_brief'', an_status = ''succeeded'', an_input_snapshot = JNull,
     an_context_package = None, an_context_sha256 = None, an_output = None,
     an_prompt_version = ''v1'', an_created_by_id = None, an_input_version = 0,
     an_is_stale = False, an_stale_at = None, an_stale_reason = None\<rparr>"

definition demo_db :: ev_db where
  "demo_db = \<lparr>db_incidents = [demo_incident], db_analyses = [demo_brief], db_outbox = [],
     db_audit = [], tx_key = 1, data_marker = None, map_marker = None, pending_stale = [],
     id_count = 0\<rparr>"

definition demo_emission :: emission where
  "demo_emission = \<lparr>em_event_type = ''report.created'', em_resource_type = ''report'',
     em_resource_id = Some ''r'', em_resource_revision = Some 1, em_payload = JObj [],
     em_visibility = ''operators'', em_owner_device_id = None, em_request_id = None\<rparr>"

lemmas demo_defs = demo_env_def demo_incident_def demo_brief_def demo_db_def demo_emission_def

lemma demo_incident_found: "get_incident_by_id demo_db ''inc'' = Some demo_incident"
  by (simp add: get_incident_by_id_def demo_defs)

text \<open>
  C1. The outbox of an incident is a gap-free log: whatever events are emitted, in whatever
  transactions and for whatever incidents, the rows of one incident carry exactly the
  numbers 1 up to its \<open>event_sequence\<close>, in insertion order and each once (the notices about
  stale briefs and map invalidations included).
\<close>

theorem outbox_gap_free:
  assumes "log_of db i = []" "sequence_of db i = 0"
  shows "set (map ob_sequence (log_of (fold emit_step xs db) i))
           = {1 .. sequence_of (fold emit_step xs db) i}
       \<and> sorted_wrt (<) (map ob_sequence (log_of (fold emit_step xs db) i))"
proof -
  have "outbox.numbered db i" using assms by (simp add: outbox.numbered_def)
  then have "outbox.numbered (fold emit_step xs db) i" by (rule outbox.numbered_run)
  then show ?thesis
    using outbox.numbered_set outbox.numbered_sorted by blast
qed

theorem outbox_gap_free_witness:
  "set (map ob_sequence (log_of
       (fold emit_step [(demo_env, ''inc'', demo_emission)] demo_db) ''inc''))
     = {1 .. sequence_of (fold emit_step [(demo_env, ''inc'', demo_emission)] demo_db) ''inc''}"
proof -
  have "log_of demo_db ''inc'' = []" by (simp add: log_of_def demo_defs)
  moreover have "sequence_of demo_db ''inc'' = 0"
    by (simp add: sequence_of_def demo_incident_found) (simp add: demo_defs)
  ultimately show ?thesis by (rule outbox_gap_free [THEN conjunct1])
qed

text \<open>
  One transaction moves the data revision and the map revision of its incident by at
  most one, however many events it emits: by exactly one when some event touches data (or
  the map), and then it announces \<open>map_view.invalidated\<close> exactly once.
\<close>

theorem one_revision_per_transaction:
  assumes "get_incident_by_id db iid = Some inc"
    and "data_marker db \<noteq> Some (tx_key db, iid)" "map_marker db \<noteq> Some (tx_key db, iid)"
    and "\<forall>em \<in> set ems. em_event_type em \<noteq> ''map_view.invalidated''"
  shows "\<exists>inc' new. get_incident_by_id (emit_all e iid ems db) iid = Some inc'
     \<and> db_outbox (emit_all e iid ems db) = db_outbox db @ new
     \<and> inc_data_revision inc' = inc_data_revision inc
         + (if \<exists>em \<in> set ems. data_affecting (em_resource_type em) then 1 else 0)
     \<and> inc_map_revision inc' = inc_map_revision inc
         + (if \<exists>em \<in> set ems. map_affecting (em_resource_type em) then 1 else 0)
     \<and> invalidations new =
         (if \<exists>em \<in> set ems. map_affecting (em_resource_type em) then 1 else 0)"
  using emit_all_counters [OF assms(1) assms(4), of e] assms(2,3) by (simp add: fresh_key_def)

theorem one_revision_per_transaction_witness:
  "\<exists>inc'. get_incident_by_id
       (emit_all demo_env ''inc'' [demo_emission, demo_emission] demo_db) ''inc'' = Some inc'
     \<and> inc_data_revision inc' = 1 \<and> inc_map_revision inc' = 1"
proof -
  have h: "data_marker demo_db \<noteq> Some (tx_key demo_db, ''inc'')"
    "map_marker demo_db \<noteq> Some (tx_key demo_db, ''inc'')"
    "\<forall>em \<in> set [demo_emission, demo_emission]. em_event_type em \<noteq> ''map_view.invalidated''"
    by (simp_all add: demo_defs)
  show ?thesis
    using one_revision_per_transaction [OF demo_incident_found h, of demo_env]
    by (auto simp: demo_incident_def demo_emission_def data_affecting_def map_affecting_def)
qed

text \<open>
  C19. No finished brief survives a change of the data it was computed from: after an event on
  a data resource every succeeded command brief of the incident is stale or was computed
  from the incident's present data revision.
\<close>

theorem briefs_follow_data:
  assumes "get_incident_by_id db iid = Some inc" "data_affecting (em_resource_type em)"
    and "snd (emit_event e iid em db) = db'" "get_incident_by_id db' iid = Some inc'"
    and "a \<in> set (db_analyses db')" "an_incident_id a = iid"
    and "an_analysis_type a = ''command_brief''" "an_status a = ''succeeded''"
  shows "an_is_stale a \<or> an_input_version a = inc_data_revision inc'"
proof -
  let ?r = "emit_core e em db inc"
  have inc': "inc' = er_incident ?r"
    using get_incident_emit [OF assms(1), of e em iid] assms(3,4) by simp
  have id: "inc_id inc = iid"
    using assms(1) by (auto simp: get_incident_by_id_def dest: find_SomeD)
  have stale: "er_stale ?r = current_briefs db inc'"
    using assms(2) by (simp add: emit_core_stale inc')
  have "a \<in> set (modify_where (\<lambda>a. a \<in> set (current_briefs db inc'))
      (mark_brief_stale e (em_event_type em)) (db_analyses db))"
    using assms(3,5) emit_event_found [OF assms(1), of e em] stale
    by (auto simp: store_emit_def)
  then obtain b where b: "b \<in> set (db_analyses db)"
    "a = (if b \<in> set (current_briefs db inc') then mark_brief_stale e (em_event_type em) b else b)"
    by (auto simp: in_modify_where_iff)
  show ?thesis
  proof (cases "b \<in> set (current_briefs db inc')")
    case True
    with b show ?thesis by simp
  next
    case False
    then show ?thesis using b assms(6-8) id by (auto simp: current_briefs_def inc')
  qed
qed

theorem briefs_follow_data_witness:
  "\<exists>a \<in> set (db_analyses (snd (emit_event demo_env ''inc'' demo_emission demo_db))).
     an_id a = ''brief'' \<and> (an_is_stale a \<or> an_input_version a = 1)"
proof -
  let ?db = "snd (emit_event demo_env ''inc'' demo_emission demo_db)"
  let ?r = "emit_core demo_env demo_emission demo_db demo_incident"
  let ?a = "mark_brief_stale demo_env ''report.created'' demo_brief"
  have da: "data_affecting (em_resource_type demo_emission)"
    by (simp add: data_affecting_def demo_emission_def)
  have got: "get_incident_by_id ?db ''inc'' = Some (er_incident ?r)"
    using get_incident_emit [OF demo_incident_found, of demo_env demo_emission] by simp
  have rev: "inc_data_revision (er_incident ?r) = 1"
    by (simp add: emit_core_def Let_def data_affecting_def demo_defs)
  have mem: "?a \<in> set (db_analyses ?db)"
    using emit_event_found [OF demo_incident_found, of demo_env demo_emission] da rev
    by (simp add: store_emit_def emit_core_stale current_briefs_def)
      (simp add: demo_db_def demo_brief_def demo_incident_def demo_emission_def)
  have "an_is_stale ?a \<or> an_input_version ?a = inc_data_revision (er_incident ?r)"
    by (rule briefs_follow_data [OF demo_incident_found da refl got mem])
      (simp_all add: mark_brief_stale_def demo_brief_def)
  with mem rev show ?thesis by (intro bexI [OF _ mem]) (simp add: demo_brief_def)
qed

text \<open>
  What the no-autoflush query costs: two events on data resources emitted in one
  transaction without a flush in between announce every stale brief twice, because the
  second query still sees the unflushed flag in the database; with a flush in between the
  second event announces none.
\<close>

theorem stale_brief_announced_twice:
  assumes "get_incident_by_id db iid = Some inc" "distinct (map an_id (db_analyses db))"
    and "data_affecting (em_resource_type em)" "data_affecting (em_resource_type em')"
    and "snd (emit_event e iid em db) = db1" "get_incident_by_id db1 iid = Some inc1"
  shows "map an_id (er_stale (emit_core e' em' db1 inc1))
           = map an_id (er_stale (emit_core e em db inc))
         \<and> er_stale (emit_core e' em' (flush db1) inc1) = []"
proof (rule conjI)
  let ?r = "emit_core e em db inc"
  have id: "inc_id inc = iid"
    using assms(1) by (auto simp: get_incident_by_id_def dest: find_SomeD)
  have db1: "db1 = store_emit e em ?r db"
    using assms(5) emit_event_found [OF assms(1), of e em] by simp
  have inc1: "inc1 = er_incident ?r"
    using get_incident_emit [OF assms(1), of e em iid] assms(5,6) by simp
  have id1: "inc_id inc1 = iid" by (simp add: inc1 id)
  note marker = emit_core_counters(3) [OF id, of e em db]
  have rev: "inc_data_revision (er_incident (emit_core e' em' d inc1))
      = inc_data_revision (er_incident ?r)"
    if "d = db1 \<or> d = flush db1" for d
    using emit_core_counters(1) [OF id1, of e' em' d] that assms(3) marker
    by (auto simp: fresh_key_def db1 inc1 flush_def)
  show "map an_id (er_stale (emit_core e' em' db1 inc1)) = map an_id (er_stale ?r)"
    unfolding emit_core_stale [of e' em'] using assms(4) id id1 rev [of db1]
    by (simp add: db1 current_briefs_after_emit(1) [OF assms(2,3) refl])
  show "er_stale (emit_core e' em' (flush db1) inc1) = []"
    unfolding emit_core_stale [of e' em'] using assms(4) id id1 rev [of "flush db1"]
    by (simp add: db1 current_briefs_after_emit(2) [OF assms(2,3) refl])
qed

theorem stale_brief_announced_twice_witness:
  "\<exists>inc1. get_incident_by_id (snd (emit_event demo_env ''inc'' demo_emission demo_db)) ''inc''
       = Some inc1
     \<and> map an_id (er_stale (emit_core demo_env demo_emission
         (snd (emit_event demo_env ''inc'' demo_emission demo_db)) inc1)) = [''brief'']"
proof -
  let ?r = "emit_core demo_env demo_emission demo_db demo_incident"
  let ?db = "snd (emit_event demo_env ''inc'' demo_emission demo_db)"
  have da: "data_affecting (em_resource_type demo_emission)"
    by (simp add: data_affecting_def demo_emission_def)
  have got: "get_incident_by_id ?db ''inc'' = Some (er_incident ?r)"
    using get_incident_emit [OF demo_incident_found, of demo_env demo_emission] by simp
  have "distinct (map an_id (db_analyses demo_db))" by (simp add: demo_defs)
  then have again: "map an_id (er_stale (emit_core demo_env demo_emission ?db (er_incident ?r)))
      = map an_id (er_stale ?r)"
    by (rule stale_brief_announced_twice [THEN conjunct1, OF demo_incident_found _ da da refl got])
  have rev: "inc_data_revision (er_incident ?r) = 1"
    by (simp add: emit_core_def Let_def data_affecting_def demo_defs)
  have "map an_id (er_stale ?r) = [''brief'']"
    by (simp add: emit_core_stale da current_briefs_def rev)
      (simp add: demo_db_def demo_brief_def demo_incident_def)
  with again got show ?thesis by auto
qed

end
