(* ===== verification/Jobs.thy ===== *)
theory Jobs
  imports Events "HOL-Library.Char_ord" "HOL-Library.List_Lexorder" "HOL-Library.Product_Lexorder"
begin

text \<open>
  The worker (\<open>workers.py\<close>): the durable queue of background jobs with its leases and
  retries, and the dispatcher of the outbox.  What a job does to the domain tables is a
  parameter of \<open>execute_job\<close> (\<open>process_attachment\<close>, \<open>process_remote_media\<close>, \<open>process_analysis\<close>,
  \<open>run_report_blind_spot_detection\<close>), as is the handler the dispatcher hands envelopes to.
\<close>

section \<open>The queue\<close>

record job =
  jb_id :: ident
  jb_type :: string
  jb_status :: string
  jb_payload :: json
  jb_attempts :: int
  jb_max_attempts :: int
  jb_run_after :: time
  jb_lease_expires_at :: "time option"
  jb_last_error :: "string option"
  jb_created_at :: time
  jb_updated_at :: time

definition claimable :: "time \<Rightarrow> job \<Rightarrow> bool" where
  "claimable t j \<longleftrightarrow>
     (jb_status j = ''queued'' \<or> jb_status j = ''retry'') \<and> jb_run_after j \<le> t
     \<or> jb_status j = ''running'' \<and> (case jb_lease_expires_at j of None \<Rightarrow> False | Some x \<Rightarrow> x \<le> t)"

text \<open>\<open>ORDER BY run_after, created_at LIMIT 1\<close>: the sort is stable.\<close>

definition job_order :: "job \<Rightarrow> time \<times> time" where
  "job_order j = (jb_run_after j, jb_created_at j)"

definition next_job :: "time \<Rightarrow> job list \<Rightarrow> job option" where
  "next_job t jobs = (case sort_key job_order (filter (claimable t) jobs) of
     [] \<Rightarrow> None | j # _ \<Rightarrow> Some j)"

definition claim_row :: "int \<Rightarrow> time \<Rightarrow> job \<Rightarrow> job" where
  "claim_row lease_seconds t j =
     j\<lparr>jb_status := ''running'', jb_attempts := jb_attempts j + 1,
       jb_lease_expires_at := Some (t + seconds lease_seconds), jb_updated_at := t\<rparr>"

definition claim_job :: "int \<Rightarrow> time \<Rightarrow> job list \<Rightarrow> ident option \<times> job list" where
  "claim_job lease_seconds t jobs =
     (case next_job t jobs of
        None \<Rightarrow> (None, jobs)
      | Some j \<Rightarrow>
          (Some (jb_id j),
           modify_where (\<lambda>x. jb_id x = jb_id j) (claim_row lease_seconds t) jobs))"

text \<open>\<open>delays[i]\<close> with Python's negative indices.\<close>

definition py_nth :: "'x list \<Rightarrow> int \<Rightarrow> 'x" where
  "py_nth xs i = (if i < 0 then xs ! nat (int (length xs) + i) else xs ! nat i)"

definition retry_delay :: "int \<Rightarrow> int" where
  "retry_delay attempts = py_nth [1, 5, 30] (min (attempts - 1) 2)"

definition finish_job_row :: "time \<Rightarrow> string option \<Rightarrow> job \<Rightarrow> job" where
  "finish_job_row t error j =
     (let j1 = j\<lparr>jb_lease_expires_at := None, jb_updated_at := t\<rparr>
      in case error of
           None \<Rightarrow> j1\<lparr>jb_status := ''succeeded'', jb_last_error := None\<rparr>
         | Some msg \<Rightarrow>
             let j2 = j1\<lparr>jb_last_error := Some (take 4000 msg)\<rparr>
             in if jb_attempts j \<ge> jb_max_attempts j then j2\<lparr>jb_status := ''failed''\<rparr>
                else j2\<lparr>jb_status := ''retry'',
                        jb_run_after := t + seconds (retry_delay (jb_attempts j))\<rparr>)"

definition finish_job :: "time \<Rightarrow> string option \<Rightarrow> ident \<Rightarrow> job list \<Rightarrow> job list" where
  "finish_job t error i jobs =
     (case find (\<lambda>j. jb_id j = i) jobs of
        None \<Rightarrow> jobs
      | Some j \<Rightarrow> if jb_status j \<noteq> ''running'' then jobs
          else modify_where (\<lambda>x. jb_id x = i) (finish_job_row t error) jobs)"

definition defer_row :: "time \<Rightarrow> time \<Rightarrow> job \<Rightarrow> job" where
  "defer_row t due j =
     j\<lparr>jb_status := ''queued'', jb_attempts := max 0 (jb_attempts j - 1), jb_run_after := due,
       jb_lease_expires_at := None,
       jb_last_error := Some ''deferred until the fixed blind-spot due time'', jb_updated_at := t\<rparr>"

definition defer_job :: "time \<Rightarrow> time \<Rightarrow> ident \<Rightarrow> job list \<Rightarrow> job list" where
  "defer_job t due i jobs = modify_where (\<lambda>x. jb_id x = i) (defer_row t due) jobs"

text \<open>
  \<open>_execute_job\<close>: \<open>work\<close> is what the job type's service does to the domain, an error message
  or None; \<open>parse_iso\<close> is \<open>datetime.fromisoformat\<close> (the message of its
  \<open>ValueError\<close>, or the time).
\<close>

definition blind_spot_due :: "(string \<Rightarrow> string + time) \<Rightarrow> job \<Rightarrow> string + time" where
  "blind_spot_due parse_iso j =
     (case jget (jb_payload j) ''due_at'' of
        JStr s \<Rightarrow> parse_iso s
      | _ \<Rightarrow> Inr (jb_run_after j))"

definition known_job_types :: "string list" where
  "known_job_types = [''attachment.process'', ''media.process'', ''ai.analysis'', ''blind_spot.detect'']"

definition execute_job ::
    "(string \<Rightarrow> string + time) \<Rightarrow> (job \<Rightarrow> 'd \<Rightarrow> string option \<times> 'd) \<Rightarrow> time \<Rightarrow> ident
      \<Rightarrow> 'd \<times> job list \<Rightarrow> 'd \<times> job list" where
  "execute_job parse_iso work t i s =
     (case find (\<lambda>j. jb_id j = i) (snd s) of
        None \<Rightarrow> s
      | Some j \<Rightarrow>
          if jb_status j \<noteq> ''running'' then s
          else if jb_type j \<notin> set known_job_types
          then (fst s, finish_job t (Some (''RuntimeError: unknown background job type: '' @ jb_type j))
                  i (snd s))
          else (let run = (let r = work j (fst s) in (snd r, finish_job t (fst r) i (snd s)))
                in if jb_type j = ''blind_spot.detect''
                   then (case blind_spot_due parse_iso j of
                      Inl err \<Rightarrow> (fst s, finish_job t (Some err) i (snd s))
                    | Inr due \<Rightarrow> if t < due then (fst s, defer_job t due i (snd s)) else run)
                   else run))"

section \<open>Publishing the outbox\<close>

definition unpublished :: "outbox_row list \<Rightarrow> outbox_row list" where
  "unpublished rows = take 100 (sort_key (\<lambda>r. (ob_incident_id r, ob_sequence r))
     (filter (\<lambda>r. ob_published_at r = None) rows))"

definition failed_publish :: "outbox_row \<Rightarrow> outbox_row" where
  "failed_publish r = r\<lparr>ob_publish_attempts := ob_publish_attempts r + 1\<rparr>"

definition mark_published :: "time \<Rightarrow> outbox_row \<Rightarrow> outbox_row" where
  "mark_published t r =
     (if ob_published_at r = None
      then r\<lparr>ob_publish_attempts := ob_publish_attempts r + 1, ob_published_at := Some t\<rparr> else r)"

text \<open>
  The loop over the batch.  The handler answers False when it raises; then the loop stops.
  \<open>'h\<close> is the state of the handler.
\<close>

fun publish_rows ::
    "(envelope \<Rightarrow> 'h \<Rightarrow> bool \<times> 'h) \<Rightarrow> time \<Rightarrow> outbox_row list \<Rightarrow> 'h \<times> outbox_row list
      \<Rightarrow> nat \<times> 'h \<times> outbox_row list" where
  "publish_rows handler t [] s = (0, s)"
| "publish_rows handler t (r # rs) s =
     (let res = handler (ob_payload r) (fst s)
      in if \<not> fst res
         then (0, snd res, modify_where (\<lambda>x. ob_id x = ob_id r) failed_publish (snd s))
         else (let rest = publish_rows handler t rs
                     (snd res, modify_where (\<lambda>x. ob_id x = ob_id r) (mark_published t) (snd s))
               in (Suc (fst rest), snd rest)))"

definition publish_outbox_batch ::
    "(envelope \<Rightarrow> 'h \<Rightarrow> bool \<times> 'h) \<Rightarrow> time \<Rightarrow> 'h \<times> outbox_row list
      \<Rightarrow> nat \<times> 'h \<times> outbox_row list" where
  "publish_outbox_batch handler t s = publish_rows handler t (unpublished (snd s)) s"

section \<open>Histories of the queue\<close>

text \<open>
  The worker claims a job or executes one it claimed; \<open>Execute\<close> carries the outcome of the
  work.  A claim that is not followed by an execution is a worker that died.
\<close>

datatype job_op =
    Claim time
  | Execute time ident "string option"

fun run_job_op :: "int \<Rightarrow> (string \<Rightarrow> string + time) \<Rightarrow> job_op \<Rightarrow> job list \<Rightarrow> job list" where
  "run_job_op lease_seconds parse_iso (Claim t) jobs = snd (claim_job lease_seconds t jobs)"
| "run_job_op lease_seconds parse_iso (Execute t i err) jobs =
     snd (execute_job parse_iso (\<lambda>_ d. (err, d)) t i ((), jobs))"

interpretation claimed: keyed_update jb_id "claim_row lease t" for lease t
  by unfold_locales (simp add: claim_row_def)

interpretation finished: keyed_update jb_id "finish_job_row t err" for t err
  by unfold_locales (simp add: finish_job_row_def Let_def split: option.splits)

interpretation deferred: keyed_update jb_id "defer_row t due" for t due
  by unfold_locales (simp add: defer_row_def)

lemma next_job_SomeD:
  assumes "next_job t jobs = Some j"
  shows "j \<in> set jobs" "claimable t j"
    and "k \<in> set jobs \<Longrightarrow> claimable t k \<Longrightarrow> job_order j \<le> job_order k"
proof -
  let ?xs = "sort_key job_order (filter (claimable t) jobs)"
  obtain rest where xs: "?xs = j # rest"
    using assms by (auto simp: next_job_def split: list.splits)
  then have "j \<in> set ?xs" by simp
  then show "j \<in> set jobs" "claimable t j" by simp_all
  assume "k \<in> set jobs" "claimable t k"
  then have "k \<in> set (j # rest)" unfolding xs [symmetric] by simp
  moreover have "sorted (map job_order (j # rest))" unfolding xs [symmetric] by (rule sorted_sort_key)
  ultimately show "job_order j \<le> job_order k" by auto
qed

lemma next_job_None: "next_job t jobs = None \<longleftrightarrow> (\<forall>j \<in> set jobs. \<not> claimable t j)"
proof -
  have xs: "set (sort_key job_order (filter (claimable t) jobs)) = {j \<in> set jobs. claimable t j}"
    by simp
  show ?thesis
  proof (cases "sort_key job_order (filter (claimable t) jobs)")
    case Nil
    then show ?thesis using xs by (auto simp: next_job_def)
  next
    case (Cons j rest)
    then have "j \<in> {j \<in> set jobs. claimable t j}" using xs by (metis list.set_intros(1))
    then show ?thesis using Cons by (auto simp: next_job_def)
  qed
qed

lemma execute_shape:
  "snd (execute_job parse_iso work t i (d, jobs)) = jobs
   \<or> (\<exists>err. snd (execute_job parse_iso work t i (d, jobs)) = finish_job t err i jobs)
   \<or> (\<exists>j due. find (\<lambda>j. jb_id j = i) jobs = Some j \<and> jb_status j = ''running'' \<and> t < due
        \<and> snd (execute_job parse_iso work t i (d, jobs)) = defer_job t due i jobs)"
  by (auto simp: execute_job_def Let_def split: option.splits sum.splits)

lemma job_keys: "map jb_id (run_job_op lease prs opn jobs) = map jb_id jobs"
proof (cases opn)
  case (Claim t)
  then show ?thesis by (simp add: claim_job_def claimed.keys split: option.splits)
next
  case (Execute t i err)
  have "map jb_id (finish_job t e i jobs) = map jb_id jobs" for e
    by (simp add: finish_job_def finished.keys split: option.splits)
  moreover have "map jb_id (defer_job t due i jobs) = map jb_id jobs" for due
    by (simp add: defer_job_def deferred.keys)
  ultimately show ?thesis
    using execute_shape [of prs "\<lambda>_ d. (err, d)" t i "()" jobs] Execute by auto
qed

text \<open>A lease that runs at least until \<open>x\<close>.\<close>

definition leased :: "ident \<Rightarrow> time \<Rightarrow> job list \<Rightarrow> bool" where
  "leased i x jobs \<longleftrightarrow> (\<exists>j y. find (\<lambda>j. jb_id j = i) jobs = Some j \<and> jb_status j = ''running''
     \<and> jb_lease_expires_at j = Some y \<and> x \<le> y)"

lemma leased_not_claimed:
  assumes "leased i x jobs" "distinct (map jb_id jobs)" "t < x"
  shows "fst (claim_job lease t jobs) \<noteq> Some i"
proof
  assume "fst (claim_job lease t jobs) = Some i"
  then obtain k where k: "next_job t jobs = Some k" "jb_id k = i"
    by (auto simp: claim_job_def split: option.splits)
  have "find (\<lambda>j. jb_id j = i) jobs = Some k"
    using find_unique [OF assms(2) next_job_SomeD(1) [OF k(1)]] k(2) by simp
  with assms(1,3) next_job_SomeD(2) [OF k(1)] show False
    by (auto simp: leased_def claimable_def)
qed

lemma execute_other:
  assumes "i \<noteq> i'"
  shows "find (\<lambda>j. jb_id j = i) (snd (execute_job prs work t i' (d, jobs))) = find (\<lambda>j. jb_id j = i) jobs"
proof -
  have "find (\<lambda>j. jb_id j = i) (finish_job t e i' jobs) = find (\<lambda>j. jb_id j = i) jobs" for e
    using assms by (simp add: finish_job_def finished.find_other split: option.splits)
  moreover have "find (\<lambda>j. jb_id j = i) (defer_job t due i' jobs) = find (\<lambda>j. jb_id j = i) jobs" for due
    using assms by (simp add: defer_job_def deferred.find_other)
  ultimately show ?thesis using execute_shape [of prs work t i' d jobs] by auto
qed

lemma leased_step:
  assumes "leased i x jobs" "distinct (map jb_id jobs)" "0 \<le> lease" "\<forall>t err. opn \<noteq> Execute t i err"
  shows "leased i x (run_job_op lease prs opn jobs)"
proof (cases opn)
  case (Claim t)
  show ?thesis
  proof (cases "next_job t jobs")
    case None
    then show ?thesis using assms(1) Claim by (simp add: claim_job_def)
  next
    case (Some k)
    then have tbl: "run_job_op lease prs opn jobs
        = modify_where (\<lambda>x. jb_id x = jb_id k) (claim_row lease t) jobs"
      using Claim by (simp add: claim_job_def)
    show ?thesis
    proof (cases "jb_id k = i")
      case True
      have "find (\<lambda>j. jb_id j = i) jobs = Some k"
        using find_unique [OF assms(2) next_job_SomeD(1) [OF Some]] True by simp
      then have "x \<le> t" "find (\<lambda>j. jb_id j = i) (run_job_op lease prs opn jobs) = Some (claim_row lease t k)"
        using assms(1) next_job_SomeD(2) [OF Some]
        by (auto simp: leased_def claimable_def tbl True claimed.find_same)
      then show ?thesis using assms(3) by (simp add: leased_def claim_row_def seconds_def)
    next
      case False
      then show ?thesis using assms(1) by (simp add: leased_def tbl claimed.find_other)
    qed
  qed
next
  case (Execute t i' err)
  then have "i \<noteq> i'" using assms(4) by blast
  then show ?thesis using assms(1) Execute by (simp add: leased_def execute_other)
qed

lemma leased_run:
  assumes "leased i x jobs" "distinct (map jb_id jobs)" "0 \<le> lease"
    and "\<forall>opn \<in> set ops. \<forall>t err. opn \<noteq> Execute t i err"
  shows "leased i x (fold (run_job_op lease prs) ops jobs)
    \<and> distinct (map jb_id (fold (run_job_op lease prs) ops jobs))"
  using assms
proof (induction ops arbitrary: jobs)
  case (Cons opn ops)
  have "leased i x (run_job_op lease prs opn jobs)" using Cons.prems by (intro leased_step) auto
  then show ?case using Cons by (simp add: job_keys)
qed simp

section \<open>One row under the queue\<close>

text \<open>A row stays within its attempts as long as no claim finds an expired lease.\<close>

definition row_ok :: "job \<Rightarrow> bool" where
  "row_ok j \<longleftrightarrow> 0 \<le> jb_attempts j \<and> jb_attempts j \<le> jb_max_attempts j
     \<and> (jb_status j = ''queued'' \<or> jb_status j = ''retry'' \<longrightarrow> jb_attempts j < jb_max_attempts j)
     \<and> (jb_status j = ''running'' \<longrightarrow> 1 \<le> jb_attempts j)
     \<and> (jb_status j = ''failed'' \<longrightarrow> jb_attempts j = jb_max_attempts j)"

definition lease_live :: "time \<Rightarrow> job \<Rightarrow> bool" where
  "lease_live t j \<longleftrightarrow> jb_status j = ''running'' \<longrightarrow> \<not> claimable t j"

lemma row_ok_claim:
  "row_ok j \<Longrightarrow> claimable t j \<Longrightarrow> lease_live t j \<Longrightarrow> row_ok (claim_row lease t j)"
  by (auto simp: row_ok_def claimable_def lease_live_def claim_row_def)

lemma row_ok_finish: "row_ok j \<Longrightarrow> jb_status j = ''running'' \<Longrightarrow> row_ok (finish_job_row t err j)"
  by (auto simp: row_ok_def finish_job_row_def Let_def split: option.splits)

lemma row_ok_defer: "row_ok j \<Longrightarrow> jb_status j = ''running'' \<Longrightarrow> row_ok (defer_row t due j)"
  by (auto simp: row_ok_def defer_row_def)

text \<open>An update by primary key touches the one row that was found.\<close>

lemma modify_found:
  assumes "distinct (map key rs)" "r \<in> set rs" "\<forall>x \<in> set rs. Q x" "Q (f r)"
  shows "\<forall>x \<in> set (modify_where (\<lambda>x. key x = key r) f rs). Q x"
proof -
  have "inj_on key (set rs)" using assms(1) by (simp add: distinct_map)
  then have one: "x = r" if "x \<in> set rs" "key x = key r" for x
    using that assms(2) by (auto dest: inj_onD)
  have "Q (if key x = key r then f x else x)" if "x \<in> set rs" for x
    using one [OF that] assms(3,4) that by (cases "key x = key r") auto
  then show ?thesis by (auto simp only: in_modify_where_iff)
qed

lemma rows_ok_step:
  assumes ok: "\<forall>j \<in> set jobs. row_ok j" and dist: "distinct (map jb_id jobs)"
    and live: "\<forall>t. opn = Claim t \<longrightarrow> (\<forall>j \<in> set jobs. lease_live t j)"
  shows "\<forall>j \<in> set (run_job_op lease prs opn jobs). row_ok j"
proof (cases opn)
  case (Claim t)
  show ?thesis
  proof (cases "next_job t jobs")
    case (Some j)
    note j = next_job_SomeD(1,2) [OF Some]
    have "row_ok (claim_row lease t j)" using row_ok_claim j ok live Claim by blast
    then show ?thesis using modify_found [OF dist j(1) ok] Claim Some by (simp add: claim_job_def)
  qed (use ok Claim in \<open>simp add: claim_job_def\<close>)
next
  case (Execute t i err)
  have found: "j \<in> set jobs" "jb_id j = i" if "find (\<lambda>j. jb_id j = i) jobs = Some j" for j
    using find_SomeD [OF that] by simp_all
  have "\<forall>j \<in> set (finish_job t e i jobs). row_ok j" for e
  proof (cases "find (\<lambda>j. jb_id j = i) jobs")
    case (Some j)
    have "\<forall>j \<in> set (modify_where (\<lambda>x. jb_id x = i) (finish_job_row t e) jobs). row_ok j"
      if "jb_status j = ''running''"
      using modify_found [OF dist found(1) [OF Some] ok] found [OF Some] ok
        row_ok_finish [OF _ that] by auto
    then show ?thesis using Some ok by (simp add: finish_job_def)
  qed (use ok in \<open>simp add: finish_job_def\<close>)
  moreover have "\<forall>j \<in> set (defer_job t due i jobs). row_ok j"
    if "find (\<lambda>j. jb_id j = i) jobs = Some j" "jb_status j = ''running''" for j due
    using modify_found [OF dist found(1) [OF that(1)] ok] found [OF that(1)] ok that(2)
      row_ok_defer [of j t due] by (simp add: defer_job_def)
  ultimately show ?thesis
    using execute_shape [of prs "\<lambda>_ d. (err, d)" t i "()" jobs] ok Execute by auto
qed

text \<open>No claim of the run finds a lease that has run out.\<close>

fun no_expiry :: "int \<Rightarrow> (string \<Rightarrow> string + time) \<Rightarrow> job_op list \<Rightarrow> job list \<Rightarrow> bool" where
  "no_expiry lease prs [] jobs = True"
| "no_expiry lease prs (opn # ops) jobs =
     ((case opn of Claim t \<Rightarrow> list_all (lease_live t) jobs | _ \<Rightarrow> True)
      \<and> no_expiry lease prs ops (run_job_op lease prs opn jobs))"

lemma rows_ok_run:
  assumes "\<forall>j \<in> set jobs. row_ok j" "distinct (map jb_id jobs)" "no_expiry lease prs ops jobs"
  shows "\<forall>j \<in> set (fold (run_job_op lease prs) ops jobs). row_ok j"
  using assms
proof (induction ops arbitrary: jobs)
  case (Cons opn ops)
  have "\<forall>j \<in> set (run_job_op lease prs opn jobs). row_ok j"
    using Cons.prems by (intro rows_ok_step) (auto simp: list_all_iff)
  then show ?case using Cons by (simp add: job_keys)
qed simp

section \<open>The batch\<close>

definition publish_table ::
    "time \<Rightarrow> outbox_row list \<Rightarrow> nat \<Rightarrow> outbox_row list \<Rightarrow> outbox_row list" where
  "publish_table t rs n tbl =
     (let done_rows = modify_where (\<lambda>x. ob_id x \<in> ob_id ` set (take n rs)) (mark_published t) tbl
      in if n < length rs then modify_where (\<lambda>x. ob_id x = ob_id (rs ! n)) failed_publish done_rows
         else done_rows)"

lemma mark_id [simp]:
  "ob_id (mark_published t r) = ob_id r" "ob_id (failed_publish r) = ob_id r"
  "ob_incident_id (mark_published t r) = ob_incident_id r"
  "ob_sequence (mark_published t r) = ob_sequence r"
  "ob_incident_id (failed_publish r) = ob_incident_id r"
  "ob_sequence (failed_publish r) = ob_sequence r"
  "ob_published_at (failed_publish r) = ob_published_at r"
  "\<exists>y. ob_published_at (mark_published t r) = Some y"
  by (auto simp: mark_published_def failed_publish_def)

lemma mark_twice [simp]: "mark_published t (mark_published t r) = mark_published t r"
  by (auto simp: mark_published_def)

lemma mark_mark:
  "modify_where (\<lambda>x. ob_id x \<in> A) (mark_published t) (modify_where (\<lambda>x. ob_id x = i) (mark_published t) tbl)
     = modify_where (\<lambda>x. ob_id x \<in> insert i A) (mark_published t) tbl"
  by (simp add: modify_where_def)

lemma publish_rows_table:
  "fst (publish_rows handler t rs (h, tbl)) \<le> length rs
   \<and> snd (snd (publish_rows handler t rs (h, tbl)))
      = publish_table t rs (fst (publish_rows handler t rs (h, tbl))) tbl"
proof (induction rs arbitrary: h tbl)
  case Nil
  then show ?case by (simp add: publish_table_def modify_where_none)
next
  case (Cons r rs)
  show ?case
  proof (cases "fst (handler (ob_payload r) h)")
    case False
    then show ?thesis by (simp add: publish_table_def Let_def modify_where_none)
  next
    case True
    let ?h = "snd (handler (ob_payload r) h)"
      and ?tbl = "modify_where (\<lambda>x. ob_id x = ob_id r) (mark_published t) tbl"
    have "publish_table t rs n ?tbl = publish_table t (r # rs) (Suc n) tbl" for n
      by (simp add: publish_table_def Let_def mark_mark)
    then show ?thesis using Cons.IH [of ?h ?tbl] True by (simp add: Let_def)
  qed
qed

text \<open>A handler that records what it accepts: which envelopes, in which order.\<close>

definition recorder :: "(envelope \<Rightarrow> bool) \<Rightarrow> envelope \<Rightarrow> envelope list \<Rightarrow> bool \<times> envelope list" where
  "recorder ok env seen = (if ok env then (True, seen @ [env]) else (False, seen))"

lemma publish_recorded:
  "fst (publish_rows (recorder ok) t rs (seen, tbl)) = length (takeWhile (\<lambda>r. ok (ob_payload r)) rs)
   \<and> fst (snd (publish_rows (recorder ok) t rs (seen, tbl)))
      = seen @ map ob_payload (takeWhile (\<lambda>r. ok (ob_payload r)) rs)"
  by (induction rs arbitrary: seen tbl) (auto simp: recorder_def Let_def)

lemma publish_table_find:
  assumes "x' \<in> set (publish_table t rs n tbl)"
  obtains x where "x \<in> set tbl" "ob_id x' = ob_id x" "ob_incident_id x' = ob_incident_id x"
    "ob_sequence x' = ob_sequence x"
    "ob_published_at x' \<noteq> None \<longleftrightarrow> ob_published_at x \<noteq> None \<or> ob_id x \<in> ob_id ` set (take n rs)"
proof -
  let ?m = "\<lambda>x. if ob_id x \<in> ob_id ` set (take n rs) then mark_published t x else x"
  have m: "ob_id (?m x) = ob_id x" "ob_incident_id (?m x) = ob_incident_id x"
    "ob_sequence (?m x) = ob_sequence x"
    "ob_published_at (?m x) \<noteq> None \<longleftrightarrow> ob_published_at x \<noteq> None \<or> ob_id x \<in> ob_id ` set (take n rs)" for x
    by simp_all
  have "publish_table t rs n tbl = map (\<lambda>x. if n < length rs \<and> ob_id (?m x) = ob_id (rs ! n)
      then failed_publish (?m x) else ?m x) tbl"
    by (simp add: publish_table_def Let_def modify_where_def)
  then obtain x where "x \<in> set tbl" "x' = (if n < length rs \<and> ob_id (?m x) = ob_id (rs ! n)
      then failed_publish (?m x) else ?m x)"
    using assms by (auto simp only: set_map image_iff)
  then have x: "x \<in> set tbl" "x' = ?m x \<or> x' = failed_publish (?m x)" by presburger+
  show ?thesis by (rule that [OF x(1)]) (use x(2) m in auto)
qed

lemma take_downward:
  assumes "sorted (map f xs)" "x \<in> set xs" "y \<in> set (take n xs)" "f x < f y"
  shows "x \<in> set (take n xs)"
proof -
  obtain i where i: "i < length xs" "x = xs ! i" using assms(2) by (auto simp: in_set_conv_nth)
  obtain j where j: "j < length xs" "j < n" "y = xs ! j" using assms(3) by (auto simp: in_set_conv_nth)
  have "\<not> n \<le> i"
  proof
    assume "n \<le> i"
    then have "j \<le> i" using j by simp
    then have "map f xs ! j \<le> map f xs ! i" using i(1) by (intro sorted_nth_mono [OF assms(1)]) auto
    then show False using assms(4) i j by simp
  qed
  then show ?thesis using i by (auto simp: in_set_conv_nth intro!: exI [of _ i])
qed

text \<open>No event of an incident is published before an earlier one.\<close>

definition published_prefix :: "outbox_row list \<Rightarrow> bool" where
  "published_prefix rows \<longleftrightarrow> (\<forall>x \<in> set rows. \<forall>y \<in> set rows. ob_incident_id x = ob_incident_id y
     \<longrightarrow> ob_sequence x < ob_sequence y \<longrightarrow> ob_published_at y \<noteq> None \<longrightarrow> ob_published_at x \<noteq> None)"

lemma published_prefixD:
  "published_prefix rows \<Longrightarrow> x \<in> set rows \<Longrightarrow> y \<in> set rows \<Longrightarrow> ob_incident_id x = ob_incident_id y
   \<Longrightarrow> ob_sequence x < ob_sequence y \<Longrightarrow> ob_published_at y \<noteq> None \<Longrightarrow> ob_published_at x \<noteq> None"
  unfolding published_prefix_def by blast

lemma unpublished_take:
  assumes "n \<le> length (unpublished tbl)"
  shows "take n (unpublished tbl) = take n (sort_key (\<lambda>r. (ob_incident_id r, ob_sequence r))
     (filter (\<lambda>r. ob_published_at r = None) tbl))"
proof -
  have "n \<le> 100" using assms by (simp add: unpublished_def)
  then show ?thesis by (simp add: unpublished_def min_absorb1)
qed

lemma unpublished_set: "r \<in> set (unpublished tbl) \<Longrightarrow> r \<in> set tbl \<and> ob_published_at r = None"
  unfolding unpublished_def by (drule in_set_takeD) simp

lemma published_prefix_batch:
  assumes pre: "published_prefix tbl" and dist: "distinct (map ob_id tbl)"
    and n: "n \<le> length (unpublished tbl)"
  shows "published_prefix (publish_table t (unpublished tbl) n tbl)"
  unfolding published_prefix_def
proof (intro ballI impI)
  fix x' y'
  assume mem: "x' \<in> set (publish_table t (unpublished tbl) n tbl)"
      "y' \<in> set (publish_table t (unpublished tbl) n tbl)"
    and rel: "ob_incident_id x' = ob_incident_id y'" "ob_sequence x' < ob_sequence y'"
      "ob_published_at y' \<noteq> None"
  let ?key = "\<lambda>r. (ob_incident_id r, ob_sequence r)"
  let ?done = "ob_id ` set (take n (unpublished tbl))"
  let ?xs = "sort_key ?key (filter (\<lambda>r. ob_published_at r = None) tbl)"
  obtain x where x: "x \<in> set tbl" "ob_id x' = ob_id x" "ob_incident_id x' = ob_incident_id x"
    "ob_sequence x' = ob_sequence x"
    "ob_published_at x' \<noteq> None \<longleftrightarrow> ob_published_at x \<noteq> None \<or> ob_id x \<in> ?done"
    using publish_table_find [OF mem(1)] by metis
  obtain y where y: "y \<in> set tbl" "ob_id y' = ob_id y" "ob_incident_id y' = ob_incident_id y"
    "ob_sequence y' = ob_sequence y"
    "ob_published_at y' \<noteq> None \<longleftrightarrow> ob_published_at y \<noteq> None \<or> ob_id y \<in> ?done"
    using publish_table_find [OF mem(2)] by metis
  show "ob_published_at x' \<noteq> None"
  proof (cases "ob_published_at x = None \<and> ob_published_at y = None")
    case True
    then have "ob_id y \<in> ?done" using y(5) rel(3) by simp
    then obtain r where r: "r \<in> set (take n (unpublished tbl))" "ob_id r = ob_id y" by auto
    have "r \<in> set tbl" using r(1) unpublished_set by (blast dest: in_set_takeD)
    then have "r = y" using r(2) y(1) dist by (auto simp: distinct_map dest: inj_onD)
    then have y_first: "y \<in> set (take n ?xs)" using r(1) unpublished_take [OF n] by simp
    have x_in: "x \<in> set ?xs" using x(1) True by simp
    have less: "?key x < ?key y" using rel x(3,4) y(3,4) by (simp add: less_prod_def)
    have "x \<in> set (take n ?xs)" by (rule take_downward [OF sorted_sort_key x_in y_first less])
    then show ?thesis using x(5) unpublished_take [OF n] by auto
  next
    case False
    have "ob_published_at x \<noteq> None"
    proof (cases "ob_published_at y = None")
      case True
      then show ?thesis using False by simp
    next
      case False
      show ?thesis by (rule published_prefixD [OF pre x(1) y(1) _ _ False]) (use rel x y in simp_all)
    qed
    then show ?thesis using x(5) by simp
  qed
qed

section \<open>Draining the outbox\<close>

definition pending :: "outbox_row list \<Rightarrow> outbox_row list" where
  "pending rows = filter (\<lambda>r. ob_published_at r = None) rows"

lemma pending_marked:
  "length (pending (modify_where (\<lambda>x. ob_id x \<in> I) (mark_published t) rows))
     = length (filter (\<lambda>r. ob_id r \<notin> I) (pending rows))"
proof -
  have m: "(ob_published_at (mark_published t r) = None) = False" for r by simp
  show ?thesis unfolding pending_def by (induction rows) (simp_all add: m del: not_None_eq)
qed

lemma pending_after_batch:
  assumes "distinct (map ob_id rows)"
  shows "length (pending (publish_table t (unpublished rows) (length (unpublished rows)) rows))
     = length (pending rows) - 100"
proof -
  let ?s = "sort_key (\<lambda>r. (ob_incident_id r, ob_sequence r)) (pending rows)"
  let ?U = "unpublished rows" and ?V = "drop 100 ?s"
  have U: "?U = take 100 ?s" by (simp add: unpublished_def pending_def)
  have d: "distinct (pending rows)" "inj_on ob_id (set (pending rows))"
    using assms by (auto simp: pending_def distinct_map intro: inj_on_subset)
  then have ds: "distinct (?U @ ?V)" unfolding U by simp
  have sets: "set (pending rows) = set ?U \<union> set ?V"
    unfolding U set_append [symmetric] append_take_drop_id by simp
  have same: "set (filter (\<lambda>r. ob_id r \<notin> ob_id ` set ?U) (pending rows)) = set ?V"
    using d(2) ds unfolding set_filter sets by (auto dest: inj_onD)
  have "card (set (filter (\<lambda>r. ob_id r \<notin> ob_id ` set ?U) (pending rows)))
      = length (filter (\<lambda>r. ob_id r \<notin> ob_id ` set ?U) (pending rows))"
    by (rule distinct_card) (simp add: d(1))
  moreover have "card (set ?V) = length ?V" by (rule distinct_card) (use ds in simp)
  ultimately have "length (filter (\<lambda>r. ob_id r \<notin> ob_id ` set ?U) (pending rows)) = length ?V"
    unfolding same by simp
  then show ?thesis by (simp add: publish_table_def Let_def pending_marked)
qed

lemma publish_rows_all:
  assumes "\<And>env h. fst (handler env h)"
  shows "fst (publish_rows handler t rs (h, tbl)) = length rs"
  using assms by (induction rs arbitrary: h tbl) (simp_all add: Let_def)

lemma publish_table_ids: "map ob_id (publish_table t rs n rows) = map ob_id rows"
  by (simp add: publish_table_def Let_def map_modify_where)

definition batch_step ::
    "(envelope \<Rightarrow> 'h \<Rightarrow> bool \<times> 'h) \<Rightarrow> time \<Rightarrow> 'h \<times> outbox_row list \<Rightarrow> 'h \<times> outbox_row list" where
  "batch_step handler t s = snd (publish_outbox_batch handler t s)"

lemma batch_step_table:
  obtains n where "n \<le> length (unpublished rows)"
    "snd (batch_step handler t (h, rows)) = publish_table t (unpublished rows) n rows"
    "fst (publish_outbox_batch handler t (h, rows)) = n"
  using publish_rows_table [of handler t "unpublished rows" h rows]
  by (simp add: batch_step_def publish_outbox_batch_def)

lemma sort_key_map_same:
  assumes "\<And>x. k (f x) = k x"
  shows "sort_key k (map f xs) = map f (sort_key k xs)"
proof -
  have "insort_key k (f x) (map f ys) = map f (insort_key k x ys)" for x ys
    by (induction ys) (simp_all add: assms)
  then show ?thesis by (induction xs) simp_all
qed

lemma unpublished_failed:
  "unpublished (modify_where P failed_publish rows) = modify_where P failed_publish (unpublished rows)"
proof -
  have "filter (\<lambda>r. ob_published_at r = None) (modify_where P failed_publish rows)
      = modify_where P failed_publish (filter (\<lambda>r. ob_published_at r = None) rows)"
    by (rule filter_modify_where_inv) simp
  then show ?thesis
    unfolding unpublished_def by (simp add: modify_where_def sort_key_map_same take_map)
qed

section \<open>Properties\<close>

definition demo_job :: job where
  "demo_job = \<lparr>jb_id = ''j'', jb_type = ''ai.analysis'', jb_status = ''queued'',
     jb_payload = JObj [], jb_attempts = 0, jb_max_attempts = 3, jb_run_after = 0,
     jb_lease_expires_at = None, jb_last_error = None, jb_created_at = 0, jb_updated_at = 0\<rparr>"

text \<open>
  The claim serves the queue in order: it answers None exactly when no job is due, and
  otherwise takes a due job with the earliest \<open>run_after\<close> (then the earliest creation), marks
  that job running with one more attempt and a lease, and touches no other row.
\<close>

theorem claim_takes_earliest_due:
  assumes "distinct (map jb_id jobs)" "claim_job lease t jobs = (res, jobs')"
  shows "(res = None \<longleftrightarrow> (\<forall>j \<in> set jobs. \<not> claimable t j))
    \<and> (res = None \<longrightarrow> jobs' = jobs)
    \<and> (\<forall>i. res = Some i \<longrightarrow> (\<exists>j \<in> set jobs. jb_id j = i \<and> claimable t j
         \<and> (\<forall>k \<in> set jobs. claimable t k \<longrightarrow> job_order j \<le> job_order k)
         \<and> find (\<lambda>x. jb_id x = i) jobs' = Some (claim_row lease t j)
         \<and> (\<forall>i'. i' \<noteq> i \<longrightarrow> find (\<lambda>x. jb_id x = i') jobs' = find (\<lambda>x. jb_id x = i') jobs)))"
proof (cases "next_job t jobs")
  case None
  then show ?thesis using assms(2) next_job_None [of t jobs] by (simp add: claim_job_def)
next
  case (Some j)
  note j = next_job_SomeD [OF Some]
  have res: "res = Some (jb_id j)"
    and tbl: "jobs' = modify_where (\<lambda>x. jb_id x = jb_id j) (claim_row lease t) jobs"
    using assms(2) Some by (simp_all add: claim_job_def)
  have "find (\<lambda>x. jb_id x = jb_id j) jobs' = Some (claim_row lease t j)"
    using find_unique [OF assms(1) j(1)] by (simp add: tbl claimed.find_same)
  moreover have "\<forall>i'. i' \<noteq> jb_id j \<longrightarrow> find (\<lambda>x. jb_id x = i') jobs' = find (\<lambda>x. jb_id x = i') jobs"
    by (simp add: tbl claimed.find_other)
  ultimately show ?thesis using res j by blast
qed

theorem claim_takes_earliest_due_witness:
  "\<exists>jobs'. claim_job 60 0 [demo_job] = (Some ''j'', jobs')
     \<and> find (\<lambda>x. jb_id x = ''j'') jobs' = Some (claim_row 60 0 demo_job)"
proof -
  have run: "claim_job 60 0 [demo_job]
      = (Some ''j'', modify_where (\<lambda>x. jb_id x = ''j'') (claim_row 60 0) [demo_job])"
    by (simp add: claim_job_def next_job_def claimable_def demo_job_def)
  have "distinct (map jb_id [demo_job])" by simp
  from claim_takes_earliest_due [OF this run] run show ?thesis by (auto simp: demo_job_def)
qed

text \<open>
  A lease excludes every other claim: from the claim of a job until its lease runs out
  no claim returns that job again, whatever other jobs are claimed, executed, retried or
  deferred meanwhile, unless the job itself was executed.
\<close>

theorem lease_excludes:
  assumes "distinct (map jb_id jobs)" "claim_job lease t0 jobs = (Some i, jobs')" "0 \<le> lease"
    and "\<forall>opn \<in> set ops. \<forall>t err. opn \<noteq> Execute t i err" "t < t0 + seconds lease"
  shows "fst (claim_job lease t (fold (run_job_op lease prs) ops jobs')) \<noteq> Some i"
proof -
  obtain j where j: "next_job t0 jobs = Some j" "jb_id j = i"
    using assms(2) by (auto simp: claim_job_def split: option.splits)
  have tbl: "jobs' = modify_where (\<lambda>x. jb_id x = i) (claim_row lease t0) jobs"
    using assms(2) j by (simp add: claim_job_def)
  have "find (\<lambda>x. jb_id x = i) jobs' = Some (claim_row lease t0 j)"
    using find_unique [OF assms(1) next_job_SomeD(1) [OF j(1)]] j(2) by (simp add: tbl claimed.find_same)
  then have "leased i (t0 + seconds lease) jobs'" by (simp add: leased_def claim_row_def)
  moreover have "distinct (map jb_id jobs')" using assms(1) by (simp add: tbl claimed.keys)
  ultimately show ?thesis
    using leased_run [of i "t0 + seconds lease" jobs' lease ops] leased_not_claimed assms(3-5) by blast
qed

theorem lease_excludes_witness:
  "fst (claim_job 60 1 (fold (run_job_op 60 (\<lambda>_. Inr 0)) [Claim 0]
      (snd (claim_job 60 0 [demo_job])))) \<noteq> Some ''j''"
proof -
  have d: "distinct (map jb_id [demo_job])" by simp
  have c: "claim_job 60 0 [demo_job] = (Some ''j'', snd (claim_job 60 0 [demo_job]))"
    by (simp add: claim_job_def next_job_def claimable_def demo_job_def)
  show ?thesis by (rule lease_excludes [OF d c]) (simp_all add: seconds_def)
qed

text \<open>
  As long as no worker dies (no claim finds a lease that has run out) a job is tried at
  most \<open>max_attempts\<close> times: it is failed exactly at that number, and while it waits for a
  retry it has attempts left.
\<close>

theorem attempts_bounded_without_crash:
  assumes "\<forall>j \<in> set jobs. row_ok j" "distinct (map jb_id jobs)"
    and "no_expiry lease prs ops jobs" "fold (run_job_op lease prs) ops jobs = jobs'"
  shows "\<forall>j \<in> set jobs'. jb_attempts j \<le> jb_max_attempts j
    \<and> (jb_status j = ''retry'' \<longrightarrow> jb_attempts j < jb_max_attempts j)
    \<and> (jb_status j = ''failed'' \<longrightarrow> jb_attempts j = jb_max_attempts j)"
  using rows_ok_run [OF assms(1-3)] unfolding assms(4) by (auto simp: row_ok_def)

theorem attempts_bounded_without_crash_witness:
  "\<exists>j. fold (run_job_op 60 (\<lambda>_. Inr 0)) [Claim 0, Execute 0 ''j'' (Some ''E'')] [demo_job] = [j]
     \<and> jb_status j = ''retry'' \<and> jb_attempts j < 3"
proof -
  let ?ops = "[Claim 0, Execute 0 ''j'' (Some ''E'')]"
  have ok: "\<forall>j \<in> set [demo_job]. row_ok j" and d: "distinct (map jb_id [demo_job])"
    and n: "no_expiry 60 (\<lambda>_. Inr 0) ?ops [demo_job]"
    by (simp_all add: row_ok_def demo_job_def lease_live_def)
  have "\<exists>j. fold (run_job_op 60 (\<lambda>_. Inr 0)) ?ops [demo_job] = [j]
      \<and> jb_status j = ''retry'' \<and> jb_max_attempts j = 3"
    by (simp add: claim_job_def next_job_def claimable_def execute_job_def known_job_types_def
        claim_row_def finish_job_def finish_job_row_def demo_job_def Let_def)
  then obtain j where j: "fold (run_job_op 60 (\<lambda>_. Inr 0)) ?ops [demo_job] = [j]"
    "jb_status j = ''retry''" "jb_max_attempts j = 3" by blast
  have "jb_attempts j < 3"
    using attempts_bounded_without_crash [OF ok d n j(1)] j(2,3) by simp
  with j show ?thesis by blast
qed

text \<open>
  The bound is lost when workers die: the claim never looks at \<open>max_attempts\<close>, so a job
  whose worker is killed each time (its lease runs out unfinished) is claimed again for
  ever, with any number of attempts, and never fails.
\<close>

theorem crash_loop_unbounded:
  assumes "jb_status j = ''queued''" "jb_run_after j \<le> 0" "0 \<le> lease"
  shows "\<exists>j'. fold (run_job_op lease prs) (map (\<lambda>k. Claim (int k * seconds lease)) [0..<n]) [j] = [j']
    \<and> jb_attempts j' = jb_attempts j + int n \<and> jb_max_attempts j' = jb_max_attempts j
    \<and> (0 < n \<longrightarrow> jb_status j' = ''running'')"
proof -
  have "\<exists>j'. fold (run_job_op lease prs) (map (\<lambda>k. Claim (int k * seconds lease)) [0..<n]) [j] = [j']
    \<and> jb_attempts j' = jb_attempts j + int n \<and> jb_max_attempts j' = jb_max_attempts j
    \<and> claimable (int n * seconds lease) j' \<and> (0 < n \<longrightarrow> jb_status j' = ''running'')"
  proof (induction n)
    case 0
    then show ?case using assms by (simp add: claimable_def)
  next
    case (Suc n)
    then obtain j' where j': "fold (run_job_op lease prs) (map (\<lambda>k. Claim (int k * seconds lease)) [0..<n]) [j]
        = [j']" "jb_attempts j' = jb_attempts j + int n" "jb_max_attempts j' = jb_max_attempts j"
      "claimable (int n * seconds lease) j'" by blast
    have "run_job_op lease prs (Claim (int n * seconds lease)) [j']
        = [claim_row lease (int n * seconds lease) j']"
      using j'(4) by (simp add: claim_job_def next_job_def)
    then show ?case using j' by (simp add: claim_row_def claimable_def algebra_simps)
  qed
  then show ?thesis by blast
qed

theorem crash_loop_unbounded_witness:
  "\<exists>j'. fold (run_job_op 60 (\<lambda>_. Inr 0)) (map (\<lambda>k. Claim (int k * seconds 60)) [0..<7]) [demo_job]
     = [j'] \<and> jb_attempts j' = 7 \<and> jb_max_attempts j' = 3"
  using crash_loop_unbounded [of demo_job 60 "\<lambda>_. Inr 0" 7] by (auto simp: demo_job_def)

definition demo_row :: "ident \<Rightarrow> ident \<Rightarrow> int \<Rightarrow> outbox_row" where
  "demo_row r i k = outbox_entry demo_env 0 i k None demo_emission\<lparr>ob_id := r\<rparr>"

lemma demo_row_simps [simp]:
  "ob_id (demo_row r i k) = r" "ob_published_at (demo_row r i k) = None"
  "ob_incident_id (demo_row r i k) = i" "ob_sequence (demo_row r i k) = k"
  by (simp_all add: demo_row_def)

text \<open>
  C25. Events become visible in their order: with any handler, failing or not, a batch never
  publishes an event of an incident while an earlier event of that incident is unpublished.
\<close>

theorem publication_keeps_order:
  assumes "published_prefix rows" "distinct (map ob_id rows)"
    and "publish_outbox_batch handler t (h, rows) = (n, h', rows')"
  shows "published_prefix rows' \<and> map ob_id rows' = map ob_id rows"
proof -
  obtain n where "n \<le> length (unpublished rows)"
    "snd (batch_step handler t (h, rows)) = publish_table t (unpublished rows) n rows"
    by (rule batch_step_table)
  then show ?thesis
    using published_prefix_batch [OF assms(1,2)] assms(3)
    by (simp add: batch_step_def publish_table_ids)
qed

theorem publication_keeps_order_witness:
  "published_prefix (snd (snd (publish_outbox_batch (\<lambda>_ h. (True, h)) 5
     ((), [demo_row ''a'' ''i'' 2, demo_row ''b'' ''i'' 1]))))"
proof -
  have "published_prefix [demo_row ''a'' ''i'' 2, demo_row ''b'' ''i'' 1]"
    and "distinct (map ob_id [demo_row ''a'' ''i'' 2, demo_row ''b'' ''i'' 1])"
    by (simp_all add: published_prefix_def)
  then show ?thesis using publication_keeps_order [where h = "()"] by (metis prod.collapse)
qed

text \<open>
  C26. The outbox drains: when the handler accepts every event, each batch publishes a
  hundred of them, so \<open>k\<close> batches leave nothing of a backlog of up to \<open>100 * k\<close> events.
\<close>

theorem outbox_drains:
  assumes "distinct (map ob_id rows)" "\<And>env h. fst (handler env h)"
    and "length (pending rows) \<le> 100 * k"
  shows "pending (snd ((batch_step handler t ^^ k) (h, rows))) = []"
  using assms(1,3)
proof (induction k arbitrary: h rows)
  case 0
  then show ?case by simp
next
  case (Suc k)
  obtain h' rows' where step: "batch_step handler t (h, rows) = (h', rows')" by fastforce
  have "rows' = publish_table t (unpublished rows) (length (unpublished rows)) rows"
    using publish_rows_table [of handler t "unpublished rows" h rows] step
    by (simp add: batch_step_def publish_outbox_batch_def publish_rows_all [OF assms(2)])
  then have "length (pending rows') \<le> 100 * k" "distinct (map ob_id rows')"
    using pending_after_batch [OF Suc.prems(1)] Suc.prems by (simp_all add: publish_table_ids)
  then show ?case using Suc.IH step by (simp add: funpow_Suc_right del: funpow.simps(2))
qed

theorem outbox_drains_witness:
  "pending (snd (batch_step (\<lambda>_ h. (True, h)) 5 ((), [demo_row ''a'' ''i'' 2, demo_row ''b'' ''j'' 1]))) = []"
  using outbox_drains [of "[demo_row ''a'' ''i'' 2, demo_row ''b'' ''j'' 1]" "\<lambda>_ h. (True, h)" 1 5 "()"]
  by (simp add: pending_def)

text \<open>
  One event the handler always rejects holds up everything behind it: while it is first
  in the order of incident and sequence, no batch publishes anything, of any incident.
\<close>

theorem rejected_event_blocks_all:
  assumes "unpublished rows = r # rest" "\<And>h. \<not> fst (handler (ob_payload r) h)"
    and "publish_outbox_batch handler t (h, rows) = (n, h', rows')"
  shows "n = 0 \<and> map ob_published_at rows' = map ob_published_at rows
    \<and> (\<exists>rest'. unpublished rows' = failed_publish r # rest')"
proof -
  have rows': "n = 0" "rows' = modify_where (\<lambda>x. ob_id x = ob_id r) failed_publish rows"
    using assms by (simp_all add: publish_outbox_batch_def Let_def)
  have "map ob_published_at rows' = map ob_published_at rows"
    unfolding rows'(2) by (rule map_modify_where) simp
  moreover have "unpublished rows' = failed_publish r
      # modify_where (\<lambda>x. ob_id x = ob_id r) failed_publish rest"
    using assms(1) by (simp add: rows'(2) unpublished_failed)
  ultimately show ?thesis using rows'(1) by blast
qed

theorem rejected_event_blocks_all_witness:
  "fst (publish_outbox_batch (\<lambda>env h. (env_sequence env \<noteq> 1, h)) 5
     ((), [demo_row ''a'' ''j'' 2, demo_row ''b'' ''i'' 1])) = 0"
proof -
  have u: "unpublished [demo_row ''a'' ''j'' 2, demo_row ''b'' ''i'' 1] = [demo_row ''b'' ''i'' 1, demo_row ''a'' ''j'' 2]"
    by (simp add: unpublished_def)
  have f: "\<not> fst ((\<lambda>env h. (env_sequence env \<noteq> 1, h)) (ob_payload (demo_row ''b'' ''i'' 1)) h)" for h :: unit
    by (simp add: demo_row_def)
  show ?thesis
    using rejected_event_blocks_all [where handler = "\<lambda>env h. (env_sequence env \<noteq> 1, h)", OF u f]
    by (metis prod.collapse)
qed

end
