(* ===== verification/Auth.thy ===== *)
theory Auth
  imports Events Strings "HOL-Library.Char_ord" "HOL-Library.List_Lexorder"
    "HOL-Library.Countable"
begin

text \<open>
  Sessions and tokens (\<open>routers/auth.py\<close>, \<open>dependencies.get_actor\<close>, \<open>security.py\<close>): the
  devices, accounts, memberships and refresh sessions, the handlers that create, rotate and
  revoke sessions, and the check of an access token.

  A handler runs under \<open>write_lock\<close> and either commits or raises: the second component of a
  result is the committed database.  Hashing, password verification, the random token supply
  and JWT signing are third-party or cryptographic and are fields of \<open>auth_services\<close>.
\<close>

section \<open>Rows\<close>

record device =
  dv_id :: ident
  dv_installation_id_hash :: string
  dv_platform :: string
  dv_locale :: "string option"
  dv_region_code :: "string option"
  dv_token_version :: int
  dv_last_seen_at :: time
  dv_revoked_at :: "time option"

record account =
  acc_id :: ident
  acc_username :: string
  acc_password_hash :: string
  acc_role :: string
  acc_is_active :: bool
  acc_email :: "string option"
  acc_revision :: int

record membership =
  mb_account_id :: ident
  mb_incident_id :: ident
  mb_role :: string

record refresh_session =
  rs_id :: ident
  rs_subject_type :: subject_type
  rs_subject_id :: ident
  rs_incident_id :: "ident option"
  rs_token_hash :: string
  rs_family_id :: ident
  rs_issued_token_version :: int
  rs_expires_at :: time
  rs_used_at :: "time option"
  rs_revoked_at :: "time option"
  rs_replaced_by_id :: "ident option"

record auth_db = ev_db +
  db_devices :: "device list"
  db_accounts :: "account list"
  db_memberships :: "membership list"
  db_refresh :: "refresh_session list"

record auth_services =
  token_hash :: "string \<Rightarrow> string"
  installation_digest :: "string \<Rightarrow> string"
  verify_password :: "string \<Rightarrow> string \<Rightarrow> bool"
  new_token :: "nat \<Rightarrow> string"
  jwt_sign :: "json \<Rightarrow> string"
  jwt_decode :: "string \<Rightarrow> json option"
  access_token_minutes :: int
  refresh_token_days :: int

definition get_device :: "'a auth_db_scheme \<Rightarrow> ident \<Rightarrow> device option" where
  "get_device db i = find (\<lambda>d. dv_id d = i) (db_devices db)"

definition get_account :: "'a auth_db_scheme \<Rightarrow> ident \<Rightarrow> account option" where
  "get_account db i = find (\<lambda>a. acc_id a = i) (db_accounts db)"

definition find_refresh :: "'a auth_db_scheme \<Rightarrow> string \<Rightarrow> refresh_session option" where
  "find_refresh db h = find (\<lambda>r. rs_token_hash r = h) (db_refresh db)"

definition memberships_of :: "'a auth_db_scheme \<Rightarrow> ident \<Rightarrow> ident list" where
  "memberships_of db i = map mb_incident_id (filter (\<lambda>m. mb_account_id m = i) (db_memberships db))"

definition unauthorized :: "string \<Rightarrow> api_error" where
  "unauthorized code = ApiError 401 code"

section \<open>Access tokens\<close>

instance json :: countable by countable_datatype

text \<open>
  The claims signed by \<open>create_access_token\<close>; \<open>jti\<close> is the next identifier.  The
  list of incident ids of an actor stands for the frozen set in iteration order.
\<close>

definition access_claims :: "auth_services \<Rightarrow> env \<Rightarrow> nat \<Rightarrow> actor \<Rightarrow> json" where
  "access_claims svc e k a = JObj
     [(''sub'', JStr (ac_subject_id a)),
      (''typ'', JStr ''access''),
      (''subject_type'', JStr (subject_name (ac_subject_type a))),
      (''role'', JStr (ac_role a)),
      (''token_version'', JInt (ac_token_version a)),
      (''incident_ids'', JArr (map JStr (sort (ac_incident_ids a)))),
      (''username'', (case ac_username a of None \<Rightarrow> JNull | Some u \<Rightarrow> JStr u)),
      (''jti'', JStr (new_id e k)),
      (''iat'', JInt (now e div seconds 1)),
      (''exp'', JInt ((now e + minutes (access_token_minutes svc)) div seconds 1))]"

definition create_access_token :: "auth_services \<Rightarrow> env \<Rightarrow> nat \<Rightarrow> actor \<Rightarrow> string \<times> int" where
  "create_access_token svc e k a =
     (jwt_sign svc (access_claims svc e k a), 60 * access_token_minutes svc)"

definition device_actor :: "device \<Rightarrow> ident list \<Rightarrow> actor" where
  "device_actor d incidents =
     \<lparr>ac_subject_type = Device, ac_subject_id = dv_id d, ac_role = ''resident'',
      ac_token_version = dv_token_version d, ac_incident_ids = incidents,
      ac_username = None, ac_region_code = None\<rparr>"

definition account_actor :: "'a auth_db_scheme \<Rightarrow> account \<Rightarrow> actor" where
  "account_actor db a =
     \<lparr>ac_subject_type = Account, ac_subject_id = acc_id a, ac_role = acc_role a,
      ac_token_version = 1, ac_incident_ids = memberships_of db (acc_id a),
      ac_username = Some (acc_username a), ac_region_code = None\<rparr>"

text \<open>
  Only payloads that \<open>create_access_token\<close> signed decode, so \<open>sub\<close> is a string,
  \<open>token_version\<close> an integer and \<open>incident_ids\<close> a list of strings (or they are missing);
  on any other shape the conversions of the code are not modelled and the result is the
  internal error.
\<close>

definition internal_error :: api_error where
  "internal_error = ApiError 500 ''INTERNAL_ERROR''"

fun claim_int :: "json \<Rightarrow> int option" where
  "claim_int JNull = Some 0"
| "claim_int (JInt i) = Some i"
| "claim_int _ = None"

fun claim_strings :: "json \<Rightarrow> string list option" where
  "claim_strings JNull = Some []"
| "claim_strings (JArr xs) =
     (if (\<forall>x \<in> set xs. case x of JStr s \<Rightarrow> True | _ \<Rightarrow> False)
      then Some (map (\<lambda>x. case x of JStr s \<Rightarrow> s | _ \<Rightarrow> []) xs) else None)"
| "claim_strings _ = None"

definition get_actor ::
    "auth_services \<Rightarrow> (string \<times> string) option \<Rightarrow> 'a auth_db_scheme \<Rightarrow> api_error + actor" where
  "get_actor svc credentials db =
     (case credentials of
        None \<Rightarrow> Inl (unauthorized ''AUTHENTICATION_REQUIRED'')
      | Some (scheme, token) \<Rightarrow>
          if lower scheme \<noteq> ''bearer'' then Inl (unauthorized ''AUTHENTICATION_REQUIRED'')
          else (case decode_access_token (jwt_decode svc) token of
             Inl err \<Rightarrow> Inl err
           | Inr payload \<Rightarrow>
               (case (jget payload ''sub'', claim_int (jget payload ''token_version'')) of
                  (JStr subject_id, Some token_version) \<Rightarrow>
                    if jget payload ''subject_type'' = JStr ''device'' then
                      (case get_device db subject_id of
                         None \<Rightarrow> Inl (unauthorized ''ACCESS_REVOKED'')
                       | Some d \<Rightarrow>
                           if dv_revoked_at d \<noteq> None \<or> dv_token_version d \<noteq> token_version
                           then Inl (unauthorized ''ACCESS_REVOKED'')
                           else (case claim_strings (jget payload ''incident_ids'') of
                              None \<Rightarrow> Inl internal_error
                            | Some incidents \<Rightarrow> Inr (device_actor d incidents)))
                    else if jget payload ''subject_type'' = JStr ''account'' then
                      (case get_account db subject_id of
                         None \<Rightarrow> Inl (unauthorized ''ACCESS_REVOKED'')
                       | Some a \<Rightarrow>
                           if \<not> acc_is_active a then Inl (unauthorized ''ACCESS_REVOKED'')
                           else Inr (account_actor db a))
                    else Inl (unauthorized ''INVALID_ACCESS_TOKEN'')
                | _ \<Rightarrow> Inl internal_error)))"

section \<open>Issuing a pair\<close>

definition active_incident ::
    "'a auth_db_scheme \<Rightarrow> string option \<Rightarrow> api_error + incident" where
  "active_incident db requested =
     (case or_else requested None of
        Some q \<Rightarrow>
          (case find (\<lambda>i. inc_id i = q \<or> inc_alias i = Some q) (db_incidents db) of
             None \<Rightarrow> Inl (ApiError 404 ''INCIDENT_NOT_FOUND'')
           | Some i \<Rightarrow> if inc_status i \<noteq> ''active''
               then Inl (ApiError 409 ''INCIDENT_NOT_ACTIVE'') else Inr i)
      | None \<Rightarrow>
          (case find (\<lambda>i. inc_status i = ''active'') (db_incidents db) of
             None \<Rightarrow> Inl (ApiError 503 ''NO_ACTIVE_INCIDENT'')
           | Some i \<Rightarrow> Inr i))"

record token_pair =
  tp_access_token :: string
  tp_refresh_token :: string
  tp_expires_in :: int
  tp_current_incident_id :: "ident option"

definition first_of :: "'x list \<Rightarrow> 'x option" where
  "first_of xs = (case xs of [] \<Rightarrow> None | x # _ \<Rightarrow> Some x)"

text \<open>
  \<open>_issue_pair\<close>: the identifiers \<open>k\<close>, \<open>k + 1\<close> and \<open>k + 2\<close> are the \<open>jti\<close>, the family (when a
  new one is opened) and the row.
\<close>

definition new_refresh ::
    "auth_services \<Rightarrow> env \<Rightarrow> nat \<Rightarrow> actor \<Rightarrow> string option \<Rightarrow> refresh_session" where
  "new_refresh svc e k a family =
     \<lparr>rs_id = new_id e (k + 2), rs_subject_type = ac_subject_type a,
      rs_subject_id = ac_subject_id a,
      rs_incident_id = (if ac_subject_type a = Device then first_of (ac_incident_ids a) else None),
      rs_token_hash = token_hash svc (new_token svc k),
      rs_family_id = (case or_else family None of None \<Rightarrow> new_id e (k + 1) | Some f \<Rightarrow> f),
      rs_issued_token_version = ac_token_version a,
      rs_expires_at = now e + days (refresh_token_days svc),
      rs_used_at = None, rs_revoked_at = None, rs_replaced_by_id = None\<rparr>"

definition issue_pair ::
    "auth_services \<Rightarrow> env \<Rightarrow> actor \<Rightarrow> string option \<Rightarrow> 'a auth_db_scheme
      \<Rightarrow> token_pair \<times> refresh_session \<times> 'a auth_db_scheme" where
  "issue_pair svc e a family db =
     (let k = id_count db;
          r = new_refresh svc e k a family
      in (\<lparr>tp_access_token = fst (create_access_token svc e k a),
           tp_refresh_token = new_token svc k,
           tp_expires_in = snd (create_access_token svc e k a),
           tp_current_incident_id = first_of (ac_incident_ids a)\<rparr>,
          r, db\<lparr>db_refresh := db_refresh db @ [r], id_count := k + 3\<rparr>))"

section \<open>The handlers\<close>

record session_request =
  sq_installation_id :: string
  sq_platform :: string
  sq_locale :: "string option"
  sq_region_code :: "string option"
  sq_incident_id :: "string option"
  sq_request_id :: "string option"

definition validate_installation_id :: "string \<Rightarrow> api_error + unit" where
  "validate_installation_id v =
     (if length v < 22 then Inl (ApiError 422 ''INSTALLATION_ID_TOO_WEAK'') else Inr ())"

definition retire_device :: "string \<Rightarrow> device \<Rightarrow> device" where
  "retire_device digest d =
     d\<lparr>dv_installation_id_hash := ''revoked:'' @ dv_id d @ '':'' @ digest\<rparr>"

definition touch_device :: "env \<Rightarrow> session_request \<Rightarrow> device \<Rightarrow> device" where
  "touch_device e b d =
     d\<lparr>dv_platform := sq_platform b, dv_locale := sq_locale b,
       dv_region_code := sq_region_code b, dv_last_seen_at := now e\<rparr>"

definition fresh_device :: "env \<Rightarrow> nat \<Rightarrow> string \<Rightarrow> session_request \<Rightarrow> device" where
  "fresh_device e k digest b =
     \<lparr>dv_id = new_id e k, dv_installation_id_hash = digest, dv_platform = sq_platform b,
      dv_locale = sq_locale b, dv_region_code = sq_region_code b, dv_token_version = 1,
      dv_last_seen_at = now e, dv_revoked_at = None\<rparr>"

text \<open>The device of a session: the registered one, or a new one when there is none left.\<close>

definition add_device ::
    "env \<Rightarrow> string \<Rightarrow> session_request \<Rightarrow> 'a auth_db_scheme \<Rightarrow> device \<times> 'a auth_db_scheme" where
  "add_device e digest b db =
     (let d = fresh_device e (id_count db) digest b
      in (d, db\<lparr>db_devices := db_devices db @ [d], id_count := Suc (id_count db)\<rparr>))"

definition session_device ::
    "env \<Rightarrow> string \<Rightarrow> session_request \<Rightarrow> 'a auth_db_scheme \<Rightarrow> device \<times> 'a auth_db_scheme" where
  "session_device e digest b db =
     (case find (\<lambda>d. dv_installation_id_hash d = digest) (db_devices db) of
        None \<Rightarrow> add_device e digest b db
      | Some d \<Rightarrow>
          if dv_revoked_at d \<noteq> None
          then add_device e digest b
                 (db\<lparr>db_devices := modify_where (\<lambda>x. dv_id x = dv_id d) (retire_device digest)
                        (db_devices db)\<rparr>)
          else (touch_device e b d,
                db\<lparr>db_devices := modify_where (\<lambda>x. dv_id x = dv_id d) (touch_device e b)
                        (db_devices db)\<rparr>))"

definition create_anonymous_session ::
    "auth_services \<Rightarrow> env \<Rightarrow> session_request \<Rightarrow> 'a auth_db_scheme
      \<Rightarrow> (api_error + token_pair \<times> ident) \<times> 'a auth_db_scheme" where
  "create_anonymous_session svc e b db =
     (case validate_installation_id (sq_installation_id b) of
        Inl err \<Rightarrow> (Inl err, db)
      | Inr _ \<Rightarrow>
          (case active_incident db (sq_incident_id b) of
             Inl err \<Rightarrow> (Inl err, db)
           | Inr inc \<Rightarrow>
               (let dd = session_device e (installation_digest svc (sq_installation_id b)) b db;
                    actr = device_actor (fst dd) [inc_id inc];
                    pr = issue_pair svc e actr None (snd dd)
                in (Inr (fst pr, dv_id (fst dd)),
                    record_audit e (Some actr) (Some (inc_id inc)) ''anonymous_session.created''
                      ''anonymous_device'' (Some (dv_id (fst dd))) (sq_request_id b)
                      (snd (snd pr))))))"

definition login ::
    "auth_services \<Rightarrow> env \<Rightarrow> string \<Rightarrow> string \<Rightarrow> string option \<Rightarrow> 'a auth_db_scheme
      \<Rightarrow> (api_error + token_pair) \<times> 'a auth_db_scheme" where
  "login svc e username password request_id db =
     (case find (\<lambda>a. acc_username a = username) (db_accounts db) of
        None \<Rightarrow> (Inl (unauthorized ''INVALID_CREDENTIALS''), db)
      | Some a \<Rightarrow>
          if \<not> acc_is_active a \<or> \<not> verify_password svc password (acc_password_hash a)
          then (Inl (unauthorized ''INVALID_CREDENTIALS''), db)
          else
            (let actr = account_actor db a;
                 pr = issue_pair svc e actr None db
             in (Inr (fst pr),
                 record_audit e (Some actr) (first_of (ac_incident_ids actr)) ''auth.login''
                   ''local_account'' (Some (acc_id a)) request_id (snd (snd pr)))))"

text \<open>The actor a refresh session still stands for, or the reason why there is none.\<close>

definition refresh_actor ::
    "refresh_session \<Rightarrow> 'a auth_db_scheme \<Rightarrow> api_error + actor" where
  "refresh_actor r db =
     (if rs_subject_type r = Device then
        (case get_device db (rs_subject_id r) of
           None \<Rightarrow> Inl (unauthorized ''ACCESS_REVOKED'')
         | Some d \<Rightarrow>
             if dv_revoked_at d \<noteq> None \<or> dv_token_version d \<noteq> rs_issued_token_version r
             then Inl (unauthorized ''ACCESS_REVOKED'')
             else (case rs_incident_id r of
                None \<Rightarrow> Inl (unauthorized ''ACCESS_REVOKED'')
              | Some i \<Rightarrow>
                  (case active_incident db (Some i) of
                     Inl err \<Rightarrow> Inl err
                   | Inr inc \<Rightarrow> Inr (device_actor d [inc_id inc]))))
      else
        (case get_account db (rs_subject_id r) of
           None \<Rightarrow> Inl (unauthorized ''ACCESS_REVOKED'')
         | Some a \<Rightarrow> if \<not> acc_is_active a then Inl (unauthorized ''ACCESS_REVOKED'')
             else Inr (account_actor db a)))"

definition use_refresh :: "env \<Rightarrow> ident \<Rightarrow> refresh_session \<Rightarrow> refresh_session" where
  "use_refresh e replacement r =
     r\<lparr>rs_used_at := Some (now e), rs_replaced_by_id := Some replacement\<rparr>"

definition rotate_refresh ::
    "auth_services \<Rightarrow> env \<Rightarrow> string \<Rightarrow> subject_type \<Rightarrow> string option \<Rightarrow> 'a auth_db_scheme
      \<Rightarrow> (api_error + token_pair) \<times> 'a auth_db_scheme" where
  "rotate_refresh svc e token expected_type request_id db =
     (case find_refresh db (token_hash svc token) of
        None \<Rightarrow> (Inl (unauthorized ''INVALID_REFRESH_TOKEN''), db)
      | Some r \<Rightarrow>
          if rs_subject_type r \<noteq> expected_type
          then (Inl (unauthorized ''INVALID_REFRESH_TOKEN''), db)
          else if rs_used_at r \<noteq> None
          then (Inl (unauthorized ''REFRESH_TOKEN_REPLAYED''),
                record_audit e None None ''security.refresh_replay'' ''refresh_session''
                  (Some (rs_id r)) request_id db)
          else if rs_revoked_at r \<noteq> None \<or> rs_expires_at r \<le> now e
          then (Inl (unauthorized ''REFRESH_TOKEN_EXPIRED''), db)
          else (case refresh_actor r db of
             Inl err \<Rightarrow> (Inl err, db)
           | Inr actr \<Rightarrow>
               (let pr = issue_pair svc e actr (Some (rs_family_id r)) db;
                    db1 = snd (snd pr)
                in (Inr (fst pr),
                    db1\<lparr>db_refresh := modify_where (\<lambda>x. rs_id x = rs_id r)
                          (use_refresh e (rs_id (fst (snd pr)))) (db_refresh db1)\<rparr>))))"

definition revoke_row :: "env \<Rightarrow> refresh_session \<Rightarrow> refresh_session" where
  "revoke_row e r = r\<lparr>rs_revoked_at := Some (now e)\<rparr>"

definition logout ::
    "auth_services \<Rightarrow> env \<Rightarrow> string \<Rightarrow> 'a auth_db_scheme \<Rightarrow> 'a auth_db_scheme" where
  "logout svc e token db =
     (case find_refresh db (token_hash svc token) of
        None \<Rightarrow> db
      | Some r \<Rightarrow>
          if rs_revoked_at r \<noteq> None then db
          else db\<lparr>db_refresh := modify_where (\<lambda>x. rs_id x = rs_id r) (revoke_row e)
                        (db_refresh db)\<rparr>)"

definition revoke_device :: "env \<Rightarrow> device \<Rightarrow> device" where
  "revoke_device e d =
     d\<lparr>dv_token_version := dv_token_version d + 1, dv_revoked_at := Some (now e)\<rparr>"

definition revoke_anonymous ::
    "auth_services \<Rightarrow> env \<Rightarrow> string \<Rightarrow> string option \<Rightarrow> 'a auth_db_scheme
      \<Rightarrow> (api_error + unit) \<times> 'a auth_db_scheme" where
  "revoke_anonymous svc e token request_id db =
     (case find (\<lambda>r. rs_token_hash r = token_hash svc token \<and> rs_subject_type r = Device)
             (db_refresh db) of
        None \<Rightarrow> (Inl (unauthorized ''INVALID_REFRESH_TOKEN''), db)
      | Some r \<Rightarrow>
          (case get_device db (rs_subject_id r) of
             None \<Rightarrow> (Inl (unauthorized ''INVALID_REFRESH_TOKEN''), db)
           | Some d \<Rightarrow>
               (Inr (),
                record_audit e None None ''anonymous_session.revoked'' ''anonymous_device''
                  (Some (dv_id d)) request_id
                  (db\<lparr>db_devices := modify_where (\<lambda>x. dv_id x = dv_id d) (revoke_device e)
                         (db_devices db),
                      db_refresh := modify_where
                         (\<lambda>x. rs_subject_type x = Device \<and> rs_subject_id x = dv_id d
                              \<and> rs_revoked_at x = None)
                         (revoke_row e) (db_refresh db)\<rparr>))))"

section \<open>Runs\<close>

text \<open>The operations clients may perform, in any order.\<close>

datatype auth_op =
    Register session_request
  | Login string string
  | Rotate string subject_type
  | Logout string
  | Revoke string

fun run_op :: "auth_services \<Rightarrow> env \<times> auth_op \<Rightarrow> 'a auth_db_scheme \<Rightarrow> 'a auth_db_scheme" where
  "run_op svc (e, Register b) db = snd (create_anonymous_session svc e b db)"
| "run_op svc (e, Login u p) db = snd (login svc e u p None db)"
| "run_op svc (e, Rotate t ty) db = snd (rotate_refresh svc e t ty None db)"
| "run_op svc (e, Logout t) db = logout svc e t db"
| "run_op svc (e, Revoke t) db = snd (revoke_anonymous svc e t None db)"

definition run_ops ::
    "auth_services \<Rightarrow> (env \<times> auth_op) list \<Rightarrow> 'a auth_db_scheme \<Rightarrow> 'a auth_db_scheme" where
  "run_ops svc ops db = fold (run_op svc) ops db"

section \<open>Rows only grow\<close>

definition refresh_le :: "refresh_session \<Rightarrow> refresh_session \<Rightarrow> bool" where
  "refresh_le r r' \<longleftrightarrow> rs_id r' = rs_id r \<and> rs_subject_type r' = rs_subject_type r
     \<and> rs_subject_id r' = rs_subject_id r \<and> rs_incident_id r' = rs_incident_id r
     \<and> rs_family_id r' = rs_family_id r \<and> rs_expires_at r' = rs_expires_at r
     \<and> rs_issued_token_version r' = rs_issued_token_version r
     \<and> (rs_used_at r \<noteq> None \<longrightarrow> rs_used_at r' \<noteq> None)
     \<and> (rs_revoked_at r \<noteq> None \<longrightarrow> rs_revoked_at r' \<noteq> None)"

definition device_le :: "device \<Rightarrow> device \<Rightarrow> bool" where
  "device_le d d' \<longleftrightarrow> dv_id d' = dv_id d \<and> dv_token_version d \<le> dv_token_version d'
     \<and> (dv_revoked_at d \<noteq> None \<longrightarrow> dv_revoked_at d' \<noteq> None)"

lemma refresh_le_updates:
  "refresh_le r r" "refresh_le r (use_refresh e i r)" "refresh_le r (revoke_row e r)"
  by (simp_all add: refresh_le_def use_refresh_def revoke_row_def)

lemma device_le_updates:
  "device_le d d" "device_le d (retire_device g d)" "device_le d (touch_device e b d)"
  "device_le d (revoke_device e d)"
  by (simp_all add: device_le_def retire_device_def touch_device_def revoke_device_def)

lemma row_keys [simp]:
  "rs_token_hash (use_refresh e i r) = rs_token_hash r"
  "rs_token_hash (revoke_row e r) = rs_token_hash r"
  "dv_id (retire_device g d) = dv_id d" "dv_id (touch_device e b d) = dv_id d"
  "dv_id (revoke_device e d) = dv_id d"
  by (simp_all add: use_refresh_def revoke_row_def retire_device_def touch_device_def
      revoke_device_def)

interpretation use_row: keyed_update rs_token_hash "use_refresh e i" for e i
  by unfold_locales simp

interpretation revoked_row: keyed_update rs_token_hash "revoke_row e" for e
  by unfold_locales simp

interpretation revoked_device: keyed_update dv_id "revoke_device e" for e
  by unfold_locales simp

text \<open>What each operation does to the two tables: an update of some rows and new rows.\<close>

lemma auth_audit_frame [simp]:
  "db_refresh (record_audit e a i ac rt ri rq db) = db_refresh db"
  "db_devices (record_audit e a i ac rt ri rq db) = db_devices db"
  "db_accounts (record_audit e a i ac rt ri rq db) = db_accounts db"
  "db_memberships (record_audit e a i ac rt ri rq db) = db_memberships db"
  by (simp_all add: record_audit_def)

lemma issue_pair_frame [simp]:
  "db_refresh (snd (snd (issue_pair svc e a f db)))
     = db_refresh db @ [fst (snd (issue_pair svc e a f db))]"
  "db_devices (snd (snd (issue_pair svc e a f db))) = db_devices db"
  "db_incidents (snd (snd (issue_pair svc e a f db))) = db_incidents db"
  by (simp_all add: issue_pair_def Let_def)

lemma session_device_frame [simp]:
  "db_refresh (snd (session_device e g b db)) = db_refresh db"
  by (simp add: session_device_def add_device_def Let_def split: option.splits)

definition refresh_shape :: "'a auth_db_scheme \<Rightarrow> 'b auth_db_scheme \<Rightarrow> bool" where
  "refresh_shape db db' \<longleftrightarrow> (\<exists>P f new. db_refresh db' = modify_where P f (db_refresh db) @ new
     \<and> (\<forall>r. rs_token_hash (f r) = rs_token_hash r \<and> refresh_le r (f r)))"

lemma refresh_shapeI:
  assumes "db_refresh db' = modify_where P f (db_refresh db) @ new"
    "\<And>r. rs_token_hash (f r) = rs_token_hash r" "\<And>r. refresh_le r (f r)"
  shows "refresh_shape db db'"
  using assms unfolding refresh_shape_def by blast

lemma refresh_shape_new: "db_refresh db' = db_refresh db @ new \<Longrightarrow> refresh_shape db db'"
  by (rule refresh_shapeI [of _ "\<lambda>_. False" id]) (simp_all add: modify_where_none refresh_le_updates)

lemma run_op_refresh: "refresh_shape db (run_op svc x db)"
proof (cases x)
  case (Pair e opn)
  show ?thesis
  proof (cases opn)
    case (Register b)
    then show ?thesis using Pair
      by (auto simp: create_anonymous_session_def Let_def intro: refresh_shape_new
          split: sum.splits)
  next
    case (Login u p)
    then show ?thesis using Pair
      by (auto simp: login_def Let_def intro: refresh_shape_new split: option.splits)
  next
    case (Rotate t ty)
    then show ?thesis using Pair
      by (auto simp: rotate_refresh_def Let_def refresh_le_updates
          intro: refresh_shape_new refresh_shapeI split: option.splits sum.splits)
  next
    case (Logout t)
    then show ?thesis using Pair
      by (auto simp: logout_def refresh_le_updates intro: refresh_shape_new refresh_shapeI [of _ _ _ _ "[]"]
          split: option.splits)
  next
    case (Revoke t)
    then show ?thesis using Pair
      by (auto simp: revoke_anonymous_def refresh_le_updates
          intro: refresh_shape_new refresh_shapeI [of _ _ _ _ "[]"] split: option.splits)
  qed
qed

definition device_shape :: "'a auth_db_scheme \<Rightarrow> 'b auth_db_scheme \<Rightarrow> bool" where
  "device_shape db db' \<longleftrightarrow> (\<exists>P f new. db_devices db' = modify_where P f (db_devices db) @ new
     \<and> (\<forall>d. device_le d (f d)))"

lemma device_shapeI:
  assumes "db_devices db' = modify_where P f (db_devices db) @ new" "\<And>d. device_le d (f d)"
  shows "device_shape db db'"
  using assms unfolding device_shape_def by blast

lemma device_shape_new: "db_devices db' = db_devices db @ new \<Longrightarrow> device_shape db db'"
  by (rule device_shapeI [of _ "\<lambda>_. False" id]) (simp_all add: modify_where_none device_le_updates)

lemma device_shape_same: "db_devices db' = db_devices db \<Longrightarrow> device_shape db db'"
  by (rule device_shape_new [of _ _ "[]"]) simp

lemma session_device_shape: "device_shape db (snd (session_device e g b db))"
  by (auto simp: session_device_def add_device_def Let_def device_le_updates
      intro: device_shape_new device_shapeI device_shapeI [of _ _ _ _ "[]"] split: option.splits)

lemma device_shape_cong:
  "device_shape db db' \<Longrightarrow> db_devices db'' = db_devices db' \<Longrightarrow> device_shape db db''"
  by (simp add: device_shape_def)

lemma run_op_devices: "device_shape db (run_op svc x db)"
proof (cases x)
  case (Pair e opn)
  show ?thesis
  proof (cases opn)
    case (Register b)
    then show ?thesis using Pair
      by (auto simp: create_anonymous_session_def Let_def
          intro: device_shape_same device_shape_cong [OF session_device_shape] split: sum.splits)
  next
    case (Login u p)
    then show ?thesis using Pair
      by (auto simp: login_def Let_def intro: device_shape_same split: option.splits)
  next
    case (Rotate t ty)
    then show ?thesis using Pair
      by (auto simp: rotate_refresh_def Let_def intro: device_shape_same
          split: option.splits sum.splits)
  next
    case (Logout t)
    then show ?thesis using Pair
      by (auto simp: logout_def intro: device_shape_same split: option.splits)
  next
    case (Revoke t)
    then show ?thesis using Pair
      by (auto simp: revoke_anonymous_def device_le_updates
          intro: device_shape_same device_shapeI [of _ _ _ _ "[]"] split: option.splits)
  qed
qed

interpretation refresh_rows: growing "run_op svc" find_refresh refresh_le for svc
proof
  fix db :: "'a auth_db_scheme" and k r x
  assume "find_refresh db k = Some r"
  moreover obtain P f new where "db_refresh (run_op svc x db) = modify_where P f (db_refresh db) @ new"
    and "\<forall>r. rs_token_hash (f r) = rs_token_hash r \<and> refresh_le r (f r)"
    using run_op_refresh [of db svc x] unfolding refresh_shape_def by blast
  ultimately show "\<exists>r'. find_refresh (run_op svc x db) k = Some r' \<and> refresh_le r r'"
    unfolding find_refresh_def
    using find_grown [of rs_token_hash k "db_refresh db" r P f refresh_le new]
    by (simp add: refresh_le_updates)
qed (auto simp: refresh_le_def)

interpretation devices: growing "run_op svc" get_device device_le for svc
proof
  fix db :: "'a auth_db_scheme" and k d x
  assume "get_device db k = Some d"
  moreover obtain P f new where "db_devices (run_op svc x db) = modify_where P f (db_devices db) @ new"
    and "\<forall>d. device_le d (f d)"
    using run_op_devices [of db svc x] unfolding device_shape_def by blast
  ultimately show "\<exists>d'. get_device (run_op svc x db) k = Some d' \<and> device_le d d'"
    unfolding get_device_def
    using find_grown [of dv_id k "db_devices db" d P f device_le new]
    by (simp add: device_le_updates device_le_def)
qed (auto simp: device_le_def)

section \<open>Rotation\<close>

lemma rotate_used:
  assumes "find_refresh db (token_hash svc t) = Some r" "rs_used_at r \<noteq> None"
    and "rs_subject_type r = ty"
  shows "rotate_refresh svc e t ty rid db =
    (Inl (unauthorized ''REFRESH_TOKEN_REPLAYED''),
     record_audit e None None ''security.refresh_replay'' ''refresh_session'' (Some (rs_id r)) rid db)"
  using assms by (simp add: rotate_refresh_def)

lemma rotate_success:
  assumes "fst (rotate_refresh svc e t ty rid db) = Inr tk"
  obtains r actr where "find_refresh db (token_hash svc t) = Some r" "rs_subject_type r = ty"
    "rs_used_at r = None" "rs_revoked_at r = None" "now e < rs_expires_at r"
    "refresh_actor r db = Inr actr"
    "tk = fst (issue_pair svc e actr (Some (rs_family_id r)) db)"
    "db_refresh (snd (rotate_refresh svc e t ty rid db)) =
       modify_where (\<lambda>x. rs_id x = rs_id r) (use_refresh e (rs_id (new_refresh svc e (id_count db)
           actr (Some (rs_family_id r)))))
         (db_refresh db @ [new_refresh svc e (id_count db) actr (Some (rs_family_id r))])"
proof -
  obtain r where r: "find_refresh db (token_hash svc t) = Some r"
    using assms by (auto simp: rotate_refresh_def split: option.splits)
  have ok: "rs_subject_type r = ty" "rs_used_at r = None" "rs_revoked_at r = None"
    "now e < rs_expires_at r"
    using assms r by (auto simp: rotate_refresh_def split: if_splits)
  obtain actr where "refresh_actor r db = Inr actr"
    using assms r ok by (cases "refresh_actor r db") (auto simp: rotate_refresh_def)
  then show ?thesis using that [OF r ok] assms r ok
    by (auto simp: rotate_refresh_def Let_def issue_pair_def)
qed

lemma rotate_marks_used:
  assumes "fst (rotate_refresh svc e t ty rid db) = Inr tk"
  shows "\<exists>r. find_refresh (snd (rotate_refresh svc e t ty rid db)) (token_hash svc t) = Some r
    \<and> rs_used_at r \<noteq> None \<and> rs_subject_type r = ty"
proof -
  obtain r actr where r: "find_refresh db (token_hash svc t) = Some r" "rs_subject_type r = ty"
    and tbl: "db_refresh (snd (rotate_refresh svc e t ty rid db)) =
       modify_where (\<lambda>x. rs_id x = rs_id r) (use_refresh e (rs_id (new_refresh svc e (id_count db)
           actr (Some (rs_family_id r)))))
         (db_refresh db @ [new_refresh svc e (id_count db) actr (Some (rs_family_id r))])"
    using assms by (rule rotate_success)
  show ?thesis unfolding find_refresh_def tbl use_row.find_where
    using r by (simp add: find_append find_refresh_def use_refresh_def)
qed

lemma refresh_grows_run:
  "find_refresh db h = Some r \<Longrightarrow>
     \<exists>r'. find_refresh (run_ops svc ops db) h = Some r' \<and> refresh_le r r'"
  unfolding run_ops_def by (rule refresh_rows.grows_run)

lemma device_grows_run:
  "get_device db i = Some d \<Longrightarrow>
     \<exists>d'. get_device (run_ops svc ops db) i = Some d' \<and> device_le d d'"
  unfolding run_ops_def by (rule devices.grows_run)

lemma rotate_refused:
  assumes "find_refresh db (token_hash svc t) = Some r"
    and "rs_used_at r \<noteq> None \<or> rs_revoked_at r \<noteq> None"
  shows "\<exists>code. fst (rotate_refresh svc e t ty rid db) = Inl (unauthorized code)
    \<and> db_refresh (snd (rotate_refresh svc e t ty rid db)) = db_refresh db"
  using assms by (auto simp: rotate_refresh_def)

lemma get_device_id: "get_device db i = Some d \<Longrightarrow> dv_id d = i"
  by (auto simp: get_device_def dest: find_SomeD)

lemma revoked_device_locked:
  assumes "get_device db i = Some d" "dv_revoked_at d \<noteq> None"
  shows "get_actor svc cred db = Inr a \<Longrightarrow> ac_subject_type a = Device \<Longrightarrow> ac_subject_id a \<noteq> i"
    and "refresh_actor r db = Inr a \<Longrightarrow> rs_subject_type r = Device \<Longrightarrow> rs_subject_id r \<noteq> i"
proof -
  assume h: "get_actor svc cred db = Inr a" "ac_subject_type a = Device"
  have "\<exists>d'. get_device db (ac_subject_id a) = Some d' \<and> dv_revoked_at d' = None"
    using h by (auto simp: get_actor_def account_actor_def device_actor_def
        split: option.splits sum.splits json.splits if_splits) (metis get_device_id)+
  then show "ac_subject_id a \<noteq> i" using assms by auto
next
  assume "refresh_actor r db = Inr a" "rs_subject_type r = Device"
  then show "rs_subject_id r \<noteq> i" using assms by (auto simp: refresh_actor_def)
qed

lemma active_incidentD:
  assumes "active_incident db q = Inr inc"
  shows "inc \<in> set (db_incidents db)" "inc_status inc = ''active''"
    and "q = Some i \<Longrightarrow> i \<noteq> [] \<Longrightarrow> inc_id inc = i \<or> inc_alias inc = Some i"
  using assms by (auto simp: active_incident_def or_else_def dest: find_SomeD
      split: option.splits if_splits)

lemma refresh_actor_device:
  assumes "refresh_actor r db = Inr a" "rs_subject_type r = Device"
  obtains d i inc where "get_device db (rs_subject_id r) = Some d" "dv_revoked_at d = None"
    "rs_incident_id r = Some i" "active_incident db (Some i) = Inr inc"
    "a = device_actor d [inc_id inc]"
  using assms by (auto simp: refresh_actor_def split: option.splits if_splits sum.splits)

lemma refresh_actor_subject:
  "refresh_actor r db = Inr a \<Longrightarrow> ac_subject_type a = rs_subject_type r \<and> ac_subject_id a = rs_subject_id r"
  by (cases "rs_subject_type r")
    (auto simp: refresh_actor_def device_actor_def account_actor_def get_account_def
      dest: get_device_id find_SomeD split: option.splits if_splits sum.splits)

section \<open>A concrete system\<close>

definition demo_services :: auth_services where
  "demo_services = \<lparr>token_hash = (\<lambda>t. t), installation_digest = (\<lambda>t. t),
     verify_password = (\<lambda>p h. p = h), new_token = (\<lambda>k. replicate k CHR ''t''),
     jwt_sign = (\<lambda>_. ''jwt''), jwt_decode = (\<lambda>_. None), access_token_minutes = 15,
     refresh_token_days = 30\<rparr>"

definition demo_device :: device where
  "demo_device = \<lparr>dv_id = ''d1'', dv_installation_id_hash = ''h1'', dv_platform = ''ios'',
     dv_locale = None, dv_region_code = None, dv_token_version = 1, dv_last_seen_at = 0,
     dv_revoked_at = None\<rparr>"

definition demo_refresh :: refresh_session where
  "demo_refresh = \<lparr>rs_id = ''s1'', rs_subject_type = Device, rs_subject_id = ''d1'',
     rs_incident_id = Some ''inc'', rs_token_hash = ''tok'', rs_family_id = ''f1'',
     rs_issued_token_version = 1, rs_expires_at = 1000000000000, rs_used_at = None,
     rs_revoked_at = None, rs_replaced_by_id = None\<rparr>"

definition demo_auth_db :: auth_db where
  "demo_auth_db = \<lparr>db_incidents = [demo_incident], db_analyses = [], db_outbox = [],
     db_audit = [], tx_key = 1, data_marker = None, map_marker = None, pending_stale = [],
     id_count = 0, db_devices = [demo_device], db_accounts = [], db_memberships = [],
     db_refresh = [demo_refresh]\<rparr>"

lemmas demo_auth_defs = demo_services_def demo_device_def demo_refresh_def demo_auth_db_def

lemma demo_rotation:
  "\<exists>tk. fst (rotate_refresh demo_services demo_env ''tok'' Device None demo_auth_db) = Inr tk"
  by (simp add: rotate_refresh_def find_refresh_def refresh_actor_def get_device_def
      active_incident_def or_else_def demo_auth_defs demo_env_def demo_incident_def Let_def)

section \<open>Properties\<close>

text \<open>
  C23. A refresh token works once.  After a rotation succeeded, whatever clients do next (new
  sessions, logins, further rotations, logouts, revocations), presenting the same token
  again yields a 401 and no session; for the right kind of subject the answer is
  \<open>REFRESH_TOKEN_REPLAYED\<close> and the replay is written to the audit trail although the request
  fails.
\<close>

theorem refresh_single_use:
  assumes "fst (rotate_refresh svc e t ty rid db) = Inr tk"
  shows "\<exists>r. find_refresh (run_ops svc ops (snd (rotate_refresh svc e t ty rid db)))
        (token_hash svc t) = Some r
    \<and> rotate_refresh svc e' t ty rid' (run_ops svc ops (snd (rotate_refresh svc e t ty rid db)))
       = (Inl (unauthorized ''REFRESH_TOKEN_REPLAYED''),
          record_audit e' None None ''security.refresh_replay'' ''refresh_session''
            (Some (rs_id r)) rid' (run_ops svc ops (snd (rotate_refresh svc e t ty rid db))))
    \<and> (\<exists>code. fst (rotate_refresh svc e' t ty' rid'
           (run_ops svc ops (snd (rotate_refresh svc e t ty rid db)))) = Inl (unauthorized code)
       \<and> db_refresh (snd (rotate_refresh svc e' t ty' rid'
           (run_ops svc ops (snd (rotate_refresh svc e t ty rid db)))))
         = db_refresh (run_ops svc ops (snd (rotate_refresh svc e t ty rid db))))"
proof -
  let ?db = "run_ops svc ops (snd (rotate_refresh svc e t ty rid db))"
  obtain r where r: "find_refresh ?db (token_hash svc t) = Some r" "rs_used_at r \<noteq> None"
    "rs_subject_type r = ty"
    using rotate_marks_used [OF assms] refresh_grows_run unfolding refresh_le_def by metis
  from rotate_used [OF r] rotate_refused [OF r(1)] r show ?thesis by blast
qed

theorem refresh_single_use_witness:
  "fst (rotate_refresh demo_services demo_env ''tok'' Device None
       (snd (rotate_refresh demo_services demo_env ''tok'' Device None demo_auth_db)))
     = Inl (unauthorized ''REFRESH_TOKEN_REPLAYED'')"
proof -
  obtain tk where "fst (rotate_refresh demo_services demo_env ''tok'' Device None demo_auth_db)
    = Inr tk" using demo_rotation ..
  from refresh_single_use [OF this, where ops = "[]" and e' = demo_env and rid' = None and ty' = Device]
  show ?thesis by (auto simp: run_ops_def)
qed

text \<open>
  C24. Revoking a device is final.  Once one of its refresh tokens was used to revoke it, no
  access token, of whatever version, authenticates as the device, and none of its refresh
  sessions can be rotated, in any later state; a new session for the same installation gets
  a new device.
\<close>

theorem revocation_is_final:
  assumes "find (\<lambda>r. rs_token_hash r = token_hash svc t \<and> rs_subject_type r = Device)
      (db_refresh db) = Some r0"
    and "get_device db (rs_subject_id r0) = Some d"
    and "run_ops svc ops (snd (revoke_anonymous svc e t rid db)) = db'"
  shows "fst (revoke_anonymous svc e t rid db) = Inr ()
    \<and> (\<forall>cred a. get_actor svc cred db' = Inr a \<longrightarrow> ac_subject_type a = Device
         \<longrightarrow> ac_subject_id a \<noteq> dv_id d)
    \<and> (\<forall>t' r e' rid'. find_refresh db' (token_hash svc t') = Some r \<longrightarrow> rs_subject_type r = Device
         \<longrightarrow> rs_subject_id r = dv_id d
         \<longrightarrow> (\<exists>err. fst (rotate_refresh svc e' t' Device rid' db') = Inl err))"
proof -
  have id: "dv_id d = rs_subject_id r0" using assms(2) by (auto simp: get_device_def dest: find_SomeD)
  have got: "get_device (snd (revoke_anonymous svc e t rid db)) (dv_id d) = Some (revoke_device e d)"
    using assms(1,2) revoked_device.find_same [of "dv_id d" e "db_devices db"]
    by (simp add: revoke_anonymous_def get_device_def id)
  obtain d' where d': "get_device db' (dv_id d) = Some d'" "dv_revoked_at d' \<noteq> None"
    using device_grows_run [OF got, of svc ops] assms(3)
    by (auto simp: device_le_def revoke_device_def)
  have "\<exists>err. fst (rotate_refresh svc e' t' Device rid' db') = Inl err"
    if "find_refresh db' (token_hash svc t') = Some r" "rs_subject_type r = Device"
      "rs_subject_id r = dv_id d" for t' r e' rid'
  proof (cases "fst (rotate_refresh svc e' t' Device rid' db')")
    case (Inr tk)
    then obtain r' actr where "find_refresh db' (token_hash svc t') = Some r'"
      "refresh_actor r' db' = Inr actr" by (rule rotate_success)
    then show ?thesis using that revoked_device_locked(2) [OF d'] by auto
  qed blast
  moreover have "fst (revoke_anonymous svc e t rid db) = Inr ()"
    using assms(1,2) by (simp add: revoke_anonymous_def)
  ultimately show ?thesis using revoked_device_locked(1) [OF d'] by blast
qed

theorem revocation_is_final_witness:
  "fst (revoke_anonymous demo_services demo_env ''tok'' None demo_auth_db) = Inr ()
   \<and> (\<exists>err. fst (rotate_refresh demo_services demo_env ''tok'' Device None
        (snd (revoke_anonymous demo_services demo_env ''tok'' None demo_auth_db))) = Inl err)"
proof -
  let ?db = "snd (revoke_anonymous demo_services demo_env ''tok'' None demo_auth_db)"
  have r: "find (\<lambda>r. rs_token_hash r = token_hash demo_services ''tok'' \<and> rs_subject_type r = Device)
      (db_refresh demo_auth_db) = Some demo_refresh"
    and d: "get_device demo_auth_db (rs_subject_id demo_refresh) = Some demo_device"
    by (simp_all add: demo_auth_defs get_device_def)
  have "run_ops demo_services [] ?db = ?db" by (simp add: run_ops_def)
  note final = revocation_is_final [OF r d this]
  have "find_refresh ?db (token_hash demo_services ''tok'') = Some (revoke_row demo_env demo_refresh)"
    using r d by (simp add: revoke_anonymous_def find_refresh_def)
      (simp add: demo_auth_defs revoke_row_def)
  moreover have "rs_subject_id (revoke_row demo_env demo_refresh) = dv_id demo_device"
    "rs_subject_type (revoke_row demo_env demo_refresh) = Device"
    by (simp_all add: demo_auth_defs revoke_row_def)
  ultimately show ?thesis using final by blast
qed

text \<open>
  Logging out ends the session of the token: in every later state a rotation of it is
  refused and issues nothing.
\<close>

theorem logout_is_final:
  assumes "find_refresh db (token_hash svc t) = Some r0"
  shows "\<exists>code. fst (rotate_refresh svc e' t ty rid (run_ops svc ops (logout svc e t db)))
       = Inl (unauthorized code)
    \<and> db_refresh (snd (rotate_refresh svc e' t ty rid (run_ops svc ops (logout svc e t db))))
       = db_refresh (run_ops svc ops (logout svc e t db))"
proof -
  have "\<exists>r. find_refresh (logout svc e t db) (token_hash svc t) = Some r \<and> rs_revoked_at r \<noteq> None"
    using assms revoked_row.find_where [of "token_hash svc t" "\<lambda>x. rs_id x = rs_id r0" e "db_refresh db"]
    by (auto simp: logout_def find_refresh_def revoke_row_def)
  then obtain r where "find_refresh (run_ops svc ops (logout svc e t db)) (token_hash svc t) = Some r"
    "rs_revoked_at r \<noteq> None"
    using refresh_grows_run unfolding refresh_le_def by metis
  then show ?thesis using rotate_refused by blast
qed

theorem logout_is_final_witness:
  "\<exists>code. fst (rotate_refresh demo_services demo_env ''tok'' Device None
     (run_ops demo_services [(demo_env, Rotate ''tok'' Device)]
       (logout demo_services demo_env ''tok'' demo_auth_db))) = Inl (unauthorized code)"
proof -
  have "find_refresh demo_auth_db (token_hash demo_services ''tok'') = Some demo_refresh"
    by (simp add: demo_auth_defs find_refresh_def)
  from logout_is_final [OF this] show ?thesis by blast
qed

text \<open>
  A rotation replaces a session and widens nothing: exactly one session is added, of the
  same subject and the same family, the old one is marked used and points to it; for a
  device it is bound to the incident of the old session, which must be active, and that is
  the incident the client is told.
\<close>

theorem rotation_keeps_scope:
  assumes "find_refresh db (token_hash svc t) = Some old" "rs_family_id old \<noteq> []"
    and "rs_incident_id old \<noteq> Some []" "new_id e (id_count db + 2) \<noteq> rs_id old"
    and "rotate_refresh svc e t ty rid db = (Inr tk, db')"
  shows "\<exists>new rows. db_refresh db' = rows @ [new] \<and> length rows = length (db_refresh db)
    \<and> rs_subject_type new = rs_subject_type old \<and> rs_subject_id new = rs_subject_id old
    \<and> rs_family_id new = rs_family_id old \<and> rs_used_at new = None
    \<and> rs_token_hash new = token_hash svc (tp_refresh_token tk)
    \<and> find_refresh db' (token_hash svc t) = Some (use_refresh e (rs_id new) old)
    \<and> (ty = Account \<or> (\<exists>i inc. rs_incident_id old = Some i \<and> inc \<in> set (db_incidents db)
         \<and> inc_status inc = ''active'' \<and> (inc_id inc = i \<or> inc_alias inc = Some i)
         \<and> rs_incident_id new = Some (inc_id inc) \<and> tp_current_incident_id tk = Some (inc_id inc)))"
proof -
  have ok: "fst (rotate_refresh svc e t ty rid db) = Inr tk" using assms(5) by simp
  obtain actr where ty: "rs_subject_type old = ty" and act: "refresh_actor old db = Inr actr"
    and tk: "tk = fst (issue_pair svc e actr (Some (rs_family_id old)) db)"
    and tbl: "db_refresh db' = modify_where (\<lambda>x. rs_id x = rs_id old)
        (use_refresh e (rs_id (new_refresh svc e (id_count db) actr (Some (rs_family_id old)))))
         (db_refresh db @ [new_refresh svc e (id_count db) actr (Some (rs_family_id old))])"
    using rotate_success [OF ok] assms(1,5) by auto
  let ?new = "new_refresh svc e (id_count db) actr (Some (rs_family_id old))"
  have app: "db_refresh db' = modify_where (\<lambda>x. rs_id x = rs_id old) (use_refresh e (rs_id ?new))
      (db_refresh db) @ [?new]"
    using tbl assms(4) by (simp add: new_refresh_def)
  have new: "rs_subject_type ?new = rs_subject_type old" "rs_subject_id ?new = rs_subject_id old"
    "rs_family_id ?new = rs_family_id old" "rs_used_at ?new = None"
    "rs_token_hash ?new = token_hash svc (tp_refresh_token tk)"
    using refresh_actor_subject [OF act] assms(2)
    by (simp_all add: new_refresh_def or_else_def tk issue_pair_def Let_def)
  have used: "find_refresh db' (token_hash svc t) = Some (use_refresh e (rs_id ?new) old)"
    unfolding find_refresh_def tbl use_row.find_where
    using assms(1) by (simp add: find_append find_refresh_def)
  have "\<exists>i inc. rs_incident_id old = Some i \<and> inc \<in> set (db_incidents db)
         \<and> inc_status inc = ''active'' \<and> (inc_id inc = i \<or> inc_alias inc = Some i)
         \<and> rs_incident_id ?new = Some (inc_id inc) \<and> tp_current_incident_id tk = Some (inc_id inc)"
    if "ty = Device"
  proof -
    have dev: "rs_subject_type old = Device" using ty that by simp
    obtain d i inc where r: "rs_incident_id old = Some i" "active_incident db (Some i) = Inr inc"
      "actr = device_actor d [inc_id inc]"
      by (rule refresh_actor_device [OF act dev])
    have "rs_incident_id ?new = Some (inc_id inc)" "tp_current_incident_id tk = Some (inc_id inc)"
      by (simp_all add: r(3) new_refresh_def device_actor_def first_of_def tk issue_pair_def Let_def)
    moreover have "inc_id inc = i \<or> inc_alias inc = Some i"
      using active_incidentD(3) [OF r(2)] r(1) assms(3) by simp
    ultimately show ?thesis using active_incidentD(1,2) [OF r(2)] r(1) by blast
  qed
  with app new used show ?thesis by (cases ty) (auto simp del: append_assoc)
qed

theorem rotation_keeps_scope_witness:
  "\<exists>tk db' new rows. rotate_refresh demo_services demo_env ''tok'' Device None demo_auth_db
       = (Inr tk, db')
     \<and> db_refresh db' = rows @ [new] \<and> rs_family_id new = ''f1'' \<and> rs_subject_id new = ''d1''"
proof -
  obtain tk where ok: "fst (rotate_refresh demo_services demo_env ''tok'' Device None demo_auth_db)
    = Inr tk" using demo_rotation ..
  let ?db' = "snd (rotate_refresh demo_services demo_env ''tok'' Device None demo_auth_db)"
  have f: "find_refresh demo_auth_db (token_hash demo_services ''tok'') = Some demo_refresh"
    and h: "rs_family_id demo_refresh \<noteq> []" "rs_incident_id demo_refresh \<noteq> Some []"
    "new_id demo_env (id_count demo_auth_db + 2) \<noteq> rs_id demo_refresh"
    by (simp_all add: demo_auth_defs find_refresh_def demo_env_def numeral_2_eq_2)
  have rot: "rotate_refresh demo_services demo_env ''tok'' Device None demo_auth_db = (Inr tk, ?db')"
    using ok by (simp add: prod_eq_iff)
  from rotation_keeps_scope [OF f h rot] rot show ?thesis
    by (auto simp: demo_refresh_def)
qed

text \<open>
  A session that was just created is usable: with a JWT library that decodes the
  claims it has just signed, the access token of a new device session authenticates as a resident bound to one
  active incident, as the device the client was told.
\<close>

theorem new_session_authenticates:
  assumes "create_anonymous_session svc e b db = (Inr (tk, did), db')"
    and "\<And>k a. jwt_decode svc (jwt_sign svc (access_claims svc e k a)) = Some (access_claims svc e k a)"
    and "\<And>k. new_id e k \<notin> dv_id ` set (db_devices db)" "distinct (map dv_id (db_devices db))"
  shows "\<exists>inc \<in> set (db_incidents db). inc_status inc = ''active''
    \<and> tp_current_incident_id tk = Some (inc_id inc)
    \<and> (\<exists>d. dv_id d = did \<and> dv_revoked_at d = None
          \<and> get_actor svc (Some (''Bearer'', tp_access_token tk)) db'
             = Inr (device_actor d [inc_id inc]))"
proof -
  let ?g = "installation_digest svc (sq_installation_id b)"
  obtain inc where inc: "active_incident db (sq_incident_id b) = Inr inc"
    using assms(1) by (auto simp: create_anonymous_session_def split: sum.splits)
  let ?d = "fst (session_device e ?g b db)" and ?db1 = "snd (session_device e ?g b db)"
  have tk: "tk = fst (issue_pair svc e (device_actor ?d [inc_id inc]) None ?db1)" "did = dv_id ?d"
    and devs: "db_devices db' = db_devices ?db1"
    using assms(1) inc
    by (auto simp: create_anonymous_session_def Let_def split: sum.splits)
  have dev: "find (\<lambda>x. dv_id x = dv_id ?d) (db_devices ?db1) = Some ?d \<and> dv_revoked_at ?d = None"
  proof -
    have fresh: "find (\<lambda>x. dv_id x = new_id e k) (modify_where P f (db_devices db)) = None"
      if "\<And>x. dv_id (f x) = dv_id x" for P f k
      using assms(3) [of k] that by (auto simp: find_None_iff in_modify_where_iff image_iff)
    show ?thesis
    proof (cases "find (\<lambda>d. dv_installation_id_hash d = ?g) (db_devices db)")
      case None
      then show ?thesis using fresh [where f = id and P = "\<lambda>_. False"]
        by (simp add: session_device_def add_device_def Let_def fresh_device_def find_append
            modify_where_none)
    next
      case found: (Some d)
      have self: "find (\<lambda>x. dv_id x = dv_id d) (db_devices db) = Some d"
        using find_SomeD [OF found] assms(4) by (simp add: find_unique)
      show ?thesis
      proof (cases "dv_revoked_at d")
        case None
        have "find (\<lambda>x. dv_id x = dv_id d) (modify_where (\<lambda>x. dv_id x = dv_id d) (touch_device e b)
            (db_devices db)) = Some (touch_device e b d)"
          using keyed_update.find_same [of dv_id "touch_device e b" "dv_id d" "db_devices db"] self
          by (simp add: keyed_update_def)
        then show ?thesis using found None
          by (simp add: session_device_def) (simp add: touch_device_def)
      next
        case (Some u)
        then show ?thesis using found fresh [where f = "retire_device ?g"]
          by (simp add: session_device_def add_device_def Let_def fresh_device_def find_append)
      qed
    qed
  qed
  let ?a = "device_actor ?d [inc_id inc]"
  let ?c = "access_claims svc e (id_count ?db1) ?a"
  have claims: "jget ?c ''typ'' = JStr ''access''" "jget ?c ''sub'' = JStr (dv_id ?d)"
    "jget ?c ''subject_type'' = JStr ''device''"
    "jget ?c ''token_version'' = JInt (dv_token_version ?d)"
    "jget ?c ''incident_ids'' = JArr [JStr (inc_id inc)]"
    by (simp_all add: access_claims_def device_actor_def subject_name_def)
  have "tp_access_token tk = jwt_sign svc ?c"
    by (simp add: tk issue_pair_def Let_def create_access_token_def)
  then have dec: "decode_access_token (jwt_decode svc) (tp_access_token tk) = Inr ?c"
    using assms(2) by (simp add: decode_access_token_def claims)
  have low: "lower ''Bearer'' = ''bearer''" by code_simp
  have "get_device db' (dv_id ?d) = Some ?d" using dev devs by (simp add: get_device_def)
  then have "get_actor svc (Some (''Bearer'', tp_access_token tk)) db' = Inr ?a"
    using dev by (simp add: get_actor_def dec claims low)
  moreover have "tp_current_incident_id tk = Some (inc_id inc)"
    by (simp add: tk issue_pair_def Let_def first_of_def device_actor_def)
  ultimately show ?thesis using active_incidentD [OF inc] dev tk(2) by blast
qed

theorem new_session_authenticates_witness:
  "\<exists>svc tk did db' (inc :: incident) d. create_anonymous_session svc demo_env
       \<lparr>sq_installation_id = replicate 22 CHR ''x'', sq_platform = ''ios'', sq_locale = None,
        sq_region_code = None, sq_incident_id = None, sq_request_id = None\<rparr> demo_auth_db
       = (Inr (tk, did), db')
     \<and> get_actor svc (Some (''Bearer'', tp_access_token tk)) db' = Inr (device_actor d [inc_id inc])"
proof -
  let ?svc = "demo_services\<lparr>jwt_sign := (\<lambda>c. replicate (to_nat c) CHR ''x''),
    jwt_decode := (\<lambda>t. Some (from_nat (length t)))\<rparr>"
  let ?b = "\<lparr>sq_installation_id = replicate 22 CHR ''x'', sq_platform = ''ios'', sq_locale = None,
        sq_region_code = None, sq_incident_id = None, sq_request_id = None\<rparr>"
  obtain tk did db' where run: "create_anonymous_session ?svc demo_env ?b demo_auth_db
      = (Inr (tk, did), db')"
    by (simp add: create_anonymous_session_def validate_installation_id_def active_incident_def
        or_else_def Let_def demo_auth_defs demo_incident_def)
  have jwt: "jwt_decode ?svc (jwt_sign ?svc c) = Some c" for c by simp
  have fresh: "new_id demo_env k \<notin> dv_id ` set (db_devices demo_auth_db)" for k
    by (cases k) (simp_all add: demo_auth_defs demo_env_def)
  have dist: "distinct (map dv_id (db_devices demo_auth_db))" by (simp add: demo_auth_defs)
  obtain inc :: incident and d where "get_actor ?svc (Some (''Bearer'', tp_access_token tk)) db'
      = Inr (device_actor d [inc_id inc])"
    using new_session_authenticates [OF run jwt fresh dist] by (elim bexE conjE exE) (rule that)
  with run show ?thesis by (intro exI [of _ ?svc] exI) (rule conjI)
qed

end
