(* ===== verification/Realtime.thy ===== *)
theory Realtime
  imports Auth
begin

text \<open>
  The realtime channel (\<open>realtime.py\<close>): which events an actor may see, the hub that offers an
  envelope to the bounded queues of the connections, the authentication message, the replay
  of missed events and the heartbeat, and the interleaving of the outbox worker with one
  connection as a step relation.
\<close>

section \<open>Visibility\<close>

text \<open>
  \<open>region_codes\<close> is a list of strings (the schema of questions sees to it); on another shape
  the membership test of the code is not modelled and the event is not shown.
\<close>

definition region_allowed :: "string option \<Rightarrow> json \<Rightarrow> bool" where
  "region_allowed region allowed =
     (case allowed of
        JArr xs \<Rightarrow> (case region of None \<Rightarrow> JNull \<in> set xs | Some r \<Rightarrow> JStr r \<in> set xs)
      | _ \<Rightarrow> False)"

definition event_visible :: "actor \<Rightarrow> envelope \<Rightarrow> bool" where
  "event_visible a env =
     (if ac_role a = ''operator'' \<or> ac_role a = ''admin'' then True
      else
        let shown = (env_visibility env = ''public''
                     \<or> env_owner_device_id env = Some (ac_subject_id a))
        in if starts_with (env_type env) ''question.''
           then (let details = (if truthy (env_data env) then env_data env else env_payload env);
                     geometry = jget details ''target_geometry''
                 in if is_dict geometry
                    then (let allowed = jget geometry ''region_codes''
                          in if truthy allowed \<and> \<not> region_allowed (ac_region_code a) allowed
                             then False
                             else if truthy (jget geometry ''bbox'') \<or> truthy (jget geometry ''center'')
                                     \<or> truthy (jget geometry ''radius_m'')
                             then False else shown)
                    else shown)
           else shown)"

section \<open>The hub\<close>

record connection =
  cn_id :: nat
  cn_actor :: actor
  cn_incident_id :: ident
  cn_expires_at :: time
  cn_maxsize :: int
  cn_queue :: "envelope list"

text \<open>\<open>put_nowait\<close> on an \<open>asyncio.Queue(maxsize)\<close>; a size of zero or less is unbounded.\<close>

definition queue_full :: "connection \<Rightarrow> bool" where
  "queue_full c \<longleftrightarrow> 0 < cn_maxsize c \<and> cn_maxsize c \<le> int (length (cn_queue c))"

definition wants :: "envelope \<Rightarrow> connection \<Rightarrow> bool" where
  "wants env c \<longleftrightarrow> cn_incident_id c = env_incident_id env \<and> event_visible (cn_actor c) env"

text \<open>One turn of the loop of \<open>publish\<close>: None is a slow consumer, closed and removed.\<close>

definition offer :: "envelope \<Rightarrow> connection \<Rightarrow> connection option" where
  "offer env c =
     (if \<not> wants env c then Some c
      else if queue_full c then None
      else Some (c\<lparr>cn_queue := cn_queue c @ [env]\<rparr>))"

definition hub_add :: "connection \<Rightarrow> connection list \<Rightarrow> connection list" where
  "hub_add c hub = (if c \<in> set hub then hub else hub @ [c])"

definition hub_remove :: "nat \<Rightarrow> connection list \<Rightarrow> connection list" where
  "hub_remove i hub = filter (\<lambda>c. cn_id c \<noteq> i) hub"

definition hub_publish :: "envelope \<Rightarrow> connection list \<Rightarrow> connection list" where
  "hub_publish env hub = List.map_filter (offer env) hub"

section \<open>The authentication message\<close>

datatype close_code =
    Query_Token_Forbidden | Authentication_Required | Invalid_Message | Invalid_Last_Sequence
  | Access_Denied | Invalid_Token | Incident_Not_Found | Replay_Window_Exceeded

fun close_number :: "close_code \<Rightarrow> int" where
  "close_number Access_Denied = 4403"
| "close_number Incident_Not_Found = 4403"
| "close_number Replay_Window_Exceeded = 4409"
| "close_number _ = 4401"

text \<open>\<open>isinstance(last_sequence, int)\<close>: a JSON boolean is an int for Python.\<close>

fun python_int :: "json \<Rightarrow> int option" where
  "python_int (JInt i) = Some i"
| "python_int (JBool b) = Some (if b then 1 else 0)"
| "python_int _ = None"

definition check_first_message ::
    "bool \<Rightarrow> json \<Rightarrow> close_code + string \<times> ident \<times> int option" where
  "check_first_message query_token message =
     (if query_token then Inl Query_Token_Forbidden
      else if jget message ''type'' \<noteq> JStr ''authenticate'' then Inl Authentication_Required
      else (case (jget message ''access_token'', jget message ''incident_id'') of
          (JStr token, JStr incident_id) \<Rightarrow>
            (case jget message ''last_sequence'' of
               JNull \<Rightarrow> Inr (token, incident_id, None)
             | v \<Rightarrow> (case python_int v of
                   None \<Rightarrow> Inl Invalid_Last_Sequence
                 | Some n \<Rightarrow> if n < 0 then Inl Invalid_Last_Sequence
                             else Inr (token, incident_id, Some n)))
        | _ \<Rightarrow> Inl Invalid_Message))"

text \<open>
  \<open>_actor_from_token\<close>: as \<open>get_actor\<close>, with the region of the device, and the check of the
  incident.  \<open>exp\<close> is in seconds.
\<close>

definition actor_from_token ::
    "auth_services \<Rightarrow> string \<Rightarrow> ident \<Rightarrow> 'a auth_db_scheme \<Rightarrow> close_code + actor \<times> time" where
  "actor_from_token svc token incident_id db =
     (case decode_access_token (jwt_decode svc) token of
        Inl _ \<Rightarrow> Inl Invalid_Token
      | Inr payload \<Rightarrow>
          (case (jget payload ''sub'', claim_int (jget payload ''token_version''),
                 jget payload ''exp'') of
             (JStr subject_id, Some token_version, JInt exp_at) \<Rightarrow>
               let found =
                 (if jget payload ''subject_type'' = JStr ''device'' then
                    (case get_device db subject_id of
                       None \<Rightarrow> None
                     | Some d \<Rightarrow>
                         if dv_revoked_at d \<noteq> None \<or> dv_token_version d \<noteq> token_version then None
                         else map_option
                           (\<lambda>is. (device_actor d is)\<lparr>ac_region_code := dv_region_code d\<rparr>)
                           (claim_strings (jget payload ''incident_ids'')))
                  else if jget payload ''subject_type'' = JStr ''account'' then
                    (case get_account db subject_id of
                       None \<Rightarrow> None
                     | Some a \<Rightarrow> if \<not> acc_is_active a then None else Some (account_actor db a))
                  else None)
               in (case found of
                     None \<Rightarrow> Inl Invalid_Token
                   | Some a \<Rightarrow> if incident_id \<notin> set (ac_incident_ids a) then Inl Access_Denied
                               else Inr (a, seconds exp_at))
           | _ \<Rightarrow> Inl Invalid_Token))"

section \<open>Replay\<close>

datatype server_message =
    Full_Resync_Required "int option" int
  | Ready ident "int option" int
  | Event envelope
  | Pong_Message
  | Ping_Message

definition oldest_sequence :: "outbox_row list \<Rightarrow> ident \<Rightarrow> time \<Rightarrow> int option" where
  "oldest_sequence rows iid cutoff =
     (case map ob_sequence (filter (\<lambda>r. ob_incident_id r = iid \<and> cutoff \<le> ob_occurred_at r) rows) of
        [] \<Rightarrow> None | s # ss \<Rightarrow> Some (fold min ss s))"

definition replay_rows ::
    "outbox_row list \<Rightarrow> ident \<Rightarrow> time \<Rightarrow> int \<Rightarrow> int \<Rightarrow> outbox_row list" where
  "replay_rows rows iid cutoff cursor latest =
     sort_key ob_sequence (filter (\<lambda>r. ob_incident_id r = iid \<and> cursor < ob_sequence r
        \<and> ob_sequence r \<le> latest \<and> cutoff \<le> ob_occurred_at r) rows)"

definition open_stream ::
    "time \<Rightarrow> actor \<Rightarrow> ident \<Rightarrow> int option \<Rightarrow> 'a ev_db_scheme
      \<Rightarrow> server_message list \<times> (close_code + int)" where
  "open_stream cutoff a incident_id last_sequence db =
     (case get_incident_by_id db incident_id of
        None \<Rightarrow> ([], Inl Incident_Not_Found)
      | Some inc \<Rightarrow>
          let oldest = oldest_sequence (db_outbox db) incident_id cutoff;
              latest = inc_event_sequence inc;
              cursor = (case last_sequence of None \<Rightarrow> latest | Some n \<Rightarrow> n);
              replay_required = (last_sequence \<noteq> None \<and> cursor < latest)
          in if replay_required \<and> (case oldest of None \<Rightarrow> True | Some s \<Rightarrow> cursor < s - 1)
             then ([Full_Resync_Required oldest latest], Inl Replay_Window_Exceeded)
             else (Ready incident_id oldest latest #
                   (if replay_required
                    then map Event (filter (event_visible a)
                           (map ob_payload (replay_rows (db_outbox db) incident_id cutoff cursor latest)))
                    else []),
                   Inr latest))"

text \<open>The drain after the replay sends what is newer than the snapshot and drops the rest.\<close>

definition drain :: "int \<Rightarrow> envelope list \<Rightarrow> envelope list" where
  "drain latest queue = filter (\<lambda>env. latest < env_sequence env) queue"

section \<open>The heartbeat\<close>

datatype incoming = Received json | Quiet

datatype loop_end = Still_Open nat | Token_Expired | Heartbeat_Timeout

text \<open>
  The receive loop, with the time at which each turn starts: expiry is checked first, then a
  message is awaited or the heartbeat interval passes in silence (\<open>Quiet\<close>).
\<close>

fun heartbeat :: "time \<Rightarrow> nat \<Rightarrow> (time \<times> incoming) list \<Rightarrow> server_message list \<times> loop_end" where
  "heartbeat expires missed [] = ([], Still_Open missed)"
| "heartbeat expires missed ((t, inp) # rest) =
     (if expires \<le> t then ([], Token_Expired)
      else case inp of
          Received m \<Rightarrow>
            if jget m ''type'' = JStr ''pong'' then heartbeat expires 0 rest
            else if jget m ''type'' = JStr ''ping''
            then (let r = heartbeat expires missed rest in (Pong_Message # fst r, snd r))
            else heartbeat expires missed rest
        | Quiet \<Rightarrow>
            if Suc missed > 2 then ([], Heartbeat_Timeout)
            else (let r = heartbeat expires (Suc missed) rest in (Ping_Message # fst r, snd r)))"

section \<open>Replay is complete\<close>

lemma fold_min_in: "fold min ss s \<in> insert s (set ss)" for s :: int
  by (induction ss arbitrary: s) (auto simp: min_def split: if_splits)

lemma oldest_sequence_SomeD:
  assumes "oldest_sequence rows iid cutoff = Some s"
  shows "\<exists>r \<in> set rows. ob_incident_id r = iid \<and> cutoff \<le> ob_occurred_at r \<and> ob_sequence r = s"
proof -
  let ?ss = "map ob_sequence (filter (\<lambda>r. ob_incident_id r = iid \<and> cutoff \<le> ob_occurred_at r) rows)"
  have "s \<in> set ?ss"
  proof (cases ?ss)
    case (Cons x xs)
    then have "s = fold min xs x" using assms by (simp add: oldest_sequence_def)
    then have "s \<in> insert x (set xs)" using fold_min_in by simp
    then show ?thesis unfolding Cons by simp
  qed (use assms in \<open>simp add: oldest_sequence_def\<close>)
  then show ?thesis by auto
qed

text \<open>In a log with increasing numbers and times, a later number is not older.\<close>

lemma later_not_older:
  assumes "sorted_wrt (<) (map ob_sequence rows)" "sorted (map ob_occurred_at rows)"
    and "x \<in> set rows" "y \<in> set rows" "ob_sequence x \<le> ob_sequence y"
  shows "ob_occurred_at x \<le> ob_occurred_at y"
  using assms
proof (induction rows)
  case (Cons r rows)
  then show ?case by (auto simp: not_less [symmetric])
qed simp

lemma replay_rows_suffix:
  assumes inc: "sorted_wrt (<) (map ob_sequence (filter (\<lambda>r. ob_incident_id r = iid) rows))"
    and times: "sorted (map ob_occurred_at (filter (\<lambda>r. ob_incident_id r = iid) rows))"
    and s: "oldest_sequence rows iid cutoff = Some s" "s - 1 \<le> cursor"
    and latest: "\<forall>r \<in> set rows. ob_incident_id r = iid \<longrightarrow> ob_sequence r \<le> latest"
  shows "replay_rows rows iid cutoff cursor latest
     = filter (\<lambda>r. cursor < ob_sequence r) (filter (\<lambda>r. ob_incident_id r = iid) rows)"
proof -
  let ?log = "filter (\<lambda>r. ob_incident_id r = iid) rows"
  obtain r0 where r0: "r0 \<in> set ?log" "cutoff \<le> ob_occurred_at r0" "ob_sequence r0 = s"
    using oldest_sequence_SomeD [OF s(1)] by auto
  have young: "cutoff \<le> ob_occurred_at r" if "r \<in> set ?log" "cursor < ob_sequence r" for r
    using later_not_older [OF inc times r0(1) that(1)] r0(2,3) s(2) that(2) by linarith
  have same: "filter (\<lambda>r. ob_incident_id r = iid \<and> cursor < ob_sequence r
        \<and> ob_sequence r \<le> latest \<and> cutoff \<le> ob_occurred_at r) rows
      = filter (\<lambda>r. cursor < ob_sequence r) ?log"
    unfolding filter_filter
  proof (rule filter_cong [OF refl])
    fix r assume r: "r \<in> set rows"
    show "(ob_incident_id r = iid \<and> cursor < ob_sequence r \<and> ob_sequence r \<le> latest
        \<and> cutoff \<le> ob_occurred_at r) = (ob_incident_id r = iid \<and> cursor < ob_sequence r)"
    proof (cases "ob_incident_id r = iid \<and> cursor < ob_sequence r")
      case True
      then have "cutoff \<le> ob_occurred_at r" using young r by simp
      moreover have "ob_sequence r \<le> latest" using latest r True by blast
      ultimately show ?thesis using True by simp
    qed blast
  qed
  have "sorted_wrt (\<lambda>x y. ob_sequence x < ob_sequence y) ?log" using inc by (simp add: sorted_wrt_map)
  then have "sorted_wrt (\<lambda>x y. ob_sequence x < ob_sequence y) (filter (\<lambda>r. cursor < ob_sequence r) ?log)"
    by (rule sorted_wrt_filter)
  then have "sorted (map ob_sequence (filter (\<lambda>r. cursor < ob_sequence r) ?log))"
    unfolding sorted_map by (rule sorted_wrt_mono_rel [rotated]) simp
  then show ?thesis unfolding replay_rows_def same by (rule sort_key_id_if_sorted)
qed

section \<open>The worker and one connection\<close>

text \<open>
  The events of one incident in the order of their numbers, how many of them the worker has
  handed to the hub, the phase of the connection, and what was sent to the client.
\<close>

datatype phase = Unregistered | Registered | Draining int | Live int | Closed

record stream =
  sm_log :: "envelope list"
  sm_published :: nat
  sm_phase :: phase
  sm_conn :: connection
  sm_sent :: "envelope list"

definition registered :: "phase \<Rightarrow> bool" where
  "registered p \<longleftrightarrow> p \<noteq> Unregistered \<and> p \<noteq> Closed"

definition resume_point :: "int option \<Rightarrow> int \<Rightarrow> int" where
  "resume_point last_sequence latest = (case last_sequence of None \<Rightarrow> latest | Some n \<Rightarrow> n)"

inductive stream_step :: "int option \<Rightarrow> stream \<Rightarrow> stream \<Rightarrow> bool" for last_sequence where
  emit: "env_sequence env = int (length (sm_log s)) + 1 \<Longrightarrow>
    env_incident_id env = cn_incident_id (sm_conn s) \<Longrightarrow>
    stream_step last_sequence s (s\<lparr>sm_log := sm_log s @ [env]\<rparr>)"
| publish_unseen: "sm_published s < length (sm_log s) \<Longrightarrow> \<not> registered (sm_phase s) \<Longrightarrow>
    stream_step last_sequence s (s\<lparr>sm_published := Suc (sm_published s)\<rparr>)"
| publish: "sm_published s < length (sm_log s) \<Longrightarrow> registered (sm_phase s) \<Longrightarrow>
    offer (sm_log s ! sm_published s) (sm_conn s) = Some c \<Longrightarrow>
    stream_step last_sequence s (s\<lparr>sm_published := Suc (sm_published s), sm_conn := c\<rparr>)"
| publish_slow: "sm_published s < length (sm_log s) \<Longrightarrow> registered (sm_phase s) \<Longrightarrow>
    offer (sm_log s ! sm_published s) (sm_conn s) = None \<Longrightarrow>
    stream_step last_sequence s (s\<lparr>sm_published := Suc (sm_published s), sm_phase := Closed\<rparr>)"
| register: "sm_phase s = Unregistered \<Longrightarrow>
    stream_step last_sequence s (s\<lparr>sm_phase := Registered\<rparr>)"
| replay: "sm_phase s = Registered \<Longrightarrow> latest = int (length (sm_log s)) \<Longrightarrow>
    stream_step last_sequence s (s\<lparr>sm_phase := Draining latest,
      sm_sent := filter (event_visible (cn_actor (sm_conn s)))
        (filter (\<lambda>env. resume_point last_sequence latest < env_sequence env) (sm_log s))\<rparr>)"
| drain_one: "sm_phase s = Draining latest \<Longrightarrow> cn_queue (sm_conn s) = env # rest \<Longrightarrow>
    stream_step last_sequence s (s\<lparr>sm_conn := (sm_conn s)\<lparr>cn_queue := rest\<rparr>,
      sm_sent := sm_sent s @ drain latest [env]\<rparr>)"
| drained: "sm_phase s = Draining latest \<Longrightarrow> cn_queue (sm_conn s) = [] \<Longrightarrow>
    stream_step last_sequence s (s\<lparr>sm_phase := Live latest\<rparr>)"
| send_queued: "sm_phase s = Live latest \<Longrightarrow> cn_queue (sm_conn s) = env # rest \<Longrightarrow>
    stream_step last_sequence s (s\<lparr>sm_conn := (sm_conn s)\<lparr>cn_queue := rest\<rparr>,
      sm_sent := sm_sent s @ [env]\<rparr>)"

text \<open>A connection opens on a gap-free log of which some prefix has been published.\<close>

definition stream_start :: "stream \<Rightarrow> bool" where
  "stream_start s \<longleftrightarrow> consec 0 (map env_sequence (sm_log s)) \<and> sm_published s \<le> length (sm_log s)
     \<and> (\<forall>env \<in> set (sm_log s). env_incident_id env = cn_incident_id (sm_conn s))
     \<and> sm_phase s = Unregistered \<and> cn_queue (sm_conn s) = [] \<and> sm_sent s = []"

inductive stream_reachable :: "int option \<Rightarrow> stream \<Rightarrow> stream \<Rightarrow> bool" for last_sequence where
  start: "stream_start s \<Longrightarrow> stream_reachable last_sequence s s"
| step: "stream_reachable last_sequence s0 s \<Longrightarrow> stream_step last_sequence s s' \<Longrightarrow>
    stream_reachable last_sequence s0 s'"

subsection \<open>What is never lost\<close>

text \<open>
  \<open>seen s lo hi\<close>: every visible event numbered from \<open>lo + 1\<close> to \<open>hi\<close> is in the list.
\<close>

definition covers :: "connection \<Rightarrow> envelope list \<Rightarrow> int \<Rightarrow> int \<Rightarrow> envelope list \<Rightarrow> bool" where
  "covers c all lo hi got \<longleftrightarrow> (\<forall>env \<in> set all. event_visible (cn_actor c) env
     \<longrightarrow> lo < env_sequence env \<longrightarrow> env_sequence env \<le> hi \<longrightarrow> env \<in> set got)"

lemma coversD:
  "covers c all lo hi got \<Longrightarrow> env \<in> set all \<Longrightarrow> event_visible (cn_actor c) env
   \<Longrightarrow> lo < env_sequence env \<Longrightarrow> env_sequence env \<le> hi \<Longrightarrow> env \<in> set got"
  unfolding covers_def by blast

text \<open>The queue holds events the worker has published, newest last, none twice.\<close>

definition queue_ok :: "stream \<Rightarrow> bool" where
  "queue_ok s \<longleftrightarrow> sorted_wrt (<) (map env_sequence (cn_queue (sm_conn s)))
     \<and> (\<forall>env \<in> set (cn_queue (sm_conn s)). env \<in> set (sm_log s)
          \<and> env_sequence env \<le> int (sm_published s))"

definition log_ok :: "stream \<Rightarrow> bool" where
  "log_ok s \<longleftrightarrow> consec 0 (map env_sequence (sm_log s)) \<and> sm_published s \<le> length (sm_log s)
     \<and> (\<forall>env \<in> set (sm_log s). env_incident_id env = cn_incident_id (sm_conn s))"

definition newer_sorted :: "int \<Rightarrow> stream \<Rightarrow> bool" where
  "newer_sorted latest s \<longleftrightarrow> sorted_wrt (<) (map env_sequence
     (filter (\<lambda>env. latest < env_sequence env) (sm_sent s @ cn_queue (sm_conn s))))"

text \<open>A connection past its replay up to \<open>latest\<close>.\<close>

definition following :: "int option \<Rightarrow> int \<Rightarrow> stream \<Rightarrow> bool" where
  "following seen latest s \<longleftrightarrow> queue_ok s \<and> latest \<le> int (length (sm_log s))
     \<and> covers (sm_conn s) (sm_log s) (resume_point seen latest) latest (sm_sent s)
     \<and> covers (sm_conn s) (sm_log s) latest (int (sm_published s))
         (sm_sent s @ cn_queue (sm_conn s))
     \<and> newer_sorted latest s
     \<and> (\<forall>env \<in> set (sm_sent s). env_sequence env \<le> max latest (int (sm_published s)))"

definition stream_ok :: "int option \<Rightarrow> stream \<Rightarrow> bool" where
  "stream_ok seen s \<longleftrightarrow> log_ok s \<and>
     (case sm_phase s of
        Unregistered \<Rightarrow> cn_queue (sm_conn s) = [] \<and> sm_sent s = []
      | Registered \<Rightarrow> queue_ok s \<and> sm_sent s = []
      | Closed \<Rightarrow> True
      | Draining latest \<Rightarrow> following seen latest s
      | Live latest \<Rightarrow> following seen latest s)"

lemma log_nth_sequence:
  assumes "consec 0 (map env_sequence es)" "k < length es"
  shows "env_sequence (es ! k) = int k + 1"
proof -
  have "consec n xs \<Longrightarrow> k < length xs \<Longrightarrow> xs ! k = n + int k + 1" for n k and xs :: "int list"
    by (induction xs arbitrary: n k) (auto simp: nth_Cons')
  from this [OF assms(1), of k] assms(2) show ?thesis by simp
qed

lemma log_sequence_bounds:
  "consec 0 (map env_sequence es) \<Longrightarrow> env \<in> set es \<Longrightarrow>
     1 \<le> env_sequence env \<and> env_sequence env \<le> int (length es)"
  using consec_set [of 0 "map env_sequence es"] by force

lemma log_sequence_inj:
  assumes "consec 0 (map env_sequence es)" "env \<in> set es" "k < length es"
    "env_sequence env = int k + 1"
  shows "env = es ! k"
proof -
  obtain j where j: "j < length es" "env = es ! j" using assms(2) by (auto simp: in_set_conv_nth)
  then show ?thesis using log_nth_sequence [OF assms(1) j(1)] assms(4) by simp
qed

lemma next_sequence:
  "log_ok s \<Longrightarrow> sm_published s < length (sm_log s) \<Longrightarrow>
     env_sequence (sm_log s ! sm_published s) = int (sm_published s) + 1"
  using log_nth_sequence [of "sm_log s" "sm_published s"] by (simp add: log_ok_def)

lemma log_ok_emit:
  assumes "log_ok s" "env_sequence env = int (length (sm_log s)) + 1"
    "env_incident_id env = cn_incident_id (sm_conn s)"
  shows "log_ok (s\<lparr>sm_log := sm_log s @ [env]\<rparr>)"
  using assms by (auto simp: log_ok_def consec_append)

lemma queue_ok_emit: "queue_ok s \<Longrightarrow> queue_ok (s\<lparr>sm_log := sm_log s @ [env]\<rparr>)"
  by (auto simp: queue_ok_def)

lemma following_emit:
  assumes "following seen latest s" "log_ok s" "env_sequence env = int (length (sm_log s)) + 1"
  shows "following seen latest (s\<lparr>sm_log := sm_log s @ [env]\<rparr>)"
proof -
  have "int (sm_published s) < env_sequence env" "latest < env_sequence env"
    using assms by (auto simp: following_def log_ok_def)
  then show ?thesis
    using assms(1) queue_ok_emit [of s env]
    by (auto simp: following_def covers_def newer_sorted_def)
qed

lemma queue_ok_publish:
  assumes "queue_ok s" "log_ok s" "sm_published s < length (sm_log s)"
    and "offer (sm_log s ! sm_published s) (sm_conn s) = Some c"
  shows "queue_ok (s\<lparr>sm_published := Suc (sm_published s), sm_conn := c\<rparr>)"
proof -
  let ?env = "sm_log s ! sm_published s"
  have seq: "env_sequence ?env = int (sm_published s) + 1"
    by (rule next_sequence [OF assms(2,3)])
  have "cn_queue c = cn_queue (sm_conn s) \<or> cn_queue c = cn_queue (sm_conn s) @ [?env]"
    using assms(4) by (auto simp: offer_def split: if_splits)
  then show ?thesis
    using assms(1,3) seq by (fastforce simp: queue_ok_def sorted_wrt_append)
qed

lemma following_covers:
  "following seen latest s \<Longrightarrow> covers (sm_conn s) (sm_log s) latest (int (sm_published s))
     (sm_sent s @ cn_queue (sm_conn s))"
  by (simp add: following_def)

lemma following_publish:
  assumes f: "following seen latest s" and l: "log_ok s" and n: "sm_published s < length (sm_log s)"
    and off: "offer (sm_log s ! sm_published s) (sm_conn s) = Some c"
  shows "following seen latest (s\<lparr>sm_published := Suc (sm_published s), sm_conn := c\<rparr>)"
proof -
  let ?env = "sm_log s ! sm_published s"
  have seq: "env_sequence ?env = int (sm_published s) + 1"
    by (rule next_sequence [OF l n])
  have actr: "cn_actor c = cn_actor (sm_conn s)" using off by (auto simp: offer_def split: if_splits)
  have inc: "env_incident_id ?env = cn_incident_id (sm_conn s)" using l n by (simp add: log_ok_def)
  have queue: "cn_queue c = cn_queue (sm_conn s) @
      (if event_visible (cn_actor (sm_conn s)) ?env then [?env] else [])"
    using off inc by (auto simp: offer_def wants_def split: if_splits)
  have one: "env = ?env" if "env \<in> set (sm_log s)" "env_sequence env = int (sm_published s) + 1" for env
    using log_sequence_inj [OF _ that(1) n that(2)] l by (simp add: log_ok_def)
  have "covers c (sm_log s) latest (int (Suc (sm_published s))) (sm_sent s @ cn_queue c)"
    unfolding covers_def
  proof (intro ballI impI)
    fix env
    assume env: "env \<in> set (sm_log s)" "event_visible (cn_actor c) env" "latest < env_sequence env"
      "env_sequence env \<le> int (Suc (sm_published s))"
    show "env \<in> set (sm_sent s @ cn_queue c)"
    proof (cases "env_sequence env \<le> int (sm_published s)")
      case True
      have "env \<in> set (sm_sent s @ cn_queue (sm_conn s))"
        by (rule coversD [OF following_covers [OF f]]) (use env True actr in simp_all)
      then show ?thesis by (auto simp: queue)
    next
      case False
      then have "env = ?env" using one env by simp
      then show ?thesis using env(2) actr by (simp add: queue)
    qed
  qed
  moreover have "covers c (sm_log s) (resume_point seen latest) latest (sm_sent s)"
    using f actr by (simp add: following_def covers_def)
  moreover have "newer_sorted latest (s\<lparr>sm_published := Suc (sm_published s), sm_conn := c\<rparr>)"
  proof -
    have "env_sequence env < env_sequence ?env"
      if "env \<in> set (filter (\<lambda>env. latest < env_sequence env) (sm_sent s @ cn_queue (sm_conn s)))" for env
      using that f seq by (fastforce simp: following_def queue_ok_def)
    then show ?thesis
      using f by (auto simp: newer_sorted_def following_def queue sorted_wrt_append)
  qed
  ultimately show ?thesis
    using f queue_ok_publish [OF _ l n off] by (auto simp: following_def)
qed

lemma following_replay:
  assumes "queue_ok s" "log_ok s" "latest = int (length (sm_log s))"
  shows "following seen latest (s\<lparr>sm_phase := Draining latest,
      sm_sent := filter (event_visible (cn_actor (sm_conn s)))
        (filter (\<lambda>env. resume_point seen latest < env_sequence env) (sm_log s))\<rparr>)"
proof -
  let ?s = "s\<lparr>sm_phase := Draining latest,
      sm_sent := filter (event_visible (cn_actor (sm_conn s)))
        (filter (\<lambda>env. resume_point seen latest < env_sequence env) (sm_log s))\<rparr>"
  have le: "env_sequence env \<le> latest" if "env \<in> set (sm_log s)" for env
    using log_sequence_bounds [OF _ that] assms(2,3) by (simp add: log_ok_def)
  have pub: "int (sm_published s) \<le> latest" using assms(2,3) by (simp add: log_ok_def)
  have "filter (\<lambda>env. latest < env_sequence env) (sm_sent ?s @ cn_queue (sm_conn ?s)) = []"
    using le pub assms(1) by (fastforce simp: filter_empty_conv queue_ok_def)
  then have "newer_sorted latest ?s" by (simp only: newer_sorted_def list.map sorted_wrt.simps)
  moreover have "queue_ok ?s" using assms(1) by (simp add: queue_ok_def)
  moreover have "covers (sm_conn ?s) (sm_log ?s) latest (int (sm_published ?s))
      (sm_sent ?s @ cn_queue (sm_conn ?s))"
    using le pub by (fastforce simp: covers_def)
  moreover have "\<forall>env \<in> set (sm_sent ?s). env_sequence env \<le> max latest (int (sm_published ?s))"
    using le by fastforce
  moreover have "covers (sm_conn ?s) (sm_log ?s) (resume_point seen latest) latest (sm_sent ?s)"
    by (simp add: covers_def)
  ultimately show ?thesis using assms(3) unfolding following_def by simp
qed

lemma following_pop:
  assumes f: "following seen latest s" and q: "cn_queue (sm_conn s) = env # rest"
    and out: "out = [env] \<or> out = [] \<and> env_sequence env \<le> latest"
  shows "following seen latest (s\<lparr>sm_conn := (sm_conn s)\<lparr>cn_queue := rest\<rparr>,
      sm_sent := sm_sent s @ out\<rparr>)"
proof -
  let ?s = "s\<lparr>sm_conn := (sm_conn s)\<lparr>cn_queue := rest\<rparr>, sm_sent := sm_sent s @ out\<rparr>"
  have "queue_ok ?s" using f q by (simp add: following_def queue_ok_def)
  moreover have "newer_sorted latest ?s"
    using f q out by (auto simp: following_def newer_sorted_def)
  moreover have "covers (sm_conn ?s) (sm_log ?s) latest (int (sm_published ?s))
      (sm_sent ?s @ cn_queue (sm_conn ?s))"
    unfolding covers_def
  proof (intro ballI impI)
    fix x
    assume x: "x \<in> set (sm_log ?s)" "event_visible (cn_actor (sm_conn ?s)) x"
      "latest < env_sequence x" "env_sequence x \<le> int (sm_published ?s)"
    have "x \<in> set (sm_sent s @ cn_queue (sm_conn s))"
      by (rule coversD [OF following_covers [OF f]]) (use x in simp_all)
    then show "x \<in> set (sm_sent ?s @ cn_queue (sm_conn ?s))" using q out x(3) by auto
  qed
  moreover have "covers (sm_conn ?s) (sm_log ?s) (resume_point seen latest) latest (sm_sent ?s)"
    using f by (auto simp: following_def covers_def)
  moreover have "\<forall>x \<in> set (sm_sent ?s). env_sequence x \<le> max latest (int (sm_published ?s))"
    using f q out by (auto simp: following_def queue_ok_def)
  ultimately show ?thesis using f unfolding following_def by simp
qed

lemma following_phase [simp]: "following seen latest (s\<lparr>sm_phase := p\<rparr>) = following seen latest s"
  by (simp add: following_def queue_ok_def newer_sorted_def)

lemma stream_ok_step:
  assumes "stream_step seen s s'" "stream_ok seen s"
  shows "stream_ok seen s'"
  using assms
proof cases
  case (emit env)
  then show ?thesis
    using assms(2) log_ok_emit [of s env] queue_ok_emit [of s env] following_emit [of seen _ s env]
    by (auto simp: stream_ok_def split: phase.splits)
next
  case publish_unseen
  then show ?thesis using assms(2)
    by (auto simp: stream_ok_def log_ok_def registered_def split: phase.splits)
next
  case (publish c)
  have "cn_incident_id c = cn_incident_id (sm_conn s)"
    using publish by (auto simp: offer_def split: if_splits)
  then have l: "log_ok (s\<lparr>sm_published := Suc (sm_published s), sm_conn := c\<rparr>)"
    using publish assms(2) by (simp add: stream_ok_def log_ok_def)
  show ?thesis
    using l publish assms(2) queue_ok_publish [of s c] following_publish [of seen _ s c]
    by (auto simp: stream_ok_def registered_def split: phase.splits)
next
  case publish_slow
  then show ?thesis using assms(2) by (auto simp: stream_ok_def log_ok_def)
next
  case register
  then show ?thesis using assms(2) by (auto simp: stream_ok_def log_ok_def queue_ok_def)
next
  case (replay latest)
  then show ?thesis
    using assms(2) following_replay [of s latest seen] by (simp add: stream_ok_def log_ok_def)
next
  case (drain_one latest env rest)
  have "drain latest [env] = [env] \<or> drain latest [env] = [] \<and> env_sequence env \<le> latest"
    by (auto simp: drain_def)
  then show ?thesis
    using drain_one assms(2) following_pop [of seen latest s env rest "drain latest [env]"]
    by (simp add: stream_ok_def log_ok_def)
next
  case (drained latest)
  then show ?thesis using assms(2) by (simp add: stream_ok_def log_ok_def)
next
  case (send_queued latest env rest)
  then show ?thesis
    using assms(2) following_pop [of seen latest s env rest "[env]"]
    by (simp add: stream_ok_def log_ok_def)
qed

lemma stream_ok_reachable: "stream_reachable seen s0 s \<Longrightarrow> stream_ok seen s"
proof (induction rule: stream_reachable.induct)
  case (start s)
  then show ?case by (simp add: stream_start_def stream_ok_def log_ok_def)
next
  case (step s0 s s')
  then show ?case using stream_ok_step by blast
qed

section \<open>Properties\<close>

text \<open>What the hub keeps: bounded queues that hold only what their connection may see.\<close>

definition hub_ok :: "connection list \<Rightarrow> bool" where
  "hub_ok hub \<longleftrightarrow> (\<forall>c \<in> set hub. (0 < cn_maxsize c \<longrightarrow> int (length (cn_queue c)) \<le> cn_maxsize c)
     \<and> (\<forall>env \<in> set (cn_queue c). wants env c))"

lemma offer_keeps:
  assumes "offer env c = Some c'" "0 < cn_maxsize c \<longrightarrow> int (length (cn_queue c)) \<le> cn_maxsize c"
    "\<forall>x \<in> set (cn_queue c). wants x c"
  shows "(0 < cn_maxsize c' \<longrightarrow> int (length (cn_queue c')) \<le> cn_maxsize c')
    \<and> (\<forall>x \<in> set (cn_queue c'). wants x c')"
  using assms by (auto simp: offer_def queue_full_def wants_def split: if_splits)

lemma hub_publish_set: "c' \<in> set (hub_publish env hub) \<longleftrightarrow> (\<exists>c \<in> set hub. offer env c = Some c')"
  by (force simp: hub_publish_def List.map_filter_def)

text \<open>
  Publishing is safe and fair to the other clients: queues stay within their bound and
  hold only events their client may see (an event for someone else's device, or a question
  aimed at a place or another region, is never queued for a resident); a client is dropped
  exactly when its queue is full and the event is for it, and every other client that may
  see the event has it queued last.
\<close>

theorem hub_publish_safe:
  assumes "hub_ok hub"
  shows "hub_ok (hub_publish env hub)
    \<and> (\<forall>c \<in> set hub. \<not> (wants env c \<and> queue_full c) \<longrightarrow>
         c\<lparr>cn_queue := cn_queue c @ (if wants env c then [env] else [])\<rparr> \<in> set (hub_publish env hub))
    \<and> (\<forall>c \<in> set (hub_publish env hub). ac_role (cn_actor c) \<notin> {''operator'', ''admin''} \<longrightarrow>
         (\<forall>x \<in> set (cn_queue c). env_visibility x = ''public''
            \<or> env_owner_device_id x = Some (ac_subject_id (cn_actor c))))"
proof -
  have ok: "hub_ok (hub_publish env hub)"
    unfolding hub_ok_def
  proof
    fix c' assume "c' \<in> set (hub_publish env hub)"
    then obtain c where "c \<in> set hub" "offer env c = Some c'" by (auto simp: hub_publish_set)
    then show "(0 < cn_maxsize c' \<longrightarrow> int (length (cn_queue c')) \<le> cn_maxsize c')
        \<and> (\<forall>x \<in> set (cn_queue c'). wants x c')"
      using offer_keeps assms unfolding hub_ok_def by blast
  qed
  have "c\<lparr>cn_queue := cn_queue c @ (if wants env c then [env] else [])\<rparr> \<in> set (hub_publish env hub)"
    if "c \<in> set hub" "\<not> (wants env c \<and> queue_full c)" for c
    unfolding hub_publish_set by (rule bexI [OF _ that(1)]) (use that(2) in \<open>auto simp: offer_def\<close>)
  moreover have "env_visibility x = ''public'' \<or> env_owner_device_id x = Some (ac_subject_id a)"
    if "event_visible a x" "ac_role a \<notin> {''operator'', ''admin''}" for a x
    using that by (auto simp: event_visible_def Let_def split: if_splits)
  ultimately show ?thesis using ok unfolding hub_ok_def wants_def by blast
qed

definition demo_envelope :: envelope where
  "demo_envelope = ob_payload (outbox_entry demo_env 0 ''inc'' 1 None
     (demo_emission\<lparr>em_visibility := ''public''\<rparr>))"

definition demo_connection :: connection where
  "demo_connection = \<lparr>cn_id = 1, cn_actor = device_actor demo_device [''inc''],
     cn_incident_id = ''inc'', cn_expires_at = 100, cn_maxsize = 1, cn_queue = []\<rparr>"

lemma demo_wants: "wants demo_envelope demo_connection"
  "event_visible (cn_actor demo_connection) demo_envelope"
  "env_incident_id demo_envelope = ''inc''" "env_sequence demo_envelope = 1"
  by (simp_all add: wants_def demo_envelope_def demo_connection_def device_actor_def
      event_visible_def starts_with_def demo_emission_def outbox_entry_def)

lemma demo_stream_run:
  "\<exists>s0 s. stream_reachable (Some 0) s0 s \<and> sm_log s = [demo_envelope]
     \<and> sm_sent s = [demo_envelope, demo_envelope] \<and> sm_phase s = Live 1 \<and> sm_published s = 1
     \<and> sm_conn s = demo_connection"
proof -
  let ?s0 = "\<lparr>sm_log = [demo_envelope], sm_published = 0, sm_phase = Unregistered,
    sm_conn = demo_connection, sm_sent = []\<rparr>"
  let ?s1 = "?s0\<lparr>sm_phase := Registered\<rparr>"
  let ?s2 = "?s1\<lparr>sm_phase := Draining 1, sm_sent := [demo_envelope]\<rparr>"
  let ?s3 = "?s2\<lparr>sm_phase := Live 1\<rparr>"
  let ?s4 = "?s3\<lparr>sm_published := 1, sm_conn := demo_connection\<lparr>cn_queue := [demo_envelope]\<rparr>\<rparr>"
  let ?s5 = "?s4\<lparr>sm_conn := demo_connection\<lparr>cn_queue := []\<rparr>, sm_sent := [demo_envelope, demo_envelope]\<rparr>"
  have start: "stream_start ?s0"
    by (simp add: stream_start_def demo_wants) (simp add: demo_connection_def)
  have q: "cn_queue demo_connection = []" by (simp add: demo_connection_def)
  have "stream_step (Some 0) ?s0 ?s1" using stream_step.register [of ?s0 "Some 0"] by simp
  moreover have "stream_step (Some 0) ?s1 ?s2"
    using stream_step.replay [of ?s1 1 "Some 0"] by (simp add: demo_wants resume_point_def)
  moreover have "stream_step (Some 0) ?s2 ?s3"
    using stream_step.drained [of ?s2 1 "Some 0"] q by simp
  moreover have "stream_step (Some 0) ?s3 ?s4"
    using stream_step.publish [of ?s3 "demo_connection\<lparr>cn_queue := [demo_envelope]\<rparr>" "Some 0"] q
    by (simp add: registered_def offer_def demo_wants queue_full_def)
  moreover have "stream_step (Some 0) ?s4 ?s5"
    using stream_step.send_queued [of ?s4 1 demo_envelope "[]" "Some 0"] by simp
  ultimately have "stream_reachable (Some 0) ?s0 ?s5"
    using stream_reachable.start [OF start] stream_reachable.step by meson
  moreover have "sm_log ?s5 = [demo_envelope] \<and> sm_sent ?s5 = [demo_envelope, demo_envelope]
      \<and> sm_phase ?s5 = Live 1 \<and> sm_published ?s5 = 1 \<and> sm_conn ?s5 = demo_connection"
    by (simp add: demo_connection_def)
  ultimately show ?thesis by blast
qed

theorem hub_publish_safe_witness:
  "demo_connection\<lparr>cn_queue := [demo_envelope]\<rparr>
     \<in> set (hub_publish demo_envelope [demo_connection])"
proof -
  have "hub_ok [demo_connection]" by (simp add: hub_ok_def demo_connection_def)
  from hub_publish_safe [OF this, of demo_envelope] demo_wants(1) show ?thesis
    by (auto simp: queue_full_def demo_connection_def)
qed

text \<open>
  C14. A replay has no holes.  On the gap-free log of an incident (rows possibly deleted at
  the old end, written in the order of time) a client that reconnects after event \<open>n\<close> is
  either told to resynchronise, or receives, in order, every event it may see with a number
  above \<open>n\<close>: the age limit of the query removes none of them.
\<close>

theorem replay_complete:
  assumes "get_incident_by_id db i = Some inc" "consec b (map ob_sequence (log_of db i))"
    and "b + int (length (log_of db i)) = inc_event_sequence inc"
    and "sorted (map ob_occurred_at (log_of db i))" "n < inc_event_sequence inc"
    and "open_stream cutoff a i (Some n) db = (msgs, Inr latest)"
  shows "latest = inc_event_sequence inc
    \<and> tl msgs = map Event (filter (event_visible a)
         (map ob_payload (filter (\<lambda>r. n < ob_sequence r) (log_of db i))))
    \<and> set (map ob_sequence (filter (\<lambda>r. n < ob_sequence r) (log_of db i))) = {n + 1 .. latest}"
proof -
  let ?old = "oldest_sequence (db_outbox db) i cutoff"
  have stream: "latest = inc_event_sequence inc" "\<not> (case ?old of None \<Rightarrow> True | Some s \<Rightarrow> n < s - 1)"
    "tl msgs = map Event (filter (event_visible a) (map ob_payload
       (replay_rows (db_outbox db) i cutoff n latest)))"
    using assms(1,5,6) by (auto simp: open_stream_def Let_def split: if_splits)
  obtain s where s: "?old = Some s" "s - 1 \<le> n"
    using stream(2) by (cases ?old) auto
  have inc: "sorted_wrt (<) (map ob_sequence (log_of db i))" by (rule consec_sorted [OF assms(2)])
  have range: "set (map ob_sequence (log_of db i)) = {b + 1 .. latest}"
    using consec_set [OF assms(2)] assms(3) stream(1) by simp
  have le: "ob_sequence r \<le> latest" if "r \<in> set (log_of db i)" for r
  proof -
    have "ob_sequence r \<in> set (map ob_sequence (log_of db i))" using that by simp
    then show ?thesis unfolding range by simp
  qed
  have rows: "replay_rows (db_outbox db) i cutoff n latest
      = filter (\<lambda>r. n < ob_sequence r) (log_of db i)"
    using replay_rows_suffix [OF inc [unfolded log_of_def] assms(4) [unfolded log_of_def] s] le
    by (simp add: log_of_def)
  obtain r0 where "r0 \<in> set (db_outbox db)" "ob_incident_id r0 = i" "ob_sequence r0 = s"
    using oldest_sequence_SomeD [OF s(1)] by blast
  then have "s \<in> set (map ob_sequence (log_of db i))" by (auto simp: log_of_def)
  then have "b + 1 \<le> s" unfolding range by simp
  have "set (map ob_sequence (filter (\<lambda>r. n < ob_sequence r) (log_of db i)))
      = {x \<in> set (map ob_sequence (log_of db i)). n < x}" by auto
  also have "\<dots> = {n + 1 .. latest}" unfolding range using \<open>b + 1 \<le> s\<close> s(2) by auto
  finally show ?thesis using stream(1,3) rows by simp
qed

definition demo_replay_db :: ev_db where
  "demo_replay_db = demo_db\<lparr>db_incidents := [demo_incident\<lparr>inc_event_sequence := 1\<rparr>],
     db_outbox := [outbox_entry demo_env 0 ''inc'' 1 None (demo_emission\<lparr>em_visibility := ''public''\<rparr>)]\<rparr>"

theorem replay_complete_witness:
  "\<exists>msgs. open_stream 0 (cn_actor demo_connection) ''inc'' (Some 0) demo_replay_db = (msgs, Inr 1)
     \<and> tl msgs = [Event demo_envelope]"
proof -
  let ?db = demo_replay_db
  have g: "get_incident_by_id ?db ''inc'' = Some (demo_incident\<lparr>inc_event_sequence := 1\<rparr>)"
    by (simp add: get_incident_by_id_def demo_replay_db_def) (simp add: demo_incident_def)
  have l: "log_of ?db ''inc'' = [outbox_entry demo_env 0 ''inc'' 1 None
      (demo_emission\<lparr>em_visibility := ''public''\<rparr>)]"
    by (simp add: log_of_def demo_replay_db_def)
  have o: "ob_occurred_at (outbox_entry demo_env 0 ''inc'' 1 None em) = 0" for em
    by (simp add: outbox_entry_def demo_env_def)
  obtain msgs where m: "open_stream 0 (cn_actor demo_connection) ''inc'' (Some 0) ?db = (msgs, Inr 1)"
    using g by (simp add: open_stream_def oldest_sequence_def demo_replay_db_def o Let_def)
  have "tl msgs = map Event (filter (event_visible (cn_actor demo_connection))
      (map ob_payload (filter (\<lambda>r. 0 < ob_sequence r) (log_of ?db ''inc''))))"
    using replay_complete [OF g _ _ _ _ m, of 0] by (simp add: l)
  then have "tl msgs = [Event demo_envelope]"
    using demo_wants(2) by (simp add: l demo_envelope_def)
  with m show ?thesis by blast
qed

text \<open>
  C13. Nothing is lost between the replay and the live queue.  However emissions, publications
  by the worker and the turns of the handler interleave, once a connection is live and its
  queue is empty, every event the client may see that is newer than its resume point and
  that the worker has published was sent, and what is newer than the snapshot was sent in
  order and once.
\<close>

theorem stream_loses_nothing:
  assumes "stream_reachable seen s0 s" "sm_phase s = Live latest" "cn_queue (sm_conn s) = []"
  shows "(\<forall>env \<in> set (sm_log s). event_visible (cn_actor (sm_conn s)) env
         \<and> resume_point seen latest < env_sequence env
         \<and> env_sequence env \<le> max latest (int (sm_published s)) \<longrightarrow> env \<in> set (sm_sent s))
    \<and> sorted_wrt (<) (map env_sequence (filter (\<lambda>env. latest < env_sequence env) (sm_sent s)))"
proof -
  have f: "following seen latest s"
    using stream_ok_reachable [OF assms(1)] assms(2) by (simp add: stream_ok_def)
  have "env \<in> set (sm_sent s)"
    if "env \<in> set (sm_log s)" "event_visible (cn_actor (sm_conn s)) env"
      "resume_point seen latest < env_sequence env"
      "env_sequence env \<le> max latest (int (sm_published s))" for env
  proof (cases "env_sequence env \<le> latest")
    case True
    then show ?thesis using f that by (simp add: following_def covers_def)
  next
    case False
    have "env \<in> set (sm_sent s @ cn_queue (sm_conn s))"
      by (rule coversD [OF following_covers [OF f]]) (use that False in simp_all)
    then show ?thesis using assms(3) by simp
  qed
  moreover have "sorted_wrt (<) (map env_sequence (filter (\<lambda>env. latest < env_sequence env) (sm_sent s)))"
    using f assms(3) by (simp add: following_def newer_sorted_def)
  ultimately show ?thesis by blast
qed

theorem stream_loses_nothing_witness:
  "\<exists>s0 s. stream_reachable (Some 0) s0 s \<and> demo_envelope \<in> set (sm_log s) \<and> demo_envelope \<in> set (sm_sent s)"
proof -
  obtain s0 s where s: "stream_reachable (Some 0) s0 s" "sm_log s = [demo_envelope]"
    "sm_phase s = Live 1" "sm_conn s = demo_connection" using demo_stream_run by blast
  have "cn_queue (sm_conn s) = []" by (simp add: s(4) demo_connection_def)
  from stream_loses_nothing [OF s(1,3) this] s demo_wants have "demo_envelope \<in> set (sm_sent s)"
    by (simp add: resume_point_def)
  with s show ?thesis by (intro exI [of _ s0] exI [of _ s]) simp
qed

text \<open>
  Events up to the snapshot may come twice, although the drain is there to discard
  duplicates: an event that was committed but not yet published when the client connected
  is replayed from the table and, when the worker publishes it after the drain has ended,
  sent again from the queue.
\<close>

theorem replayed_event_sent_again:
  "\<exists>s0 s env. stream_reachable (Some 0) s0 s \<and> sm_log s = [env] \<and> sm_sent s = [env, env]"
  using demo_stream_run by blast

lemma heartbeat_silent:
  assumes "\<forall>x \<in> set ins. \<forall>m. snd x = Received m \<longrightarrow> jget m ''type'' \<noteq> JStr ''pong''"
    "2 < missed + length (filter (\<lambda>x. snd x = Quiet) ins)" "missed \<le> 2"
  shows "snd (heartbeat expires missed ins) \<in> {Token_Expired, Heartbeat_Timeout}"
  using assms
proof (induction expires missed ins rule: heartbeat.induct)
  case (2 expires missed t inp rest)
  then show ?case by (cases inp) (auto simp: Let_def)
qed simp

text \<open>
  A dead client does not keep its connection: once three heartbeat intervals passed in
  silence with no pong in between, whatever other messages came, the server has closed the
  connection; and it never serves a turn after the access token expired.
\<close>

theorem silent_client_closed:
  assumes "\<forall>x \<in> set ins. \<forall>m. snd x = Received m \<longrightarrow> jget m ''type'' \<noteq> JStr ''pong''"
    and "3 \<le> length (filter (\<lambda>x. snd x = Quiet) ins)"
  shows "snd (heartbeat expires 0 ins) \<in> {Token_Expired, Heartbeat_Timeout}"
  by (rule heartbeat_silent) (use assms in auto)

theorem silent_client_closed_witness:
  "snd (heartbeat 100 0 [(0, Quiet), (1, Received (JObj [(''type'', JStr ''ping'')])), (2, Quiet), (3, Quiet)])
     \<in> {Token_Expired, Heartbeat_Timeout}"
  by (rule silent_client_closed) simp_all

end
