(* ===== verification/Rows.thy ===== *)
theory Rows
  imports Auth
begin

text \<open>
  The rows of \<open>models.py\<close> that reports, questions, conflicts and the map share, and the
  database that holds them.  A number submitted by a client is a binary float and so a
  rational; coordinates the code computes are real numbers.  The columns that no modelled
  code reads (\<open>created_at\<close> of some tables, EXIF data, transcripts) are left out.
\<close>

record report =
  rp_id :: ident
  rp_incident_id :: ident
  rp_reporter_device_id :: ident
  rp_reporter_contact_id :: "ident option"
  rp_category :: string
  rp_content_original :: utext
  rp_content_display :: utext
  rp_location_text :: utext
  rp_latitude :: "rat option"
  rp_longitude :: "rat option"
  rp_wgs84_latitude :: "real option"
  rp_wgs84_longitude :: "real option"
  rp_gcj02_latitude :: "real option"
  rp_gcj02_longitude :: "real option"
  rp_location_accuracy_m :: "rat option"
  rp_location_source :: string
  rp_coordinate_system :: "string option"
  rp_location_provider :: "string option"
  rp_location_observed_at :: "time option"
  rp_algorithm_version :: "string option"
  rp_is_urgent :: bool
  rp_priority :: string
  rp_priority_source :: string
  rp_manual_priority :: "string option"
  rp_status :: string
  rp_is_directed_answer :: bool
  rp_directed_answer_id :: "ident option"
  rp_ai_refinement_id :: "ident option"
  rp_attachment_count :: int
  rp_revision :: int
  rp_deleted_at :: "time option"
  rp_created_at :: time
  rp_updated_at :: time

record report_revision =
  rr_id :: ident
  rr_report_id :: ident
  rr_revision :: int
  rr_snapshot :: json
  rr_changed_by_type :: string
  rr_changed_by_id :: "ident option"
  rr_change_reason :: "utext option"
  rr_created_at :: time

record attachment =
  at_id :: ident
  at_incident_id :: ident
  at_report_id :: "ident option"
  at_directed_answer_id :: "ident option"
  at_uploader_device_id :: ident
  at_file_name :: utext
  at_declared_mime_type :: string
  at_media_type :: string
  at_client_source :: "string option"
  at_storage_provider :: string
  at_bucket :: "string option"
  at_object_key :: "string option"
  at_etag :: "string option"
  at_mime_type :: "string option"
  at_size_bytes :: int
  at_expected_sha256 :: string
  at_sha256 :: "string option"
  at_perceptual_hash :: "string option"
  at_duplicate_of_attachment_id :: "ident option"
  at_source_cluster_id :: "ident option"
  at_original_path :: "string option"
  at_sanitized_path :: "string option"
  at_thumbnail_path :: "string option"
  at_width :: "int option"
  at_height :: "int option"
  at_duration_ms :: "int option"
  at_cover_path :: "string option"
  at_preview_path :: "string option"
  at_transcript_status :: "string option"
  at_transcript_text :: "utext option"
  at_transcode_status :: "string option"
  at_keyframe_status :: "string option"
  at_processing_progress :: int
  at_policy_snapshot :: "json option"
  at_captured_at :: "time option"
  at_exif_data :: "json option"
  at_metadata_status :: string
  at_malware_scan_status :: string
  at_ocr_status :: string
  at_vision_status :: string
  at_ocr_text :: "utext option"
  at_vision_summary :: "string option"
  at_rejection_reason :: "string option"
  at_upload_expires_at :: time
  at_uploaded_at :: "time option"
  at_created_at :: time

record blind_spot =
  bs_id :: ident
  bs_incident_id :: ident
  bs_claim_key :: string
  bs_title :: utext
  bs_location_text :: utext
  bs_latitude :: "rat option"
  bs_longitude :: "rat option"
  bs_coordinate_system :: "string option"
  bs_scope_type :: string
  bs_scope_data :: "json option"
  bs_severity :: string
  bs_route_impact_count :: int
  bs_min_valid_answers :: int
  bs_status :: string
  bs_resolution_value :: "string option"
  bs_revision :: int
  bs_created_at :: time
  bs_updated_at :: time

record question =
  qn_id :: ident
  qn_incident_id :: ident
  qn_blind_spot_id :: ident
  qn_title :: utext
  qn_location_text :: utext
  qn_target_geometry :: "json option"
  qn_route_impact_count :: int
  qn_answer_type :: string
  qn_options :: "json list"
  qn_status :: string
  qn_expires_at :: "time option"
  qn_created_by :: "ident option"
  qn_revision :: int
  qn_created_at :: time
  qn_updated_at :: time

record answer =
  da_id :: ident
  da_question_id :: ident
  da_device_id :: ident
  da_option_id :: string
  da_semantic_value :: string
  da_answer_text :: utext
  da_observed_latitude :: "rat option"
  da_observed_longitude :: "rat option"
  da_observed_coordinate_system :: "string option"
  da_revision :: int
  da_created_at :: time
  da_updated_at :: time

record answer_revision =
  dr_id :: ident
  dr_answer_id :: ident
  dr_revision :: int
  dr_snapshot :: json
  dr_created_at :: time

record fragment =
  fg_id :: ident
  fg_incident_id :: ident
  fg_source_type :: string
  fg_source_ref_id :: "ident option"
  fg_source_cluster_id :: "ident option"
  fg_topic :: string
  fg_claim_key :: "string option"
  fg_claim_value :: "string option"
  fg_label :: utext
  fg_description :: utext
  fg_location_text :: utext
  fg_latitude :: "rat option"
  fg_longitude :: "rat option"
  fg_coordinate_system :: "string option"
  fg_shape :: string
  fg_status :: string
  fg_confidence :: rat
  fg_observed_at :: "time option"
  fg_received_at :: time
  fg_revision :: int

record conflict_case =
  cc_id :: ident
  cc_incident_id :: ident
  cc_alias :: "string option"
  cc_fact_key :: string
  cc_title :: utext
  cc_topic :: string
  cc_location_text :: utext
  cc_latitude :: "rat option"
  cc_longitude :: "rat option"
  cc_coordinate_system :: "string option"
  cc_status :: string
  cc_severity :: string
  cc_detected_at :: time
  cc_resolved_at :: "time option"
  cc_resolution :: "json option"
  cc_resolved_by :: "ident option"
  cc_revision :: int
  cc_created_at :: time

record evidence =
  ce_id :: ident
  ce_conflict_id :: ident
  ce_kind :: string
  ce_source_id :: ident
  ce_source_revision :: int
  ce_source_cluster_id :: "ident option"
  ce_snapshot :: json
  ce_snapshot_sha256 :: string
  ce_is_current :: bool
  ce_added_at :: time

record decision =
  cd_id :: ident
  cd_conflict_id :: ident
  cd_conflict_revision :: int
  cd_analysis_id :: "ident option"
  cd_evidence_decisions :: json
  cd_conclusion :: utext
  cd_note :: "utext option"
  cd_decided_by :: ident
  cd_created_at :: time

record fact =
  fr_id :: ident
  fr_incident_id :: ident
  fr_fact_key :: string
  fr_topic :: string
  fr_location_text :: utext
  fr_latitude :: "rat option"
  fr_longitude :: "rat option"
  fr_coordinate_system :: "string option"
  fr_current_version_id :: "ident option"
  fr_current_revision :: int
  fr_status :: string
  fr_is_public :: bool
  fr_updated_at :: time

record fact_version =
  fv_id :: ident
  fv_fact_record_id :: ident
  fv_previous_version_id :: "ident option"
  fv_revision :: int
  fv_status :: string
  fv_statement :: utext
  fv_confidence :: "rat option"
  fv_source_conflict_id :: "ident option"
  fv_source_analysis_id :: "ident option"
  fv_context_snapshot :: "json option"
  fv_accepted_evidence_ids :: "ident list"
  fv_decision_snapshot :: json
  fv_valid_from :: time
  fv_valid_to :: "time option"
  fv_decided_by :: string

record map_feature =
  mf_id :: ident
  mf_incident_id :: ident
  mf_kind :: string
  mf_source_ref :: string
  mf_title :: utext
  mf_status :: string
  mf_severity :: string
  mf_latitude_wgs84 :: "real option"
  mf_longitude_wgs84 :: "real option"
  mf_latitude_gcj02 :: "real option"
  mf_longitude_gcj02 :: "real option"
  mf_revision :: int
  mf_is_deleted :: bool
  mf_public_data :: json
  mf_private_data :: json

record core_db = auth_db +
  db_reports :: "report list"
  db_report_revisions :: "report_revision list"
  db_attachments :: "attachment list"
  db_blind_spots :: "blind_spot list"
  db_questions :: "question list"
  db_answers :: "answer list"
  db_answer_revisions :: "answer_revision list"
  db_fragments :: "fragment list"
  db_cases :: "conflict_case list"
  db_evidence :: "evidence list"
  db_decisions :: "decision list"
  db_facts :: "fact list"
  db_fact_versions :: "fact_version list"
  db_features :: "map_feature list"

text \<open>Emitting events and writing the audit trail leaves these tables as they are.\<close>

lemma core_audit_frame [simp]:
  "db_reports (record_audit e a i ac rt ri rq db) = db_reports db"
  "db_report_revisions (record_audit e a i ac rt ri rq db) = db_report_revisions db"
  "db_attachments (record_audit e a i ac rt ri rq db) = db_attachments db"
  "db_blind_spots (record_audit e a i ac rt ri rq db) = db_blind_spots db"
  "db_questions (record_audit e a i ac rt ri rq db) = db_questions db"
  "db_answers (record_audit e a i ac rt ri rq db) = db_answers db"
  "db_answer_revisions (record_audit e a i ac rt ri rq db) = db_answer_revisions db"
  "db_fragments (record_audit e a i ac rt ri rq db) = db_fragments db"
  "db_cases (record_audit e a i ac rt ri rq db) = db_cases db"
  "db_evidence (record_audit e a i ac rt ri rq db) = db_evidence db"
  "db_decisions (record_audit e a i ac rt ri rq db) = db_decisions db"
  "db_facts (record_audit e a i ac rt ri rq db) = db_facts db"
  "db_fact_versions (record_audit e a i ac rt ri rq db) = db_fact_versions db"
  "db_features (record_audit e a i ac rt ri rq db) = db_features db"
  by (simp_all add: record_audit_def)

lemma core_emit_frame [simp]:
  "db_reports (snd (emit_event e i em db)) = db_reports db"
  "db_report_revisions (snd (emit_event e i em db)) = db_report_revisions db"
  "db_attachments (snd (emit_event e i em db)) = db_attachments db"
  "db_blind_spots (snd (emit_event e i em db)) = db_blind_spots db"
  "db_questions (snd (emit_event e i em db)) = db_questions db"
  "db_answers (snd (emit_event e i em db)) = db_answers db"
  "db_answer_revisions (snd (emit_event e i em db)) = db_answer_revisions db"
  "db_fragments (snd (emit_event e i em db)) = db_fragments db"
  "db_cases (snd (emit_event e i em db)) = db_cases db"
  "db_evidence (snd (emit_event e i em db)) = db_evidence db"
  "db_decisions (snd (emit_event e i em db)) = db_decisions db"
  "db_facts (snd (emit_event e i em db)) = db_facts db"
  "db_fact_versions (snd (emit_event e i em db)) = db_fact_versions db"
  "db_features (snd (emit_event e i em db)) = db_features db"
  by (simp_all add: emit_event_def store_emit_def split: option.splits)

text \<open>An empty database with one active incident, for the witnesses.\<close>

definition demo_core_db :: core_db where
  "demo_core_db = \<lparr>db_incidents = [demo_incident], db_analyses = [], db_outbox = [], db_audit = [],
     tx_key = 1, data_marker = None, map_marker = None, pending_stale = [], id_count = 0,
     db_devices = [demo_device], db_accounts = [], db_memberships = [], db_refresh = [],
     db_reports = [], db_report_revisions = [], db_attachments = [],
     db_blind_spots = [], db_questions = [], db_answers = [],
     db_answer_revisions = [], db_fragments = [], db_cases = [],
     db_evidence = [], db_decisions = [], db_facts = [],
     db_fact_versions = [], db_features = []\<rparr>"

end
