(* ===== verification/Coordinates.thy ===== *)
theory Coordinates
  imports Strings
begin

text \<open>
  Coordinate systems and distances (\<open>domain/coordinates.py\<close>), over the real numbers: the
  rounding of binary floating point is not modelled.
\<close>

section \<open>Definitions\<close>

record position =
  pos_raw_latitude :: real
  pos_raw_longitude :: real
  pos_coordinate_system :: string
  pos_wgs84_latitude :: real
  pos_wgs84_longitude :: real
  pos_gcj02_latitude :: real
  pos_gcj02_longitude :: real

definition validate_coordinates :: "real \<Rightarrow> real \<Rightarrow> api_error + unit" where
  "validate_coordinates lat lon =
     (if \<not> (- 90 \<le> lat \<and> lat \<le> 90) \<or> \<not> (- 180 \<le> lon \<and> lon \<le> 180)
      then Inl (ApiError 422 ''INVALID_COORDINATES'') else Inr ())"

definition outside_china :: "real \<Rightarrow> real \<Rightarrow> bool" where
  "outside_china lat lon \<longleftrightarrow>
     \<not> (72004 / 1000 \<le> lon \<and> lon \<le> 1378347 / 10000 \<and> 8293 / 10000 \<le> lat \<and> lat \<le> 558271 / 10000)"

definition transform_latitude :: "real \<Rightarrow> real \<Rightarrow> real" where
  "transform_latitude x y =
     - 100 + 2 * x + 3 * y + 2 / 10 * y * y + 1 / 10 * x * y
     + 2 / 10 * sqrt \<bar>x\<bar>
     + (20 * sin (6 * x * pi) + 20 * sin (2 * x * pi)) * 2 / 3
     + (20 * sin (y * pi) + 40 * sin (y / 3 * pi)) * 2 / 3
     + (160 * sin (y / 12 * pi) + 320 * sin (y * pi / 30)) * 2 / 3"

definition transform_longitude :: "real \<Rightarrow> real \<Rightarrow> real" where
  "transform_longitude x y =
     300 + x + 2 * y + 1 / 10 * x * x + 1 / 10 * x * y
     + 1 / 10 * sqrt \<bar>x\<bar>
     + (20 * sin (6 * x * pi) + 20 * sin (2 * x * pi)) * 2 / 3
     + (20 * sin (x * pi) + 40 * sin (x / 3 * pi)) * 2 / 3
     + (150 * sin (x / 12 * pi) + 300 * sin (x / 30 * pi)) * 2 / 3"

definition earth_a :: real where "earth_a = 6378245"
definition earth_ee :: real where "earth_ee = 6693421622965943 / 1000000000000000000"

definition wgs84_to_gcj02 :: "real \<Rightarrow> real \<Rightarrow> api_error + real \<times> real" where
  "wgs84_to_gcj02 lat lon =
     (case validate_coordinates lat lon of Inl err \<Rightarrow> Inl err | Inr _ \<Rightarrow>
        if outside_china lat lon then Inr (lat, lon)
        else
          (let delta_lat = transform_latitude (lon - 105) (lat - 35);
               delta_lon = transform_longitude (lon - 105) (lat - 35);
               rad_lat = lat / 180 * pi;
               magic = 1 - earth_ee * sin rad_lat * sin rad_lat;
               sqrt_magic = sqrt magic
           in Inr (lat + delta_lat * 180 / (earth_a * (1 - earth_ee) / (magic * sqrt_magic) * pi),
                   lon + delta_lon * 180 / (earth_a / sqrt_magic * cos rad_lat * pi))))"

definition gcj02_to_wgs84 :: "real \<Rightarrow> real \<Rightarrow> api_error + real \<times> real" where
  "gcj02_to_wgs84 lat lon =
     (case validate_coordinates lat lon of Inl err \<Rightarrow> Inl err | Inr _ \<Rightarrow>
        if outside_china lat lon then Inr (lat, lon)
        else (case wgs84_to_gcj02 lat lon of
           Inl err \<Rightarrow> Inl err
         | Inr g \<Rightarrow> Inr (lat * 2 - fst g, lon * 2 - snd g)))"

definition normalize_position :: "real \<Rightarrow> real \<Rightarrow> string \<Rightarrow> api_error + position" where
  "normalize_position lat lon coordinate_system =
     (let make = (\<lambda>sys w g. \<lparr>pos_raw_latitude = lat, pos_raw_longitude = lon,
            pos_coordinate_system = sys, pos_wgs84_latitude = fst w, pos_wgs84_longitude = snd w,
            pos_gcj02_latitude = fst g, pos_gcj02_longitude = snd g\<rparr>);
          sys = lower coordinate_system
      in case validate_coordinates lat lon of Inl err \<Rightarrow> Inl err | Inr _ \<Rightarrow>
         if sys = ''wgs84''
         then map_sum id (make sys (lat, lon)) (wgs84_to_gcj02 lat lon)
         else if sys = ''gcj02''
         then map_sum id (\<lambda>w. make sys w (lat, lon)) (gcj02_to_wgs84 lat lon)
         else Inl (ApiError 422 ''UNSUPPORTED_COORDINATE_SYSTEM''))"

definition radians :: "real \<Rightarrow> real" where "radians d = d * (pi / 180)"

definition haversine_value :: "real \<Rightarrow> real \<Rightarrow> real \<Rightarrow> real \<Rightarrow> real" where
  "haversine_value lat_a lon_a lat_b lon_b =
     (sin ((radians lat_b - radians lat_a) / 2))\<^sup>2
     + cos (radians lat_a) * cos (radians lat_b) * (sin (radians (lon_b - lon_a) / 2))\<^sup>2"

definition haversine_m :: "real \<Rightarrow> real \<Rightarrow> real \<Rightarrow> real \<Rightarrow> real" where
  "haversine_m lat_a lon_a lat_b lon_b =
     2 * 6371000 * arcsin (sqrt (haversine_value lat_a lon_a lat_b lon_b))"

section \<open>Distances\<close>

text \<open>Within the valid latitudes the argument of \<open>asin\<close> is between 0 and 1.\<close>

lemma cos_latitude_nonneg: "- 90 \<le> lat \<Longrightarrow> lat \<le> 90 \<Longrightarrow> 0 \<le> cos (radians lat)"
proof -
  assume "- 90 \<le> lat" "lat \<le> 90"
  then have "0 \<le> pi * (lat + 90)" "0 \<le> pi * (90 - lat)" by simp_all
  then have "- (pi / 2) \<le> radians lat" "radians lat \<le> pi / 2"
    by (simp_all add: radians_def field_simps)
  then show ?thesis by (intro cos_ge_zero) auto
qed

lemma half_angle: "(sin (x / 2))\<^sup>2 = (1 - cos x) / 2" for x :: real
  using cos_double_sin [of "x / 2"] by simp

lemma haversine_value_bounds:
  assumes "- 90 \<le> lat_a" "lat_a \<le> 90" "- 90 \<le> lat_b" "lat_b \<le> 90"
  shows "0 \<le> haversine_value lat_a lon_a lat_b lon_b" "haversine_value lat_a lon_a lat_b lon_b \<le> 1"
proof -
  let ?a = "radians lat_a" and ?b = "radians lat_b"
  let ?s = "(sin (radians (lon_b - lon_a) / 2))\<^sup>2"
  have c: "0 \<le> cos ?a * cos ?b" using cos_latitude_nonneg assms by simp
  then show "0 \<le> haversine_value lat_a lon_a lat_b lon_b" by (simp add: haversine_value_def)
  have "?s \<le> 1" by (simp add: abs_square_le_1)
  then have le: "cos ?a * cos ?b * ?s \<le> cos ?a * cos ?b" using c by (simp add: mult_left_le)
  have half: "(sin ((?b - ?a) / 2))\<^sup>2 = (1 - cos (?b - ?a)) / 2" by (rule half_angle)
  have "cos (?b - ?a) = cos ?a * cos ?b + sin ?a * sin ?b" by (simp add: cos_diff mult.commute)
  moreover have "cos (?a + ?b) = cos ?a * cos ?b - sin ?a * sin ?b" by (rule cos_add)
  moreover have "cos (?a + ?b) \<le> 1" by simp
  ultimately have "2 * (cos ?a * cos ?b * ?s) \<le> 1 + cos (?b - ?a)" using le by linarith
  moreover have "2 * x \<le> 1 + y \<Longrightarrow> (1 - y) / 2 + x \<le> 1" for x y :: real by (simp add: field_simps)
  ultimately show "haversine_value lat_a lon_a lat_b lon_b \<le> 1"
    unfolding haversine_value_def half by blast
qed

text \<open>
  The distance is a distance: on valid latitudes it is symmetric, between zero and half
  the circumference, and zero from a point to itself.
\<close>

theorem haversine_distance:
  assumes "- 90 \<le> lat_a" "lat_a \<le> 90" "- 90 \<le> lat_b" "lat_b \<le> 90"
  shows "haversine_m lat_a lon_a lat_b lon_b = haversine_m lat_b lon_b lat_a lon_a
    \<and> 0 \<le> haversine_m lat_a lon_a lat_b lon_b \<and> haversine_m lat_a lon_a lat_b lon_b \<le> pi * 6371000
    \<and> haversine_m lat_a lon_a lat_a lon_a = 0"
proof -
  let ?v = "haversine_value lat_a lon_a lat_b lon_b"
  note v = haversine_value_bounds [OF assms, of lon_a lon_b]
  have neg: "sin ((x - y) / 2) = - sin ((y - x) / 2)" for x y :: real
    by (metis minus_diff_eq minus_divide_left sin_minus)
  have "radians (x - y) = radians x - radians y" for x y by (simp only: radians_def left_diff_distrib)
  then have "?v = haversine_value lat_b lon_b lat_a lon_a"
    unfolding haversine_value_def using neg [of "radians lat_b" "radians lat_a"]
      neg [of "radians lon_b" "radians lon_a"] by (simp add: mult.commute)
  moreover have "0 \<le> arcsin (sqrt ?v)" using v arcsin_le_arcsin [of 0 "sqrt ?v"] by simp
  moreover have "arcsin (sqrt ?v) \<le> pi / 2" 
  proof (rule arcsin_ubound)
    have "0 \<le> sqrt ?v" using v by simp
    then show "- 1 \<le> sqrt ?v" by linarith
    show "sqrt ?v \<le> 1" using v by simp
  qed
  moreover have "haversine_value lat_a lon_a lat_a lon_a = 0" by (simp add: haversine_value_def radians_def)
  ultimately show ?thesis by (simp add: haversine_m_def)
qed

theorem haversine_distance_witness:
  "haversine_m 30 120 31 121 = haversine_m 31 121 30 120 \<and> haversine_m 30 120 31 121 \<le> pi * 6371000"
  using haversine_distance [of 30 31 120 121] by simp

section \<open>Normalisation\<close>

lemma outside_same:
  "validate_coordinates lat lon = Inr () \<Longrightarrow> outside_china lat lon \<Longrightarrow>
     wgs84_to_gcj02 lat lon = Inr (lat, lon) \<and> gcj02_to_wgs84 lat lon = Inr (lat, lon)"
  by (simp add: wgs84_to_gcj02_def gcj02_to_wgs84_def)

lemma inside_total:
  "validate_coordinates lat lon = Inr () \<Longrightarrow>
     \<exists>g w. wgs84_to_gcj02 lat lon = Inr g \<and> gcj02_to_wgs84 lat lon = Inr w"
  by (auto simp: wgs84_to_gcj02_def gcj02_to_wgs84_def Let_def)

text \<open>
  Normalisation answers for exactly the valid positions in a supported system, keeps
  what was submitted in the submitted system, and outside China the two systems agree.
\<close>

theorem normalize_total:
  assumes "lower sys = ''wgs84'' \<or> lower sys = ''gcj02''"
  shows "((\<exists>p. normalize_position lat lon sys = Inr p)
       \<longleftrightarrow> - 90 \<le> lat \<and> lat \<le> 90 \<and> - 180 \<le> lon \<and> lon \<le> 180)
    \<and> (\<forall>p. normalize_position lat lon sys = Inr p \<longrightarrow>
       pos_raw_latitude p = lat \<and> pos_raw_longitude p = lon
       \<and> (lower sys = ''wgs84'' \<longrightarrow> pos_wgs84_latitude p = lat \<and> pos_wgs84_longitude p = lon)
       \<and> (lower sys = ''gcj02'' \<longrightarrow> pos_gcj02_latitude p = lat \<and> pos_gcj02_longitude p = lon)
       \<and> (outside_china lat lon \<longrightarrow> pos_wgs84_latitude p = pos_gcj02_latitude p
            \<and> pos_wgs84_longitude p = pos_gcj02_longitude p))"
proof (cases "validate_coordinates lat lon")
  case (Inl err)
  then have "\<not> (- 90 \<le> lat \<and> lat \<le> 90 \<and> - 180 \<le> lon \<and> lon \<le> 180)"
    by (auto simp: validate_coordinates_def split: if_splits)
  with Inl show ?thesis by (simp add: normalize_position_def Let_def)
next
  case (Inr u)
  then have v: "validate_coordinates lat lon = Inr ()" by simp
  then have valid: "- 90 \<le> lat \<and> lat \<le> 90 \<and> - 180 \<le> lon \<and> lon \<le> 180"
    by (auto simp: validate_coordinates_def split: if_splits)
  obtain g w where gw: "wgs84_to_gcj02 lat lon = Inr g" "gcj02_to_wgs84 lat lon = Inr w"
    using inside_total [OF v] by blast
  show ?thesis
    using v valid gw outside_same [OF v] assms by (auto simp: normalize_position_def Let_def)
qed

theorem normalize_total_witness:
  "(\<exists>p. normalize_position 30 120 ''WGS84'' = Inr p) \<and> \<not> (\<exists>p. normalize_position 91 120 ''WGS84'' = Inr p)"
proof -
  have "lower ''WGS84'' = ''wgs84''" by code_simp
  then have h: "lower ''WGS84'' = ''wgs84'' \<or> lower ''WGS84'' = ''gcj02''" by simp
  show ?thesis using normalize_total [OF h, of 30 120] normalize_total [OF h, of 91 120] by simp
qed

end
