(* ===== verification/MapFeatures.thy ===== *)
theory MapFeatures
  imports Rows Coordinates
begin

text \<open>
  The map layer (\<open>services/map_features.py\<close>): one feature per (incident, kind, source), kept in
  step with the fragment, blind spot or conflict it stands for.
\<close>

section \<open>Operations\<close>

text \<open>A position is known when latitude, longitude and system are all there.\<close>

definition position_of ::
    "rat option \<Rightarrow> rat option \<Rightarrow> string option \<Rightarrow> api_error + position option" where
  "position_of lat lon sys =
     (case (lat, lon, sys) of
        (Some la, Some lo, Some s) \<Rightarrow> map_sum id Some (normalize_position (of_rat la) (of_rat lo) s)
      | _ \<Rightarrow> Inr None)"

record feature_spec =
  fs_incident_id :: ident
  fs_kind :: string
  fs_source_ref :: string
  fs_title :: utext
  fs_status :: string
  fs_severity :: string
  fs_latitude :: "rat option"
  fs_longitude :: "rat option"
  fs_coordinate_system :: "string option"
  fs_revision :: int
  fs_public_data :: json
  fs_private_data :: "json option"

definition feature_at :: "ident \<Rightarrow> string \<Rightarrow> string \<Rightarrow> map_feature \<Rightarrow> bool" where
  "feature_at i kind ref f \<longleftrightarrow> mf_incident_id f = i \<and> mf_kind f = kind \<and> mf_source_ref f = ref"

definition find_feature ::
    "'a core_db_scheme \<Rightarrow> ident \<Rightarrow> string \<Rightarrow> string \<Rightarrow> map_feature option" where
  "find_feature db i kind ref = find (feature_at i kind ref) (db_features db)"

definition write_feature :: "feature_spec \<Rightarrow> position option \<Rightarrow> map_feature \<Rightarrow> map_feature" where
  "write_feature s pos f =
     f\<lparr>mf_title := fs_title s, mf_status := fs_status s, mf_severity := fs_severity s,
       mf_latitude_wgs84 := map_option pos_wgs84_latitude pos,
       mf_longitude_wgs84 := map_option pos_wgs84_longitude pos,
       mf_latitude_gcj02 := map_option pos_gcj02_latitude pos,
       mf_longitude_gcj02 := map_option pos_gcj02_longitude pos,
       mf_revision := fs_revision s, mf_is_deleted := (pos = None),
       mf_public_data := fs_public_data s,
       mf_private_data := (case fs_private_data s of
            Some j \<Rightarrow> if truthy j then j else fs_public_data s
          | None \<Rightarrow> fs_public_data s)\<rparr>"

definition blank_feature :: "ident \<Rightarrow> feature_spec \<Rightarrow> map_feature" where
  "blank_feature i s =
     \<lparr>mf_id = i, mf_incident_id = fs_incident_id s, mf_kind = fs_kind s,
      mf_source_ref = fs_source_ref s, mf_title = fs_title s, mf_status = fs_status s,
      mf_severity = fs_severity s, mf_latitude_wgs84 = None, mf_longitude_wgs84 = None,
      mf_latitude_gcj02 = None, mf_longitude_gcj02 = None, mf_revision = 1,
      mf_is_deleted = False, mf_public_data = JObj [], mf_private_data = JObj []\<rparr>"

definition upsert_map_feature ::
    "env \<Rightarrow> feature_spec \<Rightarrow> 'a core_db_scheme \<Rightarrow> api_error + 'a core_db_scheme" where
  "upsert_map_feature e s db =
     (case position_of (fs_latitude s) (fs_longitude s) (fs_coordinate_system s) of
        Inl err \<Rightarrow> Inl err
      | Inr pos \<Rightarrow>
          (case find_feature db (fs_incident_id s) (fs_kind s) (fs_source_ref s) of
             None \<Rightarrow> Inr (db\<lparr>db_features := db_features db @
                 [write_feature s pos (blank_feature (new_id e (id_count db)) s)],
                 id_count := Suc (id_count db)\<rparr>)
           | Some f \<Rightarrow> Inr (db\<lparr>db_features := modify_where (\<lambda>x. mf_id x = mf_id f)
                 (write_feature s pos) (db_features db)\<rparr>)))"

definition conceal_feature :: "string \<Rightarrow> int \<Rightarrow> map_feature \<Rightarrow> map_feature" where
  "conceal_feature status revision f =
     f\<lparr>mf_status := status, mf_revision := revision, mf_is_deleted := True\<rparr>"

definition hide_map_feature ::
    "ident \<Rightarrow> string \<Rightarrow> string \<Rightarrow> int \<Rightarrow> string \<Rightarrow> 'a core_db_scheme \<Rightarrow> 'a core_db_scheme" where
  "hide_map_feature i kind ref revision status db =
     (case find_feature db i kind ref of
        None \<Rightarrow> db
      | Some f \<Rightarrow> db\<lparr>db_features := modify_where (\<lambda>x. mf_id x = mf_id f)
            (conceal_feature status revision) (db_features db)\<rparr>)"

definition upsert_fragment_map_feature ::
    "env \<Rightarrow> fragment \<Rightarrow> 'a core_db_scheme \<Rightarrow> api_error + 'a core_db_scheme" where
  "upsert_fragment_map_feature e f db =
     (if fg_source_type f = ''resident_report''
      then Inr (hide_map_feature (fg_incident_id f) ''fragment'' (fg_id f) (fg_revision f)
             (fg_status f) db)
      else upsert_map_feature e
        \<lparr>fs_incident_id = fg_incident_id f, fs_kind = ''fragment'', fs_source_ref = fg_id f,
         fs_title = fg_label f, fs_status = fg_status f,
         fs_severity = (if fg_status f = ''conflict'' then ''high'' else ''medium''),
         fs_latitude = fg_latitude f, fs_longitude = fg_longitude f,
         fs_coordinate_system = fg_coordinate_system f, fs_revision = fg_revision f,
         fs_public_data = JObj [(''topic'', JStr (fg_topic f)), (''confidence'', JNum (fg_confidence f)),
                                (''location_text'', JText (fg_location_text f))],
         fs_private_data = None\<rparr> db)"

definition hide_conflict_map_feature ::
    "conflict_case \<Rightarrow> 'a core_db_scheme \<Rightarrow> 'a core_db_scheme" where
  "hide_conflict_map_feature c db =
     hide_map_feature (cc_incident_id c) ''conflict'' (cc_id c) (cc_revision c) (cc_status c) db"

definition hide_blind_spot_map_feature ::
    "blind_spot \<Rightarrow> 'a core_db_scheme \<Rightarrow> 'a core_db_scheme" where
  "hide_blind_spot_map_feature b db =
     hide_map_feature (bs_incident_id b) ''blind_spot'' (bs_id b) (bs_revision b) (bs_status b) db"

definition upsert_blind_spot_map_feature ::
    "env \<Rightarrow> blind_spot \<Rightarrow> 'a core_db_scheme \<Rightarrow> api_error + 'a core_db_scheme" where
  "upsert_blind_spot_map_feature e b db =
     (let shown = [(''fact_key'', JStr (bs_claim_key b)),
                   (''route_impact_count'', JInt (bs_route_impact_count b)),
                   (''location_text'', JText (bs_location_text b))];
          derived = (case bs_scope_data b of
             None \<Rightarrow> False | Some d \<Rightarrow> jget d ''source'' = JStr ''resident_report_gap'')
      in upsert_map_feature e
        \<lparr>fs_incident_id = bs_incident_id b, fs_kind = ''blind_spot'', fs_source_ref = bs_id b,
         fs_title = bs_title b, fs_status = bs_status b, fs_severity = bs_severity b,
         fs_latitude = bs_latitude b, fs_longitude = bs_longitude b,
         fs_coordinate_system = bs_coordinate_system b, fs_revision = bs_revision b,
         fs_public_data = JObj shown,
         fs_private_data = Some (JObj (shown @ [(''resident_report_derived'', JBool derived)]))\<rparr> db)"

text \<open>The join over the evidence of the conflict: some fragment came from a resident's report.\<close>

definition resident_report_derived :: "'a core_db_scheme \<Rightarrow> conflict_case \<Rightarrow> bool" where
  "resident_report_derived db c =
     list_ex (\<lambda>v. ce_conflict_id v = cc_id c \<and> ce_kind v = ''fragment''
        \<and> list_ex (\<lambda>f. fg_id f = ce_source_id v \<and> fg_source_type f = ''resident_report'')
            (db_fragments db)) (db_evidence db)"

definition upsert_conflict_map_feature ::
    "env \<Rightarrow> conflict_case \<Rightarrow> 'a core_db_scheme \<Rightarrow> api_error + 'a core_db_scheme" where
  "upsert_conflict_map_feature e c db =
     (let shown = [(''fact_key'', JStr (cc_fact_key c)), (''topic'', JStr (cc_topic c)),
                   (''location_text'', JText (cc_location_text c))]
      in upsert_map_feature e
        \<lparr>fs_incident_id = cc_incident_id c, fs_kind = ''conflict'', fs_source_ref = cc_id c,
         fs_title = cc_title c, fs_status = cc_status c, fs_severity = cc_severity c,
         fs_latitude = cc_latitude c, fs_longitude = cc_longitude c,
         fs_coordinate_system = cc_coordinate_system c, fs_revision = cc_revision c,
         fs_public_data = JObj shown,
         fs_private_data = Some (JObj (shown @
            [(''resident_report_derived'', JBool (resident_report_derived db c))]))\<rparr> db)"

section \<open>The layer as a keyed store\<close>

definition feature_key :: "map_feature \<Rightarrow> ident \<times> string \<times> string" where
  "feature_key f = (mf_incident_id f, mf_kind f, mf_source_ref f)"

definition features_ok :: "'a core_db_scheme \<Rightarrow> bool" where
  "features_ok db \<longleftrightarrow> distinct (map mf_id (db_features db)) \<and> distinct (map feature_key (db_features db))"

definition feature_slot :: "'a core_db_scheme \<Rightarrow> ident \<times> string \<times> string \<Rightarrow> map_feature option" where
  "feature_slot db k = find (\<lambda>f. feature_key f = k) (db_features db)"

lemma find_feature_slot: "find_feature db i kind ref = feature_slot db (i, kind, ref)"
proof -
  have "feature_at i kind ref = (\<lambda>f. feature_key f = (i, kind, ref))"
    by (rule ext) (simp add: feature_at_def feature_key_def)
  then show ?thesis by (simp only: find_feature_def feature_slot_def)
qed

lemma feature_keys [simp]:
  "mf_id (write_feature s pos f) = mf_id f" "feature_key (write_feature s pos f) = feature_key f"
  "mf_id (conceal_feature st r f) = mf_id f" "feature_key (conceal_feature st r f) = feature_key f"
  by (simp_all add: write_feature_def conceal_feature_def feature_key_def)

interpretation feature_write: keyed_update feature_key "write_feature s pos" for s pos
  by unfold_locales simp

interpretation feature_conceal: keyed_update feature_key "conceal_feature st r" for st r
  by unfold_locales simp

text \<open>Under distinct keys the row found by its slot is the only row with its id.\<close>

lemma modify_by_id:
  assumes "features_ok db" "feature_slot db k = Some f"
  shows "modify_where (\<lambda>x. mf_id x = mf_id f) g (db_features db)
    = modify_where (\<lambda>x. feature_key x = k) g (db_features db)"
proof -
  have f: "f \<in> set (db_features db)" "feature_key f = k"
    using find_SomeD [OF assms(2) [unfolded feature_slot_def]] by simp_all
  have inj: "inj_on mf_id (set (db_features db))" "inj_on feature_key (set (db_features db))"
    using assms(1) by (simp_all add: features_ok_def distinct_map)
  have "mf_id x = mf_id f \<longleftrightarrow> feature_key x = k" if x: "x \<in> set (db_features db)" for x
    using inj_on_eq_iff [OF inj(1) x f(1)] inj_on_eq_iff [OF inj(2) x f(1)] f(2) by simp
  then show ?thesis unfolding modify_where_def by (intro map_cong refl) simp
qed

lemma upsert_slot:
  assumes ok: "features_ok db" and fresh: "new_id e (id_count db) \<notin> mf_id ` set (db_features db)"
    and up: "upsert_map_feature e s db = Inr db'"
    and k: "k = (fs_incident_id s, fs_kind s, fs_source_ref s)"
  shows "features_ok db' \<and> (\<exists>pos f. position_of (fs_latitude s) (fs_longitude s) (fs_coordinate_system s)
        = Inr pos \<and> feature_slot db' k = Some (write_feature s pos f))
    \<and> (\<forall>k'. k' \<noteq> k \<longrightarrow> feature_slot db' k' = feature_slot db k')"
proof -
  obtain pos where pos: "position_of (fs_latitude s) (fs_longitude s) (fs_coordinate_system s) = Inr pos"
    using up by (auto simp: upsert_map_feature_def split: sum.splits)
  show ?thesis
  proof (cases "feature_slot db k")
    case None
    let ?f = "write_feature s pos (blank_feature (new_id e (id_count db)) s)"
    have key: "feature_key ?f = k" "mf_id ?f = new_id e (id_count db)"
      by (simp_all add: k feature_key_def write_feature_def blank_feature_def)
    have tbl: "db_features db' = db_features db @ [?f]"
      using up pos None by (auto simp: upsert_map_feature_def find_feature_slot k)
    have "k \<notin> feature_key ` set (db_features db)"
      using None by (auto simp: feature_slot_def find_None_iff)
    then have "features_ok db'" using ok fresh key by (simp add: features_ok_def tbl)
    moreover have "feature_slot db' k = Some ?f"
      using None key(1) by (simp add: feature_slot_def tbl find_append)
    moreover have "feature_slot db' k' = feature_slot db k'" if "k' \<noteq> k" for k'
      using that key(1) by (auto simp: feature_slot_def tbl find_append split: option.splits)
    ultimately show ?thesis using pos by blast
  next
    case (Some f)
    have tbl: "db_features db' = modify_where (\<lambda>x. feature_key x = k) (write_feature s pos) (db_features db)"
      using up pos Some modify_by_id [OF ok Some]
      by (auto simp: upsert_map_feature_def find_feature_slot k)
    have "features_ok db'"
      using ok by (simp add: features_ok_def tbl feature_write.keys map_modify_where)
    moreover have "feature_slot db' k = Some (write_feature s pos f)"
      using Some by (simp add: feature_slot_def tbl feature_write.find_same)
    moreover have "feature_slot db' k' = feature_slot db k'" if "k' \<noteq> k" for k'
      using that by (simp add: feature_slot_def tbl feature_write.find_other)
    ultimately show ?thesis using pos by blast
  qed
qed

lemma hide_slot:
  assumes ok: "features_ok db" and k: "k = (i, kind, ref)"
  shows "features_ok (hide_map_feature i kind ref rv st db)
    \<and> feature_slot (hide_map_feature i kind ref rv st db) k
        = map_option (conceal_feature st rv) (feature_slot db k)
    \<and> (\<forall>k'. k' \<noteq> k \<longrightarrow> feature_slot (hide_map_feature i kind ref rv st db) k' = feature_slot db k')"
proof (cases "feature_slot db k")
  case None
  then show ?thesis using ok by (simp add: hide_map_feature_def find_feature_slot k)
next
  case (Some f)
  have tbl: "db_features (hide_map_feature i kind ref rv st db)
      = modify_where (\<lambda>x. feature_key x = k) (conceal_feature st rv) (db_features db)"
    using Some modify_by_id [OF ok Some] by (simp add: hide_map_feature_def find_feature_slot k)
  show ?thesis
    using ok Some by (simp add: features_ok_def feature_slot_def tbl feature_conceal.keys
        map_modify_where feature_conceal.find_same feature_conceal.find_other)
qed

section \<open>Properties\<close>

text \<open>
  The layer is a store keyed by incident, kind and source: an upsert leaves exactly one
  feature under its key, with the submitted title, status, severity, revision and data, in
  both coordinate systems and hidden exactly when the position is unknown, and touches no
  other key.
\<close>

theorem upsert_keeps_one_feature:
  assumes "features_ok db" "new_id e (id_count db) \<notin> mf_id ` set (db_features db)"
    and "upsert_map_feature e s db = Inr db'"
  shows "features_ok db'
    \<and> (\<exists>f. feature_slot db' (fs_incident_id s, fs_kind s, fs_source_ref s) = Some f
         \<and> mf_title f = fs_title s \<and> mf_status f = fs_status s \<and> mf_severity f = fs_severity s
         \<and> mf_revision f = fs_revision s \<and> mf_public_data f = fs_public_data s
         \<and> (mf_is_deleted f \<longleftrightarrow> fs_latitude s = None \<or> fs_longitude s = None
              \<or> fs_coordinate_system s = None)
         \<and> (mf_is_deleted f \<longleftrightarrow> mf_latitude_wgs84 f = None)
         \<and> (mf_is_deleted f \<longleftrightarrow> mf_latitude_gcj02 f = None))
    \<and> (\<forall>k. k \<noteq> (fs_incident_id s, fs_kind s, fs_source_ref s)
         \<longrightarrow> feature_slot db' k = feature_slot db k)"
proof -
  obtain pos f where f: "features_ok db'"
    "position_of (fs_latitude s) (fs_longitude s) (fs_coordinate_system s) = Inr pos"
    "feature_slot db' (fs_incident_id s, fs_kind s, fs_source_ref s) = Some (write_feature s pos f)"
    "\<forall>k. k \<noteq> (fs_incident_id s, fs_kind s, fs_source_ref s) \<longrightarrow> feature_slot db' k = feature_slot db k"
    using upsert_slot [OF assms refl] by blast
  have "pos = None \<longleftrightarrow> fs_latitude s = None \<or> fs_longitude s = None \<or> fs_coordinate_system s = None"
  proof -
    have "z \<noteq> None" if "map_sum id Some x = Inr z" for x and z :: "position option"
      using that by (cases x) auto
    then show ?thesis using f(2) by (auto simp: position_of_def split: option.splits)
  qed
  then show ?thesis using f by (auto simp: write_feature_def)
qed

definition demo_spec :: feature_spec where
  "demo_spec = \<lparr>fs_incident_id = ''inc'', fs_kind = ''conflict'', fs_source_ref = ''c'', fs_title = [],
     fs_status = ''open'', fs_severity = ''high'', fs_latitude = None, fs_longitude = None,
     fs_coordinate_system = None, fs_revision = 1, fs_public_data = JObj [], fs_private_data = None\<rparr>"

theorem upsert_keeps_one_feature_witness:
  "\<exists>db'. upsert_map_feature demo_env demo_spec demo_core_db = Inr db' \<and> features_ok db'
     \<and> (\<exists>f. feature_slot db' (''inc'', ''conflict'', ''c'') = Some f \<and> mf_is_deleted f)"
proof -
  have ok: "features_ok demo_core_db"
    and fresh: "new_id demo_env (id_count demo_core_db) \<notin> mf_id ` set (db_features demo_core_db)"
    by (simp_all add: features_ok_def demo_core_db_def)
  obtain db' where up: "upsert_map_feature demo_env demo_spec demo_core_db = Inr db'"
    by (simp add: upsert_map_feature_def position_of_def find_feature_def demo_spec_def demo_core_db_def)
  from upsert_keeps_one_feature [OF ok fresh up] up show ?thesis by (auto simp: demo_spec_def)
qed

text \<open>
  What residents report stays off the map: after the upsert of a fragment that came from a
  resident's report, the slot of the fragment is empty or its feature is marked deleted,
  whatever it was before, and no other feature changes.
\<close>

theorem resident_fragment_hidden:
  assumes "features_ok db" "fg_source_type f = ''resident_report''"
    and "upsert_fragment_map_feature e f db = Inr db'"
  shows "(case feature_slot db' (fg_incident_id f, ''fragment'', fg_id f) of
            None \<Rightarrow> True | Some x \<Rightarrow> mf_is_deleted x)
    \<and> features_ok db'
    \<and> (\<forall>k. k \<noteq> (fg_incident_id f, ''fragment'', fg_id f) \<longrightarrow> feature_slot db' k = feature_slot db k)"
proof -
  have "db' = hide_map_feature (fg_incident_id f) ''fragment'' (fg_id f) (fg_revision f) (fg_status f) db"
    using assms(2,3) by (simp add: upsert_fragment_map_feature_def)
  then show ?thesis
    using hide_slot [OF assms(1) refl, of "fg_incident_id f" "''fragment''" "fg_id f"]
    by (auto simp: conceal_feature_def split: option.splits)
qed

definition demo_fragment :: fragment where
  "demo_fragment = \<lparr>fg_id = ''f1'', fg_incident_id = ''inc'', fg_source_type = ''resident_report'',
     fg_source_ref_id = Some ''r1'', fg_source_cluster_id = None, fg_topic = ''road'',
     fg_claim_key = Some ''k'', fg_claim_value = Some ''open'', fg_label = [], fg_description = [],
     fg_location_text = [], fg_latitude = None, fg_longitude = None, fg_coordinate_system = None,
     fg_shape = ''circle'', fg_status = ''normal'', fg_confidence = 1/2, fg_observed_at = None,
     fg_received_at = 0, fg_revision = 2\<rparr>"

definition demo_feature :: map_feature where
  "demo_feature = (blank_feature ''m1'' demo_spec)\<lparr>mf_kind := ''fragment'', mf_source_ref := ''f1''\<rparr>"

theorem resident_fragment_hidden_witness:
  "\<exists>db' x. upsert_fragment_map_feature demo_env demo_fragment
       (demo_core_db\<lparr>db_features := [demo_feature]\<rparr>) = Inr db'
     \<and> feature_slot db' (''inc'', ''fragment'', ''f1'') = Some x \<and> mf_is_deleted x"
proof -
  let ?db = "demo_core_db\<lparr>db_features := [demo_feature]\<rparr>"
  have ok: "features_ok ?db" by (simp add: features_ok_def)
  have src: "fg_source_type demo_fragment = ''resident_report''" by (simp add: demo_fragment_def)
  obtain db' where up: "upsert_fragment_map_feature demo_env demo_fragment ?db = Inr db'"
    by (simp add: upsert_fragment_map_feature_def src)
  have "feature_slot db' (''inc'', ''fragment'', ''f1'') \<noteq> None"
    using up by (auto simp: upsert_fragment_map_feature_def src hide_map_feature_def find_feature_def
        feature_at_def feature_slot_def feature_key_def demo_feature_def blank_feature_def demo_spec_def
        demo_fragment_def conceal_feature_def)
  then show ?thesis using resident_fragment_hidden [OF ok src up] up
    by (auto simp: demo_fragment_def split: option.splits)
qed

end
