(* ===== verification/Conflicts.thy ===== *)
theory Conflicts
  imports MapFeatures
begin

text \<open>
  Evidence, decisions and the history of facts (\<open>services/conflicts.py\<close> from
  \<open>evidence_snapshot\<close> on, the handlers of \<open>routers/conflicts.py\<close> that write, and the request
  bodies of \<open>schemas/conflicts.py\<close>).  The digest of a snapshot, SHA-256 of its canonical
  JSON, is a parameter \<open>sha\<close>; times inside snapshots are kept as numbers.
\<close>

section \<open>Requests\<close>

record evidence_ref =
  vr_kind :: string
  vr_source_id :: ident
  vr_source_revision :: "int option"

record disposition =
  dp_evidence_id :: ident
  dp_disposition :: string
  dp_note :: "utext option"

record decision_request =
  cq_revision :: int
  cq_decision :: string
  cq_evidence_decisions :: "disposition list"
  cq_conclusion :: utext
  cq_note :: "utext option"
  cq_analysis_id :: "string option"
  cq_expected_fact_revision :: int
  cq_confidence :: "rat option"
  cq_fact_status :: string
  cq_is_public :: bool

text \<open>What the model of the request body accepts, the validator included.\<close>

definition decision_request_ok :: "decision_request \<Rightarrow> bool" where
  "decision_request_ok p \<longleftrightarrow>
     1 \<le> cq_revision p \<and> cq_decision p \<in> set [''accept_evidence'', ''manual_conclusion'']
     \<and> cq_evidence_decisions p \<noteq> []
     \<and> list_all (\<lambda>d. dp_disposition d \<in> set [''accepted'', ''rejected'', ''uncertain'']
          \<and> (case dp_note d of None \<Rightarrow> True | Some n \<Rightarrow> length n \<le> 500)) (cq_evidence_decisions p)
     \<and> cq_conclusion p \<noteq> [] \<and> 0 \<le> cq_expected_fact_revision p
     \<and> (case cq_confidence p of None \<Rightarrow> True | Some c \<Rightarrow> 0 \<le> c \<and> c \<le> 1)
     \<and> cq_fact_status p \<in> set [''current'', ''under_review'']
     \<and> distinct (map dp_evidence_id (cq_evidence_decisions p))
     \<and> list_ex (\<lambda>d. dp_disposition d = ''accepted'') (cq_evidence_decisions p)"

text \<open>\<open>model_dump(mode="json")\<close>\<close>

definition jopt :: "('x \<Rightarrow> json) \<Rightarrow> 'x option \<Rightarrow> json" where
  "jopt f x = (case x of None \<Rightarrow> JNull | Some v \<Rightarrow> f v)"

definition disposition_json :: "disposition \<Rightarrow> json" where
  "disposition_json d = JObj [(''evidence_id'', JStr (dp_evidence_id d)),
     (''disposition'', JStr (dp_disposition d)), (''note'', jopt JText (dp_note d))]"

definition decision_json :: "decision_request \<Rightarrow> json" where
  "decision_json p = JObj
     [(''revision'', JInt (cq_revision p)), (''decision'', JStr (cq_decision p)),
      (''evidence_decisions'', JArr (map disposition_json (cq_evidence_decisions p))),
      (''conclusion'', JText (cq_conclusion p)), (''note'', jopt JText (cq_note p)),
      (''analysis_id'', jopt JStr (cq_analysis_id p)),
      (''expected_fact_revision'', JInt (cq_expected_fact_revision p)),
      (''confidence'', jopt JNum (cq_confidence p)),
      (''fact_status'', JStr (cq_fact_status p)), (''is_public'', JBool (cq_is_public p))]"

section \<open>Evidence\<close>

definition fragment_snapshot :: "fragment \<Rightarrow> json" where
  "fragment_snapshot f = JObj
     [(''id'', JStr (fg_id f)), (''revision'', JInt (fg_revision f)),
      (''source_type'', JStr (fg_source_type f)),
      (''source_ref_id'', jopt JStr (fg_source_ref_id f)), (''topic'', JStr (fg_topic f)),
      (''claim_key'', jopt JStr (fg_claim_key f)), (''claim_value'', jopt JStr (fg_claim_value f)),
      (''label'', JText (fg_label f)), (''description'', JText (fg_description f)),
      (''location_text'', JText (fg_location_text f)), (''latitude'', jopt JNum (fg_latitude f)),
      (''longitude'', jopt JNum (fg_longitude f)),
      (''coordinate_system'', jopt JStr (fg_coordinate_system f)),
      (''confidence'', JNum (fg_confidence f)), (''observed_at'', jopt JInt (fg_observed_at f)),
      (''received_at'', JInt (fg_received_at f))]"

definition report_snapshot :: "report \<Rightarrow> json" where
  "report_snapshot r = JObj
     [(''id'', JStr (rp_id r)), (''revision'', JInt (rp_revision r)),
      (''category'', JStr (rp_category r)), (''content_original'', JText (rp_content_original r)),
      (''content_display'', JText (rp_content_display r)),
      (''location_text'', JText (rp_location_text r)), (''latitude'', jopt JNum (rp_latitude r)),
      (''longitude'', jopt JNum (rp_longitude r)),
      (''coordinate_system'', jopt JStr (rp_coordinate_system r)),
      (''created_at'', JInt (rp_created_at r))]"

text \<open>
  A vision summary enters the evidence only when it was made under the no-text policy: the
  mark is a prefix ending in a newline, and is removed.
\<close>

definition no_text_vision_prefix :: string where
  "no_text_vision_prefix = ''[vision_policy:no_text_v1]'' @ [CHR 0x0A]"

definition shown_vision_summary :: "string option \<Rightarrow> json" where
  "shown_vision_summary v =
     (case or_else v None of
        Some s \<Rightarrow> if starts_with s no_text_vision_prefix
          then JStr (drop (length no_text_vision_prefix) s) else JNull
      | None \<Rightarrow> JNull)"

definition attachment_snapshot :: "attachment \<Rightarrow> json" where
  "attachment_snapshot a = JObj
     [(''id'', JStr (at_id a)), (''revision'', JInt 1), (''report_id'', jopt JStr (at_report_id a)),
      (''mime_type'', jopt JStr (at_mime_type a)), (''sha256'', jopt JStr (at_sha256 a)),
      (''perceptual_hash'', jopt JStr (at_perceptual_hash a)),
      (''vision_summary'', shown_vision_summary (at_vision_summary a)),
      (''malware_scan_status'', JStr (at_malware_scan_status a)),
      (''created_at'', JInt (at_created_at a))]"

definition answer_snapshot :: "answer \<Rightarrow> json" where
  "answer_snapshot a = JObj
     [(''id'', JStr (da_id a)), (''revision'', JInt (da_revision a)),
      (''question_id'', JStr (da_question_id a)), (''semantic_value'', JStr (da_semantic_value a)),
      (''answer_text'', JText (da_answer_text a)),
      (''observed_latitude'', jopt JNum (da_observed_latitude a)),
      (''observed_longitude'', jopt JNum (da_observed_longitude a)),
      (''observed_coordinate_system'', jopt JStr (da_observed_coordinate_system a)),
      (''updated_at'', JInt (da_updated_at a))]"

text \<open>The four branches: current revision, source cluster and snapshot of the source.\<close>

definition cross_incident :: api_error where
  "cross_incident = ApiError 422 ''CROSS_INCIDENT_EVIDENCE''"

definition evidence_source ::
    "'a core_db_scheme \<Rightarrow> string \<Rightarrow> ident \<Rightarrow> ident
      \<Rightarrow> api_error + (int \<times> ident option \<times> json)" where
  "evidence_source db kind source_id incident_id =
     (if kind = ''fragment'' then
        (case find (\<lambda>f. fg_id f = source_id) (db_fragments db) of
           None \<Rightarrow> Inl not_found
         | Some f \<Rightarrow> if fg_incident_id f \<noteq> incident_id then Inl cross_incident
             else Inr (fg_revision f, fg_source_cluster_id f, fragment_snapshot f))
      else if kind = ''report'' then
        (case find (\<lambda>r. rp_id r = source_id) (db_reports db) of
           None \<Rightarrow> Inl not_found
         | Some r \<Rightarrow> if rp_incident_id r \<noteq> incident_id then Inl cross_incident
             else Inr (rp_revision r, None, report_snapshot r))
      else if kind = ''attachment'' then
        (case find (\<lambda>a. at_id a = source_id) (db_attachments db) of
           None \<Rightarrow> Inl not_found
         | Some a \<Rightarrow> if at_incident_id a \<noteq> incident_id then Inl cross_incident
             else if at_metadata_status a \<noteq> ''ready''
               \<or> at_malware_scan_status a \<notin> set [''clean'', ''fake_clean'']
             then Inl (ApiError 422 ''ATTACHMENT_NOT_READY'')
             else Inr (1, at_source_cluster_id a, attachment_snapshot a))
      else
        (case find (\<lambda>a. da_id a = source_id) (db_answers db) of
           None \<Rightarrow> Inl not_found
         | Some a \<Rightarrow>
             (case find (\<lambda>q. qn_id q = da_question_id a) (db_questions db) of
                None \<Rightarrow> Inl cross_incident
              | Some q \<Rightarrow> if qn_incident_id q \<noteq> incident_id then Inl cross_incident
                  else Inr (da_revision a, None, answer_snapshot a))))"

definition evidence_snapshot ::
    "'a core_db_scheme \<Rightarrow> evidence_ref \<Rightarrow> ident \<Rightarrow> api_error + (int \<times> ident option \<times> json)" where
  "evidence_snapshot db r incident_id =
     (case evidence_source db (vr_kind r) (vr_source_id r) incident_id of
        Inl err \<Rightarrow> Inl err
      | Inr (revision, rest) \<Rightarrow>
          (case vr_source_revision r of
             None \<Rightarrow> Inr (revision, rest)
           | Some s \<Rightarrow> if s \<noteq> revision then Inl (conflict_error ''EVIDENCE_REVISION_CONFLICT'')
               else Inr (revision, rest)))"

definition evidence_of :: "ident \<Rightarrow> string \<Rightarrow> ident \<Rightarrow> evidence \<Rightarrow> bool" where
  "evidence_of case_id kind source_id v \<longleftrightarrow>
     ce_conflict_id v = case_id \<and> ce_kind v = kind \<and> ce_source_id v = source_id"

text \<open>One turn of the loop of \<open>add_evidence\<close>, with the id of the row it adds or revives.\<close>

definition add_one_evidence ::
    "(json \<Rightarrow> string) \<Rightarrow> env \<Rightarrow> conflict_case \<Rightarrow> evidence_ref \<Rightarrow> 'a core_db_scheme
      \<Rightarrow> api_error + (ident \<times> 'a core_db_scheme)" where
  "add_one_evidence sha e c r db =
     (case evidence_snapshot db r (cc_incident_id c) of
        Inl err \<Rightarrow> Inl err
      | Inr (revision, cluster, snap) \<Rightarrow>
          (case find (\<lambda>v. evidence_of (cc_id c) (vr_kind r) (vr_source_id r) v
                        \<and> ce_source_revision v = revision) (db_evidence db) of
             Some old \<Rightarrow> Inr (ce_id old,
               db\<lparr>db_evidence := modify_where (\<lambda>v. ce_id v = ce_id old)
                    (\<lambda>v. v\<lparr>ce_is_current := True\<rparr>) (db_evidence db)\<rparr>)
           | None \<Rightarrow> Inr (new_id e (id_count db),
               db\<lparr>db_evidence := modify_where
                      (\<lambda>v. evidence_of (cc_id c) (vr_kind r) (vr_source_id r) v \<and> ce_is_current v)
                      (\<lambda>v. v\<lparr>ce_is_current := False\<rparr>) (db_evidence db) @
                    [\<lparr>ce_id = new_id e (id_count db), ce_conflict_id = cc_id c,
                      ce_kind = vr_kind r, ce_source_id = vr_source_id r,
                      ce_source_revision = revision, ce_source_cluster_id = cluster,
                      ce_snapshot = snap, ce_snapshot_sha256 = sha snap,
                      ce_is_current = True, ce_added_at = now e\<rparr>],
                  id_count := Suc (id_count db)\<rparr>)))"

fun add_evidence ::
    "(json \<Rightarrow> string) \<Rightarrow> env \<Rightarrow> conflict_case \<Rightarrow> evidence_ref list \<Rightarrow> 'a core_db_scheme
      \<Rightarrow> api_error + (ident list \<times> 'a core_db_scheme)" where
  "add_evidence sha e c [] db = Inr ([], flush db)"
| "add_evidence sha e c (r # rs) db =
     (case add_one_evidence sha e c r db of
        Inl err \<Rightarrow> Inl err
      | Inr (i, db1) \<Rightarrow>
          (case add_evidence sha e c rs db1 of
             Inl err \<Rightarrow> Inl err
           | Inr (is, db2) \<Rightarrow> Inr (i # is, db2)))"

definition current_evidence :: "'a core_db_scheme \<Rightarrow> ident \<Rightarrow> evidence list" where
  "current_evidence db case_id =
     filter (\<lambda>v. ce_conflict_id v = case_id \<and> ce_is_current v) (db_evidence db)"

definition mark_analyses_stale ::
    "env \<Rightarrow> conflict_case \<Rightarrow> string \<Rightarrow> 'a core_db_scheme \<Rightarrow> 'a core_db_scheme" where
  "mark_analyses_stale e c reason db =
     (flush db)\<lparr>db_analyses := modify_where
        (\<lambda>a. an_analysis_type a = ''conflict_analysis'' \<and> an_incident_id a = cc_incident_id c
           \<and> \<not> an_is_stale a \<and> jget (an_input_snapshot a) ''conflict_id'' = JStr (cc_id c))
        (\<lambda>a. a\<lparr>an_is_stale := True, an_stale_at := Some (now e), an_stale_reason := Some reason\<rparr>)
        (db_analyses db)\<rparr>"

section \<open>Facts\<close>

definition find_fact :: "'a core_db_scheme \<Rightarrow> ident \<Rightarrow> string \<Rightarrow> fact option" where
  "find_fact db i k = find (\<lambda>f. fr_incident_id f = i \<and> fr_fact_key f = k) (db_facts db)"

definition current_version :: "'a core_db_scheme \<Rightarrow> fact \<Rightarrow> fact_version option" where
  "current_version db f =
     (case or_else (fr_current_version_id f) None of
        None \<Rightarrow> None | Some v \<Rightarrow> find (\<lambda>x. fv_id x = v) (db_fact_versions db))"

text \<open>
  What both writers of the history do with a version: end the validity of the previous one,
  add the new one, and move the record to it.
\<close>

definition close_version :: "env \<Rightarrow> fact_version \<Rightarrow> fact_version" where
  "close_version e v = v\<lparr>fv_valid_to := Some (now e)\<rparr>"

definition move_fact :: "env \<Rightarrow> fact_version \<Rightarrow> bool \<Rightarrow> fact \<Rightarrow> fact" where
  "move_fact e v public f =
     f\<lparr>fr_current_version_id := Some (fv_id v), fr_current_revision := fv_revision v,
       fr_status := fv_status v, fr_is_public := public, fr_updated_at := now e\<rparr>"

definition publish_version ::
    "env \<Rightarrow> fact \<Rightarrow> fact_version \<Rightarrow> bool \<Rightarrow> 'a core_db_scheme \<Rightarrow> 'a core_db_scheme" where
  "publish_version e f v public db =
     db\<lparr>db_fact_versions :=
          (case current_version db f of
             None \<Rightarrow> db_fact_versions db
           | Some p \<Rightarrow> modify_where (\<lambda>x. fv_id x = fv_id p) (close_version e) (db_fact_versions db))
          @ [v],
        db_facts := modify_where (\<lambda>x. fr_id x = fr_id f) (move_fact e v public) (db_facts db),
        id_count := Suc (id_count db)\<rparr>"

definition review_version ::
    "env \<Rightarrow> nat \<Rightarrow> conflict_case \<Rightarrow> string \<Rightarrow> fact \<Rightarrow> fact_version option \<Rightarrow> fact_version" where
  "review_version e k c reason f previous =
     \<lparr>fv_id = new_id e k, fv_fact_record_id = fr_id f,
      fv_previous_version_id = fr_current_version_id f, fv_revision = fr_current_revision f + 1,
      fv_status = ''under_review'',
      fv_statement = (case previous of
          Some p \<Rightarrow> fv_statement p
        | None \<Rightarrow> map of_char ''New evidence requires review''),
      fv_confidence = (case previous of Some p \<Rightarrow> fv_confidence p | None \<Rightarrow> None),
      fv_source_conflict_id = Some (cc_id c), fv_source_analysis_id = None,
      fv_context_snapshot = Some (JObj [(''reason'', JStr reason),
                                        (''conflict_revision'', JInt (cc_revision c))]),
      fv_accepted_evidence_ids = [],
      fv_decision_snapshot = JObj [(''automatic_transition'', JStr ''under_review'')],
      fv_valid_from = now e, fv_valid_to = None, fv_decided_by = ''system''\<rparr>"

text \<open>\<open>{**(feature.private_data or {}), "fact_revision": revision}\<close>\<close>

fun json_set :: "json \<Rightarrow> string \<Rightarrow> json \<Rightarrow> json" where
  "json_set (JObj kvs) k v =
     JObj (if k \<in> set (map fst kvs)
           then map (\<lambda>(x, y). if x = k then (x, v) else (x, y)) kvs else kvs @ [(k, v)])"
| "json_set _ k v = JObj [(k, v)]"

definition review_feature :: "int \<Rightarrow> map_feature \<Rightarrow> map_feature" where
  "review_feature revision f =
     f\<lparr>mf_status := ''under_review'', mf_revision := revision, mf_public_data := JObj [],
       mf_private_data := json_set (mf_private_data f) ''fact_revision'' (JInt revision)\<rparr>"

definition mark_fact_under_review ::
    "env \<Rightarrow> conflict_case \<Rightarrow> string \<Rightarrow> 'a core_db_scheme \<Rightarrow> fact option \<times> 'a core_db_scheme" where
  "mark_fact_under_review e c reason db0 =
     (let db = flush db0 in
      case find_fact db (cc_incident_id c) (cc_fact_key c) of
        None \<Rightarrow> (None, db)
      | Some f \<Rightarrow>
          if fr_status f = ''under_review'' then (Some f, db)
          else
            (let v = review_version e (id_count db) c reason f (current_version db f);
                 db1 = publish_version e f v False db;
                 db2 = (case find_feature db1 (cc_incident_id c) ''fact'' (fr_id f) of
                     None \<Rightarrow> db1
                   | Some m \<Rightarrow> db1\<lparr>db_features := modify_where (\<lambda>x. mf_id x = mf_id m)
                         (review_feature (fv_revision v)) (db_features db1)\<rparr>)
             in (Some (move_fact e v False f), db2)))"

text \<open>
  The value most answers agree on, how many do, and the set of all values given.
  \<open>Counter.most_common(1)\<close> is the first of the values with the highest count.
\<close>

definition counted_values :: "answer list \<Rightarrow> string list" where
  "counted_values as =
     map da_semantic_value (filter (\<lambda>a. lower (strip (da_semantic_value a)) \<noteq> ''unknown'') as)"

fun first_max :: "('x \<Rightarrow> nat) \<Rightarrow> 'x list \<Rightarrow> 'x option" where
  "first_max f [] = None"
| "first_max f (x # xs) =
     (case first_max f xs of
        None \<Rightarrow> Some x | Some y \<Rightarrow> if f y \<le> f x then Some x else Some y)"

definition valid_answer_consensus ::
    "'a core_db_scheme \<Rightarrow> ident \<Rightarrow> string option \<times> nat \<times> string set" where
  "valid_answer_consensus db question_id =
     (let vs = counted_values (filter (\<lambda>a. da_question_id a = question_id) (db_answers db))
      in case first_max (count_list vs) vs of
           None \<Rightarrow> (None, 0, {})
         | Some v \<Rightarrow> (Some v, count_list vs v, set vs))"

section \<open>Decisions\<close>

definition put_case :: "conflict_case \<Rightarrow> 'a core_db_scheme \<Rightarrow> 'a core_db_scheme" where
  "put_case c db = db\<lparr>db_cases := modify_where (\<lambda>x. cc_id x = cc_id c) (\<lambda>_. c) (db_cases db)\<rparr>"

text \<open>The analysis the decision cites: of this conflict, finished, and of the present revision.\<close>

definition cited_analysis ::
    "'a core_db_scheme \<Rightarrow> conflict_case \<Rightarrow> decision_request \<Rightarrow> api_error + ai_analysis option" where
  "cited_analysis db c p =
     (case or_else (cq_analysis_id p) None of
        None \<Rightarrow> Inr None
      | Some i \<Rightarrow>
          (case find (\<lambda>a. an_id a = i) (db_analyses db) of
             None \<Rightarrow> Inl (ApiError 422 ''INVALID_AI_ANALYSIS'')
           | Some a \<Rightarrow>
               if an_incident_id a \<noteq> cc_incident_id c \<or> an_analysis_type a \<noteq> ''conflict_analysis''
                 \<or> an_status a \<noteq> ''succeeded''
                 \<or> jget (an_input_snapshot a) ''conflict_id'' \<noteq> JStr (cc_id c)
               then Inl (ApiError 422 ''INVALID_AI_ANALYSIS'')
               else if an_is_stale a \<or> an_input_version a \<noteq> cc_revision c
               then Inl (conflict_error ''AI_ANALYSIS_STALE'')
               else Inr (Some a)))"

definition accepted_ids :: "decision_request \<Rightarrow> ident list" where
  "accepted_ids p =
     map dp_evidence_id (filter (\<lambda>d. dp_disposition d = ''accepted'') (cq_evidence_decisions p))"

text \<open>The guards at the head of \<open>decide_conflict\<close>.\<close>

definition check_decision ::
    "'a core_db_scheme \<Rightarrow> conflict_case \<Rightarrow> decision_request \<Rightarrow> api_error + ai_analysis option" where
  "check_decision db c p =
     (if cc_revision c \<noteq> cq_revision p then Inl (conflict_error ''REVISION_CONFLICT'')
      else if cc_status c = ''resolved'' then Inl (conflict_error ''CONFLICT_ALREADY_RESOLVED'')
      else if set (map dp_evidence_id (cq_evidence_decisions p))
          \<noteq> set (map ce_id (current_evidence db (cc_id c)))
      then Inl (ApiError 422 ''INCOMPLETE_EVIDENCE_DISPOSITION'')
      else cited_analysis db c p)"

definition new_decision ::
    "env \<Rightarrow> nat \<Rightarrow> actor \<Rightarrow> conflict_case \<Rightarrow> decision_request \<Rightarrow> ai_analysis option \<Rightarrow> decision" where
  "new_decision e k actr c p analysis =
     \<lparr>cd_id = new_id e k, cd_conflict_id = cc_id c, cd_conflict_revision = cc_revision c,
      cd_analysis_id = map_option an_id analysis,
      cd_evidence_decisions = JArr (map disposition_json (cq_evidence_decisions p)),
      cd_conclusion = cq_conclusion p, cd_note = cq_note p,
      cd_decided_by = ac_subject_id actr, cd_created_at = now e\<rparr>"

text \<open>The fact record of the conflict, created when the request expects revision 0 of it.\<close>

definition decision_fact ::
    "env \<Rightarrow> conflict_case \<Rightarrow> decision_request \<Rightarrow> 'a core_db_scheme
      \<Rightarrow> api_error + (fact \<times> bool \<times> 'a core_db_scheme)" where
  "decision_fact e c p db =
     (case find_fact db (cc_incident_id c) (cc_fact_key c) of
        None \<Rightarrow>
          if cq_expected_fact_revision p \<noteq> 0 then Inl (conflict_error ''FACT_REVISION_CONFLICT'')
          else
            (let f = \<lparr>fr_id = new_id e (id_count db), fr_incident_id = cc_incident_id c,
                  fr_fact_key = cc_fact_key c, fr_topic = cc_topic c,
                  fr_location_text = cc_location_text c, fr_latitude = cc_latitude c,
                  fr_longitude = cc_longitude c, fr_coordinate_system = cc_coordinate_system c,
                  fr_current_version_id = None, fr_current_revision = 0,
                  fr_status = cq_fact_status p, fr_is_public = cq_is_public p,
                  fr_updated_at = now e\<rparr>
             in Inr (f, True, db\<lparr>db_facts := db_facts db @ [f], id_count := Suc (id_count db)\<rparr>))
      | Some f \<Rightarrow>
          if fr_current_revision f \<noteq> cq_expected_fact_revision p
          then Inl (conflict_error ''FACT_REVISION_CONFLICT'')
          else Inr (f, False, db))"

definition decided_version ::
    "env \<Rightarrow> nat \<Rightarrow> actor \<Rightarrow> conflict_case \<Rightarrow> decision_request \<Rightarrow> ai_analysis option \<Rightarrow> fact \<Rightarrow> fact_version" where
  "decided_version e k actr c p analysis f =
     \<lparr>fv_id = new_id e k, fv_fact_record_id = fr_id f,
      fv_previous_version_id = fr_current_version_id f, fv_revision = fr_current_revision f + 1,
      fv_status = cq_fact_status p, fv_statement = cq_conclusion p,
      fv_confidence = cq_confidence p, fv_source_conflict_id = Some (cc_id c),
      fv_source_analysis_id = map_option an_id analysis,
      fv_context_snapshot = (case analysis of None \<Rightarrow> None | Some a \<Rightarrow> an_context_package a),
      fv_accepted_evidence_ids = accepted_ids p, fv_decision_snapshot = decision_json p,
      fv_valid_from = now e, fv_valid_to = None, fv_decided_by = ac_subject_id actr\<rparr>"

definition resolve_case ::
    "env \<Rightarrow> actor \<Rightarrow> decision_request \<Rightarrow> decision \<Rightarrow> conflict_case \<Rightarrow> conflict_case" where
  "resolve_case e actr p d c =
     c\<lparr>cc_status := ''resolved'', cc_resolved_at := Some (now e),
       cc_resolved_by := Some (ac_subject_id actr),
       cc_resolution := Some (JObj [(''decision_id'', JStr (cd_id d)),
          (''conclusion'', JText (cq_conclusion p)),
          (''accepted_evidence_ids'', JArr (map JStr (accepted_ids p))),
          (''analysis_id'', jopt JStr (cd_analysis_id d))]),
       cc_revision := cc_revision c + 1\<rparr>"

text \<open>The loop over the evidence: fragments leave the conflict, accepted or not.\<close>

definition settle_fragment :: "bool \<Rightarrow> fragment \<Rightarrow> fragment" where
  "settle_fragment accepted f =
     f\<lparr>fg_status := (if accepted then ''resolved'' else ''normal''), fg_revision := fg_revision f + 1\<rparr>"

fun settle_evidence ::
    "env \<Rightarrow> ident list \<Rightarrow> evidence list \<Rightarrow> 'a core_db_scheme \<Rightarrow> api_error + 'a core_db_scheme" where
  "settle_evidence e accepted [] db = Inr db"
| "settle_evidence e accepted (v # vs) db =
     (if ce_kind v \<noteq> ''fragment'' then settle_evidence e accepted vs db
      else (case find (\<lambda>f. fg_id f = ce_source_id v) (db_fragments db) of
         None \<Rightarrow> settle_evidence e accepted vs db
       | Some f \<Rightarrow>
           (let f' = settle_fragment (ce_id v \<in> set accepted) f
            in case upsert_fragment_map_feature e f'
                 (db\<lparr>db_fragments := modify_where (\<lambda>x. fg_id x = fg_id f) (\<lambda>_. f') (db_fragments db)\<rparr>)
               of Inl err \<Rightarrow> Inl err
                | Inr db' \<Rightarrow> settle_evidence e accepted vs db')))"

definition fact_feature_data :: "conflict_case \<Rightarrow> fact \<Rightarrow> decision_request \<Rightarrow> int \<Rightarrow> json" where
  "fact_feature_data c f p revision = JObj
     [(''fact_record_id'', JStr (fr_id f)), (''fact_key'', JStr (fr_fact_key f)),
      (''statement'', JText (cq_conclusion p)), (''fact_revision'', JInt revision),
      (''source_conflict_id'', JStr (cc_id c))]"

definition write_fact_feature ::
    "conflict_case \<Rightarrow> decision_request \<Rightarrow> int \<Rightarrow> json \<Rightarrow> position option \<Rightarrow> map_feature \<Rightarrow> map_feature" where
  "write_fact_feature c p revision data pos m =
     m\<lparr>mf_title := cc_title c, mf_status := cq_fact_status p,
       mf_latitude_wgs84 := map_option pos_wgs84_latitude pos,
       mf_longitude_wgs84 := map_option pos_wgs84_longitude pos,
       mf_latitude_gcj02 := map_option pos_gcj02_latitude pos,
       mf_longitude_gcj02 := map_option pos_gcj02_longitude pos,
       mf_revision := revision, mf_is_deleted := False,
       mf_public_data := (if cq_is_public p then data else JObj []), mf_private_data := data\<rparr>"

definition upsert_fact_feature ::
    "env \<Rightarrow> conflict_case \<Rightarrow> fact \<Rightarrow> decision_request \<Rightarrow> int \<Rightarrow> 'a core_db_scheme
      \<Rightarrow> api_error + 'a core_db_scheme" where
  "upsert_fact_feature e c f p revision db =
     (let data = fact_feature_data c f p revision in
      case position_of (cc_latitude c) (cc_longitude c) (cc_coordinate_system c) of
        Inl err \<Rightarrow> Inl err
      | Inr pos \<Rightarrow>
          (case find_feature db (cc_incident_id c) ''fact'' (fr_id f) of
             None \<Rightarrow> Inr (db\<lparr>db_features := db_features db @
                 [write_fact_feature c p revision data pos
                   \<lparr>mf_id = new_id e (id_count db), mf_incident_id = cc_incident_id c,
                    mf_kind = ''fact'', mf_source_ref = fr_id f, mf_title = cc_title c,
                    mf_status = cq_fact_status p, mf_severity = cc_severity c,
                    mf_latitude_wgs84 = None, mf_longitude_wgs84 = None,
                    mf_latitude_gcj02 = None, mf_longitude_gcj02 = None,
                    mf_revision = revision, mf_is_deleted = False,
                    mf_public_data = JObj [], mf_private_data = data\<rparr>],
                 id_count := Suc (id_count db)\<rparr>)
           | Some m \<Rightarrow> Inr (db\<lparr>db_features := modify_where (\<lambda>x. mf_id x = mf_id m)
                 (write_fact_feature c p revision data pos) (db_features db)\<rparr>)))"

definition simple_emission ::
    "string \<Rightarrow> string \<Rightarrow> ident \<Rightarrow> int \<Rightarrow> json \<Rightarrow> string \<Rightarrow> emission" where
  "simple_emission event_type resource_type resource_id revision payload visibility =
     \<lparr>em_event_type = event_type, em_resource_type = resource_type,
      em_resource_id = Some resource_id, em_resource_revision = Some revision,
      em_payload = payload, em_visibility = visibility, em_owner_device_id = None,
      em_request_id = None\<rparr>"

record decided =
  dc_decision_id :: ident
  dc_fact_id :: ident
  dc_fact_revision :: int
  dc_event_ids :: "ident list"

text \<open>The two events at the end, with the visibility the request asks for.\<close>

definition announce_decision ::
    "env \<Rightarrow> conflict_case \<Rightarrow> decision_request \<Rightarrow> fact \<Rightarrow> bool \<Rightarrow> int \<Rightarrow> 'a core_db_scheme
      \<Rightarrow> ident list \<times> 'a core_db_scheme" where
  "announce_decision e c p f created revision db =
     (let vis = (if cq_is_public p then ''public'' else ''operators'');
          (i1, db1) = emit_event e (cc_incident_id c)
            (simple_emission ''conflict.resolved'' ''conflict'' (cc_id c) (cc_revision c)
              (JObj [(''conflict_id'', JStr (cc_id c)), (''fact_record_id'', JStr (fr_id f)),
                     (''fact_record_revision'', JInt revision)]) vis) db;
          (i2, db2) = emit_event e (cc_incident_id c)
            (simple_emission (if created then ''fact_record.created'' else ''fact_record.updated'')
              ''fact'' (fr_id f) revision (fact_feature_data c f p revision) vis) db1
      in (List.map_filter id [i1, i2], flush db2))"

text \<open>The body after the guards, from the decision row to the last event.\<close>

definition apply_decision ::
    "env \<Rightarrow> actor \<Rightarrow> string option \<Rightarrow> conflict_case \<Rightarrow> decision_request \<Rightarrow> ai_analysis option
      \<Rightarrow> 'a core_db_scheme \<Rightarrow> api_error + (decided \<times> 'a core_db_scheme)" where
  "apply_decision e actr rid c p analysis db =
     (let evidence = current_evidence db (cc_id c);
          d = new_decision e (id_count db) actr c p analysis;
          db1 = db\<lparr>db_decisions := db_decisions db @ [d], id_count := Suc (id_count db)\<rparr>
      in case decision_fact e c p db1 of
        Inl err \<Rightarrow> Inl err
      | Inr (f, created, db2) \<Rightarrow>
          (let v = decided_version e (id_count db2) actr c p analysis f;
               db3 = publish_version e f v (cq_is_public p) db2;
               c' = resolve_case e actr p d c
           in case upsert_conflict_map_feature e c' (put_case c' db3) of
             Inl err \<Rightarrow> Inl err
           | Inr db4 \<Rightarrow>
               (case settle_evidence e (accepted_ids p) evidence db4 of
                  Inl err \<Rightarrow> Inl err
                | Inr db5 \<Rightarrow>
                    (case upsert_fact_feature e c' f p (fv_revision v) db5 of
                       Inl err \<Rightarrow> Inl err
                     | Inr db6 \<Rightarrow>
                         (let db7 = record_audit e (Some actr) (Some (cc_incident_id c))
                               ''conflict.decided'' ''conflict'' (Some (cc_id c)) rid db6
                          in case get_incident_by_id db7 (cc_incident_id c) of
                               None \<Rightarrow> Inl not_found
                             | Some _ \<Rightarrow>
                                 (let (ids, db8) = announce_decision e c' p f created (fv_revision v) db7
                                  in Inr (\<lparr>dc_decision_id = cd_id d, dc_fact_id = fr_id f,
                                           dc_fact_revision = fv_revision v, dc_event_ids = ids\<rparr>,
                                          db8)))))))"

definition decide_conflict ::
    "env \<Rightarrow> actor \<Rightarrow> string option \<Rightarrow> conflict_case \<Rightarrow> decision_request
      \<Rightarrow> 'a core_db_scheme \<Rightarrow> api_error + (decided \<times> 'a core_db_scheme)" where
  "decide_conflict e actr rid c p db0 =
     (case check_decision db0 c p of
        Inl err \<Rightarrow> Inl err
      | Inr analysis \<Rightarrow> apply_decision e actr rid c p analysis (flush db0))"

section \<open>Handlers\<close>

definition resolve_incident :: "'a core_db_scheme \<Rightarrow> string \<Rightarrow> api_error + incident" where
  "resolve_incident db i =
     (case get_incident_by_id db i of
        Some x \<Rightarrow> Inr x
      | None \<Rightarrow> (case find (\<lambda>x. inc_alias x = Some i) (db_incidents db) of
            Some x \<Rightarrow> Inr x | None \<Rightarrow> Inl not_found))"

definition get_case :: "'a core_db_scheme \<Rightarrow> string \<Rightarrow> api_error + conflict_case" where
  "get_case db i =
     (case find (\<lambda>x. cc_id x = i) (db_cases db) of
        Some x \<Rightarrow> Inr x
      | None \<Rightarrow> (case find (\<lambda>x. cc_alias x = Some i) (db_cases db) of
            Some x \<Rightarrow> Inr x | None \<Rightarrow> Inl not_found))"

definition operator_case ::
    "actor \<Rightarrow> ident option \<Rightarrow> string \<Rightarrow> 'a core_db_scheme \<Rightarrow> api_error + conflict_case" where
  "operator_case actr header i db =
     (case get_case db i of
        Inl err \<Rightarrow> Inl err
      | Inr c \<Rightarrow>
          (case ensure_incident_access actr (cc_incident_id c) header of
             Inl err \<Rightarrow> Inl err | Inr _ \<Rightarrow> Inr c))"

text \<open>
  The role is checked by a dependency, before the body of the request.  An exception rolls the
  transaction back: the state of an error is the one before.
\<close>

definition as_operator ::
    "actor \<Rightarrow> bool \<Rightarrow> (api_error + 'r) \<Rightarrow> api_error + 'r" where
  "as_operator actr body_ok result =
     (case require_roles [''operator'', ''admin''] actr of
        Inl err \<Rightarrow> Inl err
      | Inr _ \<Rightarrow> if body_ok then result else Inl (ApiError 422 ''VALIDATION_ERROR''))"

record conflict_create =
  cx_alias :: "string option"
  cx_fact_key :: string
  cx_title :: utext
  cx_topic :: string
  cx_location_text :: utext
  cx_latitude :: "rat option"
  cx_longitude :: "rat option"
  cx_coordinate_system :: "string option"
  cx_severity :: string
  cx_evidence :: "evidence_ref list"

definition evidence_ref_ok :: "evidence_ref \<Rightarrow> bool" where
  "evidence_ref_ok r \<longleftrightarrow>
     vr_kind r \<in> set [''fragment'', ''report'', ''attachment'', ''answer'']
     \<and> (case vr_source_revision r of None \<Rightarrow> True | Some s \<Rightarrow> 1 \<le> s)"

definition conflict_create_ok :: "conflict_create \<Rightarrow> bool" where
  "conflict_create_ok p \<longleftrightarrow>
     (case cx_alias p of None \<Rightarrow> True | Some a \<Rightarrow> length a \<le> 100)
     \<and> 1 \<le> length (cx_fact_key p) \<and> length (cx_fact_key p) \<le> 120
     \<and> 1 \<le> length (cx_title p) \<and> length (cx_title p) \<le> 200
     \<and> 1 \<le> length (cx_topic p) \<and> length (cx_topic p) \<le> 60
     \<and> 1 \<le> length (cx_location_text p) \<and> length (cx_location_text p) \<le> 300
     \<and> (case cx_latitude p of None \<Rightarrow> True | Some x \<Rightarrow> - 90 \<le> x \<and> x \<le> 90)
     \<and> (case cx_longitude p of None \<Rightarrow> True | Some x \<Rightarrow> - 180 \<le> x \<and> x \<le> 180)
     \<and> (case cx_coordinate_system p of
          None \<Rightarrow> True | Some s \<Rightarrow> s \<in> set [''wgs84'', ''gcj02''])
     \<and> cx_severity p \<in> set [''low'', ''medium'', ''high'']
     \<and> 2 \<le> length (cx_evidence p) \<and> list_all evidence_ref_ok (cx_evidence p)
     \<and> (cx_latitude p = None) = (cx_longitude p = None)
     \<and> (cx_latitude p = None \<or> cx_coordinate_system p \<noteq> None)"

definition opened_case :: "env \<Rightarrow> nat \<Rightarrow> ident \<Rightarrow> conflict_create \<Rightarrow> conflict_case" where
  "opened_case e k i p =
     \<lparr>cc_id = new_id e k, cc_incident_id = i, cc_alias = cx_alias p,
      cc_fact_key = cx_fact_key p, cc_title = cx_title p, cc_topic = cx_topic p,
      cc_location_text = cx_location_text p, cc_latitude = cx_latitude p,
      cc_longitude = cx_longitude p, cc_coordinate_system = cx_coordinate_system p,
      cc_status = ''open'', cc_severity = cx_severity p, cc_detected_at = now e,
      cc_resolved_at = None, cc_resolution = None, cc_resolved_by = None,
      cc_revision = 1, cc_created_at = now e\<rparr>"

text \<open>
  The bodies of the handlers after their guards.  An alias is unique: the flush of a second
  case with it fails, and the request with it.
\<close>

definition open_case ::
    "(json \<Rightarrow> string) \<Rightarrow> env \<Rightarrow> actor \<Rightarrow> string option \<Rightarrow> conflict_create \<Rightarrow> ident
      \<Rightarrow> 'a core_db_scheme \<Rightarrow> api_error + (conflict_case \<times> 'a core_db_scheme)" where
  "open_case sha e actr rid p iid db =
     (let c = opened_case e (id_count db) iid p in
      if cx_alias p \<noteq> None \<and> list_ex (\<lambda>x. cc_alias x = cx_alias p) (db_cases db)
      then Inl (ApiError 500 ''INTERNAL_ERROR'')
      else case add_evidence sha e c (cx_evidence p)
             (db\<lparr>db_cases := db_cases db @ [c], id_count := Suc (id_count db)\<rparr>) of
        Inl err \<Rightarrow> Inl err
      | Inr (ids, db1) \<Rightarrow>
          (case upsert_conflict_map_feature e c db1 of
             Inl err \<Rightarrow> Inl err
           | Inr db2 \<Rightarrow>
               (let db3 = record_audit e (Some actr) (Some iid) ''conflict.created''
                     ''conflict'' (Some (cc_id c)) rid db2;
                    db4 = snd (emit_event e iid
                      (simple_emission ''conflict.opened'' ''conflict'' (cc_id c) (cc_revision c)
                        (JObj [(''conflict_id'', JStr (cc_id c)),
                               (''fact_key'', JStr (cc_fact_key c)),
                               (''evidence_count'', JInt (int (length ids)))])
                        ''operators'') db3)
                in Inr (c, flush db4))))"

definition create_conflict ::
    "(json \<Rightarrow> string) \<Rightarrow> env \<Rightarrow> actor \<Rightarrow> ident option \<Rightarrow> string option \<Rightarrow> ident \<Rightarrow> conflict_create
      \<Rightarrow> 'a core_db_scheme \<Rightarrow> api_error + (conflict_case \<times> 'a core_db_scheme)" where
  "create_conflict sha e actr header rid i p db =
     as_operator actr (conflict_create_ok p)
       (case ensure_incident_access actr i header of Inl err \<Rightarrow> Inl err | Inr _ \<Rightarrow>
        case resolve_incident db i of Inl err \<Rightarrow> Inl err | Inr inc \<Rightarrow>
        open_case sha e actr rid p (inc_id inc) db)"

definition extend_case ::
    "(json \<Rightarrow> string) \<Rightarrow> env \<Rightarrow> actor \<Rightarrow> string option \<Rightarrow> evidence_ref list \<Rightarrow> conflict_case \<Rightarrow> ident
      \<Rightarrow> 'a core_db_scheme \<Rightarrow> api_error + (conflict_case \<times> 'a core_db_scheme)" where
  "extend_case sha e actr rid refs c iid db =
     (case add_evidence sha e c refs db of
        Inl err \<Rightarrow> Inl err
      | Inr (ids, db1) \<Rightarrow>
          (let c' = c\<lparr>cc_revision := cc_revision c + 1\<rparr>;
               db2 = mark_analyses_stale e c' ''evidence_added'' (put_case c' db1)
           in case upsert_conflict_map_feature e c' db2 of
                Inl err \<Rightarrow> Inl err
              | Inr db3 \<Rightarrow>
                  (let db4 = record_audit e (Some actr) (Some (cc_incident_id c))
                         ''conflict.evidence_added'' ''conflict'' (Some (cc_id c)) rid db3;
                       db5 = snd (emit_event e iid
                         (simple_emission ''conflict.updated'' ''conflict'' (cc_id c) (cc_revision c')
                           (JObj [(''conflict_id'', JStr (cc_id c)),
                                  (''evidence_ids'', JArr (map JStr ids))]) ''operators'') db4)
                   in Inr (c', flush db5))))"

definition append_conflict_evidence ::
    "(json \<Rightarrow> string) \<Rightarrow> env \<Rightarrow> actor \<Rightarrow> ident option \<Rightarrow> string option \<Rightarrow> string \<Rightarrow> int
      \<Rightarrow> evidence_ref list \<Rightarrow> 'a core_db_scheme \<Rightarrow> api_error + (conflict_case \<times> 'a core_db_scheme)" where
  "append_conflict_evidence sha e actr header rid i revision refs db =
     as_operator actr (1 \<le> revision \<and> refs \<noteq> [] \<and> list_all evidence_ref_ok refs)
       (case operator_case actr header i db of Inl err \<Rightarrow> Inl err | Inr c \<Rightarrow>
        if cc_revision c \<noteq> revision then Inl (conflict_error ''REVISION_CONFLICT'')
        else case resolve_incident db (cc_incident_id c) of Inl err \<Rightarrow> Inl err | Inr inc \<Rightarrow>
        extend_case sha e actr rid refs c (inc_id inc) db)"

definition reopened :: "conflict_case \<Rightarrow> conflict_case" where
  "reopened c = c\<lparr>cc_status := ''reopened'', cc_resolved_at := None, cc_resolved_by := None,
     cc_resolution := None, cc_revision := cc_revision c + 1\<rparr>"

text \<open>The events of a reopening: the conflict, then the fact when there is one.\<close>

definition announce_reopening ::
    "env \<Rightarrow> conflict_case \<Rightarrow> utext \<Rightarrow> fact option \<Rightarrow> ident \<Rightarrow> 'a core_db_scheme \<Rightarrow> 'a core_db_scheme" where
  "announce_reopening e c reason f iid db =
     (let db1 = snd (emit_event e iid
            (simple_emission ''conflict.opened'' ''conflict'' (cc_id c) (cc_revision c)
              (JObj [(''conflict_id'', JStr (cc_id c)), (''reopened'', JBool True),
                     (''reason'', JText reason),
                     (''fact_record_id'', jopt (\<lambda>x. JStr (fr_id x)) f)]) ''operators'') db)
      in flush (case f of
           None \<Rightarrow> db1
         | Some x \<Rightarrow> snd (emit_event e iid
             (simple_emission ''fact_record.under_review'' ''fact'' (fr_id x) (fr_current_revision x)
               (JObj [(''status'', JStr ''under_review''), (''reason'', JText reason)])
               ''operators'') db1)))"

definition reopen_case ::
    "env \<Rightarrow> actor \<Rightarrow> string option \<Rightarrow> utext \<Rightarrow> conflict_case \<Rightarrow> ident
      \<Rightarrow> 'a core_db_scheme \<Rightarrow> api_error + (conflict_case \<times> 'a core_db_scheme)" where
  "reopen_case e actr rid reason c iid db =
     (let c' = reopened c;
          (f, db1) = mark_fact_under_review e c' ''conflict_reopened'' (put_case c' db);
          db2 = mark_analyses_stale e c' ''conflict_reopened'' db1
      in case upsert_conflict_map_feature e c' db2 of
           Inl err \<Rightarrow> Inl err
         | Inr db3 \<Rightarrow>
             (let db4 = record_audit e (Some actr) (Some (cc_incident_id c)) ''conflict.reopened''
                    ''conflict'' (Some (cc_id c)) rid db3
              in Inr (c', announce_reopening e c' reason f iid db4)))"

definition reopen_conflict ::
    "env \<Rightarrow> actor \<Rightarrow> ident option \<Rightarrow> string option \<Rightarrow> string \<Rightarrow> int \<Rightarrow> utext
      \<Rightarrow> 'a core_db_scheme \<Rightarrow> api_error + (conflict_case \<times> 'a core_db_scheme)" where
  "reopen_conflict e actr header rid i revision reason db =
     as_operator actr (1 \<le> revision \<and> 1 \<le> length reason \<and> length reason \<le> 500)
       (case operator_case actr header i db of Inl err \<Rightarrow> Inl err | Inr c \<Rightarrow>
        if cc_revision c \<noteq> revision then Inl (conflict_error ''REVISION_CONFLICT'')
        else if cc_status c \<noteq> ''resolved'' then Inl (conflict_error ''CONFLICT_NOT_RESOLVED'')
        else case resolve_incident db (cc_incident_id c) of Inl err \<Rightarrow> Inl err | Inr inc \<Rightarrow>
        reopen_case e actr rid reason c (inc_id inc) db)"

definition submit_conflict_decision ::
    "env \<Rightarrow> actor \<Rightarrow> ident option \<Rightarrow> string option \<Rightarrow> string \<Rightarrow> decision_request
      \<Rightarrow> 'a core_db_scheme \<Rightarrow> api_error + (decided \<times> 'a core_db_scheme)" where
  "submit_conflict_decision e actr header rid i p db =
     as_operator actr (decision_request_ok p)
       (case operator_case actr header i db of
          Inl err \<Rightarrow> Inl err
        | Inr c \<Rightarrow> decide_conflict e actr rid c p db)"

text \<open>
  A resident sees a fact only while it is public and current; \<open>list_fact_records\<close> filters its
  rows in the same way.
\<close>

definition fact_readable :: "actor \<Rightarrow> fact \<Rightarrow> bool" where
  "fact_readable actr f \<longleftrightarrow> (is_resident actr \<longrightarrow> fr_is_public f \<and> fr_status f = ''current'')"

definition get_fact_record ::
    "actor \<Rightarrow> ident option \<Rightarrow> ident \<Rightarrow> 'a core_db_scheme \<Rightarrow> api_error + fact" where
  "get_fact_record actr header i db =
     (case find (\<lambda>f. fr_id f = i) (db_facts db) of
        None \<Rightarrow> Inl not_found
      | Some f \<Rightarrow>
          (case ensure_incident_access actr (fr_incident_id f) header of
             Inl err \<Rightarrow> Inl err
           | Inr _ \<Rightarrow> if \<not> fact_readable actr f then Inl (ApiError 403 ''FACT_NOT_PUBLIC'') else Inr f))"

end
