(* ===== verification/Detection.thy ===== *)
theory Detection
  imports Conflicts
begin

text \<open>
  How contradicting fragments become a conflict (the rest of \<open>services/conflicts.py\<close>): the
  comparison of addresses, the search for an open case at the same place and time, and the
  detection of fragments that contradict a new one.

  Addresses are lists of code points.  The Unicode tables of the language (case folding,
  letters and digits) are parameters, as are the settings; \<open>SequenceMatcher\<close> is written out.
\<close>

section \<open>Addresses\<close>

record detection =
  dt_casefold :: "utext \<Rightarrow> utext"
  dt_isalnum :: "nat \<Rightarrow> bool"
  dt_isdigit :: "nat \<Rightarrow> bool"
  dt_sha :: "json \<Rightarrow> string"
  dt_radius_m :: real
  dt_window_hours :: int

text \<open>The six two-letter words that say "near".\<close>

definition address_noise :: "utext list" where
  "address_noise = [[38752, 36817], [38468, 36817], [21608, 36793], [26049, 36793],
     [20020, 36817], [20301, 20110]]"

fun without_noise :: "utext \<Rightarrow> utext" where
  "without_noise (a # b # xs) =
     (if [a, b] \<in> set address_noise then without_noise xs else a # without_noise (b # xs))"
| "without_noise xs = xs"

definition normalize_address :: "detection \<Rightarrow> utext \<Rightarrow> utext" where
  "normalize_address D v = filter (dt_isalnum D) (without_noise (dt_casefold D v))"

text \<open>\<open>findall\<close> of runs of digits.\<close>

fun digit_runs :: "(nat \<Rightarrow> bool) \<Rightarrow> utext \<Rightarrow> utext \<Rightarrow> utext list" where
  "digit_runs dg run [] = (if run = [] then [] else [run])"
| "digit_runs dg run (x # xs) =
     (if dg x then digit_runs dg (run @ [x]) xs
      else if run = [] then digit_runs dg [] xs else run # digit_runs dg [] xs)"

definition address_numbers :: "detection \<Rightarrow> utext \<Rightarrow> utext set" where
  "address_numbers D v = set (digit_runs (dt_isdigit D) [] v)"

fun occurs_in :: "utext \<Rightarrow> utext \<Rightarrow> bool" where
  "occurs_in s [] = (s = [])"
| "occurs_in s (x # xs) = (take (length s) (x # xs) = s \<or> occurs_in s xs)"

text \<open>
  \<open>SequenceMatcher(None, a, b, autojunk=False)\<close>: the longest common block that starts first in
  \<open>a\<close>, then first in \<open>b\<close>, and the same to its left and to its right.
\<close>

fun common_prefix :: "utext \<Rightarrow> utext \<Rightarrow> nat" where
  "common_prefix (x # xs) (y # ys) = (if x = y then Suc (common_prefix xs ys) else 0)"
| "common_prefix _ _ = 0"

definition block_size :: "utext \<Rightarrow> utext \<Rightarrow> nat \<times> nat \<Rightarrow> nat" where
  "block_size a b p = common_prefix (drop (fst p) a) (drop (snd p) b)"

definition longest_match :: "utext \<Rightarrow> utext \<Rightarrow> (nat \<times> nat) option" where
  "longest_match a b =
     first_max (block_size a b) (List.product [0..<length a] [0..<length b])"

lemma first_max_mem: "first_max f xs = Some x \<Longrightarrow> x \<in> set xs"
  by (induction xs arbitrary: x) (auto split: option.splits if_splits)

lemma common_prefix_le: "common_prefix a b \<le> length a \<and> common_prefix a b \<le> length b"
  by (induction a b rule: common_prefix.induct) auto

lemma longest_match_bounds:
  assumes "longest_match a b = Some (i, j)"
  shows "i + block_size a b (i, j) \<le> length a" "j + block_size a b (i, j) \<le> length b"
proof -
  have "i < length a" "j < length b"
    using first_max_mem [OF assms [unfolded longest_match_def]] by auto
  then show "i + block_size a b (i, j) \<le> length a" "j + block_size a b (i, j) \<le> length b"
    using common_prefix_le [of "drop i a" "drop j b"] by (auto simp: block_size_def)
qed

function matched_size :: "utext \<Rightarrow> utext \<Rightarrow> nat" where
  "matched_size a b =
     (case longest_match a b of
        None \<Rightarrow> 0
      | Some (i, j) \<Rightarrow>
          (let k = block_size a b (i, j)
           in if k = 0 then 0
              else matched_size (take i a) (take j b) + k
                 + matched_size (drop (i + k) a) (drop (j + k) b)))"
  by pat_completeness auto

termination
  by (relation "measure (\<lambda>(a, b). length a)") (auto dest: longest_match_bounds(1))

declare matched_size.simps [simp del]

text \<open>The ratio is \<open>2 * matched / (length a + length b)\<close>, compared with 0.72.\<close>

definition similar_ratio :: "utext \<Rightarrow> utext \<Rightarrow> bool" where
  "similar_ratio a b \<longleftrightarrow> 72 * (length a + length b) \<le> 100 * (2 * matched_size a b)"

definition addresses_likely_same :: "detection \<Rightarrow> utext \<Rightarrow> utext \<Rightarrow> bool" where
  "addresses_likely_same D v w =
     (let a = normalize_address D v; b = normalize_address D w;
          na = address_numbers D a; nb = address_numbers D b;
          shorter = (if length b < length a then b else a);
          longer = (if length b < length a then a else b)
      in if a = [] \<or> b = [] then False
         else if a = b then True
         else if na \<noteq> {} \<and> nb \<noteq> {} \<and> na \<inter> nb = {} then False
         else if 6 \<le> length shorter \<and> occurs_in shorter longer then True
         else similar_ratio a b)"

section \<open>Places\<close>

record place =
  pl_latitude :: "rat option"
  pl_longitude :: "rat option"
  pl_system :: "string option"
  pl_text :: utext

definition case_place :: "conflict_case \<Rightarrow> place" where
  "case_place c = \<lparr>pl_latitude = cc_latitude c, pl_longitude = cc_longitude c,
     pl_system = cc_coordinate_system c, pl_text = cc_location_text c\<rparr>"

definition fragment_place :: "fragment \<Rightarrow> place" where
  "fragment_place f = \<lparr>pl_latitude = fg_latitude f, pl_longitude = fg_longitude f,
     pl_system = fg_coordinate_system f, pl_text = fg_location_text f\<rparr>"

definition located :: "place \<Rightarrow> bool" where
  "located p \<longleftrightarrow> pl_latitude p \<noteq> None \<and> pl_longitude p \<noteq> None \<and> pl_system p \<noteq> None"

definition place_position :: "place \<Rightarrow> api_error + position option" where
  "place_position p = position_of (pl_latitude p) (pl_longitude p) (pl_system p)"

definition within_radius :: "detection \<Rightarrow> position option \<Rightarrow> position option \<Rightarrow> bool" where
  "within_radius D a b =
     (case (a, b) of
        (Some p, Some q) \<Rightarrow>
          haversine_m (pos_wgs84_latitude p) (pos_wgs84_longitude p)
            (pos_wgs84_latitude q) (pos_wgs84_longitude q) \<le> dt_radius_m D
      | _ \<Rightarrow> False)"

text \<open>
  The test of both loops: near by coordinates or by address when both places have
  coordinates, by address alone otherwise.
\<close>

definition nearby :: "detection \<Rightarrow> place \<Rightarrow> place \<Rightarrow> api_error + bool" where
  "nearby D cur prev =
     (if located cur \<and> located prev then
        (case place_position cur of
           Inl err \<Rightarrow> Inl err
         | Inr p \<Rightarrow>
             (case place_position prev of
                Inl err \<Rightarrow> Inl err
              | Inr q \<Rightarrow> Inr (within_radius D p q
                  \<or> addresses_likely_same D (pl_text prev) (pl_text cur))))
      else Inr (addresses_likely_same D (pl_text prev) (pl_text cur)))"

section \<open>The case of a contradiction\<close>

fun first_case ::
    "detection \<Rightarrow> env \<Rightarrow> place \<Rightarrow> conflict_case list \<Rightarrow> api_error + conflict_case option" where
  "first_case D e p [] = Inr None"
| "first_case D e p (c # cs) =
     (case nearby D p (case_place c) of
        Inl err \<Rightarrow> Inl err
      | Inr near \<Rightarrow>
          if \<not> near \<or> now e - cc_detected_at c > hours (dt_window_hours D)
          then first_case D e p cs else Inr (Some c))"

record claim =
  cl_incident_id :: ident
  cl_fact_key :: string
  cl_title :: utext
  cl_topic :: string
  cl_place :: place

definition candidate_cases :: "'a core_db_scheme \<Rightarrow> claim \<Rightarrow> fragment list \<Rightarrow> conflict_case list" where
  "candidate_cases db q fs =
     (let keys = cl_fact_key q # List.map_filter fg_claim_key fs
      in sort_key (\<lambda>c. - cc_created_at c)
           (filter (\<lambda>c. cc_incident_id c = cl_incident_id q \<and> cc_fact_key c \<in> set keys) (db_cases db)))"

definition structured_case :: "env \<Rightarrow> nat \<Rightarrow> claim \<Rightarrow> conflict_case" where
  "structured_case e k q =
     \<lparr>cc_id = new_id e k, cc_incident_id = cl_incident_id q, cc_alias = None,
      cc_fact_key = cl_fact_key q, cc_title = cl_title q, cc_topic = cl_topic q,
      cc_location_text = pl_text (cl_place q), cc_latitude = pl_latitude (cl_place q),
      cc_longitude = pl_longitude (cl_place q), cc_coordinate_system = pl_system (cl_place q),
      cc_status = ''open'', cc_severity = ''high'', cc_detected_at = now e,
      cc_resolved_at = None, cc_resolution = None, cc_resolved_by = None,
      cc_revision = 1, cc_created_at = now e\<rparr>"

text \<open>The case found, reopened when it was resolved, or a new one; and whether it was opened.\<close>

definition enter_case ::
    "env \<Rightarrow> claim \<Rightarrow> conflict_case option \<Rightarrow> 'a core_db_scheme
      \<Rightarrow> conflict_case \<times> bool \<times> 'a core_db_scheme" where
  "enter_case e q found db =
     (case found of
        None \<Rightarrow>
          (let c = structured_case e (id_count db) q
           in (c, True, (flush db)\<lparr>db_cases := db_cases db @ [c], id_count := Suc (id_count db)\<rparr>))
      | Some c \<Rightarrow>
          if cc_status c = ''resolved'' then
            (let c' = reopened c;
                 db1 = mark_analyses_stale e c' ''conflict_reopened_with_new_evidence'' (put_case c' db)
             in (c', True, snd (mark_fact_under_review e c' ''conflict_reopened'' db1)))
          else (c, False, db))"

definition fragment_ref :: "fragment \<Rightarrow> evidence_ref" where
  "fragment_ref f = \<lparr>vr_kind = ''fragment'', vr_source_id = fg_id f,
     vr_source_revision = Some (fg_revision f)\<rparr>"

definition has_snapshot :: "'a core_db_scheme \<Rightarrow> ident \<Rightarrow> fragment \<Rightarrow> bool" where
  "has_snapshot db case_id f =
     list_ex (\<lambda>v. evidence_of case_id ''fragment'' (fg_id f) v \<and> ce_source_revision v = fg_revision f)
       (db_evidence db)"

definition mark_conflicting :: "fragment list \<Rightarrow> 'a core_db_scheme \<Rightarrow> 'a core_db_scheme" where
  "mark_conflicting fs db =
     db\<lparr>db_fragments := modify_where (\<lambda>f. fg_id f \<in> set (map fg_id fs))
          (\<lambda>f. f\<lparr>fg_status := ''conflict''\<rparr>) (db_fragments db)\<rparr>"

text \<open>A case that was already open moves on exactly when there is a new snapshot.\<close>

definition join_case ::
    "detection \<Rightarrow> env \<Rightarrow> fragment list \<Rightarrow> conflict_case \<Rightarrow> bool \<Rightarrow> 'a core_db_scheme
      \<Rightarrow> api_error + (conflict_case \<times> 'a core_db_scheme)" where
  "join_case D e fs c is_open db =
     (case add_evidence (dt_sha D) e c (map fragment_ref fs) db of
        Inl err \<Rightarrow> Inl err
      | Inr (ids, db1) \<Rightarrow>
          if \<not> list_all (has_snapshot db (cc_id c)) fs \<and> \<not> is_open
          then (let c' = c\<lparr>cc_revision := cc_revision c + 1\<rparr>
                in Inr (c', mark_conflicting fs
                     (mark_analyses_stale e c' ''evidence_updated'' (put_case c' db1))))
          else Inr (c, mark_conflicting fs db1))"

definition find_or_open_structured_conflict ::
    "detection \<Rightarrow> env \<Rightarrow> claim \<Rightarrow> fragment list \<Rightarrow> 'a core_db_scheme
      \<Rightarrow> api_error + ((conflict_case \<times> bool) \<times> 'a core_db_scheme)" where
  "find_or_open_structured_conflict D e q fs db0 =
     (let db = flush db0 in
      case first_case D e (cl_place q) (candidate_cases db q fs) of
        Inl err \<Rightarrow> Inl err
      | Inr found \<Rightarrow>
          (let (c, is_open, db1) = enter_case e q found db
           in case join_case D e fs c is_open db1 of
                Inl err \<Rightarrow> Inl err
              | Inr (c', db2) \<Rightarrow> Inr ((c', is_open), db2)))"

section \<open>Detection\<close>

definition fragments_share_source :: "fragment \<Rightarrow> fragment \<Rightarrow> bool" where
  "fragments_share_source f g =
     (case (or_else (fg_source_cluster_id f) None, or_else (fg_source_cluster_id g) None) of
        (Some c, Some d) \<Rightarrow> c = d
      | _ \<Rightarrow> fg_source_type f = fg_source_type g \<and> fg_source_ref_id f \<noteq> None
          \<and> fg_source_ref_id f = fg_source_ref_id g)"

definition claims_something :: "fragment \<Rightarrow> bool" where
  "claims_something f =
     (case or_else (fg_claim_value f) None of
        None \<Rightarrow> False | Some v \<Rightarrow> lower (strip v) \<noteq> ''unknown'')"

definition fragment_time :: "fragment \<Rightarrow> time" where
  "fragment_time f = (case fg_observed_at f of Some t \<Rightarrow> t | None \<Rightarrow> fg_received_at f)"

text \<open>The query for candidates.\<close>

definition contradicts :: "fragment \<Rightarrow> fragment \<Rightarrow> bool" where
  "contradicts f g \<longleftrightarrow> fg_incident_id g = fg_incident_id f \<and> fg_id g \<noteq> fg_id f
     \<and> fg_topic g = fg_topic f \<and> fg_claim_value g \<noteq> None \<and> fg_claim_value g \<noteq> fg_claim_value f
     \<and> fg_status g \<in> set [''normal'', ''conflict'']"

definition comparable :: "detection \<Rightarrow> fragment \<Rightarrow> fragment \<Rightarrow> bool" where
  "comparable D f g \<longleftrightarrow> \<not> fragments_share_source f g \<and> claims_something g
     \<and> \<bar>fragment_time f - fragment_time g\<bar> \<le> hours (dt_window_hours D)"

fun matching :: "detection \<Rightarrow> fragment \<Rightarrow> fragment list \<Rightarrow> api_error + fragment list" where
  "matching D f [] = Inr []"
| "matching D f (g # gs) =
     (if \<not> comparable D f g then matching D f gs
      else case nearby D (fragment_place f) (fragment_place g) of
        Inl err \<Rightarrow> Inl err
      | Inr near \<Rightarrow>
          (case matching D f gs of
             Inl err \<Rightarrow> Inl err | Inr ms \<Rightarrow> Inr (if near then g # ms else ms)))"

text \<open>\<open>f"{fragment.label} ..."\<close>: a blank and the four characters of "information conflict".\<close>

definition conflict_title :: "fragment \<Rightarrow> utext" where
  "conflict_title f = fg_label f @ [32, 20449, 24687, 20914, 31361]"

definition detect_structured_fragment_conflict ::
    "detection \<Rightarrow> env \<Rightarrow> fragment \<Rightarrow> 'a core_db_scheme
      \<Rightarrow> api_error + ((conflict_case \<times> bool) option \<times> 'a core_db_scheme)" where
  "detect_structured_fragment_conflict D e f db =
     (case or_else (fg_claim_key f) None of
        None \<Rightarrow> Inr (None, db)
      | Some key \<Rightarrow>
          if \<not> claims_something f
            \<or> (\<not> located (fragment_place f) \<and> normalize_address D (fg_location_text f) = [])
          then Inr (None, db)
          else case place_position (fragment_place f) of
            Inl err \<Rightarrow> Inl err
          | Inr _ \<Rightarrow>
              (case matching D f (filter (contradicts f) (db_fragments db)) of
                 Inl err \<Rightarrow> Inl err
               | Inr ms \<Rightarrow>
                   if ms = [] then Inr (None, flush db)
                   else (case find_or_open_structured_conflict D e
                       \<lparr>cl_incident_id = fg_incident_id f, cl_fact_key = key,
                        cl_title = conflict_title f, cl_topic = fg_topic f,
                        cl_place = fragment_place f\<rparr> (ms @ [f]) db of
                     Inl err \<Rightarrow> Inl err
                   | Inr (r, db') \<Rightarrow> Inr (Some r, db'))))"

section \<open>What a detection leaves behind\<close>

definition evidenced :: "'a core_db_scheme \<Rightarrow> ident \<Rightarrow> fragment \<Rightarrow> bool" where
  "evidenced db case_id f \<longleftrightarrow>
     (\<exists>v \<in> set (db_evidence db). evidence_of case_id ''fragment'' (fg_id f) v
        \<and> ce_source_revision v = fg_revision f \<and> ce_is_current v)"

lemma add_one_evidenced:
  assumes "add_one_evidence sha e c (fragment_ref f) db = Inr (i, db')"
  shows "evidenced db' (cc_id c) f"
proof -
  obtain rest where s: "evidence_snapshot db (fragment_ref f) (cc_incident_id c) = Inr (fg_revision f, rest)"
    using assms by (auto simp: add_one_evidence_def evidence_snapshot_def fragment_ref_def
        split: sum.splits if_splits)
  show ?thesis
  proof (cases "find (\<lambda>v. evidence_of (cc_id c) ''fragment'' (fg_id f) v
      \<and> ce_source_revision v = fg_revision f) (db_evidence db)")
    case None
    then show ?thesis using assms s
      by (auto simp: add_one_evidence_def fragment_ref_def evidenced_def evidence_of_def split: prod.splits)
  next
    case (Some old)
    then have old: "old \<in> set (db_evidence db)" "evidence_of (cc_id c) ''fragment'' (fg_id f) old"
        "ce_source_revision old = fg_revision f"
      using find_SomeD [OF Some] by auto
    have "db_evidence db' = modify_where (\<lambda>v. ce_id v = ce_id old) (\<lambda>v. v\<lparr>ce_is_current := True\<rparr>) (db_evidence db)"
      using assms s Some by (auto simp: add_one_evidence_def fragment_ref_def split: prod.splits)
    then have "old\<lparr>ce_is_current := True\<rparr> \<in> set (db_evidence db')"
      using old(1) by (auto simp: in_modify_where_iff intro!: bexI [of _ old])
    then show ?thesis using old(2,3)
      by (auto simp: evidenced_def evidence_of_def intro!: bexI [of _ "old\<lparr>ce_is_current := True\<rparr>"])
  qed
qed

lemma add_one_keeps_evidenced:
  assumes "add_one_evidence sha e c r db = Inr (i, db')" "evidenced db case_id f" "vr_source_id r \<noteq> fg_id f"
  shows "evidenced db' case_id f"
proof -
  obtain v where v: "v \<in> set (db_evidence db)" "evidence_of case_id ''fragment'' (fg_id f) v"
      "ce_source_revision v = fg_revision f" "ce_is_current v"
    using assms(2) by (auto simp: evidenced_def)
  have other: "\<not> evidence_of (cc_id c) (vr_kind r) (vr_source_id r) v"
    using v(2) assms(3) by (auto simp: evidence_of_def)
  consider old :: evidence where "db_evidence db' = modify_where (\<lambda>v. ce_id v = ce_id old)
        (\<lambda>v. v\<lparr>ce_is_current := True\<rparr>) (db_evidence db)"
    | new :: evidence where "db_evidence db' = modify_where
        (\<lambda>v. evidence_of (cc_id c) (vr_kind r) (vr_source_id r) v \<and> ce_is_current v)
        (\<lambda>v. v\<lparr>ce_is_current := False\<rparr>) (db_evidence db) @ [new]"
    using assms(1) by (auto simp: add_one_evidence_def split: sum.splits option.splits prod.splits)
  then show ?thesis
  proof cases
    case 1
    then have "(if ce_id v = ce_id old then v\<lparr>ce_is_current := True\<rparr> else v) \<in> set (db_evidence db')"
      using v(1) by (auto simp: in_modify_where_iff)
    then show ?thesis unfolding evidenced_def using v(2-4)
      by (intro bexI [of _ "if ce_id v = ce_id old then v\<lparr>ce_is_current := True\<rparr> else v"])
        (simp_all add: evidence_of_def)
  next
    case 2
    then have "v \<in> set (db_evidence db')" using v(1) other by (auto simp: in_modify_where_iff)
    then show ?thesis using v(2-4) by (auto simp: evidenced_def)
  qed
qed

lemma add_evidence_keeps:
  "add_evidence sha e c rs db = Inr (is, db') \<Longrightarrow> evidenced db case_id f \<Longrightarrow>
     fg_id f \<notin> set (map vr_source_id rs) \<Longrightarrow> evidenced db' case_id f"
proof (induction rs arbitrary: db "is")
  case Nil
  then show ?case by (auto simp: evidenced_def flush_def)
next
  case (Cons r rs)
  then obtain i db1 is' where a: "add_one_evidence sha e c r db = Inr (i, db1)"
      "add_evidence sha e c rs db1 = Inr (is', db')"
    by (auto split: sum.splits prod.splits)
  have "evidenced db1 case_id f" using add_one_keeps_evidenced [OF a(1) Cons.prems(2)] Cons.prems(3) by auto
  then show ?case using Cons.IH [OF a(2)] Cons.prems(3) by simp
qed

lemma add_evidence_evidenced:
  "add_evidence sha e c (map fragment_ref fs) db = Inr (is, db') \<Longrightarrow> distinct (map fg_id fs) \<Longrightarrow>
     f \<in> set fs \<Longrightarrow> evidenced db' (cc_id c) f"
proof (induction fs arbitrary: db "is")
  case Nil
  then show ?case by simp
next
  case (Cons g gs)
  then obtain i db1 is' where a: "add_one_evidence sha e c (fragment_ref g) db = Inr (i, db1)"
      "add_evidence sha e c (map fragment_ref gs) db1 = Inr (is', db')"
    by (auto split: sum.splits prod.splits)
  show ?case
  proof (cases "f = g")
    case True
    have "fg_id f \<notin> set (map vr_source_id (map fragment_ref gs))"
      using Cons.prems(2) True by (auto simp: fragment_ref_def)
    then show ?thesis using add_evidence_keeps [OF a(2) add_one_evidenced [OF a(1)]] True by simp
  next
    case False
    then show ?thesis using Cons.IH [OF a(2)] Cons.prems by simp
  qed
qed

lemma add_evidence_cases: "add_evidence sha e c rs db = Inr (is, db') \<Longrightarrow> db_cases db' = db_cases db"
proof (induction rs arbitrary: db "is")
  case Nil
  then show ?case by (auto simp: flush_def)
next
  case (Cons r rs)
  then obtain i db1 is' where a: "add_one_evidence sha e c r db = Inr (i, db1)"
      "add_evidence sha e c rs db1 = Inr (is', db')"
    by (auto split: sum.splits prod.splits)
  have "db_cases db1 = db_cases db"
    using a(1) by (auto simp: add_one_evidence_def split: sum.splits option.splits prod.splits)
  then show ?case using Cons.IH [OF a(2)] by simp
qed

lemma put_case_in: "c0 \<in> set (db_cases db) \<Longrightarrow> cc_id c0 = cc_id c \<Longrightarrow> c \<in> set (db_cases (put_case c db))"
  by (auto simp: put_case_def in_modify_where_iff intro!: bexI [of _ c0])

lemma review_cases: "db_cases (snd (mark_fact_under_review e c r db)) = db_cases db"
  by (auto simp: mark_fact_under_review_def Let_def publish_version_def flush_def split: option.splits)

lemma stale_marks [simp]:
  "db_cases (mark_analyses_stale e c r db) = db_cases db"
  "db_evidence (mark_analyses_stale e c r db) = db_evidence db"
  "db_cases (flush db) = db_cases db" "db_evidence (flush db) = db_evidence db"
  "db_evidence (put_case c' db) = db_evidence db"
  "db_cases (mark_conflicting fs db) = db_cases db" "db_evidence (mark_conflicting fs db) = db_evidence db"
  by (simp_all add: mark_analyses_stale_def flush_def put_case_def mark_conflicting_def)

lemma first_case_mem: "first_case D e p cs = Inr (Some c) \<Longrightarrow> c \<in> set cs"
  by (induction cs) (auto split: sum.splits if_splits)

lemma enter_case_open:
  assumes "enter_case e q found db = (c, is_open, db')" "\<And>c0. found = Some c0 \<Longrightarrow> c0 \<in> set (db_cases db)"
  shows "c \<in> set (db_cases db') \<and> cc_status c \<noteq> ''resolved''"
proof (cases found)
  case None
  then show ?thesis using assms(1) by (auto simp: enter_case_def structured_case_def flush_def Let_def)
next
  case (Some c0)
  have "cc_id c0 = cc_id (reopened c0)" by (simp add: reopened_def)
  from put_case_in [OF assms(2) [OF Some] this] show ?thesis
    using assms Some by (auto simp: enter_case_def Let_def review_cases reopened_def split: if_splits)
qed

lemma join_case_result:
  assumes "join_case D e fs c is_open db = Inr (c', db')" "c \<in> set (db_cases db)"
    and "cc_status c \<noteq> ''resolved''" "distinct (map fg_id fs)"
  shows "c' \<in> set (db_cases db') \<and> cc_id c' = cc_id c \<and> cc_status c' \<noteq> ''resolved''
    \<and> (\<forall>f \<in> set fs. evidenced db' (cc_id c') f)
    \<and> (\<forall>x \<in> set (db_fragments db'). fg_id x \<in> set (map fg_id fs) \<longrightarrow> fg_status x = ''conflict'')"
proof -
  obtain ids db1 where 1: "add_evidence (dt_sha D) e c (map fragment_ref fs) db = Inr (ids, db1)"
    using assms(1) by (auto simp: join_case_def split: sum.splits)
  let ?c = "c\<lparr>cc_revision := cc_revision c + 1\<rparr>"
  have db': "(c' = ?c \<and> db' = mark_conflicting fs (mark_analyses_stale e ?c ''evidence_updated'' (put_case ?c db1)))
      \<or> (c' = c \<and> db' = mark_conflicting fs db1)"
    using assms(1) by (auto simp: join_case_def 1 Let_def split: if_splits)
  have in1: "c \<in> set (db_cases db1)" using assms(2) add_evidence_cases [OF 1] by simp
  have "c' \<in> set (db_cases db')" using db' in1 put_case_in [OF in1, of ?c] by auto
  moreover have "db_evidence db' = db_evidence db1" using db' by auto
  then have "\<forall>f \<in> set fs. evidenced db' (cc_id c) f"
    using add_evidence_evidenced [OF 1 assms(4)] by (auto simp: evidenced_def)
  moreover have "\<forall>x \<in> set (db_fragments db'). fg_id x \<in> set (map fg_id fs) \<longrightarrow> fg_status x = ''conflict''"
  proof (intro ballI impI)
    fix x assume x: "x \<in> set (db_fragments db')" "fg_id x \<in> set (map fg_id fs)"
    obtain rows where "db_fragments db' = modify_where (\<lambda>f. fg_id f \<in> set (map fg_id fs))
        (\<lambda>f. f\<lparr>fg_status := ''conflict''\<rparr>) rows"
      using db' by (auto simp: mark_conflicting_def)
    with x(1) obtain r where "x = (if fg_id r \<in> set (map fg_id fs) then r\<lparr>fg_status := ''conflict''\<rparr> else r)"
      by (auto simp only: in_modify_where_iff)
    then show "fg_status x = ''conflict''"
      using x(2) by (cases "fg_id r \<in> set (map fg_id fs)") auto
  qed
  ultimately show ?thesis using db' assms(3) by auto
qed

lemma matching_members:
  "matching D f gs = Inr ms \<Longrightarrow> g \<in> set ms \<Longrightarrow>
     g \<in> set gs \<and> comparable D f g \<and> nearby D (fragment_place f) (fragment_place g) = Inr True"
  by (induction gs arbitrary: ms) (auto split: if_splits sum.splits)

lemma matching_filter: "matching D f gs = Inr ms \<Longrightarrow> distinct (map fg_id gs) \<Longrightarrow>
    distinct (map fg_id ms) \<and> set ms \<subseteq> set gs"
  by (induction gs arbitrary: ms) (fastforce split: if_splits sum.splits)+

lemma find_or_open_result:
  assumes "find_or_open_structured_conflict D e q fs db = Inr ((c, is_open), db')" "distinct (map fg_id fs)"
  shows "c \<in> set (db_cases db') \<and> cc_status c \<noteq> ''resolved'' \<and> (\<forall>f \<in> set fs. evidenced db' (cc_id c) f)
    \<and> (\<forall>x \<in> set (db_fragments db'). fg_id x \<in> set (map fg_id fs) \<longrightarrow> fg_status x = ''conflict'')"
proof -
  obtain found where f: "first_case D e (cl_place q) (candidate_cases (flush db) q fs) = Inr found"
    using assms(1) by (auto simp: find_or_open_structured_conflict_def Let_def split: sum.splits)
  obtain c1 o1 db1 where en: "enter_case e q found (flush db) = (c1, o1, db1)" by (metis surj_pair)
  obtain db2 where j: "join_case D e fs c1 o1 db1 = Inr (c, db2)" "db2 = db'"
    using assms(1) by (auto simp: find_or_open_structured_conflict_def f en Let_def split: sum.splits)
  have "c0 \<in> set (db_cases (flush db))" if "found = Some c0" for c0
    using first_case_mem f that by (fastforce simp: candidate_cases_def Let_def)
  from enter_case_open [OF en this] join_case_result [OF j(1) _ _ assms(2)] j(2)
  show ?thesis by auto
qed

section \<open>Properties\<close>

text \<open>
  C22. A detected contradiction is real and on record: when detection on a stored fragment
  returns a conflict, some other stored fragment of the same incident and topic claims
  something different, comes from another source, was observed within the time window and
  near by; the conflict is unresolved, and for both fragments it holds current evidence at their
  revision and they are marked as conflicting.
\<close>

theorem detection_records_contradiction:
  assumes "detect_structured_fragment_conflict D e f db = Inr (Some (c, is_open), db')"
    and "f \<in> set (db_fragments db)" "distinct (map fg_id (db_fragments db))"
  shows "\<exists>g \<in> set (db_fragments db). contradicts f g \<and> \<not> fragments_share_source f g
      \<and> \<bar>fragment_time f - fragment_time g\<bar> \<le> hours (dt_window_hours D)
      \<and> nearby D (fragment_place f) (fragment_place g) = Inr True
      \<and> c \<in> set (db_cases db') \<and> cc_status c \<noteq> ''resolved''
      \<and> evidenced db' (cc_id c) f \<and> evidenced db' (cc_id c) g
      \<and> (\<forall>x \<in> set (db_fragments db'). fg_id x \<in> {fg_id f, fg_id g} \<longrightarrow> fg_status x = ''conflict'')"
proof -
  let ?gs = "filter (contradicts f) (db_fragments db)"
  obtain q ms where m: "matching D f ?gs = Inr ms" "ms \<noteq> []"
      and q: "find_or_open_structured_conflict D e q (ms @ [f]) db = Inr ((c, is_open), db')"
    using assms(1)
    by (auto simp: detect_structured_fragment_conflict_def split: option.splits if_splits sum.splits)
  have "distinct (map fg_id ?gs)" using assms(3) by (simp add: distinct_map_filter)
  then have ms: "distinct (map fg_id ms)" "set ms \<subseteq> set ?gs" using matching_filter [OF m(1)] by simp_all
  have "fg_id f \<notin> fg_id ` set ms" using ms(2) by (auto simp: contradicts_def)
  then have "distinct (map fg_id (ms @ [f]))" using ms(1) by simp
  note res = find_or_open_result [OF q this]
  obtain g where g: "g \<in> set ms" using m(2) by (cases ms) auto
  have "g \<in> set ?gs" "comparable D f g" "nearby D (fragment_place f) (fragment_place g) = Inr True"
    using matching_members [OF m(1) g] by simp_all
  then show ?thesis using res g by (intro bexI [of _ g]) (auto simp: comparable_def)
qed

definition demo_detection :: detection where
  "demo_detection = \<lparr>dt_casefold = id, dt_isalnum = (\<lambda>_. True), dt_isdigit = (\<lambda>_. False),
     dt_sha = (\<lambda>_. []), dt_radius_m = 500, dt_window_hours = 6\<rparr>"

definition demo_claim_open :: fragment where
  "demo_claim_open = demo_fragment\<lparr>fg_location_text := [66, 67]\<rparr>"

definition demo_claim_closed :: fragment where
  "demo_claim_closed = demo_claim_open\<lparr>fg_id := ''f2'', fg_source_ref_id := Some ''r2'',
     fg_claim_value := Some ''closed''\<rparr>"

theorem detection_records_contradiction_witness:
  "\<exists>c is_open db'. detect_structured_fragment_conflict demo_detection demo_env demo_claim_open
       (demo_core_db\<lparr>db_fragments := [demo_claim_open, demo_claim_closed]\<rparr>) = Inr (Some (c, is_open), db')
     \<and> evidenced db' (cc_id c) demo_claim_open \<and> cc_status c \<noteq> ''resolved''"
proof -
  let ?db = "demo_core_db\<lparr>db_fragments := [demo_claim_open, demo_claim_closed]\<rparr>"
  let ?q = "\<lparr>cl_incident_id = ''inc'', cl_fact_key = ''k'', cl_title = conflict_title demo_claim_open,
      cl_topic = ''road'', cl_place = fragment_place demo_claim_open\<rparr>"
  note demo = demo_claim_open_def demo_claim_closed_def demo_fragment_def
  have near: "matching demo_detection demo_claim_open
      (filter (contradicts demo_claim_open) (db_fragments ?db)) = Inr [demo_claim_closed]"
    by (simp add: demo contradicts_def comparable_def fragments_share_source_def claims_something_def
        or_else_def lower_def strip_def is_space_def ascii_lower_def fragment_time_def hours_def
        minutes_def seconds_def nearby_def located_def fragment_place_def addresses_likely_same_def
        normalize_address_def demo_detection_def address_noise_def Let_def)
  obtain ids db2 where add: "add_evidence (dt_sha demo_detection) demo_env
      (structured_case demo_env 0 ?q) (map fragment_ref [demo_claim_closed, demo_claim_open])
      ((flush (flush ?db))\<lparr>db_cases := [structured_case demo_env 0 ?q], id_count := 1\<rparr>) = Inr (ids, db2)"
    by (simp add: demo fragment_ref_def add_one_evidence_def evidence_snapshot_def evidence_source_def
        structured_case_def flush_def demo_core_db_def evidence_of_def Let_def)
  have "candidate_cases (flush ?db) ?q [demo_claim_closed, demo_claim_open] = []"
    by (simp add: candidate_cases_def flush_def demo_core_db_def Let_def)
  then obtain c db' where
    "find_or_open_structured_conflict demo_detection demo_env ?q [demo_claim_closed, demo_claim_open] ?db
       = Inr ((c, True), db')"
    using add by (simp add: find_or_open_structured_conflict_def enter_case_def join_case_def Let_def
        demo_core_db_def flush_def)
  then have d: "detect_structured_fragment_conflict demo_detection demo_env demo_claim_open ?db
      = Inr (Some (c, True), db')"
    using near by (simp add: detect_structured_fragment_conflict_def or_else_def demo claims_something_def
        lower_def strip_def is_space_def ascii_lower_def normalize_address_def demo_detection_def
        address_noise_def place_position_def position_of_def fragment_place_def)
  have "demo_claim_open \<in> set (db_fragments ?db)" "distinct (map fg_id (db_fragments ?db))"
    by (simp_all add: demo)
  from detection_records_contradiction [OF d this] d show ?thesis by blast
qed

end
