(* ===== verification/FactHistory.thy ===== *)
theory FactHistory
  imports Detection "HOL-Library.Sublist"
begin

text \<open>
  The history of facts under every operation that writes it: the handlers of
  \<open>routers/conflicts.py\<close> and the automatic detection.  Each is shown to be made of three
  abstract steps, and the steps to keep the versions of a fact one unbroken, append-only chain.
\<close>

section \<open>The history of a fact\<close>

text \<open>
  Abstractly, fact records and their versions change in two ways only: a record without
  versions is opened, and a version is published.  Everything else frames them.
\<close>

definition facts_frame :: "'a core_db_scheme \<Rightarrow> 'a core_db_scheme \<Rightarrow> bool" where
  "facts_frame db db' \<longleftrightarrow> db_facts db' = db_facts db \<and> db_fact_versions db' = db_fact_versions db
     \<and> id_count db \<le> id_count db'"

inductive fact_step :: "(nat \<Rightarrow> ident) \<Rightarrow> 'a core_db_scheme \<Rightarrow> 'a core_db_scheme \<Rightarrow> bool" for g where
  framed: "facts_frame db db' \<Longrightarrow> fact_step g db db'"
| opened: "find_fact db (fr_incident_id f) (fr_fact_key f) = None \<Longrightarrow> fr_id f = g (id_count db) \<Longrightarrow>
    fr_current_version_id f = None \<Longrightarrow> fr_current_revision f = 0 \<Longrightarrow>
    fact_step g db (db\<lparr>db_facts := db_facts db @ [f], id_count := Suc (id_count db)\<rparr>)"
| published: "f \<in> set (db_facts db) \<Longrightarrow> fv_id v = g (id_count db) \<Longrightarrow> fv_fact_record_id v = fr_id f \<Longrightarrow>
    fv_previous_version_id v = fr_current_version_id f \<Longrightarrow>
    fv_revision v = fr_current_revision f + 1 \<Longrightarrow> fv_valid_to v = None \<Longrightarrow>
    fact_step g db (publish_version e f v public db)"

named_theorems fact_frames

lemma facts_frame_refl [fact_frames]: "facts_frame db db"
  by (simp add: facts_frame_def)

lemma facts_frame_trans [trans]: "facts_frame a b \<Longrightarrow> facts_frame b c \<Longrightarrow> facts_frame a c"
  by (simp add: facts_frame_def)

lemma facts_frame_simple [fact_frames]:
  "facts_frame db (flush db)" "facts_frame db (begin_tx t db)" "facts_frame db (put_case c db)"
  "facts_frame db (record_audit e a i ac rt ri rq db)"
  "facts_frame db (snd (emit_event e j em db))"
  "facts_frame db (mark_analyses_stale e c r db)"
  "facts_frame db (hide_map_feature j kind ref rv st db)"
  by (simp_all add: facts_frame_def flush_def begin_tx_def put_case_def record_audit_def emit_event_def
      store_emit_def mark_analyses_stale_def hide_map_feature_def split: option.splits)

lemma upsert_facts_frame: "upsert_map_feature e s db = Inr db' \<Longrightarrow> facts_frame db db'"
  by (auto simp: upsert_map_feature_def facts_frame_def split: sum.splits option.splits)

lemma upsert_fragment_facts_frame:
  "upsert_fragment_map_feature e f db = Inr db' \<Longrightarrow> facts_frame db db'"
  by (auto simp: upsert_fragment_map_feature_def intro: fact_frames upsert_facts_frame split: if_splits)

lemma upsert_conflict_facts_frame:
  "upsert_conflict_map_feature e c db = Inr db' \<Longrightarrow> facts_frame db db'"
  by (auto simp: upsert_conflict_map_feature_def Let_def intro: upsert_facts_frame)

lemma add_one_facts_frame: "add_one_evidence sha e c r db = Inr (i, db') \<Longrightarrow> facts_frame db db'"
  by (auto simp: add_one_evidence_def facts_frame_def split: sum.splits option.splits prod.splits)

lemma add_evidence_facts_frame: "add_evidence sha e c rs db = Inr (is, db') \<Longrightarrow> facts_frame db db'"
proof (induction rs arbitrary: db "is")
  case Nil
  then show ?case by (auto intro: fact_frames)
next
  case (Cons r rs)
  then show ?case
    by (auto split: sum.splits prod.splits dest: add_one_facts_frame intro: facts_frame_trans)
qed

lemma settle_facts_frame: "settle_evidence e acc vs db = Inr db' \<Longrightarrow> facts_frame db db'"
proof (induction vs arbitrary: db)
  case Nil
  then show ?case by (auto intro: fact_frames)
next
  case (Cons v vs)
  show ?case
  proof (cases "ce_kind v \<noteq> ''fragment'' \<or> find (\<lambda>f. fg_id f = ce_source_id v) (db_fragments db) = None")
    case True
    then show ?thesis using Cons by (auto split: if_splits)
  next
    case False
    then obtain f where f: "find (\<lambda>f. fg_id f = ce_source_id v) (db_fragments db) = Some f" by auto
    let ?f = "settle_fragment (ce_id v \<in> set acc) f"
    let ?db = "db\<lparr>db_fragments := modify_where (\<lambda>x. fg_id x = fg_id f) (\<lambda>_. ?f) (db_fragments db)\<rparr>"
    obtain db1 where u: "upsert_fragment_map_feature e ?f ?db = Inr db1"
        and s: "settle_evidence e acc vs db1 = Inr db'"
      using Cons.prems False f by (auto simp: Let_def split: sum.splits)
    have "facts_frame db ?db" by (simp add: facts_frame_def)
    then show ?thesis
      using upsert_fragment_facts_frame [OF u] Cons.IH [OF s] facts_frame_trans by blast
  qed
qed

lemma upsert_fact_facts_frame: "upsert_fact_feature e c f p n db = Inr db' \<Longrightarrow> facts_frame db db'"
  by (auto simp: upsert_fact_feature_def facts_frame_def Let_def split: sum.splits option.splits)

lemma announce_decision_frame: "announce_decision e c p f b n db = (ids, db') \<Longrightarrow> facts_frame db db'"
proof -
  assume a: "announce_decision e c p f b n db = (ids, db')"
  obtain i1 db1 i2 db2 where
    1: "emit_event e (cc_incident_id c)
          (simple_emission ''conflict.resolved'' ''conflict'' (cc_id c) (cc_revision c)
            (JObj [(''conflict_id'', JStr (cc_id c)), (''fact_record_id'', JStr (fr_id f)),
                   (''fact_record_revision'', JInt n)])
            (if cq_is_public p then ''public'' else ''operators'')) db = (i1, db1)" and
    2: "emit_event e (cc_incident_id c)
          (simple_emission (if b then ''fact_record.created'' else ''fact_record.updated'')
            ''fact'' (fr_id f) n (fact_feature_data c f p n)
            (if cq_is_public p then ''public'' else ''operators'')) db1 = (i2, db2)"
    by (meson surj_pair)
  have "facts_frame db db1" "facts_frame db1 db2"
    using facts_frame_simple(5) [of db] facts_frame_simple(5) [of db1] 1 2 by (metis snd_conv)+
  moreover have "db' = flush db2"
    using a by (simp add: announce_decision_def Let_def 1 2)
  ultimately show ?thesis using facts_frame_trans facts_frame_simple(1) by metis
qed

lemma announce_reopening_frame: "facts_frame db (announce_reopening e c r f i db)"
  unfolding announce_reopening_def Let_def
  by (cases f) (auto intro!: facts_frame_trans [OF _ facts_frame_simple(1)]
      facts_frame_trans [OF facts_frame_simple(5) facts_frame_simple(5)] facts_frame_simple(5))

section \<open>Every operation is made of these steps\<close>

lemma frame_steps: "facts_frame db db' \<Longrightarrow> (fact_step g)\<^sup>*\<^sup>* db db'"
  by (rule r_into_rtranclp) (rule fact_step.framed)

lemma decision_fact_steps:
  assumes "decision_fact e c p db = Inr (f, created, db')" "new_id e = g"
  shows "(fact_step g)\<^sup>*\<^sup>* db db' \<and> f \<in> set (db_facts db')"
proof (cases "find_fact db (cc_incident_id c) (cc_fact_key c)")
  case None
  then have "find_fact db (fr_incident_id f) (fr_fact_key f) = None" "fr_id f = g (id_count db)"
      "fr_current_version_id f = None" "fr_current_revision f = 0"
    and db': "db' = db\<lparr>db_facts := db_facts db @ [f], id_count := Suc (id_count db)\<rparr>"
    using assms by (auto simp: decision_fact_def Let_def split: if_splits)
  from fact_step.opened [where g = g, OF this(1-4)] show ?thesis by (auto simp: db')
next
  case (Some h)
  then have "f = h" "db' = db" using assms(1) by (auto simp: decision_fact_def split: if_splits)
  then show ?thesis using find_SomeD [OF Some [unfolded find_fact_def]] by simp
qed

lemma decide_steps:
  assumes "decide_conflict e actr rid c p db = Inr (r, db')" "new_id e = g"
  shows "(fact_step g)\<^sup>*\<^sup>* db db'"
proof -
  obtain analysis where ap: "apply_decision e actr rid c p analysis (flush db) = Inr (r, db')"
    using assms(1) by (auto simp: decide_conflict_def split: sum.splits)
  let ?d = "new_decision e (id_count (flush db)) actr c p analysis"
  let ?db1 = "(flush db)\<lparr>db_decisions := db_decisions (flush db) @ [?d],
    id_count := Suc (id_count (flush db))\<rparr>"
  obtain f created db2 where f: "decision_fact e c p ?db1 = Inr (f, created, db2)"
    using ap by (auto simp: apply_decision_def Let_def split: sum.splits)
  let ?v = "decided_version e (id_count db2) actr c p analysis f"
  let ?db3 = "publish_version e f ?v (cq_is_public p) db2"
  let ?c = "resolve_case e actr p ?d c"
  obtain db4 db5 db6 where
    4: "upsert_conflict_map_feature e ?c (put_case ?c ?db3) = Inr db4" and
    5: "settle_evidence e (accepted_ids p) (current_evidence (flush db) (cc_id c)) db4 = Inr db5" and
    6: "upsert_fact_feature e ?c f p (fv_revision ?v) db5 = Inr db6" and
    7: "announce_decision e ?c p f created (fv_revision ?v)
          (record_audit e (Some actr) (Some (cc_incident_id c)) ''conflict.decided'' ''conflict''
             (Some (cc_id c)) rid db6) = (dc_event_ids r, db')"
    using ap f by (auto simp: apply_decision_def Let_def split: sum.splits option.splits prod.splits)
  have "facts_frame db ?db1" by (simp add: facts_frame_def flush_def)
  then have "(fact_step g)\<^sup>*\<^sup>* db ?db1" by (rule frame_steps)
  also have "(fact_step g)\<^sup>*\<^sup>* ?db1 db2" using decision_fact_steps [OF f assms(2)] by simp
  also have "(fact_step g)\<^sup>*\<^sup>* db2 ?db3"
    using decision_fact_steps [OF f assms(2)] assms(2)
    by (intro r_into_rtranclp fact_step.published) (simp_all add: decided_version_def)
  also have "(fact_step g)\<^sup>*\<^sup>* ?db3 db'"
  proof (rule frame_steps)
    note facts_frame_simple(3)
    also note upsert_conflict_facts_frame [OF 4]
    also note settle_facts_frame [OF 5]
    also note upsert_fact_facts_frame [OF 6]
    also note facts_frame_simple(4)
    also note announce_decision_frame [OF 7]
    finally show "facts_frame ?db3 db'" .
  qed
  finally show ?thesis .
qed

lemma review_steps:
  assumes "mark_fact_under_review e c reason db = (fo, db')" "new_id e = g"
  shows "(fact_step g)\<^sup>*\<^sup>* db db'"
proof (cases "find_fact (flush db) (cc_incident_id c) (cc_fact_key c)")
  case None
  then show ?thesis using assms by (auto simp: mark_fact_under_review_def Let_def intro: frame_steps fact_frames)
next
  case (Some f)
  show ?thesis
  proof (cases "fr_status f = ''under_review''")
    case True
    then show ?thesis using assms Some
      by (auto simp: mark_fact_under_review_def Let_def intro: frame_steps fact_frames)
  next
    case False
    let ?v = "review_version e (id_count (flush db)) c reason f (current_version (flush db) f)"
    let ?db1 = "publish_version e f ?v False (flush db)"
    have "f \<in> set (db_facts (flush db))"
      using find_SomeD [OF Some [unfolded find_fact_def]] by simp
    then have "fact_step g (flush db) ?db1"
      using assms(2) by (intro fact_step.published) (simp_all add: review_version_def)
    then have "(fact_step g)\<^sup>*\<^sup>* db ?db1"
      by (intro rtranclp.rtrancl_into_rtrancl [OF frame_steps]) (auto intro: fact_frames)
    moreover have "facts_frame ?db1 db'"
      using assms(1) Some False
      by (auto simp: mark_fact_under_review_def Let_def facts_frame_def split: option.splits)
    ultimately show ?thesis by (auto intro: rtranclp_trans frame_steps)
  qed
qed

lemma reopen_case_steps:
  assumes "reopen_case e actr rid reason c iid db = Inr (c', db')" "new_id e = g"
  shows "(fact_step g)\<^sup>*\<^sup>* db db'"
proof -
  obtain fo db1 where
    1: "mark_fact_under_review e (reopened c) ''conflict_reopened'' (put_case (reopened c) db) = (fo, db1)"
    by (meson surj_pair)
  obtain db3 where
    3: "upsert_conflict_map_feature e (reopened c)
          (mark_analyses_stale e (reopened c) ''conflict_reopened'' db1) = Inr db3" and
    4: "db' = announce_reopening e (reopened c) reason fo iid
          (record_audit e (Some actr) (Some (cc_incident_id c)) ''conflict.reopened'' ''conflict''
             (Some (cc_id c)) rid db3)"
    using assms(1) by (auto simp: reopen_case_def 1 Let_def split: sum.splits)
  have "(fact_step g)\<^sup>*\<^sup>* db (put_case (reopened c) db)" by (intro frame_steps fact_frames)
  also have "(fact_step g)\<^sup>*\<^sup>* \<dots> db1" by (rule review_steps [OF 1 assms(2)])
  also have "(fact_step g)\<^sup>*\<^sup>* db1 db'"
  proof (rule frame_steps)
    note facts_frame_simple(6)
    also note upsert_conflict_facts_frame [OF 3]
    also note facts_frame_simple(4)
    also note announce_reopening_frame
    finally show "facts_frame db1 db'" unfolding 4 .
  qed
  finally show ?thesis .
qed

lemma extend_case_frame:
  assumes "extend_case sha e actr rid refs c iid db = Inr (c', db')"
  shows "facts_frame db db'"
proof -
  let ?c = "c\<lparr>cc_revision := cc_revision c + 1\<rparr>"
  obtain ids db1 where 1: "add_evidence sha e c refs db = Inr (ids, db1)"
    using assms by (auto simp: extend_case_def split: sum.splits)
  obtain db3 where
    3: "upsert_conflict_map_feature e ?c
          (mark_analyses_stale e ?c ''evidence_added'' (put_case ?c db1)) = Inr db3"
    using assms by (auto simp: extend_case_def 1 Let_def split: sum.splits)
  note add_evidence_facts_frame [OF 1]
  also note facts_frame_simple(3)
  also note facts_frame_simple(6)
  also note upsert_conflict_facts_frame [OF 3]
  also note facts_frame_simple(4)
  also note facts_frame_simple(5)
  also note facts_frame_simple(1)
  finally show ?thesis using assms by (auto simp: extend_case_def 1 3 Let_def)
qed

lemma open_case_frame:
  assumes "open_case sha e actr rid p iid db = Inr (c, db')"
  shows "facts_frame db db'"
proof -
  let ?c = "opened_case e (id_count db) iid p"
  let ?db = "db\<lparr>db_cases := db_cases db @ [?c], id_count := Suc (id_count db)\<rparr>"
  obtain ids db1 where 1: "add_evidence sha e ?c (cx_evidence p) ?db = Inr (ids, db1)"
    using assms by (auto simp: open_case_def Let_def split: sum.splits if_splits)
  obtain db2 where 2: "upsert_conflict_map_feature e ?c db1 = Inr db2"
    using assms by (auto simp: open_case_def 1 Let_def split: sum.splits if_splits)
  have "facts_frame db ?db" by (simp add: facts_frame_def)
  also note add_evidence_facts_frame [OF 1]
  also note upsert_conflict_facts_frame [OF 2]
  also note facts_frame_simple(4)
  also note facts_frame_simple(5)
  also note facts_frame_simple(1)
  finally show ?thesis using assms by (auto simp: open_case_def 1 2 Let_def split: if_splits)
qed

lemma as_operator_Inr:
  "as_operator a b r = Inr x \<longleftrightarrow> require_roles [''operator'', ''admin''] a = Inr a \<and> b \<and> r = Inr x"
  by (auto simp: as_operator_def require_roles_def)

lemma join_case_frame:
  assumes "join_case D e fs c is_open db = Inr (c', db')"
  shows "facts_frame db db'"
proof -
  obtain ids db1 where 1: "add_evidence (dt_sha D) e c (map fragment_ref fs) db = Inr (ids, db1)"
    using assms by (auto simp: join_case_def split: sum.splits)
  have mark: "facts_frame d (mark_conflicting fs d)" for d :: "'a core_db_scheme"
    by (simp add: facts_frame_def mark_conflicting_def)
  have "facts_frame db1 db'"
  proof (cases "\<not> list_all (has_snapshot db (cc_id c)) fs \<and> \<not> is_open")
    case True
    let ?c = "c\<lparr>cc_revision := cc_revision c + 1\<rparr>"
    note facts_frame_simple(3)
    also note facts_frame_simple(6)
    also note mark
    finally show ?thesis using assms True by (auto simp: join_case_def 1 Let_def)
  next
    case False
    then show ?thesis using assms mark by (auto simp: join_case_def 1)
  qed
  with add_evidence_facts_frame [OF 1] show ?thesis by (rule facts_frame_trans)
qed

lemma enter_case_steps:
  assumes "enter_case e q found db = (c, is_open, db')" "new_id e = g"
  shows "(fact_step g)\<^sup>*\<^sup>* db db'"
proof (cases found)
  case None
  then show ?thesis
    using assms(1) by (intro frame_steps) (auto simp: enter_case_def facts_frame_def flush_def Let_def)
next
  case (Some c0)
  show ?thesis
  proof (cases "cc_status c0 = ''resolved''")
    case False
    then show ?thesis using assms(1) by (simp add: enter_case_def Some)
  next
    case True
    let ?db = "mark_analyses_stale e (reopened c0) ''conflict_reopened_with_new_evidence''
      (put_case (reopened c0) db)"
    obtain fo where fo: "mark_fact_under_review e (reopened c0) ''conflict_reopened'' ?db = (fo, db')"
      using assms(1) True by (auto simp: enter_case_def Some Let_def) (metis prod.collapse)
    note facts_frame_simple(3)
    also note facts_frame_simple(6)
    finally have "(fact_step g)\<^sup>*\<^sup>* db ?db" by (rule frame_steps)
    with review_steps [OF fo assms(2)] show ?thesis by (auto intro: rtranclp_trans)
  qed
qed

lemma find_or_open_steps:
  assumes "find_or_open_structured_conflict D e q fs db = Inr ((c, is_open), db')" "new_id e = g"
  shows "(fact_step g)\<^sup>*\<^sup>* db db'"
proof -
  obtain found where f: "first_case D e (cl_place q) (candidate_cases (flush db) q fs) = Inr found"
    using assms(1) by (auto simp: find_or_open_structured_conflict_def Let_def split: sum.splits)
  obtain c1 o1 db1 where en: "enter_case e q found (flush db) = (c1, o1, db1)" by (metis surj_pair)
  obtain db2 where j: "join_case D e fs c1 o1 db1 = Inr (c, db2)" "db2 = db'"
    using assms(1) by (auto simp: find_or_open_structured_conflict_def f en Let_def split: sum.splits)
  have "(fact_step g)\<^sup>*\<^sup>* db (flush db)" by (intro frame_steps fact_frames)
  also have "(fact_step g)\<^sup>*\<^sup>* (flush db) db1" by (rule enter_case_steps [OF en assms(2)])
  also have "(fact_step g)\<^sup>*\<^sup>* db1 db'" using join_case_frame [OF j(1)] j(2) by (auto intro: frame_steps)
  finally show ?thesis .
qed

lemma detect_steps:
  assumes "detect_structured_fragment_conflict D e f db = Inr (r, db')" "new_id e = g"
  shows "(fact_step g)\<^sup>*\<^sup>* db db'"
proof (cases "db' = db \<or> db' = flush db")
  case True
  then show ?thesis by (auto intro: frame_steps fact_frames)
next
  case False
  then obtain q fs c o1 where "find_or_open_structured_conflict D e q fs db = Inr ((c, o1), db')"
    using assms(1)
    by (auto simp: detect_structured_fragment_conflict_def split: option.splits if_splits sum.splits)
  then show ?thesis using assms(2) by (rule find_or_open_steps)
qed

section \<open>Runs\<close>

datatype conflict_op =
    Create ident conflict_create
  | Extend string int "evidence_ref list"
  | Reopen string int utext
  | Decide string decision_request
  | Detect fragment

record conflict_call =
  ca_time :: time
  ca_actor :: actor
  ca_header :: "ident option"
  ca_request_id :: "string option"
  ca_op :: conflict_op

definition committed :: "'a \<Rightarrow> (api_error + 'r \<times> 'a) \<Rightarrow> 'a" where
  "committed db r = (case r of Inl _ \<Rightarrow> db | Inr (_, db') \<Rightarrow> db')"

text \<open>One operation in its own transaction; an error rolls back.\<close>

definition run_call ::
    "detection \<Rightarrow> (nat \<Rightarrow> ident) \<Rightarrow> conflict_call \<Rightarrow> 'a core_db_scheme \<Rightarrow> 'a core_db_scheme" where
  "run_call D g x db0 =
     (let db = begin_tx (Suc (tx_key db0)) db0;
          e = \<lparr>now = ca_time x, new_id = g, request_ctx = ca_request_id x\<rparr>;
          a = ca_actor x; h = ca_header x; rid = ca_request_id x
      in case ca_op x of
           Create i p \<Rightarrow> committed db (create_conflict (dt_sha D) e a h rid i p db)
         | Extend i rv refs \<Rightarrow> committed db (append_conflict_evidence (dt_sha D) e a h rid i rv refs db)
         | Reopen i rv reason \<Rightarrow> committed db (reopen_conflict e a h rid i rv reason db)
         | Decide i p \<Rightarrow> committed db (submit_conflict_decision e a h rid i p db)
         | Detect f \<Rightarrow> committed db (detect_structured_fragment_conflict D e f db))"

lemma committed_steps:
  "(\<And>r db'. res = Inr (r, db') \<Longrightarrow> (fact_step g)\<^sup>*\<^sup>* db db') \<Longrightarrow> (fact_step g)\<^sup>*\<^sup>* db (committed db res)"
  by (auto simp: committed_def split: sum.splits)

lemma handler_steps:
  assumes "new_id e = g"
  shows "create_conflict sha e a h rid i p db = Inr (c, db') \<Longrightarrow> (fact_step g)\<^sup>*\<^sup>* db db'"
    and "append_conflict_evidence sha e a h rid j rv refs db = Inr (c, db') \<Longrightarrow> (fact_step g)\<^sup>*\<^sup>* db db'"
    and "reopen_conflict e a h rid j rv reason db = Inr (c, db') \<Longrightarrow> (fact_step g)\<^sup>*\<^sup>* db db'"
    and "submit_conflict_decision e a h rid j pd db = Inr (r, db') \<Longrightarrow> (fact_step g)\<^sup>*\<^sup>* db db'"
  using reopen_case_steps [OF _ assms] decide_steps [OF _ assms]
  by (auto simp: create_conflict_def append_conflict_evidence_def reopen_conflict_def
      submit_conflict_decision_def as_operator_Inr split: sum.splits if_splits
      intro: frame_steps open_case_frame extend_case_frame)

lemma run_call_steps: "(fact_step g)\<^sup>*\<^sup>* db (run_call D g x db)"
proof -
  let ?db = "begin_tx (Suc (tx_key db)) db"
  let ?e = "\<lparr>now = ca_time x, new_id = g, request_ctx = ca_request_id x\<rparr>"
  have e: "new_id ?e = g" by simp
  have "(fact_step g)\<^sup>*\<^sup>* db ?db" by (intro frame_steps fact_frames)
  also have "(fact_step g)\<^sup>*\<^sup>* ?db (run_call D g x db)"
  proof (cases "ca_op x")
    case (Create i p)
    show ?thesis unfolding run_call_def Let_def Create conflict_op.case
      by (rule committed_steps) (rule handler_steps(1) [OF e])
  next
    case (Extend i rv refs)
    show ?thesis unfolding run_call_def Let_def Extend conflict_op.case
      by (rule committed_steps) (rule handler_steps(2) [OF e])
  next
    case (Reopen i rv reason)
    show ?thesis unfolding run_call_def Let_def Reopen conflict_op.case
      by (rule committed_steps) (rule handler_steps(3) [OF e])
  next
    case (Decide i p)
    show ?thesis unfolding run_call_def Let_def Decide conflict_op.case
      by (rule committed_steps) (rule handler_steps(4) [OF e])
  next
    case (Detect f)
    show ?thesis unfolding run_call_def Let_def Detect conflict_op.case
      by (rule committed_steps) (rule detect_steps [OF _ e])
  qed
  finally show ?thesis .
qed

section \<open>One unbroken chain\<close>

text \<open>
  \<open>linked p n vs\<close>: the versions carry the numbers after \<open>n\<close>, each points to the one before it
  (the first to \<open>p\<close>), and exactly the last one is still valid.
\<close>

definition history :: "'a core_db_scheme \<Rightarrow> ident \<Rightarrow> fact_version list" where
  "history db i = filter (\<lambda>v. fv_fact_record_id v = i) (db_fact_versions db)"

fun linked :: "ident option \<Rightarrow> int \<Rightarrow> fact_version list \<Rightarrow> bool" where
  "linked p n [] = True"
| "linked p n (v # vs) \<longleftrightarrow> fv_previous_version_id v = p \<and> fv_revision v = n + 1
     \<and> (fv_valid_to v = None \<longleftrightarrow> vs = []) \<and> linked (Some (fv_id v)) (n + 1) vs"

definition tip :: "fact_version list \<Rightarrow> ident option" where
  "tip vs = (if vs = [] then None else Some (fv_id (last vs)))"

definition chain_of :: "'a core_db_scheme \<Rightarrow> fact \<Rightarrow> bool" where
  "chain_of db f \<longleftrightarrow> linked None 0 (history db (fr_id f))
     \<and> fr_current_revision f = int (length (history db (fr_id f)))
     \<and> fr_current_version_id f = tip (history db (fr_id f))"

text \<open>The tables as the constraints of the schema and the identifier supply keep them.\<close>

definition facts_ok :: "(nat \<Rightarrow> ident) \<Rightarrow> 'a core_db_scheme \<Rightarrow> bool" where
  "facts_ok g db \<longleftrightarrow> inj g \<and> [] \<notin> range g
     \<and> distinct (map fr_id (db_facts db)) \<and> distinct (map fv_id (db_fact_versions db))
     \<and> set (map fr_id (db_facts db)) \<union> set (map fv_id (db_fact_versions db)) \<subseteq> g ` {..<id_count db}
     \<and> set (map fv_fact_record_id (db_fact_versions db)) \<subseteq> set (map fr_id (db_facts db))
     \<and> (\<forall>f \<in> set (db_facts db). chain_of db f)"

lemma linked_publish:
  "linked p n vs \<Longrightarrow> distinct (map fv_id vs) \<Longrightarrow>
   fv_previous_version_id v = (if vs = [] then p else tip vs) \<Longrightarrow>
   fv_revision v = n + int (length vs) + 1 \<Longrightarrow> fv_valid_to v = None \<Longrightarrow>
   linked p n (modify_where (\<lambda>x. Some (fv_id x) = tip vs) (close_version e) vs @ [v])"
proof (induction vs arbitrary: p n)
  case Nil
  then show ?case by simp
next
  case (Cons w ws)
  show ?case
  proof (cases "ws = []")
    case True
    then show ?thesis using Cons.prems by (simp add: tip_def close_version_def)
  next
    case False
    then have tip: "tip (w # ws) = tip ws" by (simp add: tip_def)
    have "fv_id w \<noteq> fv_id (last ws)" using Cons.prems(2) False by auto
    moreover have "linked (Some (fv_id w)) (n + 1)
        (modify_where (\<lambda>x. Some (fv_id x) = tip ws) (close_version e) ws @ [v])"
      using Cons.prems False tip by (intro Cons.IH) auto
    ultimately show ?thesis using Cons.prems False by (simp add: tip) (simp add: tip_def)
  qed
qed

text \<open>The previous version the code loads is the last of the history.\<close>

lemma current_version_tip:
  assumes "facts_ok g db" "f \<in> set (db_facts db)"
  shows "current_version db f = (if history db (fr_id f) = [] then None
    else Some (last (history db (fr_id f))))"
proof (cases "history db (fr_id f) = []")
  case True
  then show ?thesis using assms by (simp add: facts_ok_def chain_of_def tip_def current_version_def or_else_def)
next
  case False
  let ?l = "last (history db (fr_id f))"
  have l: "?l \<in> set (db_fact_versions db)" using False last_in_set unfolding history_def by fastforce
  have "fv_id ?l \<in> g ` {..<id_count db}" "[] \<notin> range g"
    using assms(1) l by (auto simp: facts_ok_def)
  then have "fv_id ?l \<noteq> []" by (metis image_iff rangeI)
  moreover have "fr_current_version_id f = Some (fv_id ?l)"
    using assms False by (simp add: facts_ok_def chain_of_def tip_def)
  moreover have "find (\<lambda>x. fv_id x = fv_id ?l) (db_fact_versions db) = Some ?l"
    using assms(1) l by (intro find_unique) (simp_all add: facts_ok_def)
  ultimately show ?thesis using False by (simp add: current_version_def or_else_def)
qed

lemma publish_versions:
  assumes "facts_ok g db" "f \<in> set (db_facts db)"
  shows "db_fact_versions (publish_version e f v public db)
    = modify_where (\<lambda>x. Some (fv_id x) = tip (history db (fr_id f))) (close_version e)
        (db_fact_versions db) @ [v]"
  using current_version_tip [OF assms]
  by (simp add: publish_version_def tip_def modify_where_none)

lemma publish_history:
  assumes ok: "facts_ok g db" and f: "f \<in> set (db_facts db)" and v: "fv_fact_record_id v = fr_id f"
  shows "history (publish_version e f v public db) i
    = (if i = fr_id f
       then modify_where (\<lambda>x. Some (fv_id x) = tip (history db i)) (close_version e) (history db i) @ [v]
       else history db i)"
proof -
  let ?P = "\<lambda>x. Some (fv_id x) = tip (history db (fr_id f))"
  have flt: "filter (\<lambda>v. fv_fact_record_id v = i) (modify_where ?P (close_version e) (db_fact_versions db))
      = modify_where ?P (close_version e) (history db i)"
    unfolding history_def by (rule filter_modify_where_inv) (simp add: close_version_def)
  have "modify_where ?P (close_version e) (history db i) = history db i" if "i \<noteq> fr_id f"
  proof (rule modify_where_none)
    fix x assume x: "x \<in> set (history db i)"
    show "\<not> ?P x"
    proof
      assume "?P x"
      then have h: "history db (fr_id f) \<noteq> []" "fv_id x = fv_id (last (history db (fr_id f)))"
        by (auto simp: tip_def split: if_splits)
      have l: "last (history db (fr_id f)) \<in> set (history db (fr_id f))" using h(1) by simp
      have "inj_on fv_id (set (db_fact_versions db))" using ok by (simp add: facts_ok_def distinct_map)
      then have "x = last (history db (fr_id f))"
        using h(2) x l by (auto simp: history_def inj_on_def)
      then show False using x l that by (auto simp: history_def)
    qed
  qed
  then show ?thesis
    using flt v by (simp add: history_def [of "publish_version e f v public db"] publish_versions [OF ok f])
qed

lemma facts_ok_fresh: "facts_ok g db \<Longrightarrow> g (id_count db) \<notin> g ` {..<id_count db}"
  by (auto simp: facts_ok_def dest: injD)

lemma ids_grow: "A \<subseteq> g ` {..<n} \<Longrightarrow> n \<le> m \<Longrightarrow> A \<subseteq> g ` {..<m}" for g :: "nat \<Rightarrow> ident"
  by (auto dest!: subsetD)

lemma facts_ok_framed: "facts_frame db db' \<Longrightarrow> facts_ok g db \<Longrightarrow> facts_ok g db'"
  using ids_grow [of _ g "id_count db" "id_count db'"]
  by (simp add: facts_ok_def facts_frame_def chain_of_def history_def)

lemma facts_ok_opened:
  assumes ok: "facts_ok g db" and f: "fr_id f = g (id_count db)" "fr_current_version_id f = None"
    "fr_current_revision f = 0"
  shows "facts_ok g (db\<lparr>db_facts := db_facts db @ [f], id_count := Suc (id_count db)\<rparr>)"
proof -
  have fresh: "fr_id f \<notin> g ` {..<id_count db}" using facts_ok_fresh [OF ok] f(1) by simp
  then have "fr_id f \<notin> set (map fr_id (db_facts db))" using ok by (auto simp: facts_ok_def)
  moreover have "history db (fr_id f) = []"
  proof -
    have "set (map fv_fact_record_id (db_fact_versions db)) \<subseteq> set (map fr_id (db_facts db))"
      using ok by (simp only: facts_ok_def)
    then have "fv_fact_record_id x \<noteq> fr_id f" if "x \<in> set (db_fact_versions db)" for x
      using calculation that by (metis image_eqI set_map subsetD)
    then show ?thesis by (auto simp: history_def filter_empty_conv)
  qed
  ultimately show ?thesis
    using ok f ids_grow [of _ g "id_count db" "Suc (id_count db)"]
    by (auto simp: facts_ok_def chain_of_def history_def tip_def)
qed

lemma facts_ok_published:
  assumes ok: "facts_ok g db" and f: "f \<in> set (db_facts db)" and v: "fv_id v = g (id_count db)"
    "fv_fact_record_id v = fr_id f" "fv_previous_version_id v = fr_current_version_id f"
    "fv_revision v = fr_current_revision f + 1" "fv_valid_to v = None"
  shows "facts_ok g (publish_version e f v public db)"
proof -
  let ?db = "publish_version e f v public db"
  let ?h = "history db (fr_id f)"
  have facts: "db_facts ?db = modify_where (\<lambda>x. fr_id x = fr_id f) (move_fact e v public) (db_facts db)"
    and count: "id_count ?db = Suc (id_count db)" by (simp_all add: publish_version_def)
  note vers = publish_versions [OF ok f, of e v public]
  note hist = publish_history [OF ok f v(2), of e public]
  have cf: "chain_of db f" and inj: "inj_on fr_id (set (db_facts db))"
    using ok f by (simp_all add: facts_ok_def distinct_map)
  have fids: "map fr_id (db_facts ?db) = map fr_id (db_facts db)"
    unfolding facts by (rule map_modify_where) (simp add: move_fact_def)
  have vids: "map fv_id (db_fact_versions ?db) = map fv_id (db_fact_versions db) @ [fv_id v]"
    "map fv_fact_record_id (db_fact_versions ?db) = map fv_fact_record_id (db_fact_versions db) @ [fr_id f]"
    unfolding vers by (simp_all add: map_modify_where close_version_def v(2))
  have "distinct (map fv_id ?h)"
    using ok unfolding facts_ok_def history_def by (simp add: distinct_map_filter)
  moreover have "fv_previous_version_id v = (if ?h = [] then None else tip ?h)"
    using cf v(3) by (simp add: chain_of_def tip_def)
  ultimately have link: "linked None 0 (history ?db (fr_id f))"
    using linked_publish [of None 0 ?h v e] cf v by (simp add: hist chain_of_def)
  have "chain_of ?db x'" if x': "x' \<in> set (db_facts ?db)" for x'
  proof -
    from x' obtain x where x: "x \<in> set (db_facts db)"
        "x' = (if fr_id x = fr_id f then move_fact e v public x else x)"
      unfolding facts by (auto simp: in_modify_where_iff)
    show ?thesis
    proof (cases "fr_id x = fr_id f")
      case False
      then show ?thesis using x ok by (simp add: chain_of_def hist facts_ok_def)
    next
      case True
      then have "x = f" using x(1) f inj by (auto dest: inj_onD)
      then show ?thesis
        using x(2) cf link v by (simp add: chain_of_def move_fact_def tip_def) (simp add: hist)
    qed
  qed
  moreover have "fv_id v \<notin> g ` {..<id_count db}" using facts_ok_fresh [OF ok] v(1) by simp
  ultimately show ?thesis
    using ok f v(1) unfolding facts_ok_def fids vids count
    by (auto simp: less_Suc_eq)
qed

interpretation fact_chain: kept_by "fact_step g" "facts_ok g" for g
proof unfold_locales
  fix db db' :: "'a core_db_scheme"
  assume "fact_step g db db'" "facts_ok g db"
  then show "facts_ok g db'"
    by cases (auto intro: facts_ok_framed facts_ok_opened facts_ok_published)
qed

lemma facts_ok_run: "facts_ok g db \<Longrightarrow> facts_ok g (fold (run_call D g) xs db)"
  by (rule fact_chain.kept_run [OF run_call_steps])

lemma linked_consec: "linked p n vs \<Longrightarrow> consec n (map fv_revision vs)"
  by (induction vs arbitrary: p n) auto

lemma linked_valid: "linked p n vs \<Longrightarrow> vs \<noteq> [] \<Longrightarrow> filter (\<lambda>v. fv_valid_to v = None) vs = [last vs]"
proof (induction vs arbitrary: p n)
  case Nil
  then show ?case by simp
next
  case (Cons v vs)
  then show ?case by (cases "vs = []") auto
qed

section \<open>Nothing is rewritten\<close>

text \<open>A version but for the end of its validity.\<close>

definition frozen :: "fact_version \<Rightarrow> fact_version" where
  "frozen v = v\<lparr>fv_valid_to := None\<rparr>"

lemma frozen_closed:
  "map frozen (filter Q (modify_where P (close_version e) vs)) = map frozen (filter Q vs)"
  if "\<And>v. Q (close_version e v) = Q v"
  using that by (induction vs) (auto simp: frozen_def close_version_def)

lemma fact_step_extends:
  "fact_step g db db' \<Longrightarrow> prefix (map frozen (history db i)) (map frozen (history db' i))"
proof (induction rule: fact_step.induct)
  case (framed db db')
  then show ?case by (simp add: facts_frame_def history_def)
next
  case (opened db f)
  then show ?case by (simp add: history_def)
next
  case (published f db v e public)
  have keep: "map frozen (filter (\<lambda>v. fv_fact_record_id v = i)
      (modify_where P (close_version e) (db_fact_versions db)))
    = map frozen (filter (\<lambda>v. fv_fact_record_id v = i) (db_fact_versions db))" for P
    by (rule frozen_closed) (simp add: close_version_def)
  show ?case
    by (auto simp: publish_version_def history_def keep split: option.splits)
qed

interpretation fact_log: kept_by "fact_step g" "\<lambda>db. prefix h (map frozen (history db i))" for g h i
  by unfold_locales (blast intro: prefix_order.trans fact_step_extends)

section \<open>When a decision goes through\<close>

definition same_rows :: "'a core_db_scheme \<Rightarrow> 'a core_db_scheme \<Rightarrow> bool" where
  "same_rows db db' \<longleftrightarrow> db_cases db' = db_cases db \<and> db_incidents db' = db_incidents db
     \<and> db_outbox db' = db_outbox db \<and> id_count db \<le> id_count db'"

lemma same_rows_trans [trans]: "same_rows a b \<Longrightarrow> same_rows b c \<Longrightarrow> same_rows a c"
  by (simp add: same_rows_def)

lemma upsert_same_rows:
  "upsert_map_feature e s db = Inr db' \<Longrightarrow> same_rows db db'"
  "upsert_fragment_map_feature e f db = Inr db' \<Longrightarrow> same_rows db db'"
  "upsert_conflict_map_feature e c db = Inr db' \<Longrightarrow> same_rows db db'"
  "upsert_fact_feature e c h p n db = Inr db' \<Longrightarrow> same_rows db db'"
proof -
  show 1: "upsert_map_feature e s db = Inr db' \<Longrightarrow> same_rows db db'" for s
    by (auto simp: upsert_map_feature_def same_rows_def split: sum.splits option.splits)
  show "upsert_fragment_map_feature e f db = Inr db' \<Longrightarrow> same_rows db db'"
    using 1 by (auto simp: upsert_fragment_map_feature_def hide_map_feature_def same_rows_def
        split: if_splits option.splits)
  show "upsert_conflict_map_feature e c db = Inr db' \<Longrightarrow> same_rows db db'"
    using 1 by (auto simp: upsert_conflict_map_feature_def Let_def)
  show "upsert_fact_feature e c h p n db = Inr db' \<Longrightarrow> same_rows db db'"
    by (auto simp: upsert_fact_feature_def same_rows_def Let_def split: sum.splits option.splits)
qed

lemma settle_same_rows: "settle_evidence e acc vs db = Inr db' \<Longrightarrow> same_rows db db'"
proof (induction vs arbitrary: db)
  case Nil
  then show ?case by (simp add: same_rows_def)
next
  case (Cons v vs)
  show ?case
  proof (cases "ce_kind v \<noteq> ''fragment'' \<or> find (\<lambda>f. fg_id f = ce_source_id v) (db_fragments db) = None")
    case True
    then show ?thesis using Cons by (auto split: if_splits)
  next
    case False
    then obtain f where f: "find (\<lambda>f. fg_id f = ce_source_id v) (db_fragments db) = Some f" by auto
    let ?f = "settle_fragment (ce_id v \<in> set acc) f"
    let ?db = "db\<lparr>db_fragments := modify_where (\<lambda>x. fg_id x = fg_id f) (\<lambda>_. ?f) (db_fragments db)\<rparr>"
    obtain db1 where u: "upsert_fragment_map_feature e ?f ?db = Inr db1"
        and s: "settle_evidence e acc vs db1 = Inr db'"
      using Cons.prems False f by (auto simp: Let_def split: sum.splits)
    have "same_rows db ?db" by (simp add: same_rows_def)
    also note upsert_same_rows(2) [OF u]
    also note Cons.IH [OF s]
    finally show ?thesis .
  qed
qed

lemma same_rows_plain:
  "same_rows db (flush db)" "same_rows db (record_audit e a i ac rt ri rq db)"
  "same_rows db (publish_version e h v public db)"
  "decision_fact e c p db = Inr (f, created, db') \<Longrightarrow> same_rows db db'"
  by (auto simp: same_rows_def flush_def publish_version_def decision_fact_def Let_def
      split: option.splits if_splits)

lemma announce_cases:
  "announce_decision e c p f b n db = (ids, db') \<Longrightarrow> db_cases db' = db_cases db"
  by (auto simp: announce_decision_def Let_def flush_def split: prod.splits)
    (metis core_emit_frame(9) snd_conv)

text \<open>The stages of a decision that went through.\<close>

lemma apply_decision_stages:
  assumes "apply_decision e actr rid c p analysis db = Inr (r, db')"
  obtains f created db2 db6 d where
    "d = new_decision e (id_count db) actr c p analysis"
    "decision_fact e c p (db\<lparr>db_decisions := db_decisions db @ [d], id_count := Suc (id_count db)\<rparr>)
       = Inr (f, created, db2)"
    "same_rows (put_case (resolve_case e actr p d c) db2) db6"
    "db_cases db' = db_cases db6" "get_incident_by_id db (cc_incident_id c) \<noteq> None"
    "facts_frame (publish_version e f (decided_version e (id_count db2) actr c p analysis f)
       (cq_is_public p) db2) db'"
    "dc_decision_id r = cd_id d" "dc_fact_id r = fr_id f"
    "dc_fact_revision r = fr_current_revision f + 1"
    "db_outbox db6 = db_outbox db" "id_count db \<le> id_count db6"
    "get_incident_by_id db6 (cc_incident_id c) \<noteq> None"
    "announce_decision e (resolve_case e actr p d c) p f created (dc_fact_revision r)
       (record_audit e (Some actr) (Some (cc_incident_id c)) ''conflict.decided'' ''conflict''
          (Some (cc_id c)) rid db6) = (dc_event_ids r, db')"
proof -
  let ?d = "new_decision e (id_count db) actr c p analysis"
  let ?db1 = "db\<lparr>db_decisions := db_decisions db @ [?d], id_count := Suc (id_count db)\<rparr>"
  obtain f created db2 where f: "decision_fact e c p ?db1 = Inr (f, created, db2)"
    using assms by (auto simp: apply_decision_def Let_def split: sum.splits)
  let ?v = "decided_version e (id_count db2) actr c p analysis f"
  let ?db3 = "publish_version e f ?v (cq_is_public p) db2"
  let ?c = "resolve_case e actr p ?d c"
  obtain db4 db5 db6 where
    4: "upsert_conflict_map_feature e ?c (put_case ?c ?db3) = Inr db4" and
    5: "settle_evidence e (accepted_ids p) (current_evidence db (cc_id c)) db4 = Inr db5" and
    6: "upsert_fact_feature e ?c f p (fv_revision ?v) db5 = Inr db6" and
    i: "get_incident_by_id (record_audit e (Some actr) (Some (cc_incident_id c)) ''conflict.decided''
          ''conflict'' (Some (cc_id c)) rid db6) (cc_incident_id c) \<noteq> None" and
    7: "announce_decision e ?c p f created (fv_revision ?v)
          (record_audit e (Some actr) (Some (cc_incident_id c)) ''conflict.decided'' ''conflict''
             (Some (cc_id c)) rid db6) = (dc_event_ids r, db')" and
    8: "dc_decision_id r = cd_id ?d" "dc_fact_id r = fr_id f" "dc_fact_revision r = fv_revision ?v"
    using assms f by (auto simp: apply_decision_def Let_def split: sum.splits option.splits prod.splits)
  note facts_frame_simple(3)
  also note upsert_conflict_facts_frame [OF 4]
  also note settle_facts_frame [OF 5]
  also note upsert_fact_facts_frame [OF 6]
  also note facts_frame_simple(4)
  also note announce_decision_frame [OF 7]
  finally have ff: "facts_frame ?db3 db'" .
  have "same_rows (put_case ?c db2) (put_case ?c ?db3)"
    by (simp add: same_rows_def put_case_def publish_version_def)
  also note upsert_same_rows(3) [OF 4]
  also note settle_same_rows [OF 5]
  also note upsert_same_rows(4) [OF 6]
  finally have s: "same_rows (put_case ?c db2) db6" .
  have "same_rows ?db1 db2" by (rule same_rows_plain(4) [OF f])
  then have same: "db_incidents db6 = db_incidents db" "db_outbox db6 = db_outbox db"
    "id_count db \<le> id_count db6"
    using s by (simp_all add: same_rows_def put_case_def)
  then have "get_incident_by_id db (cc_incident_id c) \<noteq> None" "get_incident_by_id db6 (cc_incident_id c) \<noteq> None"
    using i by (simp_all add: get_incident_by_id_def)
  with f s ff 8 same(2,3) show thesis using announce_cases [OF 7] 7
    by (intro that [of ?d]) (simp_all add: decided_version_def)
qed

lemma find_replaced:
  "find Q xs = Some c \<Longrightarrow> Q c' \<Longrightarrow> distinct (map key xs) \<Longrightarrow> key c = k \<Longrightarrow>
     find Q (modify_where (\<lambda>x. key x = k) (\<lambda>_. c') xs) = Some c'"
proof (induction xs)
  case Nil
  then show ?case by simp
next
  case (Cons x xs)
  show ?case
  proof (cases "Q x")
    case True
    then show ?thesis using Cons.prems by simp
  next
    case False
    then have f: "find Q xs = Some c" using Cons.prems(1) by simp
    then have "key x \<noteq> k" using Cons.prems(3,4) find_SomeD [OF f] by (metis distinct.simps(2)
        image_eqI list.simps(9) set_map)
    then show ?thesis using Cons False f by simp
  qed
qed

lemma find_not_replaced:
  "find Q xs = None \<Longrightarrow> \<not> Q c' \<Longrightarrow> find Q (modify_where P (\<lambda>_. c') xs) = None"
  by (induction xs) (auto split: if_splits)

lemma get_case_put:
  assumes "get_case db i = Inr c" "distinct (map cc_id (db_cases db))"
    and "cc_id c' = cc_id c" "cc_alias c' = cc_alias c" "db_cases db' = db_cases (put_case c' db)"
  shows "get_case db' i = Inr c'"
proof (cases "find (\<lambda>x. cc_id x = i) (db_cases db)")
  case (Some x)
  then have "x = c" using assms(1) by (simp add: get_case_def)
  then have "find (\<lambda>x. cc_id x = i) (db_cases db') = Some c'"
    using find_replaced [OF Some, of c' cc_id] find_SomeD [OF Some] assms(2,3,5)
    by (simp add: put_case_def)
  then show ?thesis by (simp add: get_case_def)
next
  case None
  then obtain al: "find (\<lambda>x. cc_alias x = Some i) (db_cases db) = Some c"
    using assms(1) by (auto simp: get_case_def split: option.splits)
  have "find (\<lambda>x. cc_id x = i) (db_cases db') = None"
  proof -
    have "cc_id c' \<noteq> i" using find_NoneD [OF None, of c] find_SomeD [OF al] assms(3) by simp
    then show ?thesis using find_not_replaced [OF None] assms(5) by (simp add: put_case_def)
  qed
  moreover have "find (\<lambda>x. cc_alias x = Some i) (db_cases db') = Some c'"
    using find_replaced [OF al, of c' cc_id] find_SomeD [OF al] assms(2-5) by (simp add: put_case_def)
  ultimately show ?thesis by (simp add: get_case_def)
qed

definition demo_ids :: "nat \<Rightarrow> ident" where
  "demo_ids n = replicate (Suc n) CHR ''i''"

definition demo_operator :: actor where
  "demo_operator = \<lparr>ac_subject_type = Account, ac_subject_id = ''acc'', ac_role = ''operator'',
     ac_token_version = 1, ac_incident_ids = [''inc''], ac_username = None, ac_region_code = None\<rparr>"

definition demo_case :: conflict_case where
  "demo_case = \<lparr>cc_id = ''c'', cc_incident_id = ''inc'', cc_alias = None, cc_fact_key = ''bridge'',
     cc_title = [], cc_topic = ''road'', cc_location_text = [], cc_latitude = None,
     cc_longitude = None, cc_coordinate_system = None, cc_status = ''open'', cc_severity = ''high'',
     cc_detected_at = 0, cc_resolved_at = None, cc_resolution = None, cc_resolved_by = None,
     cc_revision = 1, cc_created_at = 0\<rparr>"

definition demo_evidence :: evidence where
  "demo_evidence = \<lparr>ce_id = ''e'', ce_conflict_id = ''c'', ce_kind = ''report'', ce_source_id = ''r'',
     ce_source_revision = 1, ce_source_cluster_id = None, ce_snapshot = JNull,
     ce_snapshot_sha256 = [], ce_is_current = True, ce_added_at = 0\<rparr>"

definition demo_conflict_db :: core_db where
  "demo_conflict_db = demo_core_db\<lparr>db_cases := [demo_case], db_evidence := [demo_evidence]\<rparr>"

definition demo_decision :: decision_request where
  "demo_decision = \<lparr>cq_revision = 1, cq_decision = ''accept_evidence'',
     cq_evidence_decisions = [\<lparr>dp_evidence_id = ''e'', dp_disposition = ''accepted'', dp_note = None\<rparr>],
     cq_conclusion = [66], cq_note = None, cq_analysis_id = None, cq_expected_fact_revision = 0,
     cq_confidence = None, cq_fact_status = ''current'', cq_is_public = True\<rparr>"

definition demo_call :: conflict_call where
  "demo_call = \<lparr>ca_time = 5, ca_actor = demo_operator, ca_header = None, ca_request_id = None,
     ca_op = Decide ''c'' demo_decision\<rparr>"

lemma upsert_unplaced: "fs_latitude s = None \<Longrightarrow> \<exists>db'. upsert_map_feature e s db = Inr db'"
  by (auto simp: upsert_map_feature_def position_of_def split: option.splits)

lemma settle_no_fragments:
  "list_all (\<lambda>v. ce_kind v \<noteq> ''fragment'') vs \<Longrightarrow> settle_evidence e acc vs db = Inr db"
  by (induction vs) auto

lemma apply_decision_total:
  assumes f: "decision_fact e c p (db\<lparr>db_decisions := db_decisions db
        @ [new_decision e (id_count db) actr c p analysis], id_count := Suc (id_count db)\<rparr>)
      = Inr (f, created, db2)"
    and "cc_latitude c = None" "list_all (\<lambda>v. ce_kind v \<noteq> ''fragment'') (current_evidence db (cc_id c))"
    and inc: "get_incident_by_id db (cc_incident_id c) \<noteq> None"
  shows "\<exists>r db'. apply_decision e actr rid c p analysis db = Inr (r, db')"
proof -
  let ?d = "new_decision e (id_count db) actr c p analysis"
  let ?v = "decided_version e (id_count db2) actr c p analysis f"
  let ?db3 = "publish_version e f ?v (cq_is_public p) db2"
  let ?c = "resolve_case e actr p ?d c"
  have lat: "cc_latitude ?c = None" using assms(2) by (simp add: resolve_case_def)
  obtain db4 where 4: "upsert_conflict_map_feature e ?c (put_case ?c ?db3) = Inr db4"
    unfolding upsert_conflict_map_feature_def Let_def using upsert_unplaced lat by (metis feature_spec.select_convs(7))
  note 5 = settle_no_fragments [OF assms(3), of e "accepted_ids p" db4]
  obtain db6 where 6: "upsert_fact_feature e ?c f p (fv_revision ?v) db4 = Inr db6"
    using lat by (cases "find_feature db4 (cc_incident_id ?c) ''fact'' (fr_id f)")
      (auto simp: upsert_fact_feature_def position_of_def Let_def)
  have "db_incidents db6 = db_incidents db2"
    using same_rows_trans [OF upsert_same_rows(3) [OF 4] upsert_same_rows(4) [OF 6]]
    by (auto simp: same_rows_def put_case_def publish_version_def)
  moreover note same_rows_plain(4) [OF f]
  ultimately have "get_incident_by_id (record_audit e (Some actr) (Some (cc_incident_id c))
      ''conflict.decided'' ''conflict'' (Some (cc_id c)) rid db6) (cc_incident_id c) \<noteq> None"
    using inc by (auto simp: same_rows_def get_incident_by_id_def)
  then show ?thesis
    by (auto simp: apply_decision_def f 4 5 6 Let_def split: prod.splits)
qed

lemma demo_decides_status:
  assumes "s = ''current'' \<or> s = ''under_review''"
  shows "\<exists>r db'. submit_conflict_decision e demo_operator None rid ''c'' (demo_decision\<lparr>cq_fact_status := s\<rparr>)
    (begin_tx t demo_conflict_db) = Inr (r, db')"
proof -
  let ?p = "demo_decision\<lparr>cq_fact_status := s\<rparr>"
  let ?db = "begin_tx t demo_conflict_db"
  have "get_case ?db ''c'' = Inr demo_case"
    by (simp add: get_case_def begin_tx_def demo_conflict_db_def demo_case_def)
  then have op: "operator_case demo_operator None ''c'' ?db = Inr demo_case"
    by (simp add: operator_case_def ensure_incident_access_def demo_operator_def demo_case_def)
  have ev: "current_evidence ?db ''c'' = [demo_evidence]" "current_evidence (flush ?db) ''c'' = [demo_evidence]"
    by (simp_all add: current_evidence_def begin_tx_def flush_def demo_conflict_db_def demo_evidence_def)
  then have check: "check_decision ?db demo_case ?p = Inr None"
    by (simp add: check_decision_def demo_case_def demo_decision_def demo_evidence_def
        cited_analysis_def or_else_def)
  have nofact: "find_fact d ''inc'' ''bridge'' = None" if "db_facts d = []" for d :: core_db
    using that by (simp add: find_fact_def)
  have inc: "get_incident_by_id (flush ?db) (cc_incident_id demo_case) \<noteq> None"
    by (simp add: get_incident_by_id_def flush_def begin_tx_def demo_conflict_db_def demo_core_db_def
        demo_incident_def demo_case_def)
  have "db_facts (flush ?db) = []"
    by (simp add: flush_def begin_tx_def demo_conflict_db_def demo_core_db_def)
  then obtain f cr db2 where "decision_fact e demo_case ?p ((flush ?db)\<lparr>db_decisions :=
      db_decisions (flush ?db) @ [new_decision e (id_count (flush ?db)) demo_operator demo_case ?p None],
      id_count := Suc (id_count (flush ?db))\<rparr>) = Inr (f, cr, db2)"
    by (simp add: decision_fact_def demo_case_def demo_decision_def nofact Let_def)
  from apply_decision_total [OF this _ _ inc, of rid] obtain r db' where
    "apply_decision e demo_operator rid demo_case ?p None (flush ?db) = Inr (r, db')"
    using ev by (auto simp: demo_case_def demo_evidence_def)
  then have "decide_conflict e demo_operator rid demo_case ?p ?db = Inr (r, db')"
    by (simp add: decide_conflict_def check)
  moreover have "decision_request_ok ?p" using assms by (auto simp: decision_request_ok_def demo_decision_def)
  moreover have "require_roles [''operator'', ''admin''] demo_operator = Inr demo_operator"
    by (simp add: require_roles_def demo_operator_def)
  ultimately show ?thesis by (simp add: submit_conflict_decision_def as_operator_Inr op)
qed

lemma demo_decides:
  "\<exists>r db'. submit_conflict_decision e demo_operator None rid ''c'' demo_decision
    (begin_tx t demo_conflict_db) = Inr (r, db')"
  using demo_decides_status [of "''current''" e rid t] by (simp add: demo_decision_def)

lemma decided_facts:
  assumes "decide_conflict e actr rid c p db = Inr (r, db')"
  shows "db_facts db' \<noteq> []"
proof -
  obtain analysis where "apply_decision e actr rid c p analysis (flush db) = Inr (r, db')"
    using assms by (auto simp: decide_conflict_def split: sum.splits)
  then obtain f created db2 d where
    "decision_fact e c p ((flush db)\<lparr>db_decisions := db_decisions (flush db) @ [d],
       id_count := Suc (id_count (flush db))\<rparr>) = Inr (f, created, db2)" and
    ff: "facts_frame (publish_version e f (decided_version e (id_count db2) actr c p analysis f)
       (cq_is_public p) db2) db'"
    by (rule apply_decision_stages)
  then have "f \<in> set (db_facts db2)" using decision_fact_steps by blast
  then have "db_facts db2 \<noteq> []" by auto
  then show ?thesis using ff by (cases "db_facts db2") (simp_all add: facts_frame_def publish_version_def)
qed

section \<open>Properties of the history\<close>





text \<open>
  History is append-only: the versions recorded before a run are, in order and but for the
  end of their validity, the first versions recorded after it; statements, confidences,
  evidence and authors of past decisions never change.
\<close>

theorem fact_history_append_only:
  "prefix (map frozen (history db i)) (map frozen (history (fold (run_call D g) xs db) i))"
  by (rule fact_log.kept_run [OF run_call_steps]) simp



end
