(* ===== verification/Broadcast.thy ===== *)
theory Broadcast
  imports Jobs Realtime FactHistory
begin

text \<open>
  From a committed decision to the clients: the events a decision writes, the worker that
  hands the outbox to the hub (\<open>_default_outbox_handler\<close> of \<open>workers.py\<close>), and the queues the
  hub fills.
\<close>

section \<open>The worker and the hub\<close>

definition hub_handler :: "envelope \<Rightarrow> connection list \<Rightarrow> bool \<times> connection list" where
  "hub_handler env hub = (True, hub_publish env hub)"

text \<open>Room for \<open>n\<close> more events.\<close>

definition roomy :: "nat \<Rightarrow> connection \<Rightarrow> bool" where
  "roomy n c \<longleftrightarrow> 0 < cn_maxsize c \<longrightarrow> int (length (cn_queue c) + n) \<le> cn_maxsize c"

lemma publish_rows_hub:
  "fst (snd (publish_rows hub_handler t rs (hub, rows))) = fold hub_publish (map ob_payload rs) hub"
  by (induction rs arbitrary: hub rows) (simp_all add: hub_handler_def Let_def)

lemma hub_run:
  "c \<in> set hub \<Longrightarrow> roomy (length envs) c \<Longrightarrow>
    c\<lparr>cn_queue := cn_queue c @ filter (\<lambda>x. wants x c) envs\<rparr> \<in> set (fold hub_publish envs hub)"
proof (induction envs arbitrary: hub c)
  case Nil
  then show ?case by simp
next
  case (Cons x envs)
  show ?case
  proof (cases "wants x c")
    case False
    then have "c \<in> set (hub_publish x hub)"
      using Cons.prems(1) by (auto simp: hub_publish_set offer_def)
    moreover have "roomy (length envs) c" using Cons.prems(2) by (auto simp: roomy_def)
    ultimately show ?thesis using Cons.IH False by simp
  next
    case True
    let ?c = "c\<lparr>cn_queue := cn_queue c @ [x]\<rparr>"
    have "\<not> queue_full c" using Cons.prems(2) by (auto simp: roomy_def queue_full_def)
    then have "?c \<in> set (hub_publish x hub)"
      unfolding hub_publish_set by (intro bexI [OF _ Cons.prems(1)]) (simp add: offer_def True)
    moreover have "roomy (length envs) ?c" using Cons.prems(2) by (auto simp: roomy_def)
    moreover have "wants y ?c = wants y c" for y by (simp add: wants_def)
    ultimately show ?thesis using Cons.IH [of ?c "hub_publish x hub"] True by simp
  qed
qed

text \<open>The batches hand every waiting event to the hub, each once.\<close>

lemma pending_marked_filter:
  "pending (modify_where (\<lambda>x. ob_id x \<in> I) (mark_published t) rows)
     = filter (\<lambda>r. ob_id r \<notin> I) (pending rows)"
proof -
  have m: "(ob_published_at (mark_published t r) = None) = False" for r
    by (auto simp: mark_published_def)
  show ?thesis unfolding pending_def by (induction rows) (simp_all add: m del: not_None_eq)
qed

lemma batch_hub:
  assumes "distinct (map ob_id rows)"
  obtains rows' where
    "batch_step hub_handler t (hub, rows) = (fold hub_publish (map ob_payload (unpublished rows)) hub, rows')"
    "map ob_id rows' = map ob_id rows" "length (pending rows') = length (pending rows) - 100"
    "set (pending rows) = set (unpublished rows) \<union> set (pending rows')"
proof -
  let ?U = "unpublished rows"
  let ?rows' = "publish_table t ?U (length ?U) rows"
  have "fst (publish_rows hub_handler t ?U (hub, rows)) = length ?U"
    by (rule publish_rows_all) (simp add: hub_handler_def)
  then have "batch_step hub_handler t (hub, rows) = (fold hub_publish (map ob_payload ?U) hub, ?rows')"
    using publish_rows_table [of hub_handler t ?U hub rows] publish_rows_hub [of t ?U hub rows]
    by (simp add: batch_step_def publish_outbox_batch_def prod_eq_iff)
  moreover have sub: "set ?U \<subseteq> set (pending rows)"
    by (auto simp: unpublished_def pending_def dest: in_set_takeD)
  have "pending ?rows' = filter (\<lambda>r. ob_id r \<notin> ob_id ` set ?U) (pending rows)"
    by (simp add: publish_table_def Let_def pending_marked_filter)
  then have "set (pending rows) = set ?U \<union> set (pending ?rows')"
    using sub assms by (auto simp: distinct_map pending_def dest: inj_onD)
  ultimately show thesis
    using that publish_table_ids pending_after_batch [OF assms] by blast
qed

lemma batches_through_hub:
  "distinct (map ob_id rows) \<Longrightarrow> length (pending rows) \<le> 100 * k \<Longrightarrow>
    \<exists>xs rows'. (batch_step hub_handler t ^^ k) (hub, rows) = (fold hub_publish xs hub, rows')
      \<and> pending rows' = [] \<and> set xs = ob_payload ` set (pending rows) \<and> length xs = length (pending rows)"
proof (induction k arbitrary: hub rows)
  case 0
  then show ?case by (intro exI [of _ "[]"] exI [of _ rows]) simp
next
  case (Suc k)
  obtain rows1 where step:
    "batch_step hub_handler t (hub, rows) = (fold hub_publish (map ob_payload (unpublished rows)) hub, rows1)"
    "map ob_id rows1 = map ob_id rows" "length (pending rows1) = length (pending rows) - 100"
    "set (pending rows) = set (unpublished rows) \<union> set (pending rows1)"
    by (rule batch_hub [OF Suc.prems(1)])
  have "distinct (map ob_id rows1)" "length (pending rows1) \<le> 100 * k"
    using Suc.prems step(2,3) by simp_all
  from Suc.IH [OF this, of "fold hub_publish (map ob_payload (unpublished rows)) hub"]
  obtain xs rows' where rest:
    "(batch_step hub_handler t ^^ k) (fold hub_publish (map ob_payload (unpublished rows)) hub, rows1)
       = (fold hub_publish xs (fold hub_publish (map ob_payload (unpublished rows)) hub), rows')"
    "pending rows' = []" "set xs = ob_payload ` set (pending rows1)" "length xs = length (pending rows1)"
    by blast
  have "(batch_step hub_handler t ^^ Suc k) (hub, rows)
      = (fold hub_publish (map ob_payload (unpublished rows) @ xs) hub, rows')"
    using rest(1) step(1) by (simp add: funpow_Suc_right del: funpow.simps(2))
  moreover have "length (unpublished rows) = min 100 (length (pending rows))"
    by (simp add: unpublished_def pending_def)
  ultimately show ?case
    using rest(2-4) step(3,4)
    by (intro exI [of _ "map ob_payload (unpublished rows) @ xs"] exI [of _ rows'])
      (auto simp: image_Un)
qed

lemma batches_fill_queue:
  assumes "distinct (map ob_id rows)" "length (pending rows) \<le> 100 * k"
    and "(batch_step hub_handler t ^^ k) (hub, rows) = (hub', rows')"
    and "c \<in> set hub" "roomy (length (pending rows)) c"
  obtains new where "pending rows' = []" "c\<lparr>cn_queue := cn_queue c @ new\<rparr> \<in> set hub'"
    "set new = {x \<in> ob_payload ` set (pending rows). wants x c}"
proof -
  obtain xs where xs: "hub' = fold hub_publish xs hub" "pending rows' = []"
    "set xs = ob_payload ` set (pending rows)" "length xs = length (pending rows)"
    using batches_through_hub [OF assms(1,2), of t hub] assms(3) by auto
  show thesis
  proof (rule that [OF xs(2)])
    show "c\<lparr>cn_queue := cn_queue c @ filter (\<lambda>x. wants x c) xs\<rparr> \<in> set hub'"
      using hub_run [OF assms(4), of xs] assms(5) by (simp add: xs(1,4))
    show "set (filter (\<lambda>x. wants x c) xs) = {x \<in> ob_payload ` set (pending rows). wants x c}"
      using xs(3) by auto
  qed
qed

section \<open>The events of a decision\<close>

text \<open>The rows of one emission: the event itself, and notices about briefs and the map.\<close>

lemma stale_rows_kind:
  "r \<in> set (stale_rows e k inc sqn rid ty as) \<Longrightarrow>
    env_resource_type (ob_payload r) = ''ai_analysis'' \<and> ob_published_at r = None"
  by (induction as arbitrary: k sqn) (auto simp: outbox_entry_def stale_emission_def)

lemma emit_core_rows:
  assumes "inc_id inc = iid"
  obtains k sqn rid others where
    "er_rows (emit_core e em db inc) = outbox_entry e k iid sqn rid em # others"
    "\<forall>r \<in> set others. env_resource_type (ob_payload r) \<in> {''ai_analysis'', ''map_view''}
       \<and> ob_published_at r = None"
proof -
  let ?rows = "er_rows (emit_core e em db inc)"
  have head: "\<exists>k sqn rid. hd ?rows = outbox_entry e k iid sqn rid em" and "?rows \<noteq> []"
    by (auto simp: emit_core_def Let_def assms)
  then have "?rows = hd ?rows # tl ?rows" by simp
  moreover have "\<forall>r \<in> set (tl ?rows). env_resource_type (ob_payload r) \<in> {''ai_analysis'', ''map_view''}
       \<and> ob_published_at r = None"
    by (auto simp: emit_core_def Let_def outbox_entry_def invalidated_emission_def dest: stale_rows_kind)
  ultimately show thesis using head that by metis
qed

lemma emitted_rows:
  assumes "get_incident_by_id db iid = Some inc"
  obtains k sqn rid others where
    "db_outbox (snd (emit_event e iid em db)) = db_outbox db @ outbox_entry e k iid sqn rid em # others"
    "\<forall>r \<in> set others. env_resource_type (ob_payload r) \<in> {''ai_analysis'', ''map_view''}
       \<and> ob_published_at r = None"
proof -
  have "inc_id inc = iid" using assms by (auto simp: get_incident_by_id_def dest: find_SomeD)
  then obtain k sqn rid others where
    "er_rows (emit_core e em db inc) = outbox_entry e k iid sqn rid em # others"
    "\<forall>r \<in> set others. env_resource_type (ob_payload r) \<in> {''ai_analysis'', ''map_view''}
       \<and> ob_published_at r = None"
    by (rule emit_core_rows)
  then show thesis by (intro that) (simp_all add: emit_event_found [OF assms] store_emit_def)
qed

text \<open>The identifiers of outbox rows come from the supply, each once.\<close>

definition ids_within :: "(nat \<Rightarrow> ident) \<Rightarrow> nat \<Rightarrow> nat \<Rightarrow> outbox_row list \<Rightarrow> bool" where
  "ids_within g m n rows \<longleftrightarrow> m \<le> n \<and> distinct (map ob_id rows) \<and> ob_id ` set rows \<subseteq> g ` {m..<n}"

lemma ids_within_Nil: "m \<le> n \<Longrightarrow> ids_within g m n []"
  by (simp add: ids_within_def)

lemma ids_within_entry: "ids_within (new_id e) k (k + 2) [outbox_entry e k i s q em]"
  by (simp add: ids_within_def outbox_entry_def)

lemma ids_within_append:
  assumes "inj g" "ids_within g m n xs" "ids_within g n p ys"
  shows "ids_within g m p (xs @ ys)"
proof -
  have x: "m \<le> n" "distinct (map ob_id xs)" "ob_id ` set xs \<subseteq> g ` {m..<n}"
    and y: "n \<le> p" "distinct (map ob_id ys)" "ob_id ` set ys \<subseteq> g ` {n..<p}"
    using assms(2,3) by (simp_all add: ids_within_def)
  have "g ` {m..<n} \<inter> g ` {n..<p} = g ` ({m..<n} \<inter> {n..<p})" by (rule image_Int [OF assms(1), symmetric])
  then have "g ` {m..<n} \<inter> g ` {n..<p} = {}" by simp
  with x(3) y(3) have "ob_id ` set xs \<inter> ob_id ` set ys = {}" by blast
  moreover have "g ` {m..<n} \<subseteq> g ` {m..<p}" "g ` {n..<p} \<subseteq> g ` {m..<p}"
    by (rule image_mono, use x(1) y(1) in simp)+
  then have "ob_id ` set xs \<union> ob_id ` set ys \<subseteq> g ` {m..<p}"
    using order_trans [OF x(3)] order_trans [OF y(3)] by simp
  ultimately show ?thesis
    using x(1,2) y(1,2) by (simp add: ids_within_def image_Un)
qed

lemma stale_rows_ids:
  "inj (new_id e) \<Longrightarrow> ids_within (new_id e) k (k + 2 * length as) (stale_rows e k inc sqn rid ty as)"
proof (induction as arbitrary: k sqn)
  case Nil
  then show ?case by (simp add: ids_within_Nil)
next
  case (Cons a as)
  show ?case
    using ids_within_append [OF Cons.prems ids_within_entry Cons.IH [OF Cons.prems, of "k + 2"]] by simp
qed

lemma maybe_row:
  "xs = (if b then [outbox_entry e k i s q em] else []) \<Longrightarrow>
    xs = [] \<or> (\<exists>i' s' q' em'. xs = [outbox_entry e k i' s' q' em'])"
  by auto

lemma emit_core_ids:
  assumes "inj (new_id e)"
  shows "ids_within (new_id e) (id_count db) (id_count db + 2 * length (er_rows (emit_core e em db inc)))
     (er_rows (emit_core e em db inc))"
proof -
  have shape: "\<exists>i s q inc' sqn rid ty as last.
      er_rows (emit_core e em db inc) = outbox_entry e (id_count db) i s q em
        # stale_rows e (id_count db + 2) inc' sqn rid ty as @ last
      \<and> (last = [] \<or> (\<exists>i' s' q' em'. last = [outbox_entry e (id_count db + 2 + 2 * length as) i' s' q' em']))"
    unfolding emit_core_def Let_def emit_result.simps
    by (intro exI conjI) (rule refl, rule maybe_row, rule refl)
  have stale_length: "length (stale_rows e k inc' sqn rid ty as) = length as" for k inc' sqn rid ty as
    by (induction as arbitrary: k sqn) simp_all
  from shape obtain i s q inc' sqn rid ty as last where
    cons: "er_rows (emit_core e em db inc) = outbox_entry e (id_count db) i s q em
        # stale_rows e (id_count db + 2) inc' sqn rid ty as @ last" and
    last: "last = [] \<or> (\<exists>i' s' q' em'. last = [outbox_entry e (id_count db + 2 + 2 * length as) i' s' q' em'])"
    by (elim exE conjE)
  have rows: "er_rows (emit_core e em db inc) = [outbox_entry e (id_count db) i s q em]
        @ stale_rows e (id_count db + 2) inc' sqn rid ty as @ last"
    unfolding cons by simp
  have "ids_within (new_id e) (id_count db + 2 + 2 * length as)
      (id_count db + 2 + 2 * length as + 2 * length last) last"
    using last ids_within_entry [of e "id_count db + 2 + 2 * length as"]
    by (auto intro: ids_within_Nil)
  then show ?thesis
    unfolding rows
    using ids_within_append [OF assms ids_within_entry
        ids_within_append [OF assms stale_rows_ids [OF assms, of "id_count db + 2" as inc' sqn rid ty]]]
    by (simp add: stale_length algebra_simps)
qed

definition outbox_ids_ok :: "(nat \<Rightarrow> ident) \<Rightarrow> 'a ev_db_scheme \<Rightarrow> bool" where
  "outbox_ids_ok g db \<longleftrightarrow> ids_within g 0 (id_count db) (db_outbox db)"

lemma outbox_ids_emit:
  assumes "inj (new_id e)" "outbox_ids_ok (new_id e) db"
  shows "outbox_ids_ok (new_id e) (snd (emit_event e i em db))"
proof (cases "get_incident_by_id db i")
  case None
  then show ?thesis using assms(2) by (simp add: emit_event_def)
next
  case (Some inc)
  let ?r = "emit_core e em db inc"
  have "ids_within (new_id e) 0 (id_count db + 2 * length (er_rows ?r)) (db_outbox db @ er_rows ?r)"
    using ids_within_append [OF assms(1) _ emit_core_ids [OF assms(1)]] assms(2)
    by (simp add: outbox_ids_ok_def)
  then show ?thesis by (simp add: outbox_ids_ok_def emit_event_found [OF Some] store_emit_def)
qed

lemma outbox_ids_frame:
  "outbox_ids_ok g db \<Longrightarrow> db_outbox db' = db_outbox db \<Longrightarrow> id_count db \<le> id_count db' \<Longrightarrow> outbox_ids_ok g db'"
  unfolding outbox_ids_ok_def ids_within_def
  by (metis image_mono ivl_subset order_refl order_trans zero_le)

text \<open>What a decision adds to a fully published outbox.\<close>

definition decision_events ::
    "env \<Rightarrow> conflict_case \<Rightarrow> decision_request \<Rightarrow> decided \<Rightarrow> outbox_row list \<Rightarrow> bool" where
  "decision_events e c p r rows \<longleftrightarrow>
     (\<exists>k sqn rid payload. outbox_entry e k (cc_incident_id c) sqn rid
        (simple_emission ''conflict.resolved'' ''conflict'' (cc_id c) (cc_revision c + 1) payload
          (if cq_is_public p then ''public'' else ''operators'')) \<in> set rows)
     \<and> (\<exists>k sqn rid ty payload. ty \<in> {''fact_record.created'', ''fact_record.updated''}
        \<and> jget payload ''statement'' = JText (cq_conclusion p)
        \<and> outbox_entry e k (cc_incident_id c) sqn rid
        (simple_emission ty ''fact'' (dc_fact_id r) (dc_fact_revision r) payload
          (if cq_is_public p then ''public'' else ''operators'')) \<in> set rows)
     \<and> (\<forall>x \<in> set rows. env_resource_type (ob_payload x) \<in> {''conflict'', ''fact''} \<longrightarrow>
        env_owner_device_id (ob_payload x) = None
        \<and> \<not> starts_with (env_type (ob_payload x)) ''question.''
        \<and> env_visibility (ob_payload x) = (if cq_is_public p then ''public'' else ''operators''))"

lemma statement_in_payload: "jget (fact_feature_data c f p n) ''statement'' = JText (cq_conclusion p)"
  by (simp add: fact_feature_data_def)

lemma decision_rows:
  assumes "submit_conflict_decision e a h rid i p db = Inr (r, db')"
    and "pending (db_outbox db) = []" "get_case db i = Inr c"
  shows "decision_events e c p r (pending (db_outbox db'))"
proof -
  have "operator_case a h i db = Inr c" and d: "decide_conflict e a rid c p db = Inr (r, db')"
    using assms(1,3) by (auto simp: submit_conflict_decision_def as_operator_Inr operator_case_def split: sum.splits)
  then obtain analysis where an: "apply_decision e a rid c p analysis (flush db) = Inr (r, db')"
    by (auto simp: decide_conflict_def split: sum.splits)
  let ?vis = "if cq_is_public p then ''public'' else ''operators''"
  obtain f created db6 d where st: "dc_fact_id r = fr_id f" "db_outbox db6 = db_outbox (flush db)"
    "get_incident_by_id db6 (cc_incident_id c) \<noteq> None"
    "announce_decision e (resolve_case e a p d c) p f created (dc_fact_revision r)
       (record_audit e (Some a) (Some (cc_incident_id c)) ''conflict.decided'' ''conflict''
          (Some (cc_id c)) rid db6) = (dc_event_ids r, db')"
    by (rule apply_decision_stages [OF an])
  let ?db7 = "record_audit e (Some a) (Some (cc_incident_id c)) ''conflict.decided'' ''conflict''
      (Some (cc_id c)) rid db6"
  let ?c = "resolve_case e a p d c"
  let ?em1 = "simple_emission ''conflict.resolved'' ''conflict'' (cc_id c) (cc_revision c + 1)
      (JObj [(''conflict_id'', JStr (cc_id c)), (''fact_record_id'', JStr (fr_id f)),
             (''fact_record_revision'', JInt (dc_fact_revision r))]) ?vis"
  let ?ty = "if created then ''fact_record.created'' else ''fact_record.updated''"
  let ?em2 = "simple_emission ?ty ''fact'' (fr_id f) (dc_fact_revision r)
      (fact_feature_data ?c f p (dc_fact_revision r)) ?vis"
  have c: "cc_incident_id ?c = cc_incident_id c" "cc_id ?c = cc_id c" "cc_revision ?c = cc_revision c + 1"
    by (simp_all add: resolve_case_def)
  obtain inc where i7: "get_incident_by_id ?db7 (cc_incident_id c) = Some inc"
    using st(3) by (auto simp: get_incident_by_id_def record_audit_def)
  let ?db8 = "snd (emit_event e (cc_incident_id c) ?em1 ?db7)"
  obtain inc' where i8: "get_incident_by_id ?db8 (cc_incident_id c) = Some inc'"
    using get_incident_emit [OF i7] by simp
  have db': "db_outbox db' = db_outbox (snd (emit_event e (cc_incident_id c) ?em2 ?db8))"
    using st(4) by (auto simp: announce_decision_def c Let_def flush_def split: prod.splits)
  obtain k1 s1 q1 o1 where
    1: "db_outbox ?db8 = db_outbox ?db7 @ outbox_entry e k1 (cc_incident_id c) s1 q1 ?em1 # o1" and
    o1: "\<forall>r \<in> set o1. env_resource_type (ob_payload r) \<in> {''ai_analysis'', ''map_view''}
       \<and> ob_published_at r = None" by (rule emitted_rows [OF i7])
  obtain k2 s2 q2 o2 where
    2: "db_outbox (snd (emit_event e (cc_incident_id c) ?em2 ?db8))
       = db_outbox ?db8 @ outbox_entry e k2 (cc_incident_id c) s2 q2 ?em2 # o2" and
    o2: "\<forall>r \<in> set o2. env_resource_type (ob_payload r) \<in> {''ai_analysis'', ''map_view''}
       \<and> ob_published_at r = None" by (rule emitted_rows [OF i8])
  have "pending (db_outbox ?db7) = []"
    using assms(2) st(2) by (simp add: record_audit_def flush_def)
  then have rows: "set (pending (db_outbox db')) = insert (outbox_entry e k1 (cc_incident_id c) s1 q1 ?em1)
      (insert (outbox_entry e k2 (cc_incident_id c) s2 q2 ?em2) (set o1 \<union> set o2))"
    unfolding db' 1 2 using o1 o2 by (auto simp: pending_def outbox_entry_def filter_empty_conv)
  show ?thesis
    unfolding decision_events_def rows st(1)
  proof (intro conjI)
    show "\<exists>k sqn rid payload. outbox_entry e k (cc_incident_id c) sqn rid
        (simple_emission ''conflict.resolved'' ''conflict'' (cc_id c) (cc_revision c + 1) payload ?vis)
        \<in> insert (outbox_entry e k1 (cc_incident_id c) s1 q1 ?em1)
            (insert (outbox_entry e k2 (cc_incident_id c) s2 q2 ?em2) (set o1 \<union> set o2))"
      by blast
    show "\<exists>k sqn rid ty payload. ty \<in> {''fact_record.created'', ''fact_record.updated''}
        \<and> jget payload ''statement'' = JText (cq_conclusion p)
        \<and> outbox_entry e k (cc_incident_id c) sqn rid
          (simple_emission ty ''fact'' (fr_id f) (dc_fact_revision r) payload ?vis)
        \<in> insert (outbox_entry e k1 (cc_incident_id c) s1 q1 ?em1)
            (insert (outbox_entry e k2 (cc_incident_id c) s2 q2 ?em2) (set o1 \<union> set o2))"
      by (rule exI [of _ k2], rule exI [of _ s2], rule exI [of _ q2], rule exI [of _ ?ty],
          rule exI [of _ "fact_feature_data ?c f p (dc_fact_revision r)"])
        (simp add: statement_in_payload)
    show "\<forall>x \<in> insert (outbox_entry e k1 (cc_incident_id c) s1 q1 ?em1)
            (insert (outbox_entry e k2 (cc_incident_id c) s2 q2 ?em2) (set o1 \<union> set o2)).
        env_resource_type (ob_payload x) \<in> {''conflict'', ''fact''} \<longrightarrow>
        env_owner_device_id (ob_payload x) = None
        \<and> \<not> starts_with (env_type (ob_payload x)) ''question.''
        \<and> env_visibility (ob_payload x) = ?vis"
      using o1 o2 by (auto simp: outbox_entry_def simple_emission_def starts_with_def)
  qed
qed

lemma event_visible_resident:
  assumes "ac_role a = ''resident''" "env_owner_device_id x = None"
    and "\<not> starts_with (env_type x) ''question.''"
  shows "event_visible a x \<longleftrightarrow> env_visibility x = ''public''"
  using assms by (simp add: event_visible_def Let_def)

lemma entry_payload [simp]:
  "env_type (ob_payload (outbox_entry e k i s q (simple_emission ty rt ri rv pl vis))) = ty"
  "env_incident_id (ob_payload (outbox_entry e k i s q (simple_emission ty rt ri rv pl vis))) = i"
  "env_resource_type (ob_payload (outbox_entry e k i s q (simple_emission ty rt ri rv pl vis))) = rt"
  "env_resource_id (ob_payload (outbox_entry e k i s q (simple_emission ty rt ri rv pl vis))) = Some ri"
  "env_resource_revision (ob_payload (outbox_entry e k i s q (simple_emission ty rt ri rv pl vis))) = Some rv"
  "env_data (ob_payload (outbox_entry e k i s q (simple_emission ty rt ri rv pl vis))) = pl"
  by (simp_all add: outbox_entry_def simple_emission_def)

text \<open>What a client that is connected with room for the backlog has in its queue afterwards.\<close>

lemma decision_queue:
  assumes "submit_conflict_decision e a h rid i p db = Inr (r, db')"
    and "pending (db_outbox db) = []" "get_case db i = Inr cc"
    and "distinct (map ob_id (db_outbox db'))" "length (pending (db_outbox db')) \<le> 100 * k"
    and "c \<in> set hub" "cn_incident_id c = cc_incident_id cc" "ac_role (cn_actor c) = ''resident''"
    and "roomy (length (pending (db_outbox db'))) c"
    and "(batch_step hub_handler t ^^ k) (hub, db_outbox db') = (hub', rows')"
  obtains new where "pending rows' = []" "c\<lparr>cn_queue := cn_queue c @ new\<rparr> \<in> set hub'"
    "cq_is_public p \<Longrightarrow> \<exists>x \<in> set new. env_type x = ''conflict.resolved'' \<and> env_resource_id x = Some (cc_id cc)"
    "cq_is_public p \<Longrightarrow> \<exists>y \<in> set new. env_resource_type y = ''fact''
       \<and> env_resource_id y = Some (dc_fact_id r) \<and> env_resource_revision y = Some (dc_fact_revision r)
       \<and> jget (env_data y) ''statement'' = JText (cq_conclusion p)"
    "\<not> cq_is_public p \<Longrightarrow> \<forall>x \<in> set new. env_resource_type x \<notin> {''conflict'', ''fact''}"
proof -
  let ?rows = "pending (db_outbox db')"
  have ev: "decision_events e cc p r ?rows" by (rule decision_rows [OF assms(1-3)])
  obtain new where none: "pending rows' = []" and
    new: "c\<lparr>cn_queue := cn_queue c @ new\<rparr> \<in> set hub'"
    "set new = {x \<in> ob_payload ` set ?rows. wants x c}"
    by (rule batches_fill_queue [OF assms(4,5,10,6,9)])
  have seen: "wants (ob_payload x) c \<longleftrightarrow> cn_incident_id c = env_incident_id (ob_payload x) \<and> cq_is_public p"
    if "x \<in> set ?rows" "env_resource_type (ob_payload x) \<in> {''conflict'', ''fact''}" for x
  proof -
    have "env_owner_device_id (ob_payload x) = None
        \<and> \<not> starts_with (env_type (ob_payload x)) ''question.''
        \<and> env_visibility (ob_payload x) = (if cq_is_public p then ''public'' else ''operators'')"
      using ev that unfolding decision_events_def by blast
    then show ?thesis
      using event_visible_resident [OF assms(8), of "ob_payload x"]
      by (cases "cq_is_public p") (simp_all add: wants_def)
  qed
  show thesis
  proof (rule that)
    show "pending rows' = []" by (rule none)
    show "c\<lparr>cn_queue := cn_queue c @ new\<rparr> \<in> set hub'" by (rule new(1))
    show "\<forall>x \<in> set new. env_resource_type x \<notin> {''conflict'', ''fact''}" if "\<not> cq_is_public p"
      using seen that unfolding new(2) by blast
  next
    assume pub: "cq_is_public p"
    obtain k sqn q payload where "outbox_entry e k (cc_incident_id cc) sqn q
        (simple_emission ''conflict.resolved'' ''conflict'' (cc_id cc) (cc_revision cc + 1) payload ''public'')
        \<in> set ?rows" (is "?x \<in> _")
      using ev pub unfolding decision_events_def by auto
    moreover from this have "wants (ob_payload ?x) c" using seen [of ?x] pub assms(7) by simp
    ultimately have "ob_payload ?x \<in> set new" unfolding new(2) by blast
    then show "\<exists>x \<in> set new. env_type x = ''conflict.resolved'' \<and> env_resource_id x = Some (cc_id cc)"
      by (rule bexI [rotated]) simp
    obtain k sqn q ty payload where st: "jget payload ''statement'' = JText (cq_conclusion p)" and
      "outbox_entry e k (cc_incident_id cc) sqn q
        (simple_emission ty ''fact'' (dc_fact_id r) (dc_fact_revision r) payload ''public'')
        \<in> set ?rows" (is "?y \<in> _")
      using ev pub unfolding decision_events_def by auto
    moreover from this have "wants (ob_payload ?y) c" using seen [of ?y] pub assms(7) by simp
    ultimately have "ob_payload ?y \<in> set new" unfolding new(2) by blast
    then show "\<exists>y \<in> set new. env_resource_type y = ''fact''
       \<and> env_resource_id y = Some (dc_fact_id r) \<and> env_resource_revision y = Some (dc_fact_revision r)
       \<and> jget (env_data y) ''statement'' = JText (cq_conclusion p)"
      by (rule bexI [rotated]) (simp add: st)
  qed
qed

text \<open>The record of the fact after a decision, as a resident may read it.\<close>

lemma decided_fact_readable:
  assumes "submit_conflict_decision e a h rid i p db = Inr (r, db')"
    and "is_resident x" "get_fact_record x header (dc_fact_id r) db' = Inr f"
  shows "cq_is_public p \<and> cq_fact_status p = ''current''"
proof -
  obtain c where "decide_conflict e a rid c p db = Inr (r, db')"
    using assms(1) by (auto simp: submit_conflict_decision_def as_operator_Inr split: sum.splits)
  then obtain analysis where an: "apply_decision e a rid c p analysis (flush db) = Inr (r, db')"
    by (auto simp: decide_conflict_def split: sum.splits)
  obtain g created db2 where st: "dc_fact_id r = fr_id g"
    "facts_frame (publish_version e g (decided_version e (id_count db2) a c p analysis g)
       (cq_is_public p) db2) db'"
    by (rule apply_decision_stages [OF an])
  let ?v = "decided_version e (id_count db2) a c p analysis g"
  have f: "fr_is_public f" "fr_status f = ''current''" "fr_id f = fr_id g" "f \<in> set (db_facts db')"
    using assms(2,3) unfolding st(1)
    by (auto simp: get_fact_record_def fact_readable_def dest: find_SomeD split: option.splits sum.splits if_splits)
  then obtain f0 where "f = (if fr_id f0 = fr_id g then move_fact e ?v (cq_is_public p) f0 else f0)"
    using st(2) by (auto simp: facts_frame_def publish_version_def in_modify_where_iff)
  then have "f = move_fact e ?v (cq_is_public p) f0" using f(3) by (cases "fr_id f0 = fr_id g") simp_all
  then have "fr_is_public f = cq_is_public p" "fr_status f = cq_fact_status p"
    by (simp_all add: move_fact_def decided_version_def)
  then show ?thesis using f(1,2) by simp
qed

lemma decision_ids:
  assumes "submit_conflict_decision e a h rid i p db = Inr (r, db')"
    and "inj (new_id e)" "outbox_ids_ok (new_id e) db"
  shows "distinct (map ob_id (db_outbox db'))"
proof -
  obtain c where "decide_conflict e a rid c p db = Inr (r, db')"
    using assms(1) by (auto simp: submit_conflict_decision_def as_operator_Inr split: sum.splits)
  then obtain analysis where an: "apply_decision e a rid c p analysis (flush db) = Inr (r, db')"
    by (auto simp: decide_conflict_def split: sum.splits)
  obtain f created db6 d where st: "db_outbox db6 = db_outbox (flush db)" "id_count (flush db) \<le> id_count db6"
    "announce_decision e (resolve_case e a p d c) p f created (dc_fact_revision r)
       (record_audit e (Some a) (Some (cc_incident_id c)) ''conflict.decided'' ''conflict''
          (Some (cc_id c)) rid db6) = (dc_event_ids r, db')"
    by (rule apply_decision_stages [OF an])
  let ?db7 = "record_audit e (Some a) (Some (cc_incident_id c)) ''conflict.decided'' ''conflict''
      (Some (cc_id c)) rid db6"
  have "outbox_ids_ok (new_id e) ?db7"
    by (rule outbox_ids_frame [OF assms(3)]) (use st(1,2) in \<open>simp_all add: record_audit_def flush_def\<close>)
  then have "outbox_ids_ok (new_id e) (snd (emit_event e j em2 (snd (emit_event e i em1 ?db7))))" for i j em1 em2
    using outbox_ids_emit [OF assms(2)] by blast
  moreover have "\<exists>i j em1 em2. db' = flush (snd (emit_event e j em2 (snd (emit_event e i em1 ?db7))))"
    using st(3) by (auto simp: announce_decision_def Let_def split: prod.splits) (metis snd_conv)
  ultimately show ?thesis
    by (auto simp: outbox_ids_ok_def ids_within_def flush_def)
qed

end
