(* ===== verification/Base64.thy ===== *)
theory Base64
  imports Main "HOL-Library.Word"
begin

text \<open>
  The Base64 codec of the documentation page that the server delivers
  (\<open>static/swagger/swagger-ui-bundle.js\<close>): module 67526 of the bundle, with the cleaning step of
  its buffer module 48287.  The bundle is third-party code kept in the repository, minified on
  one line; each definition quotes the function it translates.

  A JavaScript string is the list of its char codes, a \<open>Uint8Array\<close> a list of 8-bit words.
  The bitwise operators work on 32-bit integers; every value here stays below \<open>2 ^ 24\<close>, so
  they are those of natural numbers.
\<close>

unbundle bit_operations_syntax

type_synonym byte = "8 word"
type_synonym codes = "nat list"

datatype js_error = InvalidLength | InvalidSize

section \<open>The two tables\<close>

text \<open>
  The loop \<open>for (w = 0; w < 64; ++w) i[w] = _[w], a[_.charCodeAt(w)] = w\<close> over the alphabet, and
  the two entries \<open>a["-"] = 62, a["_"] = 63\<close> added at the end.  A code without an entry reads
  as \<open>undefined\<close>, which the bitwise operators take for 0.
\<close>

definition alphabet :: codes where
  "alphabet = map of_char
     ''ABCDEFGHIJKLMNOPQRSTUVWXYZabcdefghijklmnopqrstuvwxyz0123456789+/''"

definition symbol :: "nat \<Rightarrow> nat" where
  "symbol n = alphabet ! n"

definition sextet :: "nat \<Rightarrow> nat" where
  "sextet c =
     (if c = 45 then 62 else if c = 95 then 63
      else if c \<in> set alphabet then length (takeWhile (\<lambda>x. x \<noteq> c) alphabet) else 0)"

definition pad :: nat where "pad = 61"

section \<open>Decoding\<close>

text \<open>
  \<open>function getLens(s) { var o = s.length; if (o % 4 > 0) throw new Error("Invalid string. ...");
  var i = s.indexOf("="); return -1 === i && (i = o), [i, i === o ? 0 : 4 - i % 4] }\<close>
\<close>

definition get_lens :: "codes \<Rightarrow> js_error + nat \<times> nat" where
  "get_lens s =
     (if length s mod 4 > 0 then Inl InvalidLength
      else (let v = length (takeWhile (\<lambda>c. c \<noteq> pad) s)
            in Inr (v, if v = length s then 0 else 4 - v mod 4)))"

text \<open>\<open>byteLength(s) { var o = getLens(s), i = o[0], a = o[1]; return 3 * (i + a) / 4 - a }\<close>\<close>

definition byte_length :: "codes \<Rightarrow> js_error + int" where
  "byte_length s = map_sum id (\<lambda>(v, p). 3 * (int v + int p) div 4 - int p) (get_lens s)"

text \<open>
  The loop \<open>for (i = 0; i < L; i += 4) o = a[...] << 18 | a[...] << 12 | a[...] << 6 | a[...],
  C[j++] = o >> 16 & 255, C[j++] = o >> 8 & 255, C[j++] = 255 & o\<close>: the bytes, and the codes
  from \<open>i\<close> on.
\<close>

definition quad_value :: "nat \<Rightarrow> nat \<Rightarrow> nat \<Rightarrow> nat \<Rightarrow> nat" where
  "quad_value a b c d =
     push_bit 18 (sextet a) OR push_bit 12 (sextet b) OR push_bit 6 (sextet c) OR sextet d"

definition store :: "nat \<Rightarrow> byte" where
  "store n = of_nat n"

fun decode_quads :: "nat \<Rightarrow> codes \<Rightarrow> byte list \<times> codes" where
  "decode_quads l (a # b # c # d # s) =
     (if l = 0 then ([], a # b # c # d # s)
      else (let v = quad_value a b c d; (out, rest) = decode_quads (l - 4) s
            in (store (drop_bit 16 v AND 255) # store (drop_bit 8 v AND 255)
                  # store (v AND 255) # out, rest)))"
| "decode_quads l s = ([], s)"

text \<open>
  The last quantum: \<open>2 === x && (o = a[...] << 2 | a[...] >> 4, C[j++] = 255 & o);
  1 === x && (o = a[...] << 10 | a[...] << 4 | a[...] >> 2, C[j++] = o >> 8 & 255, C[j++] = 255 & o)\<close>
\<close>

fun decode_tail :: "nat \<Rightarrow> codes \<Rightarrow> byte list" where
  "decode_tail x (a # b # c # s) =
     (if x = 2 then [store ((push_bit 2 (sextet a) OR drop_bit 4 (sextet b)) AND 255)]
      else if x = 1 then
        (let v = push_bit 10 (sextet a) OR push_bit 4 (sextet b) OR drop_bit 2 (sextet c)
         in [store (drop_bit 8 v AND 255), store (v AND 255)])
      else [])"
| "decode_tail x s = []"

text \<open>
  \<open>toByteArray\<close>: the array has the announced size, is filled with zeros and ignores writes past
  its end; a negative size raises.
\<close>

definition fit :: "nat \<Rightarrow> byte list \<Rightarrow> byte list" where
  "fit n bs = take n bs @ replicate (n - length bs) 0"

definition to_byte_array :: "codes \<Rightarrow> js_error + byte list" where
  "to_byte_array s =
     (case (get_lens s, byte_length s) of
        (Inr (w, x), Inr n) \<Rightarrow>
          if n < 0 then Inl InvalidSize
          else (let (out, rest) = decode_quads (if x > 0 then w - 4 else w) s
                in Inr (fit (nat n) (out @ decode_tail x rest)))
      | (Inl e, _) \<Rightarrow> Inl e
      | (_, Inl e) \<Rightarrow> Inl e)"

section \<open>Encoding\<close>

text \<open>
  \<open>u = (s[x] << 16 & 16711680) + (s[x + 1] << 8 & 65280) + (255 & s[x + 2]),
  w.push(i[(_ = u) >> 18 & 63] + i[_ >> 12 & 63] + i[_ >> 6 & 63] + i[63 & _])\<close>
\<close>

definition triplet :: "byte \<Rightarrow> byte \<Rightarrow> byte \<Rightarrow> codes" where
  "triplet a b c =
     (let u = (push_bit 16 (unat a) AND 16711680) + (push_bit 8 (unat b) AND 65280)
            + (255 AND unat c)
      in [symbol (drop_bit 18 u AND 63), symbol (drop_bit 12 u AND 63),
          symbol (drop_bit 6 u AND 63), symbol (63 AND u)])"

text \<open>\<open>function encodeChunk(s, o, a) { for (var u, _, w = [], x = o; x < a; x += 3) ... }\<close>\<close>

function encode_chunk :: "byte list \<Rightarrow> nat \<Rightarrow> nat \<Rightarrow> codes" where
  "encode_chunk s x a =
     (if x < a then triplet (s ! x) (s ! (x + 1)) (s ! (x + 2)) @ encode_chunk s (x + 3) a
      else [])"
  by pat_completeness auto

termination
  by (relation "measure (\<lambda>(s, x, a). a - x)") auto

declare encode_chunk.simps [simp del]

text \<open>
  \<open>for (..., w = 16383, x = 0, C = a - u; x < C; x += w)
  _.push(encodeChunk(s, x, x + w > C ? C : x + w))\<close>
\<close>

definition chunk_bytes :: nat where "chunk_bytes = 16383"

function encode_chunks :: "byte list \<Rightarrow> nat \<Rightarrow> nat \<Rightarrow> codes" where
  "encode_chunks s x c =
     (if x < c
      then encode_chunk s x (if x + chunk_bytes > c then c else x + chunk_bytes)
           @ encode_chunks s (x + chunk_bytes) c
      else [])"
  by pat_completeness auto

termination
  by (relation "measure (\<lambda>(s, x, c). c - x)") (auto simp: chunk_bytes_def)

declare encode_chunks.simps [simp del]

text \<open>
  \<open>1 === u ? (o = s[a - 1], _.push(i[o >> 2] + i[o << 4 & 63] + "=="))
  : 2 === u && (o = (s[a - 2] << 8) + s[a - 1],
  _.push(i[o >> 10] + i[o >> 4 & 63] + i[o << 2 & 63] + "="))\<close>
\<close>

definition tail_one :: "byte \<Rightarrow> codes" where
  "tail_one a = [symbol (drop_bit 2 (unat a)), symbol (push_bit 4 (unat a) AND 63), pad, pad]"

definition tail_two :: "byte \<Rightarrow> byte \<Rightarrow> codes" where
  "tail_two a b =
     (let v = push_bit 8 (unat a) + unat b
      in [symbol (drop_bit 10 v), symbol (drop_bit 4 v AND 63), symbol (push_bit 2 v AND 63), pad])"

definition from_byte_array :: "byte list \<Rightarrow> codes" where
  "from_byte_array s =
     (let a = length s; u = a mod 3
      in encode_chunks s 0 (a - u) @
         (if u = 1 then tail_one (s ! (a - 1))
          else if u = 2 then tail_two (s ! (a - 2)) (s ! (a - 1)) else []))"

section \<open>Cleaning\<close>

text \<open>
  \<open>s.split("=")[0].trim().replace(/[^+/0-9A-Za-z-_]/g, "")\<close>, empty when fewer than two codes are
  left, padded to a multiple of four otherwise.  All codes that \<open>trim\<close> removes are removed by
  \<open>replace\<close> as well.
\<close>

definition base64_code :: "nat \<Rightarrow> bool" where
  "base64_code c \<longleftrightarrow> c \<in> set alphabet \<or> c = 45 \<or> c = 95"

definition base64_clean :: "codes \<Rightarrow> codes" where
  "base64_clean s =
     (let t = filter base64_code (takeWhile (\<lambda>c. c \<noteq> pad) s)
      in if length t < 2 then []
         else t @ replicate (if length t mod 4 = 0 then 0 else 4 - length t mod 4) pad)"

definition base64_to_bytes :: "codes \<Rightarrow> js_error + byte list" where
  "base64_to_bytes s = to_byte_array (base64_clean s)"

section \<open>Bits as numbers\<close>

lemma or_push: "d < 2 ^ n \<Longrightarrow> push_bit n x OR d = x * 2 ^ n + d" for x d n :: nat
proof -
  assume "d < 2 ^ n"
  then have d: "take_bit n d = d" by (simp add: take_bit_nat_eq_self)
  have "\<not> bit (push_bit n x) k \<or> \<not> bit d k" for k
    using d by (metis bit_push_bit_iff bit_take_bit_iff linorder_not_less)
  from disjunctive_add [OF this] show ?thesis by (simp add: push_bit_eq_mult)
qed

lemma and_ones: "n AND (2 ^ k - 1) = n mod 2 ^ k" for n :: nat
  by (metis mask_eq_exp_minus_1 take_bit_eq_mask take_bit_eq_mod)

lemma and_63: "n AND 63 = n mod 64" "63 AND n = n mod 64" for n :: nat
  using and_ones [of n 6] by (simp_all add: and.commute)

lemma and_255: "n AND 255 = n mod 256" "255 AND n = n mod 256" for n :: nat
  using and_ones [of n 8] by (simp_all add: and.commute)

lemma and_high_bytes:
  "push_bit 16 n AND 16711680 = (n mod 256) * 65536" "push_bit 8 n AND 65280 = (n mod 256) * 256"
  for n :: nat
proof -
  have "push_bit 16 n AND push_bit 16 255 = push_bit 16 (n mod 256)"
    "push_bit 8 n AND push_bit 8 255 = push_bit 8 (n mod 256)"
    by (simp_all only: push_bit_and [symmetric] and_255)
  then show "push_bit 16 n AND 16711680 = (n mod 256) * 65536"
    "push_bit 8 n AND 65280 = (n mod 256) * 256"
    by (simp_all add: push_bit_eq_mult)
qed

lemma byte_less [simp]: "unat (a :: byte) < 256"
  using unsigned_less [of a, where 'a = nat] by simp

lemma byte_mod [simp]: "unat (a :: byte) mod 256 = unat a"
  by (simp add: mod_less)

lemma store_unat [simp]: "store (unat a) = a"
  by (simp add: store_def)

section \<open>Symbols\<close>

lemma length_alphabet [simp]: "length alphabet = 64"
  by (simp add: alphabet_def)

lemma alphabet_distinct: "distinct alphabet"
  by code_simp

lemma takeWhile_nth:
  "distinct xs \<Longrightarrow> n < length xs \<Longrightarrow> length (takeWhile (\<lambda>x. x \<noteq> xs ! n) xs) = n"
proof (induction xs arbitrary: n)
  case Nil
  then show ?case by simp
next
  case (Cons x xs)
  then show ?case by (cases n) auto
qed

text \<open>What the code needs of the two tables, and all it needs.\<close>

lemma symbol_facts:
  assumes "n < 64"
  shows "sextet (symbol n) = n" "symbol n \<noteq> pad" "symbol n \<in> set alphabet"
proof -
  show mem: "symbol n \<in> set alphabet" using assms by (simp add: symbol_def)
  have "\<forall>c \<in> set alphabet. c \<noteq> 45 \<and> c \<noteq> 95 \<and> c \<noteq> 61" by code_simp
  then have c: "symbol n \<noteq> 45" "symbol n \<noteq> 95" "symbol n \<noteq> 61" using mem by auto
  then show "symbol n \<noteq> pad" by (simp add: pad_def)
  show "sextet (symbol n) = n"
    using c mem takeWhile_nth [OF alphabet_distinct, of n] assms by (simp add: sextet_def symbol_def)
qed

section \<open>One quantum\<close>

lemma split4:
  fixes u :: nat
  shows "u div 262144 * 262144 + (u div 4096 mod 64 * 4096 + (u div 64 mod 64 * 64 + u mod 64)) = u"
proof -
  have d: "u div 4096 = u div 64 div 64" "u div 262144 = u div 64 div 64 div 64"
    by (simp_all add: div_mult2_eq [symmetric])
  have "64 * (u div 64) + u mod 64 = u"
    "64 * (u div 64 div 64) + u div 64 mod 64 = u div 64"
    "64 * (u div 64 div 64 div 64) + u div 64 div 64 mod 64 = u div 64 div 64"
    by simp_all
  then show ?thesis unfolding d by linarith
qed

lemma bytes_of_three:
  assumes "b < 256" "c < (256 :: nat)"
  shows "(a * 65536 + b * 256 + c) div 65536 = a"
    "(a * 65536 + b * 256 + c) div 256 mod 256 = b" "(a * 65536 + b * 256 + c) mod 256 = c"
proof -
  have u: "a * 65536 + b * 256 + c = (a * 256 + b) * 256 + c" by simp
  have q: "((a * 256 + b) * 256 + c) div 256 = a * 256 + b" using assms(2) by simp
  have "((a * 256 + b) * 256 + c) div (256 * 256) = (a * 256 + b) div 256"
    by (simp only: div_mult2_eq q)
  moreover have "(256 :: nat) * 256 = 65536" "(a * 256 + b) div 256 = a" using assms(1) by simp_all
  ultimately show "(a * 65536 + b * 256 + c) div 65536 = a" unfolding u by (simp only:)
  show "(a * 65536 + b * 256 + c) div 256 mod 256 = b" unfolding u q using assms(1) by simp
  show "(a * 65536 + b * 256 + c) mod 256 = c"
    unfolding u using assms(2) by (simp only: mod_mult_self3 mod_less)
qed

lemma join4:
  assumes "b < 64" "c < 64" "d < (64 :: nat)"
  shows "push_bit 18 a OR push_bit 12 b OR push_bit 6 c OR d
    = a * 262144 + (b * 4096 + (c * 64 + d))"
proof -
  have 1: "push_bit 6 c OR d = c * 64 + d" using or_push [of d 6 c] assms by simp
  have 2: "push_bit 12 b OR (c * 64 + d) = b * 4096 + (c * 64 + d)"
    using or_push [of "c * 64 + d" 12 b] assms by simp
  have 3: "push_bit 18 a OR (b * 4096 + (c * 64 + d)) = a * 262144 + (b * 4096 + (c * 64 + d))"
    using or_push [of "b * 4096 + (c * 64 + d)" 18 a] assms by simp
  show ?thesis by (simp only: 1 2 3)
qed

lemma triplet_simps:
  "triplet a b c = (let u = unat a * 65536 + unat b * 256 + unat c
     in [symbol (u div 262144), symbol (u div 4096 mod 64), symbol (u div 64 mod 64), symbol (u mod 64)])"
proof -
  have "unat a * 65536 + unat b * 256 + unat c < 16777216"
    using byte_less [of a] byte_less [of b] byte_less [of c] by linarith
  then have "(unat a * 65536 + unat b * 256 + unat c) div 262144 mod 64
      = (unat a * 65536 + unat b * 256 + unat c) div 262144" by simp
  then show ?thesis
    by (simp add: triplet_def and_high_bytes and_63 and_255 drop_bit_eq_div Let_def)
qed

lemma quad_triplet:
  assumes "triplet a b c = [w, x, y, z]"
  shows "quad_value w x y z = unat a * 65536 + unat b * 256 + unat c"
proof -
  let ?u = "unat a * 65536 + unat b * 256 + unat c"
  have u: "?u < 16777216"
    using byte_less [of a] byte_less [of b] byte_less [of c] by linarith
  have "sextet w = ?u div 262144" "sextet x = ?u div 4096 mod 64" "sextet y = ?u div 64 mod 64"
      "sextet z = ?u mod 64"
    using assms u by (auto simp: triplet_simps Let_def intro!: symbol_facts(1))
  then have "quad_value w x y z
      = ?u div 262144 * 262144 + (?u div 4096 mod 64 * 4096 + (?u div 64 mod 64 * 64 + ?u mod 64))"
    unfolding quad_value_def by (simp only: join4 mod_less_divisor zero_less_numeral)
  then show ?thesis by (simp only: split4)
qed

lemma decode_triplet:
  assumes "0 < l"
  shows "decode_quads l (triplet a b c @ s) =
    (let (out, rest) = decode_quads (l - 4) s in (a # b # c # out, rest))"
proof -
  obtain w x y z where t: "triplet a b c = [w, x, y, z]" by (simp add: triplet_def Let_def)
  let ?u = "unat a * 65536 + unat b * 256 + unat c"
  have "?u div 65536 mod 256 = unat a" "?u div 256 mod 256 = unat b" "?u mod 256 = unat c"
    by (simp_all only: bytes_of_three byte_less byte_mod)
  then show ?thesis
    using assms by (simp add: t quad_triplet [OF t] and_255 drop_bit_eq_div Let_def)
qed

section \<open>The reference encoder\<close>

text \<open>What the two loops compute: the triples in order, then what is left over.\<close>

fun triples :: "byte list \<Rightarrow> codes" where
  "triples (a # b # c # s) = triplet a b c @ triples s"
| "triples s = []"

fun encode :: "byte list \<Rightarrow> codes" where
  "encode [] = []"
| "encode [a] = tail_one a"
| "encode [a, b] = tail_two a b"
| "encode (a # b # c # s) = triplet a b c @ encode s"

lemma three_dvd [simp]: "3 dvd Suc (Suc (Suc n)) \<longleftrightarrow> 3 dvd n" "\<not> 3 dvd Suc (Suc 0)"
  using dvd_add_triv_right_iff [of 3 n] by (auto dest: dvd_imp_le simp: numeral_3_eq_3)

lemma triples_append: "3 dvd length s \<Longrightarrow> triples (s @ t) = triples s @ triples t"
  by (induction s rule: triples.induct) auto

lemma encode_append: "3 dvd length s \<Longrightarrow> encode (s @ t) = triples s @ encode t"
  by (induction s rule: triples.induct) auto

lemma drop_three:
  "x + 2 < length s \<Longrightarrow> drop x s = s ! x # s ! (x + 1) # s ! (x + 2) # drop (x + 3) s"
  by (simp add: Cons_nth_drop_Suc numeral_3_eq_3)

lemma encode_chunk_triples:
  "x \<le> a \<Longrightarrow> a \<le> length s \<Longrightarrow> 3 dvd a - x \<Longrightarrow>
     encode_chunk s x a = triples (take (a - x) (drop x s))"
proof (induction s x a rule: encode_chunk.induct)
  case (1 s x a)
  show ?case
  proof (cases "x < a")
    case False
    then show ?thesis using 1(2) by (simp add: encode_chunk.simps [of s a a])
  next
    case True
    then have le: "x + 3 \<le> a" using 1(4) by (auto dest: dvd_imp_le)
    then have "take (a - x) (drop x s)
        = s ! x # s ! (x + 1) # s ! (x + 2) # take (a - (x + 3)) (drop (x + 3) s)"
      using 1(3) by (subst drop_three) (auto simp: take_Cons' numeral_3_eq_3)
    moreover have "3 dvd a - (x + 3)"
      using 1(4) le by (metis diff_diff_left dvd_diff_nat dvd_refl)
    ultimately show ?thesis
      using True le 1 by (simp add: encode_chunk.simps [of s x a])
  qed
qed

lemma encode_chunks_triples:
  "x \<le> c \<Longrightarrow> c \<le> length s \<Longrightarrow> 3 dvd c - x \<Longrightarrow>
     encode_chunks s x c = triples (take (c - x) (drop x s))"
proof (induction s x c rule: encode_chunks.induct)
  case (1 s x c)
  show ?case
  proof (cases "x + chunk_bytes \<le> c")
    case False
    then show ?thesis
      using 1(2-4) encode_chunks.simps [of s x c] encode_chunks.simps [of s "x + chunk_bytes" c]
      by (cases "x < c") (auto simp: encode_chunk_triples)
  next
    case True
    then have "x < c" by (simp add: chunk_bytes_def)
    have three: "3 dvd chunk_bytes" by (simp add: chunk_bytes_def)
    have "3 dvd c - (x + chunk_bytes)"
      using 1(4) three True by (metis diff_diff_left dvd_diff_nat)
    then have "encode_chunks s (x + chunk_bytes) c
        = triples (take (c - (x + chunk_bytes)) (drop (x + chunk_bytes) s))"
      using 1 True \<open>x < c\<close> by simp
    moreover have "encode_chunk s x (x + chunk_bytes) = triples (take chunk_bytes (drop x s))"
      using encode_chunk_triples [of x "x + chunk_bytes" s] 1(3) True three by simp
    moreover have "take (c - x) (drop x s) = take chunk_bytes (drop x s)
        @ take (c - (x + chunk_bytes)) (drop (x + chunk_bytes) s)"
      using True by (metis add.commute diff_diff_left drop_drop le_add_diff_inverse2
          add_le_imp_le_diff take_add)
    moreover have "3 dvd length (take chunk_bytes (drop x s))" using three 1(3) True by simp
    ultimately show ?thesis
      using \<open>x < c\<close> True by (simp add: encode_chunks.simps [of s x c] triples_append)
  qed
qed

lemma from_byte_array_encode: "from_byte_array s = encode s"
proof -
  let ?u = "length s mod 3" and ?c = "length s - length s mod 3"
  have c: "?c \<le> length s" "3 dvd ?c" by (simp_all add: minus_mod_eq_mult_div)
  have split: "s = take ?c s @ drop ?c s" by simp
  have body: "encode_chunks s 0 ?c = triples (take ?c s)"
    using encode_chunks_triples [of 0 ?c s] c by simp
  have tail: "encode s = triples (take ?c s) @ encode (drop ?c s)"
    using encode_append [of "take ?c s" "drop ?c s"] c by simp
  have len: "length (drop ?c s) = ?u" by simp
  consider (zero) "?u = 0" | (one) "?u = 1" | (two) "?u = 2"
    using mod_less_divisor [of 3 "length s"] by linarith
  then show ?thesis
  proof cases
    case zero
    then show ?thesis using tail body by (simp add: from_byte_array_def Let_def)
  next
    case one
    then have d: "drop ?c s = [s ! (length s - 1)]" "0 < length s"
      using Cons_nth_drop_Suc [of ?c s] by (auto simp: Suc_diff_Suc intro: Nat.gr0I)
    show ?thesis using d(1) body tail by (simp add: from_byte_array_def one Let_def)
  next
    case two
    then have "2 \<le> length s" by (metis mod_less_eq_dividend)
    then have d: "drop ?c s = [s ! (length s - 2), s ! (length s - 1)]"
      using two Cons_nth_drop_Suc [of ?c s] Cons_nth_drop_Suc [of "Suc ?c" s]
      by (simp add: Suc_diff_Suc numeral_2_eq_2)
    show ?thesis using d body tail by (simp add: from_byte_array_def two Let_def)
  qed
qed

section \<open>Decoding what was encoded\<close>

lemma encode_split:
  obtains p q where "s = p @ q" "3 dvd length p" "length q < 3" "encode s = triples p @ encode q"
proof -
  let ?c = "length s - length s mod 3"
  have "3 dvd length (take ?c s)" by (simp add: minus_mod_eq_mult_div)
  then show thesis
    using that [of "take ?c s" "drop ?c s"] encode_append [of "take ?c s" "drop ?c s"] by simp
qed

lemma triplet_codes: "length (triplet a b c) = 4" "pad \<notin> set (triplet a b c)"
  "set (triplet a b c) \<subseteq> set alphabet"
proof -
  have u: "(unat a * 65536 + unat b * 256 + unat c) div 262144 < 64"
    using byte_less [of a] byte_less [of b] byte_less [of c]
    by (intro less_mult_imp_div_less) linarith
  show "length (triplet a b c) = 4" by (simp add: triplet_simps Let_def)
  show "pad \<notin> set (triplet a b c)"
    using symbol_facts(2) u by (auto simp: triplet_simps Let_def dest: sym)
  show "set (triplet a b c) \<subseteq> set alphabet"
    using symbol_facts(3) u by (auto simp: triplet_simps Let_def)
qed

lemma triples_codes:
  "length (triples p) = 4 * (length p div 3)" "pad \<notin> set (triples p)"
  "set (triples p) \<subseteq> set alphabet"
  using triplet_codes by (induction p rule: triples.induct) (auto simp: div_add_self1)

lemma decode_quads_0 [simp]: "decode_quads 0 t = ([], t)"
  by (cases "(0 :: nat, t)" rule: decode_quads.cases) auto

lemma decode_triples:
  "3 dvd length p \<Longrightarrow> l \<le> length (triples p) \<Longrightarrow> length (triples p) < l + 4 \<Longrightarrow>
     decode_quads l (triples p @ t) = (p, t)"
proof (induction p arbitrary: l rule: triples.induct)
  case (1 a b c s)
  then have l: "0 < l" by (simp add: triplet_codes)
  have "decode_quads (l - 4) (triples s @ t) = (s, t)"
    using 1 by (intro "1.IH") (auto simp: triplet_codes)
  then show ?case using decode_triplet [OF l] by simp
qed (auto dest: dvd_imp_le)

lemma tail_one_decodes:
  "decode_tail 2 (tail_one a) = [a]" "takeWhile (\<lambda>c. c \<noteq> pad) (tail_one a) = take 2 (tail_one a)"
  "set (take 2 (tail_one a)) \<subseteq> set alphabet"
proof -
  have lt: "unat a div 4 < 64" "unat a * 16 mod 64 < 64"
    using byte_less [of a] by (auto intro!: less_mult_imp_div_less)
  have low: "unat a * 16 mod 64 div 16 = unat a mod 4"
    using mod_mult_mult2 [of "unat a" 16 4] by simp
  have "push_bit 2 (unat a div 4) OR unat a mod 4 = unat a"
    using or_push [of "unat a mod 4" 2 "unat a div 4"] by simp
  then show "decode_tail 2 (tail_one a) = [a]"
    using lt low by (simp add: tail_one_def drop_bit_eq_div push_bit_eq_mult [of 4] and_63 symbol_facts(1) and_255)
  show "takeWhile (\<lambda>c. c \<noteq> pad) (tail_one a) = take 2 (tail_one a)"
    "set (take 2 (tail_one a)) \<subseteq> set alphabet"
    using lt symbol_facts(2,3)
    by (auto simp: tail_one_def drop_bit_eq_div push_bit_eq_mult and_63)
qed

lemma tail_two_decodes:
  "decode_tail 1 (tail_two a b) = [a, b]"
  "takeWhile (\<lambda>c. c \<noteq> pad) (tail_two a b) = take 3 (tail_two a b)"
  "set (take 3 (tail_two a b)) \<subseteq> set alphabet"
proof -
  define v where "v = unat a * 256 + unat b"
  have t: "tail_two a b = [symbol (v div 1024), symbol (v div 16 mod 64), symbol (v * 4 mod 64), pad]"
    by (simp add: tail_two_def Let_def drop_bit_eq_div push_bit_eq_mult and_63 v_def)
  have lt: "v div 1024 < 64"
    unfolding v_def using byte_less [of a] byte_less [of b]
    by (intro less_mult_imp_div_less) linarith
  have low: "v * 4 mod 64 div 4 = v mod 16"
    using mod_mult_mult2 [of v 4 16] by simp
  have d: "v div 16 div 64 = v div 1024" by (simp add: div_mult2_eq [symmetric])
  have "64 * (v div 16 div 64) + v div 16 mod 64 = v div 16" "16 * (v div 16) + v mod 16 = v"
    by simp_all
  then have whole: "v div 1024 * 1024 + (v div 16 mod 64 * 16 + v mod 16) = v"
    unfolding d by linarith
  have "push_bit 4 (v div 16 mod 64) OR v mod 16 = v div 16 mod 64 * 16 + v mod 16"
    using or_push [of "v mod 16" 4] by simp
  moreover have "push_bit 10 (v div 1024) OR (v div 16 mod 64 * 16 + v mod 16)
      = v div 1024 * 1024 + (v div 16 mod 64 * 16 + v mod 16)"
  proof -
    have "v div 16 mod 64 < 64" "v mod 16 < 16" by simp_all
    then have "v div 16 mod 64 * 16 + v mod 16 < 2 ^ 10" by simp
    from or_push [OF this, of "v div 1024"] show ?thesis by simp
  qed
  moreover have "sextet (symbol (v div 1024)) = v div 1024"
    "sextet (symbol (v div 16 mod 64)) = v div 16 mod 64"
    "sextet (symbol (v * 4 mod 64)) = v * 4 mod 64"
    using lt by (simp_all only: symbol_facts(1) mod_less_divisor zero_less_numeral)
  ultimately have val: "push_bit 10 (sextet (symbol (v div 1024)))
      OR push_bit 4 (sextet (symbol (v div 16 mod 64)))
      OR drop_bit 2 (sextet (symbol (v * 4 mod 64))) = v"
    using low whole by (simp only: drop_bit_eq_div) simp
  have "v div 256 mod 256 = unat a" "v mod 256 = unat b"
    using bytes_of_three(2,3) [of "unat a" "unat b" 0] by (simp_all add: v_def)
  then show "decode_tail 1 (tail_two a b) = [a, b]"
    by (simp add: t val Let_def and_255) (simp add: drop_bit_eq_div)
  show "takeWhile (\<lambda>c. c \<noteq> pad) (tail_two a b) = take 3 (tail_two a b)"
    "set (take 3 (tail_two a b)) \<subseteq> set alphabet"
    using lt symbol_facts(2,3) by (auto simp: t numeral_3_eq_3)
qed

lemma takeWhile_codes:
  "pad \<notin> set c \<Longrightarrow> takeWhile (\<lambda>x. x \<noteq> pad) (c @ replicate x pad) = c"
  by (subst takeWhile_append2) (cases x, auto)

lemma pad_count:
  assumes "l + x = 4 * n" "x < (3 :: nat)"
  shows "x = (if l mod 4 = 0 then 0 else 4 - l mod 4)"
proof (cases "x = 0")
  case True
  then show ?thesis using assms by simp
next
  case False
  obtain m where "n = Suc m" using assms False by (cases n) auto
  moreover have x: "x = 1 \<or> x = 2" using False assms(2) by linarith
  ultimately have "l = 4 - x + 4 * m" using assms(1) by auto
  then have "l mod 4 = 4 - x" using x by (simp only: mod_mult_self2) auto
  then show ?thesis using False assms(2) by simp
qed

lemma lens_shape:
  assumes "pad \<notin> set c" "length c + x = 4 * n" "x < 3"
  shows "get_lens (c @ replicate x pad) = Inr (length c, x)"
    and "byte_length (c @ replicate x pad) = Inr (3 * int n - int x)"
proof -
  show lens: "get_lens (c @ replicate x pad) = Inr (length c, x)"
    using assms(1,2) pad_count [OF assms(2,3)]
    by (auto simp: get_lens_def takeWhile_codes Let_def split: if_splits)
  have "int (length c) + int x = 4 * int n" using assms(2) by linarith
  then show "byte_length (c @ replicate x pad) = Inr (3 * int n - int x)"
    by (simp add: byte_length_def lens)
qed

text \<open>A padded string of the right length decodes to what its quanta hold.\<close>

lemma decode_shape:
  assumes "pad \<notin> set c" "length c + x = 4 * n" "x < 3"
    and "decode_quads (if x > 0 then length c - 4 else length c) (c @ replicate x pad) = (out, rest)"
    and "length (out @ decode_tail x rest) + x = 3 * n"
  shows "to_byte_array (c @ replicate x pad) = Inr (out @ decode_tail x rest)"
proof -
  have "3 * int n - int x = int (length (out @ decode_tail x rest))"
    using assms(5) by linarith
  then show ?thesis
    using assms(4) lens_shape [OF assms(1-3)] by (simp add: to_byte_array_def fit_def)
qed

text \<open>The codes before the padding, and how many pads complete them.\<close>

lemma encode_shape:
  obtains c x n where "encode s = c @ replicate x pad" "set c \<subseteq> set alphabet" "pad \<notin> set c"
    "length c + x = 4 * n" "x < 3" "length s + x = 3 * n"
    "\<exists>out rest. decode_quads (if x > 0 then length c - 4 else length c) (encode s) = (out, rest)
       \<and> out @ decode_tail x rest = s"
proof -
  obtain p q where s: "s = p @ q" "3 dvd length p" "length q < 3" "encode s = triples p @ encode q"
    by (rule encode_split)
  let ?n = "length p div 3"
  have n: "length p = 3 * ?n" using s(2) by simp
  have np: "pad \<notin> set alphabet" by code_simp
  consider (zero) "q = []" | (one) a where "q = [a]" | (two) a b where "q = [a, b]"
    using s(3) by (cases q rule: encode.cases) auto
  then show thesis
  proof cases
    case zero
    have "decode_quads (4 * ?n) (triples p @ []) = (p, [])"
      using decode_triples [OF s(2), of "4 * ?n" "[]"] triples_codes(1) [of p] by simp
    then show thesis using n s triples_codes [of p]
      by (intro that [of "triples p" 0 ?n]) (simp_all add: zero)
  next
    case (one a)
    have "decode_quads (4 * ?n + 2 - 4) (triples p @ tail_one a) = (p, tail_one a)"
      using decode_triples [OF s(2), of "4 * ?n + 2 - 4" "tail_one a"] triples_codes(1) [of p] by simp
    moreover have "tail_one a = take 2 (tail_one a) @ replicate 2 pad"
      by (simp add: tail_one_def numeral_2_eq_2)
    ultimately show thesis
      using n s triples_codes [of p] tail_one_decodes [of a] np
      by (intro that [of "triples p @ take 2 (tail_one a)" 2 "Suc ?n"])
        (auto simp: one tail_one_def numeral_2_eq_2)
  next
    case (two a b)
    have "decode_quads (4 * ?n + 3 - 4) (triples p @ tail_two a b) = (p, tail_two a b)"
      using decode_triples [OF s(2), of "4 * ?n + 3 - 4" "tail_two a b"] triples_codes(1) [of p] by simp
    moreover have "tail_two a b = take 3 (tail_two a b) @ replicate 1 pad"
      by (simp add: tail_two_def Let_def numeral_3_eq_3)
    moreover have "length (tail_two a b) = 4" by (simp add: tail_two_def Let_def)
    ultimately show thesis
      using n s triples_codes [of p] tail_two_decodes [of a b] np
      by (intro that [of "triples p @ take 3 (tail_two a b)" 1 "Suc ?n"]) (auto simp: two)
  qed
qed

lemma decode_encode: "to_byte_array (encode s) = Inr s"
proof -
  obtain c x n where e: "encode s = c @ replicate x pad" "pad \<notin> set c" "length c + x = 4 * n" "x < 3"
      "length s + x = 3 * n"
      "\<exists>out rest. decode_quads (if x > 0 then length c - 4 else length c) (encode s) = (out, rest)
         \<and> out @ decode_tail x rest = s"
    by (rule encode_shape [of s]) metis
  then show ?thesis using decode_shape [of c x n] by metis
qed

text \<open>Decoding reads a code through its sextet only.\<close>

lemma decode_quads_sextets:
  "map sextet s = map sextet t \<Longrightarrow>
     fst (decode_quads l s) = fst (decode_quads l t)
     \<and> map sextet (snd (decode_quads l s)) = map sextet (snd (decode_quads l t))"
proof (induction l s arbitrary: t rule: decode_quads.induct)
  case (1 l a b c d s)
  from 1(2) obtain a' b' c' d' t' where t: "t = a' # b' # c' # d' # t'" "map sextet s = map sextet t'"
      "sextet a' = sextet a" "sextet b' = sextet b" "sextet c' = sextet c" "sextet d' = sextet d"
    by (auto simp: map_eq_Cons_conv Cons_eq_map_conv)
  then show ?case
    using "1.IH" [OF _ refl, of t'] by (auto simp: quad_value_def Let_def split: prod.splits)
qed (auto simp: Cons_eq_map_conv)

lemma decode_tail_sextets: "map sextet s = map sextet t \<Longrightarrow> decode_tail x s = decode_tail x t"
  by (induction x s rule: decode_tail.induct) (auto simp: Cons_eq_map_conv)

text \<open>The URL-safe alphabet.\<close>

definition url_safe :: "nat \<Rightarrow> nat" where
  "url_safe c = (if c = 43 then 45 else if c = 47 then 95 else c)"

lemma url_safe_facts:
  "c \<in> set alphabet \<Longrightarrow> sextet (url_safe c) = sextet c"
  "c \<in> set alphabet \<Longrightarrow> url_safe c \<noteq> pad"
proof -
  have "symbol 62 = 43" "symbol 63 = 47" by code_simp+
  then have "sextet 43 = 62" "sextet 47 = 63"
    using symbol_facts(1) [of 62] symbol_facts(1) [of 63] by simp_all
  moreover have "sextet 45 = 62" "sextet 95 = 63" by (simp_all add: sextet_def)
  ultimately show "c \<in> set alphabet \<Longrightarrow> sextet (url_safe c) = sextet c"
    by (simp add: url_safe_def)
  have "\<forall>c \<in> set alphabet. url_safe c \<noteq> pad" by code_simp
  then show "c \<in> set alphabet \<Longrightarrow> url_safe c \<noteq> pad" by blast
qed

section \<open>Properties\<close>

text \<open>
  C38. Base64 loses nothing: decoding the encoding of any byte array gives the array back, with
  no error, whatever its length modulo three.
\<close>

theorem base64_round_trip: "to_byte_array (from_byte_array s) = Inr s"
  by (simp only: from_byte_array_encode decode_encode)

text \<open>
  C39. Working in chunks of 16383 bytes makes no difference: the two nested loops terminate and
  compute the plain triple-by-triple encoding, whose length is four codes for every three bytes
  or part of them, and \<open>byteLength\<close> predicts the size of the array from the string.
\<close>

theorem chunked_encoding_is_plain:
  "from_byte_array s = encode s \<and> length (from_byte_array s) = 4 * ((length s + 2) div 3)
   \<and> byte_length (from_byte_array s) = Inr (int (length s))"
proof -
  obtain c x n where e: "encode s = c @ replicate x pad" "pad \<notin> set c" "length c + x = 4 * n" "x < 3"
      "length s + x = 3 * n"
    by (rule encode_shape [of s]) metis
  have "3 * int n - int x = int (length s)" using e(5) by linarith
  moreover have "length s + 2 = (2 - x) + 3 * n" using e(4,5) by linarith
  then have "(length s + 2) div 3 = n" using e(4) by (simp only: div_mult_self2)
  ultimately show ?thesis
    using lens_shape(2) [OF e(2-4)] e(1,3) by (simp add: from_byte_array_encode)
qed

text \<open>
  The lenient decoder of the buffer accepts every common spelling of an encoding: without
  padding, with line breaks or other foreign characters anywhere, in the standard or in the
  URL-safe alphabet.  Whatever is left of the padding-free part after cleaning decides.
\<close>

theorem cleaned_base64_decodes:
  assumes "filter base64_code (takeWhile (\<lambda>c. c \<noteq> pad) t)
    \<in> {takeWhile (\<lambda>c. c \<noteq> pad) (from_byte_array s),
       map url_safe (takeWhile (\<lambda>c. c \<noteq> pad) (from_byte_array s))}"
  shows "base64_to_bytes t = Inr s"
proof -
  obtain c x n out rest where e: "encode s = c @ replicate x pad" "set c \<subseteq> set alphabet" "pad \<notin> set c"
      "length c + x = 4 * n" "x < 3" "length s + x = 3 * n"
      "decode_quads (if x > 0 then length c - 4 else length c) (encode s) = (out, rest)"
      "out @ decode_tail x rest = s"
    by (rule encode_shape [of s]) metis
  define d where "d = filter base64_code (takeWhile (\<lambda>c. c \<noteq> pad) t)"
  have "takeWhile (\<lambda>c. c \<noteq> pad) (from_byte_array s) = c"
    using e(1,3) by (simp add: from_byte_array_encode takeWhile_codes)
  then have "d = c \<or> d = map url_safe c" using assms by (simp add: d_def)
  moreover have "\<forall>y \<in> set c. sextet (url_safe y) = sextet y" "pad \<notin> url_safe ` set c"
    using e(2) url_safe_facts by (blast, metis imageE subsetD)
  ultimately have d: "length d = length c" "pad \<notin> set d" "map sextet d = map sextet c"
    using e(3) by auto
  show ?thesis
  proof (cases "c = []")
    case True
    then have "s = []" "d = []" using e d(1) by auto
    then show ?thesis by (simp add: base64_to_bytes_def base64_clean_def to_byte_array_def
          get_lens_def byte_length_def fit_def flip: d_def)
  next
    case False
    then have "\<not> length c < 2" using e(4,5) by (cases n) auto
    then have clean: "base64_clean t = d @ replicate x pad"
      using d(1) pad_count [OF e(4,5)] by (simp add: base64_clean_def Let_def flip: d_def)
    obtain out' rest' where q: "decode_quads (if x > 0 then length d - 4 else length d)
        (d @ replicate x pad) = (out', rest')" by (meson surj_pair)
    have "map sextet (d @ replicate x pad) = map sextet (c @ replicate x pad)" using d(3) by simp
    from decode_quads_sextets [OF this, of "if x > 0 then length d - 4 else length d"]
    have "out' = out" "map sextet rest' = map sextet rest" using q e(1,7) d(1) by auto
    then have "out' @ decode_tail x rest' = s" using e(8) decode_tail_sextets by metis
    then show ?thesis
      using decode_shape [of d x n out' rest'] d e q by (simp add: base64_to_bytes_def clean)
  qed
qed

text \<open>The bytes 251, 255 encode to \<open>+/8=\<close>; \<open>-_\<close>, a line break and \<open>8\<close> decode to them.\<close>

theorem cleaned_base64_decodes_witness:
  "from_byte_array [251, 255] = [43, 47, 56, 61]
   \<and> base64_to_bytes [45, 95, 10, 56] = Inr [251, 255 :: byte]"
proof -
  have enc: "from_byte_array [251, 255] = [43, 47, 56, 61]"
    by (simp add: from_byte_array_encode tail_two_def Let_def symbol_def alphabet_def pad_def)
  have "filter base64_code (takeWhile (\<lambda>c. c \<noteq> pad) [45, 95, 10, 56])
      = map url_safe (takeWhile (\<lambda>c. c \<noteq> pad) (from_byte_array [251, 255]))"
    unfolding enc by code_simp
  then show ?thesis using enc cleaned_base64_decodes [of "[45, 95, 10, 56]" "[251, 255]"] by simp
qed

end
