(* ===== verification/Utf8.thy ===== *)
theory Utf8
  imports Base64
begin

text \<open>
  The UTF-8 codec of the same bundle: \<open>utf8ToBytes\<close> and \<open>utf8Slice\<close> of its buffer module 48287.
  A string is the list of its UTF-16 code units, 16-bit words; code points are numbers.
\<close>

section \<open>From code units to bytes\<close>

text \<open>
  The room left (\<open>o = o || 1/0\<close>): None is \<open>Infinity\<close>, and so is 0.  \<open>(o -= n) > -1\<close> is
  \<open>enough (spend n room)\<close>.
\<close>

definition room_of :: "int option \<Rightarrow> int option" where
  "room_of units = (if units = Some 0 then None else units)"

definition spend :: "int \<Rightarrow> int option \<Rightarrow> int option" where
  "spend n room = map_option (\<lambda>r. r - n) room"

definition enough :: "int option \<Rightarrow> bool" where
  "enough room = (case room of None \<Rightarrow> True | Some r \<Rightarrow> - 1 < r)"

text \<open>\<open>(o -= 3) > -1 && _.push(239, 191, 189)\<close>\<close>

definition replaced :: "int option \<Rightarrow> byte list" where
  "replaced room = (if enough (spend 3 room) then [239, 191, 189] else [])"

text \<open>
  The four branches by size: \<open>i\<close>; \<open>i >> 6 | 192, 63 & i | 128\<close>;
  \<open>i >> 12 | 224, i >> 6 & 63 | 128, 63 & i | 128\<close>;
  \<open>i >> 18 | 240, i >> 12 & 63 | 128, i >> 6 & 63 | 128, 63 & i | 128\<close>.
\<close>

definition code_bytes :: "nat \<Rightarrow> byte list" where
  "code_bytes i =
     (if i < 128 then [store i]
      else if i < 2048 then [store (drop_bit 6 i OR 192), store ((63 AND i) OR 128)]
      else if i < 65536 then
        [store (drop_bit 12 i OR 224), store ((drop_bit 6 i AND 63) OR 128), store ((63 AND i) OR 128)]
      else
        [store (drop_bit 18 i OR 240), store ((drop_bit 12 i AND 63) OR 128),
         store ((drop_bit 6 i AND 63) OR 128), store ((63 AND i) OR 128)])"

definition is_surrogate :: "nat \<Rightarrow> bool" where
  "is_surrogate i \<longleftrightarrow> 55295 < i \<and> i < 57344"

definition pair_code :: "nat \<Rightarrow> nat \<Rightarrow> nat" where
  "pair_code u i = 65536 + (push_bit 10 (u - 55296) OR (i - 56320))"

text \<open>
  The loop over the units, with the pending lead surrogate \<open>u\<close>.  A lone trail, a lead at the
  end and a lead before something else become U+FFFD; running out of room breaks the loop.
  (\<open>throw new Error("Invalid code point")\<close> cannot be reached: \<open>pair_code\<close> stays below 1114112.)
\<close>

fun utf8_loop :: "int option \<Rightarrow> nat option \<Rightarrow> 16 word list \<Rightarrow> byte list" where
  "utf8_loop room u [] = []"
| "utf8_loop room u (w # s) =
     (let i = unat w;
          put = (\<lambda>r c. let bs = code_bytes c; r' = spend (int (length bs)) r
                 in if enough r' then bs @ utf8_loop r' None s else [])
      in if is_surrogate i then
           (case u of
              None \<Rightarrow>
                if i > 56319 \<or> s = [] then replaced room @ utf8_loop (spend 3 room) None s
                else utf8_loop room (Some i) s
            | Some l \<Rightarrow>
                if i < 56320 then replaced room @ utf8_loop (spend 3 room) (Some i) s
                else put room (pair_code l i))
         else (case u of
              None \<Rightarrow> put room i
            | Some _ \<Rightarrow> replaced room @ put (spend 3 room) i))"

definition utf8_to_bytes :: "16 word list \<Rightarrow> int option \<Rightarrow> byte list" where
  "utf8_to_bytes s units = utf8_loop (room_of units) None s"

section \<open>From bytes to code units\<close>

text \<open>\<open>w = o > 239 ? 4 : o > 223 ? 3 : o > 191 ? 2 : 1\<close>\<close>

definition lead_size :: "nat \<Rightarrow> nat" where
  "lead_size b = (if b > 239 then 4 else if b > 223 then 3 else if b > 191 then 2 else 1)"

definition trails :: "nat list \<Rightarrow> bool" where
  "trails bs = list_all (\<lambda>b. 192 AND b = 128) bs"

text \<open>The \<open>switch (w)\<close>: a code point, or None for a truncated, overlong or forbidden sequence.\<close>

fun code_at :: "nat list \<Rightarrow> nat option" where
  "code_at [b] = (if b < 128 then Some b else None)"
| "code_at [b, c] =
     (let v = push_bit 6 (31 AND b) OR (63 AND c)
      in if trails [c] \<and> v > 127 then Some v else None)"
| "code_at [b, c, d] =
     (let v = push_bit 12 (15 AND b) OR push_bit 6 (63 AND c) OR (63 AND d)
      in if trails [c, d] \<and> v > 2047 \<and> (v < 55296 \<or> v > 57343) then Some v else None)"
| "code_at [b, c, d, f] =
     (let v = push_bit 18 (15 AND b) OR push_bit 12 (63 AND c) OR push_bit 6 (63 AND d) OR (63 AND f)
      in if trails [c, d, f] \<and> v > 65535 \<and> v < 1114112 then Some v else None)"
| "code_at bs = None"

text \<open>\<open>_ > 65535 && (_ -= 65536, a.push(_ >>> 10 & 1023 | 55296), _ = 56320 | 1023 & _), a.push(_)\<close>\<close>

definition code_units :: "nat \<Rightarrow> 16 word list" where
  "code_units v =
     (if v > 65535
      then [of_nat ((drop_bit 10 (v - 65536) AND 1023) OR 55296), of_nat (56320 OR (1023 AND (v - 65536)))]
      else [of_nat v])"

function utf8_slice :: "byte list \<Rightarrow> 16 word list" where
  "utf8_slice [] = []"
| "utf8_slice (b # bs) =
     (let w = lead_size (unat b);
          code = (if w \<le> length (b # bs) then code_at (map unat (take w (b # bs))) else None)
      in case code of
           None \<Rightarrow> of_nat 65533 # utf8_slice bs
         | Some v \<Rightarrow> code_units v @ utf8_slice (drop (w - 1) bs))"
  by pat_completeness auto

termination
  by (relation "measure length") auto

section \<open>One code point\<close>

lemma or_high:
  "k < 64 \<Longrightarrow> k OR 128 = 128 + k" "k < 32 \<Longrightarrow> k OR 192 = 192 + k"
  "k < 16 \<Longrightarrow> k OR 224 = 224 + k" "k < 8 \<Longrightarrow> k OR 240 = 240 + k" for k :: nat
proof -
  have "k OR push_bit n x = x * 2 ^ n + k" if "k < 2 ^ n" for n x
    using or_push [OF that, of x] by (simp only: or.commute)
  from this [of 6 2] this [of 5 6] this [of 4 14] this [of 3 30]
  show "k < 64 \<Longrightarrow> k OR 128 = 128 + k" "k < 32 \<Longrightarrow> k OR 192 = 192 + k"
    "k < 16 \<Longrightarrow> k OR 224 = 224 + k" "k < 8 \<Longrightarrow> k OR 240 = 240 + k"
    by simp_all
qed

lemma and_low:
  "15 AND n = n mod 16" "31 AND n = n mod 32" "1023 AND n = n mod 1024" "n AND 1023 = n mod 1024"
  for n :: nat
  using and_ones [of n 4] and_ones [of n 5] and_ones [of n 10] by (simp_all add: and.commute)

lemma trail_byte:
  fixes k :: nat
  assumes "k < 64"
  shows "192 AND (128 + k) = 128"
proof -
  have k: "take_bit 6 k = k" using assms by (simp add: take_bit_nat_eq_self)
  have "push_bit 6 m AND take_bit 6 k = 0" for m :: nat by (rule bit_eqI) (auto simp: bit_simps)
  from this [of 3] have "192 AND k = 0" by (simp add: k)
  moreover have "128 + k = 128 OR k" using or_push [of k 6 2] assms by (simp add: add.commute)
  moreover have "a AND (b OR c) = (a AND b) OR (a AND c)" for a b c :: nat
    by (rule bit_eqI) (auto simp: bit_simps)
  ultimately show ?thesis by simp
qed

lemma tag_mod:
  "k < 64 \<Longrightarrow> (128 + k) mod 64 = k" "k < 32 \<Longrightarrow> (192 + k) mod 32 = k"
  "k < 16 \<Longrightarrow> (224 + k) mod 16 = k" "k < 16 \<Longrightarrow> (240 + k) mod 16 = k" for k :: nat
  using mod_mult_self2 [of k 64 2] mod_mult_self2 [of k 32 6] mod_mult_self2 [of k 16 14]
    mod_mult_self2 [of k 16 15] by (simp_all add: add.commute)

lemma unat_store: "unat (store n) = n mod 256"
  by (simp add: store_def unsigned_of_nat take_bit_eq_mod)

lemma or_join:
  "c < 64 \<Longrightarrow> push_bit 6 b OR c = b * 64 + c"
  "c < 64 \<Longrightarrow> d < 64 \<Longrightarrow> push_bit 12 b OR push_bit 6 c OR d = b * 4096 + (c * 64 + d)"
  for b c d :: nat
proof -
  show 1: "push_bit 6 b OR c = b * 64 + c" if "c < 64" for b c :: nat
    using or_push [of c 6 b] that by simp
  assume "c < 64" "d < 64"
  then show "push_bit 12 b OR push_bit 6 c OR d = b * 4096 + (c * 64 + d)"
    using or_push [of "c * 64 + d" 12 b] by (simp add: 1)
qed

text \<open>The bytes of a code point, as numbers, and back.\<close>

lemma two_bytes:
  assumes "128 \<le> v" "v < 2048"
  shows "map unat (code_bytes v) = [192 + v div 64, 128 + v mod 64]"
    and "code_at [192 + v div 64, 128 + v mod 64] = Some v"
proof -
  have k: "v div 64 < 32" using assms(2) by (intro less_mult_imp_div_less) simp
  then show "map unat (code_bytes v) = [192 + v div 64, 128 + v mod 64]"
    using assms by (simp add: code_bytes_def drop_bit_eq_div and_63 or_high unat_store)
  have "31 AND (192 + v div 64) = v div 64" "63 AND (128 + v mod 64) = v mod 64"
    using k by (simp_all add: and_low and_63 tag_mod)
  then show "code_at [192 + v div 64, 128 + v mod 64] = Some v"
    using assms by (simp add: or_join trails_def trail_byte)
qed

lemma three_bytes:
  assumes "2048 \<le> v" "v < 65536" "\<not> is_surrogate v"
  shows "map unat (code_bytes v) = [224 + v div 4096, 128 + v div 64 mod 64, 128 + v mod 64]"
    and "code_at [224 + v div 4096, 128 + v div 64 mod 64, 128 + v mod 64] = Some v"
proof -
  have k: "v div 4096 < 16" using assms(2) by (intro less_mult_imp_div_less) simp
  then show "map unat (code_bytes v) = [224 + v div 4096, 128 + v div 64 mod 64, 128 + v mod 64]"
    using assms by (simp add: code_bytes_def drop_bit_eq_div and_63 or_high unat_store)
  have "15 AND (224 + v div 4096) = v div 4096" "63 AND (128 + v div 64 mod 64) = v div 64 mod 64"
    "63 AND (128 + v mod 64) = v mod 64"
    using k by (simp_all add: and_low and_63 tag_mod)
  moreover
  have "v div 4096 * 4096 + (v div 64 mod 64 * 64 + v mod 64) = v"
  proof -
    have "v div 4096 = v div 64 div 64" by (simp add: div_mult2_eq [symmetric])
    moreover have "64 * (v div 64 div 64) + v div 64 mod 64 = v div 64" "64 * (v div 64) + v mod 64 = v"
      by simp_all
    ultimately show ?thesis by linarith
  qed
  then have "push_bit 12 (v div 4096) OR push_bit 6 (v div 64 mod 64) OR v mod 64 = v"
    by (simp only: or_join(2) mod_less_divisor zero_less_numeral)
  ultimately show "code_at [224 + v div 4096, 128 + v div 64 mod 64, 128 + v mod 64] = Some v"
    using assms by (auto simp: trails_def trail_byte is_surrogate_def)
qed

lemma four_bytes:
  assumes "65536 \<le> v" "v < 1114112"
  shows "map unat (code_bytes v)
      = [240 + v div 262144, 128 + v div 4096 mod 64, 128 + v div 64 mod 64, 128 + v mod 64]"
    and "code_at [240 + v div 262144, 128 + v div 4096 mod 64, 128 + v div 64 mod 64, 128 + v mod 64]
      = Some v"
proof -
  have k: "v div 262144 < 5" using assms(2) by (intro less_mult_imp_div_less) simp
  then show "map unat (code_bytes v)
      = [240 + v div 262144, 128 + v div 4096 mod 64, 128 + v div 64 mod 64, 128 + v mod 64]"
    using assms by (simp add: code_bytes_def drop_bit_eq_div and_63 or_high unat_store)
  have "15 AND (240 + v div 262144) = v div 262144" "63 AND (128 + v div 4096 mod 64) = v div 4096 mod 64"
    "63 AND (128 + v div 64 mod 64) = v div 64 mod 64" "63 AND (128 + v mod 64) = v mod 64"
    using k by (simp_all add: and_low and_63 tag_mod)
  moreover have "push_bit 18 (v div 262144) OR push_bit 12 (v div 4096 mod 64)
      OR push_bit 6 (v div 64 mod 64) OR v mod 64 = v"
    by (simp only: join4 split4 mod_less_divisor zero_less_numeral)
  ultimately show "code_at [240 + v div 262144, 128 + v div 4096 mod 64, 128 + v div 64 mod 64,
      128 + v mod 64] = Some v"
    using assms by (simp add: trails_def trail_byte)
qed

lemma slice_step:
  assumes "map unat cs = b # ds" "lead_size b = Suc (length ds)" "code_at (b # ds) = Some v"
  shows "utf8_slice (cs @ bs) = code_units v @ utf8_slice bs"
proof -
  obtain c cs' where cs: "cs = c # cs'" "unat c = b" "map unat cs' = ds"
    using assms(1) by (cases cs) auto
  then have "length cs' = length ds" by auto
  then show ?thesis using assms(2,3) by (simp add: cs Let_def)
qed

lemma slice_code:
  assumes "v < 1114112" "\<not> is_surrogate v"
  shows "utf8_slice (code_bytes v @ bs) = code_units v @ utf8_slice bs"
proof -
  consider "v < 128" | "128 \<le> v" "v < 2048" | "2048 \<le> v" "v < 65536" | "65536 \<le> v" by linarith
  then show ?thesis
  proof cases
    case 1
    then show ?thesis
      by (intro slice_step) (auto simp: code_bytes_def unat_store lead_size_def)
  next
    case 2
    have "v div 64 < 32" "2 \<le> v div 64" using 2 by (auto intro: less_mult_imp_div_less)
    then have "lead_size (192 + v div 64) = 2" by (simp add: lead_size_def)
    then show ?thesis using two_bytes [OF 2] by (intro slice_step) auto
  next
    case 3
    have "v div 4096 < 16" using 3 by (intro less_mult_imp_div_less) simp
    then have "lead_size (224 + v div 4096) = 3" by (simp add: lead_size_def)
    then show ?thesis using three_bytes [OF 3 assms(2)] by (intro slice_step) auto
  next
    case 4
    have "lead_size (240 + v div 262144) = 4" by (simp add: lead_size_def)
    then show ?thesis using four_bytes [OF 4 assms(1)] by (intro slice_step) auto
  qed
qed

section \<open>Strings\<close>

text \<open>No lone surrogate: every lead is followed by a trail, every trail preceded by a lead.\<close>

fun well_formed :: "16 word list \<Rightarrow> bool" where
  "well_formed [] = True"
| "well_formed (w # s) =
     (if is_surrogate (unat w)
      then unat w < 56320 \<and> (case s of [] \<Rightarrow> False
        | x # t \<Rightarrow> is_surrogate (unat x) \<and> 56320 \<le> unat x \<and> well_formed t)
      else well_formed s)"

lemma unit_less: "unat (w :: 16 word) < 65536"
  using unsigned_less [of w, where 'a = nat] by simp

lemma pair_round_trip:
  fixes w x :: "16 word"
  assumes "is_surrogate (unat w)" "unat w < 56320" "is_surrogate (unat x)" "56320 \<le> unat x"
  defines "v \<equiv> pair_code (unat w) (unat x)"
  shows "65536 \<le> v" "v < 1114112" "code_units v = [w, x]"
proof -
  let ?h = "unat w - 55296" and ?l = "unat x - 56320"
  have b: "?h < 1024" "?l < 1024" using assms by (auto simp: is_surrogate_def)
  have v: "v = 65536 + (?h * 1024 + ?l)" using or_push [of ?l 10 ?h] b by (simp add: v_def pair_code_def)
  then show "65536 \<le> v" "v < 1114112" using b by simp_all
  have "(v - 65536) div 1024 = ?h" "(v - 65536) mod 1024 = ?l" using b by (simp_all add: v)
  moreover have "?h OR 55296 = 55296 + ?h" "56320 OR ?l = 56320 + ?l"
    using or_push [of ?h 10 54] or_push [of ?l 10 55] b by (simp_all add: or.commute)
  ultimately have "code_units v = [of_nat (55296 + ?h), of_nat (56320 + ?l)]"
    using b by (simp add: code_units_def v drop_bit_eq_div and_low)
  moreover have "55296 + ?h = unat w" "56320 + ?l = unat x" using assms by (auto simp: is_surrogate_def)
  ultimately show "code_units v = [w, x]" by simp
qed

lemma slice_loop: "well_formed s \<Longrightarrow> utf8_slice (utf8_loop None None s) = s"
proof (induction s rule: well_formed.induct)
  case 1
  then show ?case by simp
next
  case (2 w s)
  show ?case
  proof (cases "is_surrogate (unat w)")
    case False
    then show ?thesis
      using 2 slice_code [of "unat w"] unit_less [of w]
      by (simp add: spend_def enough_def code_units_def Let_def)
  next
    case True
    then obtain x t where s: "s = x # t" "is_surrogate (unat x)" "56320 \<le> unat x" "well_formed t"
        "unat w < 56320"
      using 2(3) by (auto split: list.splits)
    note pr = pair_round_trip [OF True s(5,2,3)]
    have "\<not> is_surrogate (pair_code (unat w) (unat x))" using pr(1) by (simp add: is_surrogate_def)
    then show ?thesis
      using 2(1) [OF True s(1) s(4)] slice_code [OF pr(2)] pr(3) True s
      by (simp add: spend_def enough_def Let_def)
  qed
qed

section \<open>Properties\<close>

text \<open>
  C40. Text survives the trip through bytes: a string without lone surrogates is given back
  exactly by decoding its UTF-8 encoding, for code points of every size, astral ones included.
\<close>

theorem utf8_round_trip:
  assumes "well_formed s"
  shows "utf8_slice (utf8_to_bytes s None) = s"
  using slice_loop [OF assms] by (simp add: utf8_to_bytes_def room_of_def)

text \<open>A letter of one byte, one of two, one of three, and a pair of surrogates.\<close>

theorem utf8_round_trip_witness:
  "utf8_slice (utf8_to_bytes [97, 233, 28797, 55357, 56832] None) = [97, 233, 28797, 55357, 56832]"
  by (rule utf8_round_trip) (simp add: is_surrogate_def)

end
