(* ===== verification/Notifications.thy ===== *)
theory Notifications
  imports Rows "HOL-Library.Product_Lexorder"
begin

text \<open>
  Push notifications for the command accounts (\<open>services/notifications.py\<close> and the handlers of
  \<open>routers/notifications.py\<close>): push devices, preferences, the notification outbox with its
  deduplication, one delivery batch of the worker, and the receipts a device sends back.

  The keyed hash, the sealing of a provider token (AES-GCM with a random nonce, in its Base64
  envelope) and SHA-256
  are fields of \<open>push_settings\<close>, beside the settings the code reads.
\<close>

section \<open>Rows\<close>

record push_device =
  pd_id :: ident
  pd_operator_id :: ident
  pd_installation_id_hash :: string
  pd_platform :: string
  pd_provider :: string
  pd_token_ciphertext :: string
  pd_provider_token_hash :: string
  pd_token_fingerprint :: string
  pd_app_id :: string
  pd_environment :: string
  pd_authorization_status :: string
  pd_route_priority :: int
  pd_app_version :: "string option"
  pd_status :: string
  pd_last_seen_at :: time
  pd_updated_at :: time
  pd_revoked_at :: "time option"
  pd_revoked_reason :: "string option"

record preference =
  np_id :: ident
  np_operator_id :: ident
  np_incident_id :: ident
  np_enabled :: bool
  np_minimum_priority :: string
  np_event_types :: "string list"
  np_quiet_hours :: "json option"
  np_revision :: int

record notification =
  nt_id :: ident
  nt_incident_id :: ident
  nt_recipient_operator_id :: ident
  nt_business_event_id :: string
  nt_dedupe_key :: string
  nt_event_type :: string
  nt_priority :: string
  nt_resource_type :: string
  nt_resource_id :: "ident option"
  nt_resource_revision :: "int option"
  nt_deep_link :: "string option"
  nt_title :: utext
  nt_body :: utext
  nt_payload :: json
  nt_status :: string
  nt_attempts :: int
  nt_run_after :: time
  nt_created_at :: time
  nt_expires_at :: time
  nt_sent_at :: "time option"
  nt_cancelled_at :: "time option"
  nt_last_error_code :: "string option"

record delivery =
  dl_id :: ident
  dl_notification_outbox_id :: ident
  dl_push_device_id :: ident
  dl_provider :: string
  dl_provider_message_id :: "string option"
  dl_status :: string
  dl_attempts :: int
  dl_provider_response :: "json option"
  dl_sent_at :: "time option"
  dl_delivered_at :: "time option"
  dl_clicked_at :: "time option"

record receipt =
  rc_id :: ident
  rc_notification_outbox_id :: ident
  rc_receipt_type :: string
  rc_installation_id_hash :: string
  rc_app_state :: "string option"
  rc_occurred_at :: time

record push_db = core_db +
  db_push_devices :: "push_device list"
  db_preferences :: "preference list"
  db_notifications :: "notification list"
  db_deliveries :: "delivery list"
  db_receipts :: "receipt list"

record push_settings =
  pc_enabled :: bool
  pc_provider_mode :: string
  pc_allowed_app_ids :: "string list"
  pc_allowed_providers :: "string list"
  pc_batch_size :: nat
  pc_ttl_seconds :: int
  pc_allowed_schemes :: "string list"
  pc_key_version :: string
  pc_hmac :: "string \<Rightarrow> string"
  pc_seal :: "nat \<Rightarrow> string \<Rightarrow> string \<Rightarrow> string"
  pc_sha256 :: "string \<Rightarrow> string"

section \<open>Helpers\<close>

text \<open>\<open>ORDER BY k\<close> and the first row, None when there is no row; the sort is stable.\<close>

definition first_by :: "('r \<Rightarrow> 'k :: linorder) \<Rightarrow> 'r list \<Rightarrow> 'r option" where
  "first_by k rows = first_of (sort_key k rows)"

text \<open>\<open>str(n)\<close>.\<close>

fun show_nat :: "nat \<Rightarrow> string" where
  "show_nat n = (if n < 10 then [char_of (48 + n)] else show_nat (n div 10) @ [char_of (48 + n mod 10)])"

declare show_nat.simps [simp del]

definition show_int :: "int \<Rightarrow> string" where
  "show_int i = (if i < 0 then ''-'' @ show_nat (nat (- i)) else show_nat (nat i))"

text \<open>A value in an f-string.\<close>

definition show_ident :: "ident option \<Rightarrow> string" where
  "show_ident x = (case x of None \<Rightarrow> ''None'' | Some s \<Rightarrow> s)"

definition show_revision :: "int option \<Rightarrow> string" where
  "show_revision x = (case x of None \<Rightarrow> ''None'' | Some i \<Rightarrow> show_int i)"

text \<open>
  \<open>urlparse(link).scheme\<close> on ASCII: control characters and spaces in front are dropped, tabs
  and newlines everywhere; a scheme is what stands before the first colon when it begins
  with a letter and consists of letters, digits and \<open>+-.\<close>, in lower case.
\<close>

definition is_letter :: "char \<Rightarrow> bool" where
  "is_letter c \<longleftrightarrow> (let n = (of_char c :: nat) in 65 \<le> n \<and> n \<le> 90 \<or> 97 \<le> n \<and> n \<le> 122)"

definition scheme_char :: "char \<Rightarrow> bool" where
  "scheme_char c \<longleftrightarrow> is_letter c \<or> (let n = (of_char c :: nat) in 48 \<le> n \<and> n \<le> 57) \<or> c \<in> set ''+-.''"

definition url_scheme :: "string \<Rightarrow> string" where
  "url_scheme link =
     (let url = filter (\<lambda>c. (of_char c :: nat) \<notin> {9, 10, 13})
            (dropWhile (\<lambda>c. (of_char c :: nat) \<le> 32) link);
          s = takeWhile (\<lambda>c. c \<noteq> CHR '':'') url
      in if s \<noteq> url \<and> s \<noteq> [] \<and> is_letter (hd s) \<and> list_all scheme_char s then lower s else [])"

definition require_operator_account :: "actor \<Rightarrow> api_error + unit" where
  "require_operator_account a =
     (if ac_subject_type a \<noteq> Account \<or> ac_role a \<notin> {''operator'', ''admin''}
      then Inl (ApiError 403 ''OPERATOR_ACCOUNT_REQUIRED'') else Inr ())"

section \<open>Push devices\<close>

record registration =
  rg_installation_id :: string
  rg_platform :: string
  rg_provider :: string
  rg_provider_token :: string
  rg_app_id :: string
  rg_environment :: string
  rg_authorization_status :: string
  rg_route_priority :: int
  rg_app_version :: "string option"

definition validate_registration :: "push_settings \<Rightarrow> registration \<Rightarrow> api_error + unit" where
  "validate_registration cfg p =
     (let provider = lower (rg_provider p);
          refused = Inl (ApiError 422 ''INVALID_PUSH_REGISTRATION'')
      in if provider \<notin> set (pc_allowed_providers cfg) then refused
         else if rg_app_id p \<notin> set (pc_allowed_app_ids cfg) then refused
         else if rg_platform p = ''ios'' \<and> provider \<noteq> ''apns'' then refused
         else if rg_platform p = ''android'' \<and> provider = ''apns'' then refused
         else Inr ())"

text \<open>\<open>_encrypt_token\<close>: the nonce is the \<open>k\<close>-th random one.\<close>

definition encrypt_token :: "push_settings \<Rightarrow> nat \<Rightarrow> ident \<Rightarrow> string \<Rightarrow> string \<Rightarrow> string" where
  "encrypt_token cfg k operator provider token =
     pc_seal cfg k (operator @ '':'' @ provider @ '':'' @ pc_key_version cfg) token"

text \<open>\<open>token_digest[-8:]\<close>\<close>

definition fingerprint :: "string \<Rightarrow> string" where
  "fingerprint digest = drop (length digest - 8) digest"

definition registered_as :: "push_settings \<Rightarrow> ident \<Rightarrow> registration \<Rightarrow> push_device \<Rightarrow> bool" where
  "registered_as cfg operator p d \<longleftrightarrow> pd_operator_id d = operator
     \<and> pd_provider d = lower (rg_provider p)
     \<and> (pd_installation_id_hash d = pc_hmac cfg (rg_installation_id p)
        \<or> pd_provider_token_hash d = pc_hmac cfg (rg_provider_token p))"

definition blank_device :: "env \<Rightarrow> nat \<Rightarrow> ident \<Rightarrow> string \<Rightarrow> push_device" where
  "blank_device e k operator provider =
     \<lparr>pd_id = new_id e k, pd_operator_id = operator, pd_installation_id_hash = [],
      pd_platform = [], pd_provider = provider, pd_token_ciphertext = [],
      pd_provider_token_hash = [], pd_token_fingerprint = [], pd_app_id = [],
      pd_environment = ''dev'', pd_authorization_status = ''authorized'', pd_route_priority = 1,
      pd_app_version = None, pd_status = ''active'', pd_last_seen_at = now e,
      pd_updated_at = now e, pd_revoked_at = None, pd_revoked_reason = None\<rparr>"

text \<open>
  Every column but the identity, the operator and the provider is written; \<open>updated_at\<close> moves
  with every update, and the new ciphertext makes each registration one.
\<close>

definition refresh_device ::
    "push_settings \<Rightarrow> env \<Rightarrow> string \<Rightarrow> registration \<Rightarrow> push_device \<Rightarrow> push_device" where
  "refresh_device cfg e ciphertext p d =
     (let token_digest = pc_hmac cfg (rg_provider_token p)
      in d\<lparr>pd_installation_id_hash := pc_hmac cfg (rg_installation_id p),
           pd_platform := rg_platform p, pd_token_ciphertext := ciphertext,
           pd_provider_token_hash := token_digest, pd_token_fingerprint := fingerprint token_digest,
           pd_app_id := rg_app_id p, pd_environment := rg_environment p,
           pd_authorization_status := rg_authorization_status p,
           pd_route_priority := rg_route_priority p, pd_app_version := rg_app_version p,
           pd_status := ''active'', pd_revoked_at := None, pd_revoked_reason := None,
           pd_last_seen_at := now e, pd_updated_at := now e\<rparr>)"

text \<open>The two unique constraints of the table.\<close>

definition token_key :: "push_device \<Rightarrow> ident \<times> string \<times> string" where
  "token_key d = (pd_operator_id d, pd_provider d, pd_provider_token_hash d)"

definition installation_key :: "push_device \<Rightarrow> ident \<times> string \<times> string" where
  "installation_key d = (pd_operator_id d, pd_installation_id_hash d, pd_provider d)"

definition devices_unique :: "push_device list \<Rightarrow> bool" where
  "devices_unique ds \<longleftrightarrow> distinct (map token_key ds) \<and> distinct (map installation_key ds)"

text \<open>
  The flush that ends the registration raises \<open>IntegrityError\<close> when a constraint is violated,
  which the handler of unexpected errors turns into a 500.
\<close>

definition register_push_device ::
    "push_settings \<Rightarrow> env \<Rightarrow> actor \<Rightarrow> registration \<Rightarrow> 'a push_db_scheme
      \<Rightarrow> api_error + ident \<times> 'a push_db_scheme" where
  "register_push_device cfg e a p db =
     (case require_operator_account a of Inl err \<Rightarrow> Inl err
      | Inr _ \<Rightarrow>
     (case validate_registration cfg p of Inl err \<Rightarrow> Inl err
      | Inr _ \<Rightarrow>
        let operator = ac_subject_id a;
            provider = lower (rg_provider p);
            k = id_count db;
            ciphertext = encrypt_token cfg k operator provider (rg_provider_token p);
            existing = first_by (\<lambda>d. - pd_updated_at d)
              (filter (registered_as cfg operator p) (db_push_devices db));
            i = (case existing of None \<Rightarrow> new_id e k | Some d \<Rightarrow> pd_id d);
            devices = (case existing of
                None \<Rightarrow> db_push_devices db
                  @ [refresh_device cfg e ciphertext p (blank_device e k operator provider)]
              | Some d \<Rightarrow> modify_where (\<lambda>x. pd_id x = pd_id d) (refresh_device cfg e ciphertext p)
                  (db_push_devices db))
        in if devices_unique devices
           then Inr (i, db\<lparr>db_push_devices := devices, id_count := Suc k\<rparr>)
           else Inl internal_error))"

definition post_my_push_device ::
    "push_settings \<Rightarrow> env \<Rightarrow> actor \<Rightarrow> string option \<Rightarrow> registration \<Rightarrow> 'a push_db_scheme
      \<Rightarrow> api_error + ident \<times> 'a push_db_scheme" where
  "post_my_push_device cfg e a rid p db =
     map_sum id (\<lambda>(i, db'). (i, record_audit e (Some a) None ''push_device.registered''
         ''push_device'' (Some i) rid db'))
       (register_push_device cfg e a p db)"

definition list_push_devices :: "actor \<Rightarrow> 'a push_db_scheme \<Rightarrow> api_error + push_device list" where
  "list_push_devices a db =
     map_sum id (\<lambda>_. sort_key (\<lambda>d. (pd_route_priority d, - pd_updated_at d))
         (filter (\<lambda>d. pd_operator_id d = ac_subject_id a) (db_push_devices db)))
       (require_operator_account a)"

definition revoke_push :: "env \<Rightarrow> string \<Rightarrow> push_device \<Rightarrow> push_device" where
  "revoke_push e reason d =
     (if pd_status d = ''revoked'' then d
      else d\<lparr>pd_status := ''revoked'', pd_revoked_at := Some (now e),
             pd_revoked_reason := Some reason, pd_updated_at := now e\<rparr>)"

definition revoke_push_device ::
    "env \<Rightarrow> actor \<Rightarrow> ident \<Rightarrow> string \<Rightarrow> 'a push_db_scheme \<Rightarrow> api_error + 'a push_db_scheme" where
  "revoke_push_device e a i reason db =
     (case require_operator_account a of Inl err \<Rightarrow> Inl err
      | Inr _ \<Rightarrow>
     (case find (\<lambda>d. pd_id d = i) (db_push_devices db) of
        None \<Rightarrow> Inl (ApiError 404 ''PUSH_DEVICE_NOT_FOUND'')
      | Some d \<Rightarrow>
          if pd_operator_id d \<noteq> ac_subject_id a then Inl (ApiError 404 ''PUSH_DEVICE_NOT_FOUND'')
          else Inr (db\<lparr>db_push_devices :=
            modify_where (\<lambda>x. pd_id x = i) (revoke_push e reason) (db_push_devices db)\<rparr>)))"

definition delete_my_push_device ::
    "env \<Rightarrow> actor \<Rightarrow> string option \<Rightarrow> ident \<Rightarrow> 'a push_db_scheme \<Rightarrow> api_error + 'a push_db_scheme" where
  "delete_my_push_device e a rid i db =
     map_sum id (record_audit e (Some a) None ''push_device.revoked'' ''push_device'' (Some i) rid)
       (revoke_push_device e a i ''client_revoked'' db)"

section \<open>Preferences\<close>

text \<open>
  The body of a patch: an absent field, or one that is null, leaves the column; only for the
  quiet hours null is a value (\<open>Some None\<close>).
\<close>

record preference_patch =
  pp_revision :: int
  pp_enabled :: "bool option"
  pp_minimum_priority :: "string option"
  pp_event_types :: "string list option"
  pp_quiet_hours :: "json option option"

definition find_preference :: "'a push_db_scheme \<Rightarrow> ident \<Rightarrow> ident \<Rightarrow> preference option" where
  "find_preference db operator iid =
     find (\<lambda>p. np_operator_id p = operator \<and> np_incident_id p = iid) (db_preferences db)"

definition get_preference ::
    "actor \<Rightarrow> ident \<Rightarrow> 'a push_db_scheme \<Rightarrow> api_error + preference option" where
  "get_preference a iid db =
     map_sum id (\<lambda>_. find_preference db (ac_subject_id a) iid) (require_operator_account a)"

definition patched :: "preference_patch \<Rightarrow> preference \<Rightarrow> preference" where
  "patched p n =
     n\<lparr>np_enabled := case_option (np_enabled n) id (pp_enabled p),
       np_minimum_priority := case_option (np_minimum_priority n) id (pp_minimum_priority p),
       np_event_types := case_option (np_event_types n) id (pp_event_types p),
       np_quiet_hours := case_option (np_quiet_hours n) id (pp_quiet_hours p),
       np_revision := np_revision n + 1\<rparr>"

definition default_preference :: "env \<Rightarrow> nat \<Rightarrow> ident \<Rightarrow> ident \<Rightarrow> preference" where
  "default_preference e k operator iid =
     \<lparr>np_id = new_id e k, np_operator_id = operator, np_incident_id = iid, np_enabled = True,
      np_minimum_priority = ''high'', np_event_types = [], np_quiet_hours = None,
      np_revision = 0\<rparr>"

definition patch_preference ::
    "env \<Rightarrow> actor \<Rightarrow> ident \<Rightarrow> preference_patch \<Rightarrow> 'a push_db_scheme
      \<Rightarrow> api_error + preference \<times> 'a push_db_scheme" where
  "patch_preference e a iid p db =
     (case get_preference a iid db of Inl err \<Rightarrow> Inl err
      | Inr found \<Rightarrow>
          if pp_revision p \<noteq> (case found of None \<Rightarrow> 0 | Some n \<Rightarrow> np_revision n)
          then Inl (conflict_error ''REVISION_CONFLICT'')
          else (case found of
             None \<Rightarrow> (let n = patched p (default_preference e (id_count db) (ac_subject_id a) iid)
                in Inr (n, db\<lparr>db_preferences := db_preferences db @ [n],
                             id_count := Suc (id_count db)\<rparr>))
           | Some n \<Rightarrow> Inr (patched p n, db\<lparr>db_preferences :=
                modify_where (\<lambda>x. np_id x = np_id n) (patched p) (db_preferences db)\<rparr>)))"

definition get_my_notification_preference ::
    "actor \<Rightarrow> ident option \<Rightarrow> ident \<Rightarrow> 'a push_db_scheme \<Rightarrow> api_error + preference option" where
  "get_my_notification_preference a header iid db =
     (case get_incident_by_id db iid of
        None \<Rightarrow> Inl (ApiError 404 ''INCIDENT_NOT_FOUND'')
      | Some inc \<Rightarrow>
     (case ensure_incident_access a (inc_id inc) header of Inl err \<Rightarrow> Inl err
      | Inr _ \<Rightarrow> get_preference a (inc_id inc) db))"

definition patch_my_notification_preference ::
    "env \<Rightarrow> actor \<Rightarrow> ident option \<Rightarrow> string option \<Rightarrow> ident \<Rightarrow> preference_patch \<Rightarrow> 'a push_db_scheme
      \<Rightarrow> api_error + preference \<times> 'a push_db_scheme" where
  "patch_my_notification_preference e a header rid iid p db =
     (case get_incident_by_id db iid of
        None \<Rightarrow> Inl (ApiError 404 ''INCIDENT_NOT_FOUND'')
      | Some inc \<Rightarrow>
     (case ensure_incident_access a (inc_id inc) header of Inl err \<Rightarrow> Inl err
      | Inr _ \<Rightarrow>
          map_sum id (\<lambda>(n, db'). (n, record_audit e (Some a) (Some (inc_id inc))
              ''notification_preference.updated'' ''notification_preference'' (Some (np_id n)) rid db'))
            (patch_preference e a (inc_id inc) p db)))"

section \<open>Enqueueing\<close>

text \<open>\<open>_PRIORITY_RANK\<close> with its default.\<close>

definition priority_rank :: "string \<Rightarrow> nat \<Rightarrow> nat" where
  "priority_rank p fallback =
     (if p = ''low'' then 1 else if p = ''medium'' then 2 else if p = ''high'' then 3 else fallback)"

definition preference_allows :: "preference option \<Rightarrow> string \<Rightarrow> string \<Rightarrow> bool" where
  "preference_allows preference event_type prio =
     (case preference of
        None \<Rightarrow> priority_rank ''high'' 3 \<le> priority_rank prio 0
      | Some p \<Rightarrow> np_enabled p \<and> (np_event_types p = [] \<or> event_type \<in> set (np_event_types p))
          \<and> priority_rank (np_minimum_priority p) 3 \<le> priority_rank prio 0)"

definition safe_deep_link :: "push_settings \<Rightarrow> string option \<Rightarrow> string option" where
  "safe_deep_link cfg link =
     (case link of None \<Rightarrow> None
      | Some l \<Rightarrow> if url_scheme l \<in> set (pc_allowed_schemes cfg) then Some (take 300 l) else None)"

record notice =
  nc_business_event_id :: string
  nc_event_type :: string
  nc_priority :: string
  nc_resource_type :: string
  nc_resource_id :: "ident option"
  nc_resource_revision :: "int option"
  nc_deep_link :: "string option"
  nc_title :: utext
  nc_body :: utext

definition dedupe_key :: "notice \<Rightarrow> string" where
  "dedupe_key n = nc_business_event_id n @ '':'' @ nc_event_type n @ '':'' @ nc_resource_type n
     @ '':'' @ show_ident (nc_resource_id n) @ '':'' @ show_revision (nc_resource_revision n)"

definition command_accounts :: "'a auth_db_scheme \<Rightarrow> ident \<Rightarrow> account list" where
  "command_accounts db iid =
     filter (\<lambda>a. list_ex (\<lambda>m. mb_account_id m = acc_id a \<and> mb_incident_id m = iid) (db_memberships db)
               \<and> acc_is_active a \<and> acc_role a \<in> {''operator'', ''admin''}) (db_accounts db)"

definition notification_row :: "push_settings \<Rightarrow> env \<Rightarrow> nat \<Rightarrow> ident \<Rightarrow> notice \<Rightarrow> ident \<Rightarrow> notification" where
  "notification_row cfg e k iid n recipient =
     \<lparr>nt_id = new_id e k, nt_incident_id = iid, nt_recipient_operator_id = recipient,
      nt_business_event_id = nc_business_event_id n, nt_dedupe_key = dedupe_key n,
      nt_event_type = nc_event_type n, nt_priority = nc_priority n,
      nt_resource_type = nc_resource_type n, nt_resource_id = nc_resource_id n,
      nt_resource_revision = nc_resource_revision n,
      nt_deep_link = safe_deep_link cfg (nc_deep_link n),
      nt_title = take 120 (nc_title n), nt_body = take 240 (nc_body n),
      nt_payload = JObj
        [(''schema_version'', JStr ''1''),
         (''business_event_id'', JStr (nc_business_event_id n)),
         (''event_type'', JStr (nc_event_type n)),
         (''resource_type'', JStr (nc_resource_type n)),
         (''resource_id'', (case nc_resource_id n of None \<Rightarrow> JNull | Some s \<Rightarrow> JStr s)),
         (''resource_revision'', (case nc_resource_revision n of None \<Rightarrow> JNull | Some r \<Rightarrow> JInt r))],
      nt_status = ''queued'', nt_attempts = 0, nt_run_after = now e, nt_created_at = now e,
      nt_expires_at = now e + seconds (pc_ttl_seconds cfg), nt_sent_at = None,
      nt_cancelled_at = None, nt_last_error_code = None\<rparr>"

definition find_notification :: "'a push_db_scheme \<Rightarrow> string \<Rightarrow> ident \<Rightarrow> notification option" where
  "find_notification db key recipient =
     find (\<lambda>n. nt_dedupe_key n = key \<and> nt_recipient_operator_id n = recipient) (db_notifications db)"

text \<open>The loop over the accounts; it returns the rows new and old, like the code.\<close>

fun notify_accounts ::
    "push_settings \<Rightarrow> env \<Rightarrow> ident \<Rightarrow> notice \<Rightarrow> account list \<Rightarrow> 'a push_db_scheme
      \<Rightarrow> notification list \<times> 'a push_db_scheme" where
  "notify_accounts cfg e iid n [] db = ([], db)"
| "notify_accounts cfg e iid n (a # as) db =
     (if \<not> preference_allows (find_preference db (acc_id a) iid) (nc_event_type n) (nc_priority n)
      then notify_accounts cfg e iid n as db
      else case find_notification db (dedupe_key n) (acc_id a) of
        Some old \<Rightarrow> map_prod ((#) old) id (notify_accounts cfg e iid n as db)
      | None \<Rightarrow>
          let row = notification_row cfg e (id_count db) iid n (acc_id a)
          in map_prod ((#) row) id (notify_accounts cfg e iid n as
               (db\<lparr>db_notifications := db_notifications db @ [row], id_count := Suc (id_count db)\<rparr>)))"

definition enqueue_operator_notifications ::
    "push_settings \<Rightarrow> env \<Rightarrow> ident \<Rightarrow> notice \<Rightarrow> 'a push_db_scheme
      \<Rightarrow> notification list \<times> 'a push_db_scheme" where
  "enqueue_operator_notifications cfg e iid n db =
     (if \<not> pc_enabled cfg then ([], db)
      else notify_accounts cfg e iid n (command_accounts db iid) db)"

section \<open>Delivery\<close>

definition push_payload :: "notification \<Rightarrow> json" where
  "push_payload n = JObj
     [(''notification'', JObj [(''title'', JText (nt_title n)), (''body'', JText (nt_body n))]),
      (''data'', JObj
        [(''schema_version'', JStr ''1''),
         (''notification_id'', JStr (nt_id n)),
         (''business_event_id'', JStr (nt_business_event_id n)),
         (''incident_id'', JStr (nt_incident_id n)),
         (''event_type'', JStr (nt_event_type n)),
         (''resource_type'', JStr (nt_resource_type n)),
         (''resource_id'', JStr (case nt_resource_id n of None \<Rightarrow> [] | Some s \<Rightarrow> s)),
         (''resource_revision'', JStr (case nt_resource_revision n of
             None \<Rightarrow> [] | Some r \<Rightarrow> if r = 0 then [] else show_int r)),
         (''deep_link'', JStr (case nt_deep_link n of None \<Rightarrow> [] | Some s \<Rightarrow> s))])]"

definition due :: "time \<Rightarrow> notification \<Rightarrow> bool" where
  "due t n \<longleftrightarrow> nt_status n \<in> {''queued'', ''retry''} \<and> nt_run_after n \<le> t \<and> t < nt_expires_at n"

definition reachable_device :: "ident \<Rightarrow> push_device \<Rightarrow> bool" where
  "reachable_device operator d \<longleftrightarrow> pd_operator_id d = operator \<and> pd_status d = ''active''
     \<and> pd_revoked_at d = None
     \<and> pd_authorization_status d \<in> {''authorized'', ''provisional'', ''ephemeral''}"

definition route :: "'a push_db_scheme \<Rightarrow> ident \<Rightarrow> push_device option" where
  "route db operator = first_by (\<lambda>d. (pd_route_priority d, - pd_last_seen_at d))
     (filter (reachable_device operator) (db_push_devices db))"

definition cancel_notification :: "env \<Rightarrow> notification \<Rightarrow> notification" where
  "cancel_notification e n =
     n\<lparr>nt_attempts := nt_attempts n + 1, nt_status := ''cancelled'', nt_cancelled_at := Some (now e),
       nt_last_error_code := Some ''PUSH_PROVIDER_DISABLED''\<rparr>"

definition without_device :: "notification \<Rightarrow> notification" where
  "without_device n =
     n\<lparr>nt_attempts := nt_attempts n + 1, nt_status := ''no_device'',
       nt_last_error_code := Some ''PUSH_DEVICE_NOT_REGISTERED''\<rparr>"

definition sent_notification :: "env \<Rightarrow> notification \<Rightarrow> notification" where
  "sent_notification e n =
     n\<lparr>nt_attempts := nt_attempts n + 1, nt_status := ''sent'', nt_sent_at := Some (now e),
       nt_last_error_code := None\<rparr>"

definition for_device :: "ident \<Rightarrow> ident \<Rightarrow> delivery \<Rightarrow> bool" where
  "for_device i device d \<longleftrightarrow> dl_notification_outbox_id d = i \<and> dl_push_device_id d = device"

definition accept_delivery ::
    "push_settings \<Rightarrow> env \<Rightarrow> notification \<Rightarrow> push_device \<Rightarrow> delivery \<Rightarrow> delivery" where
  "accept_delivery cfg e n device d =
     d\<lparr>dl_status := ''accepted'', dl_attempts := dl_attempts d + 1, dl_sent_at := Some (now e),
       dl_provider_message_id := Some (''mock-'' @ take 24 (pc_sha256 cfg (nt_id n @ pd_id device))),
       dl_provider_response := Some (JObj [(''mode'', JStr (pc_provider_mode cfg)),
                                           (''payload'', push_payload n)])\<rparr>"

definition new_delivery :: "env \<Rightarrow> nat \<Rightarrow> ident \<Rightarrow> push_device \<Rightarrow> delivery" where
  "new_delivery e k i device =
     \<lparr>dl_id = new_id e k, dl_notification_outbox_id = i, dl_push_device_id = pd_id device,
      dl_provider = pd_provider device, dl_provider_message_id = None, dl_status = ''queued'',
      dl_attempts = 0, dl_provider_response = None, dl_sent_at = None, dl_delivered_at = None,
      dl_clicked_at = None\<rparr>"

definition deliver_one ::
    "push_settings \<Rightarrow> env \<Rightarrow> notification \<Rightarrow> 'a push_db_scheme \<Rightarrow> 'a push_db_scheme" where
  "deliver_one cfg e n db =
     (let update = (\<lambda>f. modify_where (\<lambda>x. nt_id x = nt_id n) f (db_notifications db))
      in if \<not> pc_enabled cfg \<or> pc_provider_mode cfg = ''disabled''
         then db\<lparr>db_notifications := update (cancel_notification e)\<rparr>
         else case route db (nt_recipient_operator_id n) of
           None \<Rightarrow> db\<lparr>db_notifications := update without_device\<rparr>
         | Some device \<Rightarrow>
             let k = id_count db;
                 old = find (for_device (nt_id n) (pd_id device)) (db_deliveries db)
             in db\<lparr>db_notifications := update (sent_notification e),
                   db_deliveries := (case old of
                       None \<Rightarrow> db_deliveries db
                         @ [accept_delivery cfg e n device (new_delivery e k (nt_id n) device)]
                     | Some d \<Rightarrow> modify_where (\<lambda>x. dl_id x = dl_id d)
                         (accept_delivery cfg e n device) (db_deliveries db)),
                   id_count := (case old of None \<Rightarrow> Suc k | Some _ \<Rightarrow> k)\<rparr>)"

definition due_batch :: "push_settings \<Rightarrow> time \<Rightarrow> notification list \<Rightarrow> notification list" where
  "due_batch cfg t ns = take (pc_batch_size cfg)
     (sort_key (\<lambda>n. (nt_run_after n, nt_created_at n)) (filter (due t) ns))"

definition deliver_notifications_batch ::
    "push_settings \<Rightarrow> env \<Rightarrow> 'a push_db_scheme \<Rightarrow> nat \<times> 'a push_db_scheme" where
  "deliver_notifications_batch cfg e db =
     (let rows = due_batch cfg (now e) (db_notifications db)
      in (length rows, fold (deliver_one cfg e) rows db))"

section \<open>Receipts\<close>

record receipt_create =
  rq_receipt_type :: string
  rq_installation_id :: string
  rq_occurred_at :: time
  rq_app_state :: "string option"

definition note_receipt :: "string \<Rightarrow> time \<Rightarrow> delivery \<Rightarrow> delivery" where
  "note_receipt receipt_type t d =
     (if receipt_type \<in> {''delivered'', ''displayed''}
      then d\<lparr>dl_delivered_at := Some (case dl_delivered_at d of None \<Rightarrow> t | Some x \<Rightarrow> x)\<rparr>
      else if receipt_type = ''clicked''
      then d\<lparr>dl_clicked_at := Some (case dl_clicked_at d of None \<Rightarrow> t | Some x \<Rightarrow> x)\<rparr>
      else d)"

definition same_receipt :: "ident \<Rightarrow> string \<Rightarrow> string \<Rightarrow> receipt \<Rightarrow> bool" where
  "same_receipt i receipt_type digest r \<longleftrightarrow> rc_notification_outbox_id r = i
     \<and> rc_receipt_type r = receipt_type \<and> rc_installation_id_hash r = digest"

definition record_notification_receipt ::
    "push_settings \<Rightarrow> env \<Rightarrow> actor \<Rightarrow> ident \<Rightarrow> receipt_create \<Rightarrow> 'a push_db_scheme
      \<Rightarrow> api_error + receipt \<times> 'a push_db_scheme" where
  "record_notification_receipt cfg e a i p db =
     (case require_operator_account a of Inl err \<Rightarrow> Inl err
      | Inr _ \<Rightarrow>
     (case find (\<lambda>n. nt_id n = i) (db_notifications db) of
        None \<Rightarrow> Inl (ApiError 404 ''NOTIFICATION_NOT_FOUND'')
      | Some n \<Rightarrow>
     if nt_recipient_operator_id n \<noteq> ac_subject_id a
     then Inl (ApiError 404 ''NOTIFICATION_NOT_FOUND'')
     else let digest = pc_hmac cfg (rq_installation_id p) in
     (case find (same_receipt i (rq_receipt_type p) digest) (db_receipts db) of
        Some old \<Rightarrow> Inr (old, db)
      | None \<Rightarrow>
          let row = \<lparr>rc_id = new_id e (id_count db), rc_notification_outbox_id = i,
                     rc_receipt_type = rq_receipt_type p, rc_installation_id_hash = digest,
                     rc_app_state = rq_app_state p, rc_occurred_at = rq_occurred_at p\<rparr>;
              mine = (\<lambda>d. dl_notification_outbox_id d = i
                \<and> (\<exists>x \<in> set (db_push_devices db). pd_id x = dl_push_device_id d
                     \<and> pd_installation_id_hash x = digest))
          in Inr (row, db\<lparr>db_receipts := db_receipts db @ [row],
                id_count := Suc (id_count db),
                db_deliveries := (case find mine (db_deliveries db) of
                    None \<Rightarrow> db_deliveries db
                  | Some d \<Rightarrow> modify_where (\<lambda>x. dl_id x = dl_id d)
                      (note_receipt (rq_receipt_type p) (rq_occurred_at p)) (db_deliveries db))\<rparr>))))"

definition post_notification_receipt ::
    "push_settings \<Rightarrow> env \<Rightarrow> actor \<Rightarrow> ident option \<Rightarrow> string option \<Rightarrow> ident \<Rightarrow> receipt_create
      \<Rightarrow> 'a push_db_scheme \<Rightarrow> api_error + receipt \<times> 'a push_db_scheme" where
  "post_notification_receipt cfg e a header rid i p db =
     (case find (\<lambda>n. nt_id n = i) (db_notifications db) of
        None \<Rightarrow> Inl (ApiError 404 ''NOTIFICATION_NOT_FOUND'')
      | Some n \<Rightarrow>
     (case ensure_incident_access a (nt_incident_id n) header of Inl err \<Rightarrow> Inl err
      | Inr _ \<Rightarrow>
          map_sum id (\<lambda>(r, db'). (r, record_audit e (Some a) (Some (nt_incident_id n))
              ''notification.receipt_recorded'' ''notification'' (Some i) rid db'))
            (record_notification_receipt cfg e a i p db)))"

section \<open>The worker's batch\<close>

text \<open>What one delivery attempt makes of a notification for the operator \<open>r\<close>.\<close>

definition settle :: "push_settings \<Rightarrow> env \<Rightarrow> 'a push_db_scheme \<Rightarrow> ident \<Rightarrow> notification \<Rightarrow> notification" where
  "settle cfg e db r =
     (if \<not> pc_enabled cfg \<or> pc_provider_mode cfg = ''disabled'' then cancel_notification e
      else case route db r of None \<Rightarrow> without_device | Some _ \<Rightarrow> sent_notification e)"

lemmas settle_defs = settle_def cancel_notification_def without_device_def sent_notification_def

lemma settle_keeps [simp]:
  "nt_id (settle cfg e db r n) = nt_id n"
  "nt_recipient_operator_id (settle cfg e db r n) = nt_recipient_operator_id n"
  "nt_dedupe_key (settle cfg e db r n) = nt_dedupe_key n"
  "nt_attempts (settle cfg e db r n) = nt_attempts n + 1"
  by (simp_all add: settle_defs split: option.splits)

lemma settle_status:
  "nt_status (settle cfg e db r n) = ''cancelled'' \<or> nt_status (settle cfg e db r n) = ''no_device''
    \<or> nt_status (settle cfg e db r n) = ''sent''"
  unfolding settle_defs by (cases "route db r") simp_all

lemma settle_not_due [simp]: "\<not> due t (settle cfg e db r n)"
  using settle_status [of cfg e db r n] by (auto simp: due_def)

lemma deliver_one_frame [simp]:
  "db_push_devices (deliver_one cfg e n db) = db_push_devices db"
  "db_preferences (deliver_one cfg e n db) = db_preferences db"
  "db_receipts (deliver_one cfg e n db) = db_receipts db"
  by (simp_all add: deliver_one_def Let_def split: option.splits)

lemma settle_deliver [simp]: "settle cfg e (deliver_one cfg e n db) r = settle cfg e db r"
  by (simp add: settle_def route_def)

lemma deliver_one_notifications:
  "db_notifications (deliver_one cfg e n db)
     = modify_where (\<lambda>x. nt_id x = nt_id n) (settle cfg e db (nt_recipient_operator_id n))
         (db_notifications db)"
  by (simp add: deliver_one_def settle_def Let_def split: option.splits)

text \<open>Any number of attempts: a row in the list is settled once, the others stay.\<close>

lemma deliver_all:
  "distinct (map nt_id rows) \<Longrightarrow> distinct (map nt_id (db_notifications db)) \<Longrightarrow>
    set rows \<subseteq> set (db_notifications db) \<Longrightarrow>
    db_notifications (fold (deliver_one cfg e) rows db)
      = map (\<lambda>n. if n \<in> set rows then settle cfg e db (nt_recipient_operator_id n) n else n)
          (db_notifications db)"
proof (induction rows arbitrary: db)
  case Nil
  then show ?case by simp
next
  case (Cons r rows)
  let ?db = "deliver_one cfg e r db"
  have ns: "db_notifications ?db = map (\<lambda>n. if n = r then settle cfg e db (nt_recipient_operator_id r) r
      else n) (db_notifications db)"
    unfolding deliver_one_notifications modify_where_def using Cons.prems(2,3)
    by (auto intro!: map_cong dest: inj_onD simp: distinct_map)
  have ids: "map nt_id (db_notifications ?db) = map nt_id (db_notifications db)"
    by (auto simp: ns)
  have sub: "set rows \<subseteq> set (db_notifications ?db)"
    using Cons.prems(1,3) by (auto simp: ns image_iff)
  have fresh: "settle cfg e db x r \<notin> set rows" for x
    using Cons.prems(1) by (auto simp: image_iff)
  show ?case
    using Cons.IH [of ?db] Cons.prems sub fresh by (simp add: ids) (auto simp: ns)
qed

lemma due_batch_subset: "set (due_batch cfg t ns) \<subseteq> set (filter (due t) ns)"
  by (auto simp: due_batch_def dest: in_set_takeD)

lemma due_batch_distinct: "distinct (map nt_id ns) \<Longrightarrow> distinct (map nt_id (due_batch cfg t ns))"
proof -
  assume "distinct (map nt_id ns)"
  then have "distinct (filter (due t) ns)" "inj_on nt_id (set ns)"
    by (simp_all add: distinct_map)
  moreover have "set (due_batch cfg t ns) \<subseteq> set ns" using due_batch_subset by fastforce
  ultimately show ?thesis
    by (auto simp: distinct_map due_batch_def distinct_take intro: inj_on_subset)
qed

lemma batch_notifications:
  assumes "distinct (map nt_id (db_notifications db))"
    and "deliver_notifications_batch cfg e db = (k, db')"
  shows "db_notifications db' = map (\<lambda>n. if n \<in> set (due_batch cfg (now e) (db_notifications db))
      then settle cfg e db (nt_recipient_operator_id n) n else n) (db_notifications db)"
proof -
  let ?rows = "due_batch cfg (now e) (db_notifications db)"
  have "set ?rows \<subseteq> set (db_notifications db)"
    using due_batch_subset [of cfg "now e" "db_notifications db"] by auto
  from deliver_all [OF due_batch_distinct [OF assms(1)] assms(1) this] show ?thesis
    using assms(2) by (auto simp: deliver_notifications_batch_def Let_def)
qed

lemma batch_length:
  "deliver_notifications_batch cfg e db = (k, db') \<Longrightarrow>
    k = min (pc_batch_size cfg) (length (filter (due (now e)) (db_notifications db)))"
  by (auto simp: deliver_notifications_batch_def due_batch_def Let_def)

lemma batch_devices:
  "deliver_notifications_batch cfg e db = (k, db') \<Longrightarrow> db_push_devices db' = db_push_devices db"
proof -
  have "db_push_devices (fold (deliver_one cfg e) rows db) = db_push_devices db" for rows
    by (induction rows arbitrary: db) simp_all
  then show "deliver_notifications_batch cfg e db = (k, db') \<Longrightarrow> ?thesis"
    by (auto simp: deliver_notifications_batch_def Let_def)
qed

lemma length_filter_minus:
  assumes "distinct xs" "set ys \<subseteq> set xs" "distinct ys"
  shows "length (filter (\<lambda>x. x \<notin> set ys) xs) = length xs - length ys"
proof -
  have "length (filter (\<lambda>x. x \<notin> set ys) xs) = card (set xs - set ys)"
    using assms(1) by (metis distinct_card distinct_filter set_filter set_diff_eq)
  then show ?thesis using assms by (simp add: card_Diff_subset distinct_card)
qed

lemma filter_settled:
  assumes "\<And>x. \<not> P (f x)"
  shows "filter P (map (\<lambda>x. if x \<in> B then f x else x) xs) = filter (\<lambda>x. x \<notin> B) (filter P xs)"
  using assms by (induction xs) auto

lemma batch_due:
  assumes "distinct (map nt_id (db_notifications db))"
    and "deliver_notifications_batch cfg e db = (k, db')"
  shows "length (filter (due (now e)) (db_notifications db'))
       = length (filter (due (now e)) (db_notifications db)) - pc_batch_size cfg"
proof -
  let ?t = "now e" and ?ns = "db_notifications db"
  let ?rows = "due_batch cfg ?t ?ns"
  have "filter (due ?t) (db_notifications db') = filter (\<lambda>n. n \<notin> set ?rows) (filter (due ?t) ?ns)"
    unfolding batch_notifications [OF assms] by (rule filter_settled) simp
  moreover have "distinct (filter (due ?t) ?ns)" "distinct ?rows"
    using assms(1) due_batch_distinct [OF assms(1)] by (auto simp: distinct_map)
  ultimately have "length (filter (due ?t) (db_notifications db'))
      = length (filter (due ?t) ?ns) - length ?rows"
    using length_filter_minus [OF _ due_batch_subset] by metis
  then show ?thesis by (simp add: due_batch_def)
qed

text \<open>A notification that has been handed to a device stays handed to it.\<close>

definition handed :: "'a push_db_scheme \<Rightarrow> ident \<Rightarrow> ident \<Rightarrow> bool" where
  "handed db i device \<longleftrightarrow> (\<exists>d \<in> set (db_deliveries db). for_device i device d \<and> dl_status d = ''accepted'')"

lemma accept_keeps [simp]:
  "for_device i x (accept_delivery cfg e n device d) = for_device i x d"
  "dl_status (accept_delivery cfg e n device d) = ''accepted''"
  "dl_notification_outbox_id (accept_delivery cfg e n device d) = dl_notification_outbox_id d"
  "dl_push_device_id (accept_delivery cfg e n device d) = dl_push_device_id d"
  by (simp_all add: accept_delivery_def for_device_def)

lemma handed_kept: "handed db i x \<Longrightarrow> handed (deliver_one cfg e n db) i x"
proof -
  assume "handed db i x"
  then obtain d where d: "d \<in> set (db_deliveries db)" "for_device i x d" "dl_status d = ''accepted''"
    by (auto simp: handed_def)
  have "\<exists>d' \<in> set (modify_where P (accept_delivery cfg e n device) (db_deliveries db)).
      for_device i x d' \<and> dl_status d' = ''accepted''" for P device
    using d by (intro bexI [of _ "if P d then accept_delivery cfg e n device d else d"])
      (auto simp: in_modify_where_iff)
  with d show ?thesis
    by (auto simp: handed_def deliver_one_def Let_def split: option.splits)
qed

lemma handed_now:
  assumes "pc_enabled cfg" "pc_provider_mode cfg \<noteq> ''disabled''"
    and "route db (nt_recipient_operator_id n) = Some device"
  shows "handed (deliver_one cfg e n db) (nt_id n) (pd_id device)"
proof (cases "find (for_device (nt_id n) (pd_id device)) (db_deliveries db)")
  case None
  then show ?thesis
    using assms by (simp add: handed_def deliver_one_def Let_def new_delivery_def for_device_def)
next
  case (Some d)
  then have d: "d \<in> set (db_deliveries db)" "for_device (nt_id n) (pd_id device) d"
    by (auto dest: find_SomeD)
  have "accept_delivery cfg e n device d
      \<in> set (modify_where (\<lambda>x. dl_id x = dl_id d) (accept_delivery cfg e n device) (db_deliveries db))"
    using d by (auto simp: in_modify_where_iff)
  then show ?thesis
    using assms Some d by (auto simp: handed_def deliver_one_def Let_def intro: bexI [rotated])
qed

lemma handed_all:
  assumes "pc_enabled cfg" "pc_provider_mode cfg \<noteq> ''disabled''"
  shows "n \<in> set rows \<Longrightarrow> route db (nt_recipient_operator_id n) = Some device \<Longrightarrow>
    handed (fold (deliver_one cfg e) rows db) (nt_id n) (pd_id device)"
proof (induction rows arbitrary: db)
  case Nil
  then show ?case by simp
next
  case (Cons r rows)
  have keep: "handed db' i x \<Longrightarrow> handed (fold (deliver_one cfg e) ns db') i x" for db' :: "'a push_db_scheme" and i x ns
    by (induction ns arbitrary: db') (simp_all add: handed_kept)
  have "route (deliver_one cfg e r db) (nt_recipient_operator_id n) = Some device"
    using Cons.prems(2) by (simp add: route_def)
  moreover have "n = r \<Longrightarrow> handed (deliver_one cfg e r db) (nt_id n) (pd_id device)"
    using handed_now [OF assms, of db n device] Cons.prems(2) by simp
  ultimately show ?case
    using Cons.IH [of "deliver_one cfg e r db"] Cons.prems(1) keep by auto
qed

lemma first_by_some:
  assumes "first_by k xs = Some x"
  shows "x \<in> set xs \<and> (\<forall>y \<in> set xs. k x \<le> k y)"
proof -
  obtain ys where "sort_key k xs = x # ys"
    using assms by (auto simp: first_by_def first_of_def split: list.splits)
  moreover have "sorted (map k (sort_key k xs))" by simp
  ultimately show ?thesis by (metis set_sort list.set_intros(1) list.simps(9) set_ConsD sorted_simps(2)
    image_eqI list.set_map order_refl)
qed

lemma first_by_none: "first_by k xs = None \<longleftrightarrow> xs = []"
  by (cases "sort_key k xs") (auto simp: first_by_def first_of_def dest: arg_cong [of _ _ set])

lemma route_some:
  "route db r = Some d \<Longrightarrow> reachable_device r d \<and> d \<in> set (db_push_devices db)
     \<and> (\<forall>x \<in> set (db_push_devices db). reachable_device r x \<longrightarrow>
          (pd_route_priority d, - pd_last_seen_at d) \<le> (pd_route_priority x, - pd_last_seen_at x))"
  unfolding route_def by (drule first_by_some) simp

section \<open>Registration\<close>

lemma refresh_device_keys [simp]:
  "pd_id (refresh_device cfg e c p d) = pd_id d"
  "token_key (refresh_device cfg e c p d) = (pd_operator_id d, pd_provider d, pc_hmac cfg (rg_provider_token p))"
  "installation_key (refresh_device cfg e c p d)
     = (pd_operator_id d, pc_hmac cfg (rg_installation_id p), pd_provider d)"
  by (simp_all add: refresh_device_def token_key_def installation_key_def Let_def)

lemma registered_as_keys:
  "pd_operator_id d = operator \<Longrightarrow> pd_provider d = lower (rg_provider p) \<Longrightarrow>
    registered_as cfg operator p x \<longleftrightarrow>
      token_key x = token_key (refresh_device cfg e c p d)
      \<or> installation_key x = installation_key (refresh_device cfg e c p d)"
  by (auto simp: registered_as_def token_key_def installation_key_def refresh_device_def Let_def)

lemma devices_unique_insert:
  "devices_unique (us @ d # vs) \<longleftrightarrow> devices_unique (us @ vs)
     \<and> (\<forall>x \<in> set (us @ vs). token_key x \<noteq> token_key d \<and> installation_key x \<noteq> installation_key d)"
  by (auto simp: devices_unique_def image_iff)

text \<open>The refreshed row fits the constraints exactly when no other row matches the registration.\<close>

lemma refreshed_unique:
  assumes "devices_unique (us @ vs)" "pd_operator_id d = operator" "pd_provider d = lower (rg_provider p)"
  shows "devices_unique (us @ refresh_device cfg e c p d # vs)
     \<longleftrightarrow> filter (registered_as cfg operator p) (us @ vs) = []"
  using assms(1) registered_as_keys [OF assms(2,3)]
  by (auto simp: devices_unique_insert [of us "refresh_device cfg e c p d"] filter_empty_conv)

lemma refreshed_registered:
  "pd_operator_id d = operator \<Longrightarrow> pd_provider d = lower (rg_provider p) \<Longrightarrow>
    registered_as cfg operator p (refresh_device cfg e c p d)"
  by (simp add: registered_as_def refresh_device_def Let_def)

lemma modify_where_split:
  assumes "distinct (map key (us @ d # vs))"
  shows "modify_where (\<lambda>x. key x = key d) f (us @ d # vs) = us @ f d # vs"
proof -
  have "\<forall>x \<in> set us \<union> set vs. key x \<noteq> key d" using assms by (auto simp: rev_image_eqI)
  then show ?thesis by (simp add: modify_where_none)
qed

definition registration_outcome ::
    "push_settings \<Rightarrow> actor \<Rightarrow> registration \<Rightarrow> push_device list \<Rightarrow> ident \<Rightarrow> push_device list \<Rightarrow> bool" where
  "registration_outcome cfg a p ds i ds' \<longleftrightarrow> devices_unique ds'
     \<and> (\<exists>d. filter (registered_as cfg (ac_subject_id a) p) ds' = [d] \<and> pd_id d = i
          \<and> pd_status d = ''active'' \<and> pd_revoked_at d = None
          \<and> pd_installation_id_hash d = pc_hmac cfg (rg_installation_id p)
          \<and> pd_provider_token_hash d = pc_hmac cfg (rg_provider_token p))
     \<and> filter (\<lambda>x. pd_id x \<noteq> i) ds' = filter (\<lambda>x. pd_id x \<noteq> i) ds"

lemma refreshed_outcome:
  assumes "filter (registered_as cfg (ac_subject_id a) p) (us @ vs) = []" "devices_unique (us @ vs)"
    and "pd_operator_id d = ac_subject_id a" "pd_provider d = lower (rg_provider p)"
    and "filter (\<lambda>x. pd_id x \<noteq> pd_id d) ds = filter (\<lambda>x. pd_id x \<noteq> pd_id d) (us @ vs)"
  shows "registration_outcome cfg a p ds (pd_id d) (us @ refresh_device cfg e c p d # vs)"
proof -
  have u: "devices_unique (us @ refresh_device cfg e c p d # vs)"
    using refreshed_unique [OF assms(2-4)] assms(1) by blast
  have f: "filter (registered_as cfg (ac_subject_id a) p) (us @ refresh_device cfg e c p d # vs)
      = [refresh_device cfg e c p d]"
    using assms(1) refreshed_registered [OF assms(3,4)] by simp
  show ?thesis
    unfolding registration_outcome_def using u f assms(5)
    by (auto simp: refresh_device_def Let_def)
qed

text \<open>
  A registration makes the device of the operator reachable: afterwards exactly one row
  of the operator and the provider carries the installation or the token, it is active and
  carries both, and the other rows are untouched.  When two rows carry one of them each (the
  token moved from one installation to another) it fails with a 500 instead.
\<close>

theorem registration_makes_one_row:
  assumes "devices_unique (db_push_devices db)" "distinct (map pd_id (db_push_devices db))"
    and "\<forall>d \<in> set (db_push_devices db). pd_id d \<noteq> new_id e (id_count db)"
    and "require_operator_account a = Inr ()" "validate_registration cfg p = Inr ()"
  shows "case register_push_device cfg e a p db of
      Inl err \<Rightarrow> err = internal_error
        \<and> 2 \<le> length (filter (registered_as cfg (ac_subject_id a) p) (db_push_devices db))
    | Inr (i, db') \<Rightarrow> length (filter (registered_as cfg (ac_subject_id a) p) (db_push_devices db)) \<le> 1
        \<and> registration_outcome cfg a p (db_push_devices db) i (db_push_devices db')"
proof -
  let ?ds = "db_push_devices db" and ?op = "ac_subject_id a" and ?k = "id_count db"
  let ?m = "filter (registered_as cfg ?op p) ?ds"
  let ?c = "encrypt_token cfg ?k ?op (lower (rg_provider p)) (rg_provider_token p)"
  show ?thesis
  proof (cases "first_by (\<lambda>d. - pd_updated_at d) ?m")
    case None
    then have m: "?m = []" by (simp add: first_by_none)
    let ?d = "blank_device e ?k ?op (lower (rg_provider p))"
    have d: "pd_operator_id ?d = ?op" "pd_provider ?d = lower (rg_provider p)"
      "pd_id ?d = new_id e ?k" by (simp_all add: blank_device_def)
    have "registration_outcome cfg a p ?ds (pd_id ?d) (?ds @ [refresh_device cfg e ?c p ?d])"
      using refreshed_outcome [of cfg a p ?ds "[]" ?d ?ds e ?c] assms(1) m d by simp
    then show ?thesis
      using None m assms(4,5) d(3)
      by (simp add: register_push_device_def Let_def registration_outcome_def)
  next
    case (Some d)
    then have "d \<in> set ?m" by (blast dest: first_by_some)
    then have mem: "d \<in> set ?ds" and reg: "registered_as cfg ?op p d" by simp_all
    then obtain us vs where split: "?ds = us @ d # vs" by (meson split_list)
    have d: "pd_operator_id d = ?op" "pd_provider d = lower (rg_provider p)"
      using reg by (simp_all add: registered_as_def)
    have uv: "devices_unique (us @ vs)"
      using assms(1) unfolding split by (simp add: devices_unique_insert)
    have upd: "modify_where (\<lambda>x. pd_id x = pd_id d) (refresh_device cfg e ?c p) ?ds
        = us @ refresh_device cfg e ?c p d # vs"
      using modify_where_split [of pd_id us d vs] assms(2) unfolding split by simp
    have m: "length ?m = Suc (length (filter (registered_as cfg ?op p) (us @ vs)))"
      using reg by (simp add: split)
    show ?thesis
    proof (cases "filter (registered_as cfg ?op p) (us @ vs) = []")
      case True
      have "registration_outcome cfg a p ?ds (pd_id d) (us @ refresh_device cfg e ?c p d # vs)"
        by (rule refreshed_outcome [OF True uv d]) (simp add: split)
      then show ?thesis
        using Some m True assms(4,5) upd
        by (simp add: register_push_device_def Let_def registration_outcome_def)
    next
      case False
      then have "\<not> devices_unique (us @ refresh_device cfg e ?c p d # vs)"
        using refreshed_unique [OF uv d] by blast
      moreover have "0 < length (filter (registered_as cfg ?op p) (us @ vs))"
        using False unfolding length_greater_0_conv .
      then have "2 \<le> length ?m" using m by linarith
      ultimately show ?thesis
        using Some assms(4,5) upd by (simp add: register_push_device_def Let_def)
    qed
  qed
qed

section \<open>Enqueueing and delivering\<close>

lemma notify_frame [simp]:
  "db_preferences (snd (notify_accounts cfg e iid n as db)) = db_preferences db"
  "db_accounts (snd (notify_accounts cfg e iid n as db)) = db_accounts db"
  "db_memberships (snd (notify_accounts cfg e iid n as db)) = db_memberships db"
  "db_push_devices (snd (notify_accounts cfg e iid n as db)) = db_push_devices db"
  "db_deliveries (snd (notify_accounts cfg e iid n as db)) = db_deliveries db"
  "db_receipts (snd (notify_accounts cfg e iid n as db)) = db_receipts db"
  by (induction as arbitrary: db) (simp_all add: Let_def split: option.splits)

lemma notification_row_simps [simp]:
  "nt_dedupe_key (notification_row cfg e k iid n r) = dedupe_key n"
  "nt_recipient_operator_id (notification_row cfg e k iid n r) = r"
  "nt_id (notification_row cfg e k iid n r) = new_id e k"
  "nt_status (notification_row cfg e k iid n r) = ''queued''"
  "nt_attempts (notification_row cfg e k iid n r) = 0"
  by (simp_all add: notification_row_def)

lemma find_notification_kept:
  "find_notification db key r = Some x \<Longrightarrow>
    find_notification (snd (notify_accounts cfg e iid n as db)) key r = Some x"
  by (induction as arbitrary: db) (simp_all add: Let_def find_notification_def find_append split: option.splits)

text \<open>The accounts whose preference lets the notice through.\<close>

definition addressees :: "'a push_db_scheme \<Rightarrow> ident \<Rightarrow> notice \<Rightarrow> account list \<Rightarrow> account list" where
  "addressees db iid n as = filter (\<lambda>a. preference_allows (find_preference db (acc_id a) iid)
     (nc_event_type n) (nc_priority n)) as"

lemma notify_found:
  "find_notification db k r = Some x \<Longrightarrow>
    x \<in> set (db_notifications db) \<and> nt_dedupe_key x = k \<and> nt_recipient_operator_id x = r"
  unfolding find_notification_def by (drule find_SomeD) simp

lemma notify_rows:
  "map nt_recipient_operator_id (fst (notify_accounts cfg e iid n as db))
      = map acc_id (addressees db iid n as)
    \<and> (\<forall>r \<in> set (fst (notify_accounts cfg e iid n as db)). nt_dedupe_key r = dedupe_key n
        \<and> find_notification (snd (notify_accounts cfg e iid n as db)) (dedupe_key n)
            (nt_recipient_operator_id r) = Some r)
    \<and> (\<exists>new. db_notifications (snd (notify_accounts cfg e iid n as db)) = db_notifications db @ new
        \<and> (\<forall>r \<in> set new. nt_status r = ''queued'' \<and> nt_attempts r = 0 \<and> nt_dedupe_key r = dedupe_key n))"
proof (induction as arbitrary: db)
  case Nil
  then show ?case by (simp add: addressees_def)
next
  case (Cons a as)
  let ?allowed = "preference_allows (find_preference db (acc_id a) iid) (nc_event_type n) (nc_priority n)"
  show ?case
  proof (cases "?allowed")
    case False
    then show ?thesis using Cons.IH [of db] by (simp add: addressees_def)
  next
    case True
    show ?thesis
    proof (cases "find_notification db (dedupe_key n) (acc_id a)")
      case (Some old)
      then show ?thesis
        using Cons.IH [of db] True notify_found [OF Some] find_notification_kept [OF Some]
        by (simp add: addressees_def)
    next
      case None
      let ?row = "notification_row cfg e (id_count db) iid n (acc_id a)"
      let ?db = "db\<lparr>db_notifications := db_notifications db @ [?row], id_count := Suc (id_count db)\<rparr>"
      have "find_notification ?db (dedupe_key n) (acc_id a) = Some ?row"
        using None by (simp add: find_notification_def find_append)
      note kept = find_notification_kept [OF this, of cfg e iid n as]
      have "addressees ?db iid n as = addressees db iid n as"
        by (simp add: addressees_def find_preference_def)
      then show ?thesis
        using Cons.IH [of ?db] True None kept by (auto simp: addressees_def Let_def)
    qed
  qed
qed

lemma map_prod_first: "map_prod f id p = (f (fst p), snd p)"
  by (cases p) simp

text \<open>A second run with the same notice, at any time, finds every row there.\<close>

lemma notify_again:
  "notify_accounts cfg e' iid n as (snd (notify_accounts cfg e iid n as db))
     = notify_accounts cfg e iid n as db"
proof (induction as arbitrary: db)
  case Nil
  then show ?case by simp
next
  case (Cons a as)
  show ?case
  proof (cases "preference_allows (find_preference db (acc_id a) iid) (nc_event_type n) (nc_priority n)")
    case False
    then show ?thesis using Cons.IH [of db] by (simp add: find_preference_def)
  next
    case True
    show ?thesis
    proof (cases "find_notification db (dedupe_key n) (acc_id a)")
      case (Some old)
      then show ?thesis
        using Cons.IH [of db] True find_notification_kept [OF Some, of cfg e iid n as]
        by (simp add: find_preference_def map_prod_first)
    next
      case None
      let ?row = "notification_row cfg e (id_count db) iid n (acc_id a)"
      let ?db = "db\<lparr>db_notifications := db_notifications db @ [?row], id_count := Suc (id_count db)\<rparr>"
      have "find_notification ?db (dedupe_key n) (acc_id a) = Some ?row"
        using None by (simp add: find_notification_def find_append)
      note kept = find_notification_kept [OF this, of cfg e iid n as]
      show ?thesis
        using Cons.IH [of ?db] True None kept
        by (simp add: find_preference_def Let_def map_prod_first)
    qed
  qed
qed

text \<open>
  C18. A notice reaches exactly the active operators and administrators of the incident whose
  preference lets it through, each by one row of the outbox, and repeating it (the retry of
  a request, say) adds nothing.
\<close>

theorem notice_reaches_addressees_once:
  assumes "pc_enabled cfg" "enqueue_operator_notifications cfg e iid n db = (rows, db')"
  shows "map nt_recipient_operator_id rows = map acc_id (addressees db iid n (command_accounts db iid))
    \<and> (\<forall>r \<in> set rows. nt_dedupe_key r = dedupe_key n
         \<and> find_notification db' (dedupe_key n) (nt_recipient_operator_id r) = Some r)
    \<and> (\<exists>new. db_notifications db' = db_notifications db @ new
         \<and> (\<forall>r \<in> set new. nt_status r = ''queued'' \<and> nt_dedupe_key r = dedupe_key n))
    \<and> enqueue_operator_notifications cfg e' iid n db' = (rows, db')"
proof -
  have r: "rows = fst (notify_accounts cfg e iid n (command_accounts db iid) db)"
    and d: "db' = snd (notify_accounts cfg e iid n (command_accounts db iid) db)"
    using assms by (simp_all add: enqueue_operator_notifications_def)
  have "command_accounts db' iid = command_accounts db iid"
    by (simp add: command_accounts_def d)
  then have "enqueue_operator_notifications cfg e' iid n db' = (rows, db')"
    using assms(1) by (simp add: enqueue_operator_notifications_def d r notify_again)
  then show ?thesis
    using notify_rows [of cfg e iid n "command_accounts db iid" db] unfolding r d by blast
qed

text \<open>
  A batch settles the earliest due notifications, as many as its size, and nothing else:
  each is cancelled when pushing is off, left without device when the recipient has none that
  can be reached, and otherwise sent, with an accepted delivery to the device of the recipient
  that comes first by route priority and last use, never to a revoked or unauthorized one.
\<close>

theorem batch_settles_due:
  assumes "distinct (map nt_id (db_notifications db))"
    and "deliver_notifications_batch cfg e db = (k, db')"
  shows "k = min (pc_batch_size cfg) (length (filter (due (now e)) (db_notifications db)))
    \<and> db_notifications db' = map (\<lambda>n. if n \<in> set (due_batch cfg (now e) (db_notifications db))
        then settle cfg e db (nt_recipient_operator_id n) n else n) (db_notifications db)
    \<and> (\<forall>n \<in> set (due_batch cfg (now e) (db_notifications db)). \<forall>device.
         pc_enabled cfg \<and> pc_provider_mode cfg \<noteq> ''disabled''
           \<and> route db (nt_recipient_operator_id n) = Some device \<longrightarrow>
         handed db' (nt_id n) (pd_id device)
           \<and> reachable_device (nt_recipient_operator_id n) device
           \<and> (\<forall>x \<in> set (db_push_devices db). reachable_device (nt_recipient_operator_id n) x \<longrightarrow>
                (pd_route_priority device, - pd_last_seen_at device)
                  \<le> (pd_route_priority x, - pd_last_seen_at x)))"
proof (intro conjI ballI allI impI; (elim conjE)?)
  show "k = min (pc_batch_size cfg) (length (filter (due (now e)) (db_notifications db)))"
    by (rule batch_length [OF assms(2)])
  show "db_notifications db' = map (\<lambda>n. if n \<in> set (due_batch cfg (now e) (db_notifications db))
        then settle cfg e db (nt_recipient_operator_id n) n else n) (db_notifications db)"
    by (rule batch_notifications [OF assms])
next
  fix n device x
  assume n: "n \<in> set (due_batch cfg (now e) (db_notifications db))" "pc_enabled cfg"
    "pc_provider_mode cfg \<noteq> ''disabled''"
    and r: "route db (nt_recipient_operator_id n) = Some device"
  show "handed db' (nt_id n) (pd_id device)"
    using handed_all [OF n(2,3,1) r] assms(2)
    by (auto simp: deliver_notifications_batch_def Let_def)
  show "reachable_device (nt_recipient_operator_id n) device" using route_some [OF r] by blast
  show "(pd_route_priority device, - pd_last_seen_at device)
      \<le> (pd_route_priority x, - pd_last_seen_at x)"
    if "x \<in> set (db_push_devices db)" "reachable_device (nt_recipient_operator_id n) x"
    using route_some [OF r] that by blast
qed

definition push_batch :: "push_settings \<Rightarrow> env \<Rightarrow> 'a push_db_scheme \<Rightarrow> 'a push_db_scheme" where
  "push_batch cfg e db = snd (deliver_notifications_batch cfg e db)"

lemma push_batch_ids:
  assumes "distinct (map nt_id (db_notifications db))"
  shows "map nt_id (db_notifications (push_batch cfg e db)) = map nt_id (db_notifications db)"
  using batch_notifications [OF assms, of cfg e] by (auto simp: push_batch_def prod_eq_iff)

text \<open>
  The notification outbox drains: \<open>k\<close> batches settle a backlog of up to \<open>k\<close> batch sizes,
  and once settled a notification is never due again.
\<close>

theorem notifications_drain:
  assumes "distinct (map nt_id (db_notifications db))"
    and "length (filter (due (now e)) (db_notifications db)) \<le> k * pc_batch_size cfg"
  shows "filter (due (now e)) (db_notifications ((push_batch cfg e ^^ k) db)) = []"
proof -
  have "distinct (map nt_id (db_notifications db)) \<Longrightarrow>
      length (filter (due (now e)) (db_notifications db)) \<le> k * pc_batch_size cfg \<Longrightarrow>
      filter (due (now e)) (db_notifications ((push_batch cfg e ^^ k) db)) = []"
    for db :: "'a push_db_scheme"
  proof (induction k arbitrary: db)
    case 0
    then show ?case by simp
  next
    case (Suc k)
    have d: "distinct (map nt_id (db_notifications (push_batch cfg e db)))"
      using Suc.prems(1) by (simp add: push_batch_ids)
    have "length (filter (due (now e)) (db_notifications (push_batch cfg e db)))
        = length (filter (due (now e)) (db_notifications db)) - pc_batch_size cfg"
      using batch_due [OF Suc.prems(1), of cfg e] by (simp add: push_batch_def prod_eq_iff)
    then have "length (filter (due (now e)) (db_notifications (push_batch cfg e db)))
        \<le> k * pc_batch_size cfg"
      using Suc.prems(2) by simp
    from Suc.IH [OF d this] show ?case by (simp add: funpow_swap1)
  qed
  then show ?thesis using assms by blast
qed

section \<open>Every operation\<close>

datatype push_op =
    Register_Device actor registration
  | Revoke_Device actor ident
  | Patch_Preference actor ident preference_patch
  | Notify ident notice
  | Deliver
  | Take_Receipt actor ident receipt_create

record push_call =
  pl_now :: time
  pl_op :: push_op

definition call_env :: "(nat \<Rightarrow> ident) \<Rightarrow> push_call \<Rightarrow> env" where
  "call_env g c = \<lparr>now = pl_now c, new_id = g, request_ctx = None\<rparr>"

text \<open>A failed request leaves the committed database.\<close>

definition run_push ::
    "push_settings \<Rightarrow> (nat \<Rightarrow> ident) \<Rightarrow> push_call \<Rightarrow> 'a push_db_scheme \<Rightarrow> 'a push_db_scheme" where
  "run_push cfg g c db =
     (let e = call_env g c in case pl_op c of
        Register_Device a p \<Rightarrow> (case post_my_push_device cfg e a None p db of Inl _ \<Rightarrow> db | Inr (_, db') \<Rightarrow> db')
      | Revoke_Device a i \<Rightarrow> (case delete_my_push_device e a None i db of Inl _ \<Rightarrow> db | Inr db' \<Rightarrow> db')
      | Patch_Preference a iid p \<Rightarrow>
          (case patch_my_notification_preference e a None None iid p db of Inl _ \<Rightarrow> db | Inr (_, db') \<Rightarrow> db')
      | Notify iid n \<Rightarrow> snd (enqueue_operator_notifications cfg e iid n db)
      | Deliver \<Rightarrow> snd (deliver_notifications_batch cfg e db)
      | Take_Receipt a i p \<Rightarrow>
          (case post_notification_receipt cfg e a None None i p db of Inl _ \<Rightarrow> db | Inr (_, db') \<Rightarrow> db'))"

text \<open>A notification waits untouched or has had its one attempt.\<close>

definition tried_once :: "notification \<Rightarrow> bool" where
  "tried_once n \<longleftrightarrow> nt_status n = ''queued'' \<and> nt_attempts n = 0
     \<or> nt_status n \<in> {''sent'', ''no_device'', ''cancelled''} \<and> nt_attempts n = 1"

definition notified_once :: "'a push_db_scheme \<Rightarrow> bool" where
  "notified_once db \<longleftrightarrow>
     distinct (map (\<lambda>n. (nt_dedupe_key n, nt_recipient_operator_id n)) (db_notifications db))
     \<and> (\<forall>n \<in> set (db_notifications db). tried_once n)
     \<and> distinct (map (\<lambda>d. (dl_notification_outbox_id d, dl_push_device_id d)) (db_deliveries db))
     \<and> distinct (map (\<lambda>r. (rc_notification_outbox_id r, rc_receipt_type r, rc_installation_id_hash r))
         (db_receipts db))
     \<and> distinct (map (\<lambda>p. (np_operator_id p, np_incident_id p)) (db_preferences db))
     \<and> devices_unique (db_push_devices db)"

definition push_ok :: "(nat \<Rightarrow> ident) \<Rightarrow> 'a push_db_scheme \<Rightarrow> bool" where
  "push_ok g db \<longleftrightarrow> notified_once db \<and> distinct (map nt_id (db_notifications db))
     \<and> set (map nt_id (db_notifications db)) \<subseteq> g ` {..<id_count db}"

lemma push_audit_frame [simp]:
  "db_push_devices (record_audit e a i ac rt ri rq db) = db_push_devices db"
  "db_preferences (record_audit e a i ac rt ri rq db) = db_preferences db"
  "db_notifications (record_audit e a i ac rt ri rq db) = db_notifications db"
  "db_deliveries (record_audit e a i ac rt ri rq db) = db_deliveries db"
  "db_receipts (record_audit e a i ac rt ri rq db) = db_receipts db"
  "id_count (record_audit e a i ac rt ri rq db) = id_count db"
  by (simp_all add: record_audit_def)

lemma push_ok_audit [simp]: "push_ok g (record_audit e a i ac rt ri rq db) = push_ok g db"
  by (simp add: push_ok_def notified_once_def)

lemma call_env_simps [simp]: "new_id (call_env g c) = g" "now (call_env g c) = pl_now c"
  by (simp_all add: call_env_def)

lemma less_Suc_image: "S \<subseteq> g ` {..<k} \<Longrightarrow> S \<subseteq> g ` {..<Suc k}" for g :: "nat \<Rightarrow> ident"
  by (fastforce simp: less_Suc_eq)

lemma push_ok_register:
  assumes "push_ok g db" "register_push_device cfg e a p db = Inr (i, db')"
  shows "push_ok g db'"
proof -
  have "devices_unique (db_push_devices db')"
    using assms(2) by (auto simp: register_push_device_def Let_def split: sum.splits if_splits)
  moreover have "db_notifications db' = db_notifications db" "db_preferences db' = db_preferences db"
    "db_deliveries db' = db_deliveries db" "db_receipts db' = db_receipts db"
    "id_count db' = Suc (id_count db)"
    using assms(2) by (auto simp: register_push_device_def Let_def split: sum.splits if_splits)
  ultimately show ?thesis
    using assms(1) by (auto simp: push_ok_def notified_once_def intro: less_Suc_image)
qed

lemma push_ok_revoke:
  assumes "push_ok g db" "revoke_push_device e a i reason db = Inr db'"
  shows "push_ok g db'"
proof -
  have keys: "token_key (revoke_push e reason d) = token_key d"
    "installation_key (revoke_push e reason d) = installation_key d" for d
    by (simp_all add: revoke_push_def token_key_def installation_key_def)
  have db': "db' = db\<lparr>db_push_devices := modify_where (\<lambda>x. pd_id x = i) (revoke_push e reason) (db_push_devices db)\<rparr>"
    using assms(2) by (auto simp: revoke_push_device_def split: sum.splits option.splits if_splits)
  have "devices_unique (db_push_devices db')"
    using assms(1) by (simp add: db' push_ok_def notified_once_def devices_unique_def keys map_modify_where)
  then show ?thesis using assms(1) by (simp add: db' push_ok_def notified_once_def)
qed

lemma patched_keys [simp]:
  "np_operator_id (patched p n) = np_operator_id n" "np_incident_id (patched p n) = np_incident_id n"
  by (simp_all add: patched_def)

lemma push_ok_patch:
  assumes "push_ok g db" "patch_preference e a iid p db = Inr (n, db')"
  shows "push_ok g db'"
proof (cases "find_preference db (ac_subject_id a) iid")
  case None
  let ?n = "patched p (default_preference e (id_count db) (ac_subject_id a) iid)"
  have db': "db' = db\<lparr>db_preferences := db_preferences db @ [?n], id_count := Suc (id_count db)\<rparr>"
    using assms(2) None by (cases "require_operator_account a")
      (auto simp: patch_preference_def get_preference_def Let_def split: if_splits)
  have "(ac_subject_id a, iid) \<notin> (\<lambda>p. (np_operator_id p, np_incident_id p)) ` set (db_preferences db)"
    using None by (auto simp: find_preference_def dest: find_NoneD)
  then show ?thesis
    using assms(1) by (auto simp: db' push_ok_def notified_once_def default_preference_def
        intro: less_Suc_image)
next
  case (Some m)
  have "db' = db\<lparr>db_preferences := modify_where (\<lambda>x. np_id x = np_id m) (patched p) (db_preferences db)\<rparr>"
    using assms(2) Some by (cases "require_operator_account a")
      (auto simp: patch_preference_def get_preference_def split: if_splits)
  then show ?thesis using assms(1) by (simp add: push_ok_def notified_once_def map_modify_where)
qed

lemma push_ok_notify:
  assumes "inj (new_id e)"
  shows "push_ok (new_id e) db \<Longrightarrow> push_ok (new_id e) (snd (notify_accounts cfg e iid n as db))"
proof (induction as arbitrary: db)
  case Nil
  then show ?case by simp
next
  case (Cons a as)
  let ?row = "notification_row cfg e (id_count db) iid n (acc_id a)"
  let ?db = "db\<lparr>db_notifications := db_notifications db @ [?row], id_count := Suc (id_count db)\<rparr>"
  have "push_ok (new_id e) ?db" if "find_notification db (dedupe_key n) (acc_id a) = None"
  proof -
    have "(dedupe_key n, acc_id a)
        \<notin> (\<lambda>n. (nt_dedupe_key n, nt_recipient_operator_id n)) ` set (db_notifications db)"
      using that by (auto simp: find_notification_def dest: find_NoneD)
    moreover have "new_id e (id_count db) \<notin> nt_id ` set (db_notifications db)"
    proof
      assume "new_id e (id_count db) \<in> nt_id ` set (db_notifications db)"
      then have "new_id e (id_count db) \<in> new_id e ` {..<id_count db}"
        using Cons.prems by (auto simp: push_ok_def)
      then show False using assms by (auto simp: inj_eq)
    qed
    moreover have "tried_once ?row" by (simp add: tried_once_def)
    ultimately show ?thesis
      using Cons.prems by (auto simp: push_ok_def notified_once_def intro: less_Suc_image)
  qed
  then show ?case using Cons.IH Cons.prems by (auto simp: Let_def split: option.splits)
qed

lemma push_ok_deliveries:
  "distinct (map (\<lambda>d. (dl_notification_outbox_id d, dl_push_device_id d)) (db_deliveries db)) \<Longrightarrow>
    distinct (map (\<lambda>d. (dl_notification_outbox_id d, dl_push_device_id d))
      (db_deliveries (fold (deliver_one cfg e) ns db)))
    \<and> id_count db \<le> id_count (fold (deliver_one cfg e) ns db)"
proof (induction ns arbitrary: db)
  case Nil
  then show ?case by simp
next
  case (Cons n ns)
  let ?key = "\<lambda>d. (dl_notification_outbox_id d, dl_push_device_id d)"
  have "?key (accept_delivery cfg e n x (new_delivery e k (nt_id n) x)) \<notin> ?key ` set (db_deliveries db)"
    if "find (for_device (nt_id n) (pd_id x)) (db_deliveries db) = None" for x k
    using that by (auto simp: new_delivery_def for_device_def dest!: find_NoneD)
  then have "distinct (map ?key (db_deliveries (deliver_one cfg e n db)))"
    using Cons.prems
    by (auto simp: deliver_one_def Let_def map_modify_where split: option.splits)
  moreover have "id_count db \<le> id_count (deliver_one cfg e n db)"
    by (simp add: deliver_one_def Let_def split: option.splits)
  ultimately show ?case using Cons.IH [of "deliver_one cfg e n db"] by auto
qed

lemma tried_once_settled:
  "tried_once n \<Longrightarrow> due t n \<Longrightarrow> tried_once (settle cfg e db r n)"
  using settle_status [of cfg e db r n] by (auto simp: tried_once_def due_def)

lemma push_ok_batch:
  assumes "push_ok g db" "deliver_notifications_batch cfg e db = (k, db')"
  shows "push_ok g db'"
proof -
  have ids: "distinct (map nt_id (db_notifications db))" using assms(1) by (simp add: push_ok_def)
  let ?rows = "due_batch cfg (now e) (db_notifications db)"
  note ns = batch_notifications [OF ids assms(2)]
  have same: "map nt_id (db_notifications db') = map nt_id (db_notifications db)"
    "map (\<lambda>n. (nt_dedupe_key n, nt_recipient_operator_id n)) (db_notifications db')
      = map (\<lambda>n. (nt_dedupe_key n, nt_recipient_operator_id n)) (db_notifications db)"
    by (simp_all add: ns)
  have tried: "\<forall>n \<in> set (db_notifications db'). tried_once n"
    using assms(1) due_batch_subset [of cfg "now e" "db_notifications db"]
    by (auto simp: ns push_ok_def notified_once_def intro!: tried_once_settled [of _ "now e"])
  have fold: "db' = fold (deliver_one cfg e) ?rows db"
    using assms(2) by (simp add: deliver_notifications_batch_def Let_def)
  have frame: "db_preferences (fold (deliver_one cfg e) rows db) = db_preferences db
      \<and> db_receipts (fold (deliver_one cfg e) rows db) = db_receipts db" for rows
    by (induction rows arbitrary: db) simp_all
  have kept: "db_preferences db' = db_preferences db" "db_receipts db' = db_receipts db"
    "db_push_devices db' = db_push_devices db"
    using frame batch_devices [OF assms(2)] by (simp_all only: fold)
  have count: "id_count db \<le> id_count db'"
    and del: "distinct (map (\<lambda>d. (dl_notification_outbox_id d, dl_push_device_id d)) (db_deliveries db'))"
    using push_ok_deliveries [of db cfg e ?rows] assms(1) by (simp_all add: fold push_ok_def notified_once_def)
  have "set (map nt_id (db_notifications db)) \<subseteq> g ` {..<id_count db'}"
    using assms(1) count unfolding push_ok_def by (meson image_mono lessThan_subset_iff order_trans)
  then show ?thesis
    using assms(1) tried del unfolding push_ok_def notified_once_def same kept by blast
qed

lemma note_receipt_keys [simp]:
  "dl_notification_outbox_id (note_receipt ty t d) = dl_notification_outbox_id d"
  "dl_push_device_id (note_receipt ty t d) = dl_push_device_id d"
  by (simp_all add: note_receipt_def)

lemma push_ok_receipt:
  assumes "push_ok g db" "record_notification_receipt cfg e a i p db = Inr (r, db')"
  shows "push_ok g db'"
proof -
  let ?digest = "pc_hmac cfg (rq_installation_id p)"
  let ?key = "\<lambda>r. (rc_notification_outbox_id r, rc_receipt_type r, rc_installation_id_hash r)"
  have op: "require_operator_account a = Inr ()"
    using assms(2) by (cases "require_operator_account a") (simp_all add: record_notification_receipt_def)
  show ?thesis
  proof (cases "find (same_receipt i (rq_receipt_type p) ?digest) (db_receipts db)")
    case (Some old)
    then have "db' = db"
      using assms(2) op by (auto simp: record_notification_receipt_def Let_def split: option.splits if_splits)
    then show ?thesis using assms(1) by simp
  next
    case None
    then have "(i, rq_receipt_type p, ?digest) \<notin> ?key ` set (db_receipts db)"
      by (auto simp: same_receipt_def dest: find_NoneD)
    moreover have "\<exists>row. db_receipts db' = db_receipts db @ [row] \<and> ?key row = (i, rq_receipt_type p, ?digest)"
      "id_count db' = Suc (id_count db)" "db_notifications db' = db_notifications db"
      "db_preferences db' = db_preferences db" "db_push_devices db' = db_push_devices db"
      "map (\<lambda>d. (dl_notification_outbox_id d, dl_push_device_id d)) (db_deliveries db')
        = map (\<lambda>d. (dl_notification_outbox_id d, dl_push_device_id d)) (db_deliveries db)"
      using assms(2) op None
      by (auto simp: record_notification_receipt_def Let_def map_modify_where split: option.splits if_splits)
    ultimately show ?thesis
      using assms(1) by (auto simp: push_ok_def notified_once_def intro: less_Suc_image)
  qed
qed

lemma push_ok_run:
  assumes "inj g" "push_ok g db"
  shows "push_ok g (run_push cfg g c db)"
proof (cases "pl_op c")
  case (Register_Device a p)
  then show ?thesis
    using assms(2) push_ok_register [OF assms(2), of cfg "call_env g c" a p]
    by (cases "register_push_device cfg (call_env g c) a p db")
      (auto simp: run_push_def post_my_push_device_def)
next
  case (Revoke_Device a i)
  then show ?thesis
    using assms(2) push_ok_revoke [OF assms(2), of "call_env g c" a i]
    by (cases "revoke_push_device (call_env g c) a i ''client_revoked'' db")
      (auto simp: run_push_def delete_my_push_device_def)
next
  case (Patch_Preference a iid p)
  have "patch_my_notification_preference (call_env g c) a None None iid p db = Inr (n, db') \<Longrightarrow> push_ok g db'"
    for n db'
    using push_ok_patch [OF assms(2), of "call_env g c" a _ p]
    by (auto simp: patch_my_notification_preference_def map_sum_Inr split: option.splits sum.splits)
  then show ?thesis
    using assms(2) Patch_Preference by (auto simp: run_push_def split: sum.splits)
next
  case (Notify iid n)
  then show ?thesis
    using assms push_ok_notify [of "call_env g c" db cfg iid n]
    by (simp add: run_push_def enqueue_operator_notifications_def)
next
  case Deliver
  then show ?thesis
    using push_ok_batch [OF assms(2), of cfg "call_env g c"] by (simp add: run_push_def prod_eq_iff)
next
  case (Take_Receipt a i p)
  have "post_notification_receipt cfg (call_env g c) a None None i p db = Inr (n, db') \<Longrightarrow> push_ok g db'"
    for n db'
    using push_ok_receipt [OF assms(2), of cfg "call_env g c" a i p]
    by (auto simp: post_notification_receipt_def map_sum_Inr split: option.splits sum.splits)
  then show ?thesis
    using assms(2) Take_Receipt by (auto simp: run_push_def split: sum.splits)
qed

interpretation push: kept_by "\<lambda>db db'. \<exists>c. inj g \<and> db' = run_push cfg g c db" "push_ok g" for cfg g
  by unfold_locales (auto intro: push_ok_run)

text \<open>
  C17. However registrations, preferences, notices, batches and receipts follow one another,
  nobody is notified twice: there is one notification per event and recipient, one delivery
  per notification and device, one receipt per kind and installation; every notification is
  untouched or has had exactly one attempt (a "retry" is never scheduled), and the preferences
  and push devices stay unique.
\<close>

theorem nobody_notified_twice:
  assumes "inj g" "db_notifications db = []" "db_deliveries db = []" "db_receipts db = []"
    and "db_preferences db = []" "db_push_devices db = []"
  shows "notified_once (fold (run_push cfg g) calls db)"
proof -
  have "push_ok g db" using assms by (simp add: push_ok_def notified_once_def devices_unique_def)
  moreover have "(\<lambda>db db'. \<exists>c. inj g \<and> db' = run_push cfg g c db)\<^sup>*\<^sup>* s (run_push cfg g c s)"
    for s :: "'a push_db_scheme" and c
    using assms(1) by (intro r_into_rtranclp) blast
  ultimately have "push_ok g (fold (run_push cfg g) calls db)" by (rule push.kept_run [rotated])
  then show ?thesis by (simp add: push_ok_def)
qed

section \<open>Examples\<close>

definition demo_push :: push_settings where
  "demo_push = \<lparr>pc_enabled = True, pc_provider_mode = ''mock'', pc_allowed_app_ids = [''app''],
     pc_allowed_providers = [''fcm''], pc_batch_size = 100, pc_ttl_seconds = 60,
     pc_allowed_schemes = [''crisismosaic''], pc_key_version = ''v1'', pc_hmac = id,
     pc_seal = (\<lambda>_ _ s. s), pc_sha256 = id\<rparr>"

definition demo_new :: "nat \<Rightarrow> ident" where "demo_new k = replicate k CHR ''x''"

definition demo_push_env :: env where
  "demo_push_env = \<lparr>now = 5, new_id = demo_new, request_ctx = None\<rparr>"

definition demo_push_actor :: actor where
  "demo_push_actor = \<lparr>ac_subject_type = Account, ac_subject_id = ''op'', ac_role = ''operator'',
     ac_token_version = 1, ac_incident_ids = [''inc''], ac_username = None, ac_region_code = None\<rparr>"

definition demo_push_device :: "ident \<Rightarrow> string \<Rightarrow> string \<Rightarrow> push_device" where
  "demo_push_device i installation token =
     \<lparr>pd_id = i, pd_operator_id = ''op'', pd_installation_id_hash = installation,
      pd_platform = ''android'', pd_provider = ''fcm'', pd_token_ciphertext = token,
      pd_provider_token_hash = token, pd_token_fingerprint = token, pd_app_id = ''app'',
      pd_environment = ''dev'', pd_authorization_status = ''authorized'', pd_route_priority = 1,
      pd_app_version = None, pd_status = ''active'', pd_last_seen_at = 1, pd_updated_at = 1,
      pd_revoked_at = None, pd_revoked_reason = None\<rparr>"

definition demo_registration :: "string \<Rightarrow> string \<Rightarrow> registration" where
  "demo_registration installation token =
     \<lparr>rg_installation_id = installation, rg_platform = ''android'', rg_provider = ''FCM'',
      rg_provider_token = token, rg_app_id = ''app'', rg_environment = ''dev'',
      rg_authorization_status = ''authorized'', rg_route_priority = 1, rg_app_version = None\<rparr>"

definition demo_notice :: notice where
  "demo_notice = \<lparr>nc_business_event_id = ''ev'', nc_event_type = ''report.created'',
     nc_priority = ''high'', nc_resource_type = ''report'', nc_resource_id = Some ''rep'',
     nc_resource_revision = Some 12, nc_deep_link = Some ''CrisisMosaic://incidents/inc'',
     nc_title = [84], nc_body = [66]\<rparr>"

definition demo_push_db :: "push_device list \<Rightarrow> push_db" where
  "demo_push_db ds = core_db.extend
     (demo_core_db\<lparr>db_accounts := [\<lparr>acc_id = ''op'', acc_username = ''u'', acc_password_hash = [],
          acc_role = ''operator'', acc_is_active = True, acc_email = None, acc_revision = 1\<rparr>],
        db_memberships := [\<lparr>mb_account_id = ''op'', mb_incident_id = ''inc'', mb_role = ''operator''\<rparr>]\<rparr>)
     (push_db.fields ds [] [] [] [])"

lemma demo_new_inj: "inj demo_new"
  by (rule injI) (metis demo_new_def length_replicate)

lemmas demo_push_defs = demo_push_def demo_push_env_def demo_push_actor_def demo_push_device_def
  demo_registration_def demo_notice_def demo_push_db_def

lemma demo_push_tables [simp]:
  "db_push_devices (demo_push_db ds) = ds" "db_notifications (demo_push_db ds) = []"
  "db_deliveries (demo_push_db ds) = []" "db_receipts (demo_push_db ds) = []"
  "db_preferences (demo_push_db ds) = []"
  "command_accounts (demo_push_db ds) ''inc'' = [\<lparr>acc_id = ''op'', acc_username = ''u'',
     acc_password_hash = [], acc_role = ''operator'', acc_is_active = True, acc_email = None, acc_revision = 1\<rparr>]"
  by (simp_all add: demo_push_db_def core_db.extend_def push_db.fields_def command_accounts_def
      demo_core_db_def)

definition demo_noticed :: push_db where
  "demo_noticed = snd (enqueue_operator_notifications demo_push demo_push_env ''inc'' demo_notice
     (demo_push_db [demo_push_device ''d'' ''i'' ''t'']))"

lemma demo_noticed_rows:
  "db_notifications demo_noticed = [notification_row demo_push demo_push_env
       (id_count (demo_push_db [demo_push_device ''d'' ''i'' ''t''])) ''inc'' demo_notice ''op'']"
  "db_push_devices demo_noticed = [demo_push_device ''d'' ''i'' ''t'']"
  by (simp_all add: demo_noticed_def enqueue_operator_notifications_def demo_push_def
      find_preference_def preference_allows_def priority_rank_def demo_notice_def
      find_notification_def Let_def)

lemma demo_due: "due 5 (notification_row demo_push demo_push_env k ''inc'' demo_notice ''op'')"
  by (simp add: due_def notification_row_def demo_push_env_def demo_push_def seconds_def)

lemma demo_route: "route demo_noticed ''op'' = Some (demo_push_device ''d'' ''i'' ''t'')"
  by (simp add: route_def demo_noticed_rows reachable_device_def demo_push_device_def first_by_def
      first_of_def)

theorem registration_makes_one_row_witness:
  "register_push_device demo_push demo_push_env demo_push_actor (demo_registration ''i1'' ''t2'')
     (demo_push_db [demo_push_device ''a'' ''i1'' ''t1'', demo_push_device ''b'' ''i2'' ''t2''])
     = Inl internal_error"
proof -
  let ?db = "demo_push_db [demo_push_device ''a'' ''i1'' ''t1'', demo_push_device ''b'' ''i2'' ''t2'']"
  let ?p = "demo_registration ''i1'' ''t2''"
  have fcm: "lower ''FCM'' = ''fcm''" by code_simp
  have "id_count ?db = 0"
    by (simp add: demo_push_db_def core_db.extend_def demo_core_db_def)
  then have "case register_push_device demo_push demo_push_env demo_push_actor ?p ?db of
      Inl err \<Rightarrow> err = internal_error
        \<and> 2 \<le> length (filter (registered_as demo_push (ac_subject_id demo_push_actor) ?p) (db_push_devices ?db))
    | Inr (i, db') \<Rightarrow> length (filter (registered_as demo_push (ac_subject_id demo_push_actor) ?p) (db_push_devices ?db)) \<le> 1
        \<and> registration_outcome demo_push demo_push_actor ?p (db_push_devices ?db) i (db_push_devices db')"
    by (intro registration_makes_one_row)
      (simp_all add: devices_unique_def token_key_def installation_key_def demo_push_device_def
        demo_push_env_def demo_new_def require_operator_account_def demo_push_actor_def
        validate_registration_def demo_registration_def demo_push_def fcm Let_def)
  moreover have "filter (registered_as demo_push (ac_subject_id demo_push_actor) ?p) (db_push_devices ?db)
      = db_push_devices ?db"
    by (simp add: registered_as_def demo_push_device_def demo_push_actor_def demo_registration_def
        demo_push_def fcm)
  ultimately show ?thesis by (auto split: sum.splits)
qed

theorem notice_reaches_addressees_once_witness:
  "\<exists>rows. enqueue_operator_notifications demo_push demo_push_env ''inc'' demo_notice demo_noticed
     = (rows, demo_noticed) \<and> map nt_recipient_operator_id rows = [''op'']"
proof -
  let ?db = "demo_push_db [demo_push_device ''d'' ''i'' ''t'']"
  obtain rows where rows: "enqueue_operator_notifications demo_push demo_push_env ''inc'' demo_notice ?db
      = (rows, demo_noticed)"
    unfolding demo_noticed_def by (metis prod.collapse)
  have "pc_enabled demo_push" by (simp add: demo_push_def)
  from notice_reaches_addressees_once [OF this rows, of demo_push_env] show ?thesis
    by (simp add: addressees_def preference_allows_def find_preference_def demo_notice_def
        priority_rank_def)
qed

theorem batch_settles_due_witness:
  "\<exists>k db'. deliver_notifications_batch demo_push demo_push_env demo_noticed = (k, db') \<and> k = 1
     \<and> (\<exists>n. db_notifications db' = [n] \<and> nt_status n = ''sent'' \<and> handed db' (nt_id n) ''d'')"
proof -
  obtain k db' where b: "deliver_notifications_batch demo_push demo_push_env demo_noticed = (k, db')"
    by (meson prod.exhaust_sel)
  have d: "distinct (map nt_id (db_notifications demo_noticed))" by (simp add: demo_noticed_rows)
  have t: "now demo_push_env = 5" "pc_enabled demo_push" "pc_provider_mode demo_push = ''mock''"
    "pc_batch_size demo_push = 100" by (simp_all add: demo_push_env_def demo_push_def)
  let ?n = "notification_row demo_push demo_push_env
      (id_count (demo_push_db [demo_push_device ''d'' ''i'' ''t''])) ''inc'' demo_notice ''op''"
  have batch: "due_batch demo_push 5 [?n] = [?n]"
    by (simp add: due_batch_def demo_due t)
  have s: "settle demo_push demo_push_env demo_noticed ''op'' ?n = sent_notification demo_push_env ?n"
    by (simp add: settle_def t demo_route)
  show ?thesis
    using batch_settles_due [OF d b] b unfolding demo_noticed_rows(1) t(1) batch
    by (simp add: t s demo_route demo_due)
      (simp add: sent_notification_def demo_push_device_def demo_push_env_def)
qed

theorem notifications_drain_witness:
  "filter (due 5) (db_notifications demo_noticed) \<noteq> []
     \<and> filter (due 5) (db_notifications ((push_batch demo_push demo_push_env ^^ 1) demo_noticed)) = []"
  using notifications_drain [of demo_noticed demo_push_env 1 demo_push]
  by (simp add: demo_noticed_rows demo_due) (simp add: demo_push_env_def demo_push_def)

theorem nobody_notified_twice_witness:
  "notified_once (fold (run_push demo_push demo_new)
     [\<lparr>pl_now = 1, pl_op = Register_Device demo_push_actor (demo_registration ''i'' ''t'')\<rparr>,
      \<lparr>pl_now = 2, pl_op = Notify ''inc'' demo_notice\<rparr>, \<lparr>pl_now = 3, pl_op = Notify ''inc'' demo_notice\<rparr>,
      \<lparr>pl_now = 4, pl_op = Deliver\<rparr>, \<lparr>pl_now = 5, pl_op = Deliver\<rparr>] (demo_push_db []))"
  by (rule nobody_notified_twice [OF demo_new_inj]) simp_all

end
