(* ===== verification/Contacts.thy ===== *)
theory Contacts
  imports Rows
begin

text \<open>
  Reporter contacts (\<open>services/contacts.py\<close>, the reporter part of \<open>schemas/reports.py\<close>):
  what a person types is normalised and validated, sealed field by field, masked for
  display, opened again for a reveal, and re-validated when it is changed.

  Text is the list of its code points.  \<open>isspace\<close> and the decimal digits (category Nd) are the
  tables of Unicode 15, which the interpreter of the project (Python 3.12) uses.  AES-GCM,
  the two hash functions and the random nonces are third-party or cryptographic and are the
  fields of \<open>vault\<close>; the base64 and JSON wrapping of a ciphertext is the record \<open>cipher\<close>.
\<close>

section \<open>Text\<close>

definition spaces :: "nat list" where
  "spaces = [9, 10, 11, 12, 13, 28, 29, 30, 31, 32, 133, 160, 5760, 8192, 8193, 8194, 8195,
     8196, 8197, 8198, 8199, 8200, 8201, 8202, 8232, 8233, 8239, 8287, 12288]"

definition uni_space :: "nat \<Rightarrow> bool" where
  "uni_space c \<longleftrightarrow> c \<in> set spaces"

text \<open>\<open>str.strip()\<close>: what \<open>P\<close> holds of is removed at both ends.\<close>

definition strip_by :: "('c \<Rightarrow> bool) \<Rightarrow> 'c list \<Rightarrow> 'c list" where
  "strip_by P s = rev (dropWhile P (rev (dropWhile P s)))"

definition uni_strip :: "utext \<Rightarrow> utext" where
  "uni_strip = strip_by uni_space"

text \<open>The zero of each of the scripts that have decimal digits; the ten follow each other.\<close>

definition digit_zeros :: "nat list" where
  "digit_zeros = [48, 1632, 1776, 1984, 2406, 2534, 2662, 2790, 2918, 3046, 3174, 3302, 3430,
     3558, 3664, 3792, 3872, 4160, 4240, 6112, 6160, 6470, 6608, 6784, 6800, 6992, 7088, 7232,
     7248, 42528, 43216, 43264, 43472, 43504, 43600, 44016, 65296, 66720, 68912, 69734, 69872,
     69942, 70096, 70384, 70736, 70864, 71248, 71360, 71472, 71904, 72016, 72784, 73040, 73120,
     73552, 92768, 92864, 93008, 120782, 120792, 120802, 120812, 120822, 123200, 123632, 124144,
     125264, 130032]"

text \<open>\<open>int(c)\<close> of a single character, None where it is no decimal digit (\<open>\\d\<close>).\<close>

definition digit_value :: "nat \<Rightarrow> int option" where
  "digit_value c =
     map_option (\<lambda>z. int (c - z)) (find (\<lambda>z. z \<le> c \<and> c < z + 10) digit_zeros)"

definition is_digit :: "nat \<Rightarrow> bool" where
  "is_digit c \<longleftrightarrow> digit_value c \<noteq> None"

definition digit :: "nat \<Rightarrow> int" where
  "digit c = (case digit_value c of None \<Rightarrow> 0 | Some d \<Rightarrow> d)"

text \<open>
  \<open>str.upper()\<close> where it matters here: a letter outside ASCII is never raised to a digit or to
  an X, so a text that has one is refused by the pattern either way.
\<close>

definition upper_code :: "nat \<Rightarrow> nat" where
  "upper_code c = (if 97 \<le> c \<and> c \<le> 122 then c - 32 else c)"

text \<open>The \<open>$\<close> of a pattern also matches before one newline at the end.\<close>

definition to_end :: "(utext \<Rightarrow> bool) \<Rightarrow> utext \<Rightarrow> bool" where
  "to_end P s \<longleftrightarrow> P s \<or> (s \<noteq> [] \<and> last s = 10 \<and> P (butlast s))"

section \<open>Normalisation and masks\<close>

text \<open>\<open>^1[3-9]\\d{9}$\<close>\<close>

definition mobile_body :: "utext \<Rightarrow> bool" where
  "mobile_body s \<longleftrightarrow>
     length s = 11 \<and> s ! 0 = 49 \<and> 51 \<le> s ! 1 \<and> s ! 1 \<le> 57 \<and> list_all is_digit (drop 2 s)"

definition country_code :: utext where "country_code = codes ''+86''"

definition local_mobile :: "utext \<Rightarrow> utext" where
  "local_mobile value =
     (let s = filter (\<lambda>c. c \<noteq> 32 \<and> c \<noteq> 45) (uni_strip value) in
      if take 3 s = country_code then drop 3 s
      else if take 2 s = codes ''86'' \<and> length s = 13 then drop 2 s
      else s)"

definition normalize_mobile :: "utext \<Rightarrow> api_error + utext" where
  "normalize_mobile value =
     (let s = local_mobile value in
      if to_end mobile_body s then Inr (country_code @ s)
      else Inl (ApiError 422 ''INVALID_MAINLAND_MOBILE''))"

definition mask_name :: "utext \<Rightarrow> utext" where
  "mask_name value =
     (case uni_strip value of
        [] \<Rightarrow> []
      | c # cs \<Rightarrow> c # replicate (max 1 (min (length cs) 3)) 42)"

text \<open>\<open>s[-4:]\<close>\<close>

definition last4 :: "utext \<Rightarrow> utext" where
  "last4 s = drop (length s - 4) s"

definition mask_mobile :: "utext \<Rightarrow> utext" where
  "mask_mobile e164 =
     (let s = (if take 3 e164 = country_code then drop 3 e164 else e164)
      in take 3 s @ codes ''****'' @ last4 s)"

definition mask_national_id :: "utext option \<Rightarrow> utext option" where
  "mask_national_id = map_option (\<lambda>s. take 4 s @ codes ''**********'' @ last4 s)"

definition normalize_optional :: "utext option \<Rightarrow> utext option" where
  "normalize_optional value =
     (case value of None \<Rightarrow> None | Some s \<Rightarrow> if uni_strip s = [] then None else Some (uni_strip s))"

section \<open>The national identity number\<close>

definition id_weights :: "int list" where
  "id_weights = [7, 9, 10, 5, 8, 4, 2, 1, 6, 3, 7, 9, 10, 5, 8, 4, 2]"

definition id_checks :: utext where "id_checks = codes ''10X98765432''"

text \<open>\<open>^\\d{17}[\\dXx]$\<close>\<close>

definition national_id_body :: "utext \<Rightarrow> bool" where
  "national_id_body s \<longleftrightarrow> length s = 18 \<and> list_all is_digit (take 17 s)
     \<and> (is_digit (s ! 17) \<or> s ! 17 = 88 \<or> s ! 17 = 120)"

definition number :: "utext \<Rightarrow> int" where
  "number s = foldl (\<lambda>n c. 10 * n + digit c) 0 s"

definition leap_year :: "int \<Rightarrow> bool" where
  "leap_year y \<longleftrightarrow> y mod 4 = 0 \<and> (y mod 100 \<noteq> 0 \<or> y mod 400 = 0)"

definition month_days :: "int \<Rightarrow> int \<Rightarrow> int" where
  "month_days y m =
     (if m = 2 then if leap_year y then 29 else 28 else if m \<in> {4, 6, 9, 11} then 30 else 31)"

text \<open>
  \<open>datetime.strptime(s, "%Y%m%d")\<close> on eight digits: its pattern takes the month as
  \<open>1[0-2]|0[1-9]\<close> and the day as \<open>3[0-1]|[1-2]\\d|0[1-9]\<close> (the one-digit alternatives leave
  something over), and the date has to exist.
\<close>

fun strptime_date :: "utext \<Rightarrow> bool" where
  "strptime_date [y1, y2, y3, y4, m1, m2, d1, d2] =
     (let y = number [y1, y2, y3, y4]; m = number [m1, m2]; d = number [d1, d2] in
      ((m1 = 49 \<and> 48 \<le> m2 \<and> m2 \<le> 50) \<or> (m1 = 48 \<and> 49 \<le> m2 \<and> m2 \<le> 57))
      \<and> ((d1 = 51 \<and> 48 \<le> d2 \<and> d2 \<le> 49) \<or> ((d1 = 49 \<or> d1 = 50) \<and> is_digit d2)
         \<or> (d1 = 48 \<and> 49 \<le> d2 \<and> d2 \<le> 57))
      \<and> 1 \<le> y \<and> d \<le> month_days y m)"
| "strptime_date _ = False"

definition id_checksum :: "utext \<Rightarrow> int" where
  "id_checksum s = sum_list (map2 (\<lambda>c w. digit c * w) (take 17 s) id_weights)"

definition invalid_national_id :: api_error where
  "invalid_national_id = ApiError 422 ''INVALID_NATIONAL_ID''"

definition validate_national_id :: "utext option \<Rightarrow> api_error + utext option" where
  "validate_national_id value =
     (case normalize_optional value of
        None \<Rightarrow> Inr None
      | Some raw \<Rightarrow>
          let s = map upper_code raw in
          if \<not> to_end national_id_body s then Inl invalid_national_id
          else if \<not> strptime_date (take 8 (drop 6 s)) then Inl invalid_national_id
          else if id_checks ! nat (id_checksum s mod 11) \<noteq> last s then Inl invalid_national_id
          else Inr (Some s))"

section \<open>What the client submits\<close>

record emergency_input =
  em_name :: "utext option"
  em_mobile :: "utext option"
  em_relation :: "utext option"

record additional_info =
  add_national_id :: "utext option"
  add_emergency :: "emergency_input option"
  add_rescue_notes :: "utext option"

record reporter_input =
  ri_full_name :: utext
  ri_mobile :: utext
  ri_consent_at :: "time option"
  ri_additional :: "additional_info option"

text \<open>
  A patch: None is a field left out, or set to null where the code treats the two alike;
  only for \<open>additional_info\<close> they differ.
\<close>

record reporter_patch =
  rq_full_name :: "utext option"
  rq_mobile :: "utext option"
  rq_consent_at :: "time option"
  rq_additional :: "additional_info option option"

text \<open>
  The schemas strip every string (\<open>str_strip_whitespace\<close>, which leaves the four separators
  28 to 31 alone, unlike \<open>str.strip()\<close>) and bound its length; None is a ValidationError.
\<close>

definition schema_space :: "nat \<Rightarrow> bool" where
  "schema_space c \<longleftrightarrow> uni_space c \<and> \<not> (28 \<le> c \<and> c \<le> 31)"

definition schema_strip :: "utext \<Rightarrow> utext" where
  "schema_strip = strip_by schema_space"

definition str_field :: "nat \<Rightarrow> nat \<Rightarrow> utext option \<Rightarrow> utext option option" where
  "str_field lo hi value =
     (case value of
        None \<Rightarrow> Some None
      | Some s \<Rightarrow>
          if lo \<le> length (schema_strip s) \<and> length (schema_strip s) \<le> hi
          then Some (Some (schema_strip s)) else None)"

definition emergency_schema :: "emergency_input \<Rightarrow> emergency_input option" where
  "emergency_schema e =
     (case (str_field 1 80 (em_name e), str_field 11 32 (em_mobile e),
            str_field 1 40 (em_relation e)) of
        (Some n, Some m, Some r) \<Rightarrow> Some \<lparr>em_name = n, em_mobile = m, em_relation = r\<rparr>
      | _ \<Rightarrow> None)"

definition additional_schema :: "additional_info \<Rightarrow> additional_info option" where
  "additional_schema a =
     (case (str_field 18 18 (add_national_id a), str_field 1 500 (add_rescue_notes a),
            (case add_emergency a of
               None \<Rightarrow> Some None | Some e \<Rightarrow> map_option Some (emergency_schema e))) of
        (Some i, Some n, Some e) \<Rightarrow>
          Some \<lparr>add_national_id = i, add_emergency = e, add_rescue_notes = n\<rparr>
      | _ \<Rightarrow> None)"

definition reporter_schema :: "reporter_input \<Rightarrow> reporter_input option" where
  "reporter_schema r =
     (case (str_field 1 80 (Some (ri_full_name r)), str_field 11 32 (Some (ri_mobile r)),
            (case ri_additional r of
               None \<Rightarrow> Some None | Some a \<Rightarrow> map_option Some (additional_schema a))) of
        (Some (Some n), Some (Some m), Some a) \<Rightarrow>
          Some \<lparr>ri_full_name = n, ri_mobile = m, ri_consent_at = ri_consent_at r,
                ri_additional = a\<rparr>
      | _ \<Rightarrow> None)"

section \<open>Validated values\<close>

record contact_values =
  cv_full_name :: utext
  cv_mobile :: utext
  cv_national_id :: "utext option"
  cv_emergency_name :: "utext option"
  cv_emergency_mobile :: "utext option"
  cv_emergency_relation :: "utext option"
  cv_rescue_notes :: "utext option"
  cv_consent_at :: time

text \<open>The branch on the emergency contact: name, mobile and relation.\<close>

definition emergency_values ::
    "emergency_input option \<Rightarrow> api_error + utext option \<times> utext option \<times> utext option" where
  "emergency_values emergency =
     (case emergency of
        None \<Rightarrow> Inr (None, None, None)
      | Some e \<Rightarrow>
          let name = normalize_optional (em_name e);
              raw = normalize_optional (em_mobile e);
              relation = normalize_optional (em_relation e) in
          (case (name, raw) of
             (None, None) \<Rightarrow>
               if relation = None then Inr (None, None, None)
               else Inl (ApiError 422 ''INCOMPLETE_EMERGENCY_CONTACT'')
           | (Some n, Some m) \<Rightarrow>
               (case normalize_mobile m of
                  Inl err \<Rightarrow> Inl err | Inr mobile \<Rightarrow> Inr (Some n, Some mobile, relation))
           | _ \<Rightarrow> Inl (ApiError 422 ''INCOMPLETE_EMERGENCY_CONTACT'')))"

definition additional_values ::
    "additional_info option \<Rightarrow>
      api_error + utext option \<times> (utext option \<times> utext option \<times> utext option) \<times> utext option" where
  "additional_values additional =
     (case additional of
        None \<Rightarrow> Inr (None, (None, None, None), None)
      | Some a \<Rightarrow>
          (case validate_national_id (add_national_id a) of
             Inl err \<Rightarrow> Inl err
           | Inr national_id \<Rightarrow>
               (case emergency_values (add_emergency a) of
                  Inl err \<Rightarrow> Inl err
                | Inr emergency \<Rightarrow>
                    Inr (national_id, emergency, normalize_optional (add_rescue_notes a)))))"

definition validate_values ::
    "time \<Rightarrow> utext \<Rightarrow> utext \<Rightarrow> time option \<Rightarrow> additional_info option \<Rightarrow> api_error + contact_values"
where
  "validate_values tm full_name mobile consent_at additional =
     (if uni_strip full_name = [] then Inl (ApiError 422 ''REPORTER_NAME_REQUIRED'')
      else case normalize_mobile mobile of
        Inl err \<Rightarrow> Inl err
      | Inr e164 \<Rightarrow>
          (case additional_values additional of
             Inl err \<Rightarrow> Inl err
           | Inr (national_id, (name, emobile, relation), notes) \<Rightarrow>
               Inr \<lparr>cv_full_name = uni_strip full_name, cv_mobile = e164,
                    cv_national_id = national_id, cv_emergency_name = name,
                    cv_emergency_mobile = emobile, cv_emergency_relation = relation,
                    cv_rescue_notes = notes,
                    cv_consent_at = (case consent_at of None \<Rightarrow> tm | Some t \<Rightarrow> t)\<rparr>))"

definition contact_input_values :: "time \<Rightarrow> reporter_input \<Rightarrow> api_error + contact_values" where
  "contact_input_values tm r =
     validate_values tm (ri_full_name r) (ri_mobile r) (ri_consent_at r) (ri_additional r)"

section \<open>Sealing\<close>

record cipher =
  ci_nonce :: "nat list"
  ci_token :: "nat list"

record vault_settings =
  vs_key :: string
  vs_key_version :: string
  vs_blind_secret :: string
  vs_retention_days :: int
  vs_mfa_code :: string

text \<open>
  AES-GCM takes the key, the nonce, the text (its UTF-8 bytes, which stand for it) and the
  associated data; opening raises (None) when the tag does not fit.  \<open>va_nonce\<close> is the random
  nonce of each field of one contact.
\<close>

record vault =
  va_key :: "string \<Rightarrow> string"
  va_seal :: "string \<Rightarrow> nat list \<Rightarrow> utext \<Rightarrow> string \<Rightarrow> nat list"
  va_open :: "string \<Rightarrow> nat list \<Rightarrow> nat list \<Rightarrow> string \<Rightarrow> utext option"
  va_nonce :: "string \<Rightarrow> nat list"
  va_hmac :: "string \<Rightarrow> utext \<Rightarrow> string"

text \<open>What AES-GCM promises: what was sealed opens, under its own key and associated data only.\<close>

definition authenticated :: "vault \<Rightarrow> bool" where
  "authenticated v \<longleftrightarrow>
     (\<forall>k n s a k' a'. va_open v k' n (va_seal v k n s a) a'
        = (if k' = k \<and> a' = a then Some s else None))"

definition aad :: "ident \<Rightarrow> ident \<Rightarrow> string \<Rightarrow> string \<Rightarrow> string" where
  "aad incident_id device_id field key_version =
     incident_id @ '':'' @ device_id @ '':'' @ field @ '':'' @ key_version"

definition encrypt ::
    "vault \<Rightarrow> vault_settings \<Rightarrow> ident \<Rightarrow> ident \<Rightarrow> string \<Rightarrow> utext \<Rightarrow> cipher" where
  "encrypt v s incident_id device_id field value =
     \<lparr>ci_nonce = va_nonce v field,
      ci_token = va_seal v (va_key v (vs_key s)) (va_nonce v field) value
        (aad incident_id device_id field (vs_key_version s))\<rparr>"

text \<open>None is the exception \<open>InvalidTag\<close>.\<close>

definition decrypt ::
    "vault \<Rightarrow> vault_settings \<Rightarrow> ident \<Rightarrow> ident \<Rightarrow> string \<Rightarrow> string \<Rightarrow> cipher \<Rightarrow> utext option"
where
  "decrypt v s incident_id device_id key_version field c =
     va_open v (va_key v (vs_key s)) (ci_nonce c) (ci_token c)
       (aad incident_id device_id field key_version)"

text \<open>
  A required column holds a ciphertext or, once the retention pass has been there, its
  marker, which is no JSON: \<open>Marker\<close>.
\<close>

datatype column = Sealed cipher | Marker

record reporter_contact =
  ct_id :: ident
  ct_incident_id :: ident
  ct_resident_device_id :: ident
  ct_full_name_ciphertext :: column
  ct_full_name_masked :: utext
  ct_mobile_ciphertext :: column
  ct_mobile_blind_index :: string
  ct_mobile_masked :: utext
  ct_national_id_ciphertext :: "cipher option"
  ct_national_id_blind_index :: "string option"
  ct_national_id_masked :: "utext option"
  ct_emergency_name_ciphertext :: "cipher option"
  ct_emergency_name_masked :: "utext option"
  ct_emergency_mobile_ciphertext :: "cipher option"
  ct_emergency_mobile_masked :: "utext option"
  ct_emergency_relation_ciphertext :: "cipher option"
  ct_emergency_relation_masked :: "utext option"
  ct_rescue_notes_ciphertext :: "cipher option"
  ct_encryption_key_version :: string
  ct_consent_at :: time
  ct_retention_until :: time
  ct_legal_hold :: bool
  ct_anonymized_at :: "time option"

section \<open>Building, reading, changing\<close>

definition retention_until :: "vault_settings \<Rightarrow> time \<Rightarrow> incident \<Rightarrow> time" where
  "retention_until s tm inc =
     (case inc_closed_at inc of None \<Rightarrow> tm | Some t \<Rightarrow> t) + days (vs_retention_days s)"

definition build_contact ::
    "vault \<Rightarrow> vault_settings \<Rightarrow> env \<Rightarrow> incident \<Rightarrow> ident \<Rightarrow> contact_values \<Rightarrow> reporter_contact"
where
  "build_contact v s e inc device_id cv =
     (let seal = encrypt v s (inc_id inc) device_id in
      \<lparr>ct_id = new_id e 0, ct_incident_id = inc_id inc, ct_resident_device_id = device_id,
       ct_full_name_ciphertext = Sealed (seal ''full_name'' (cv_full_name cv)),
       ct_full_name_masked = mask_name (cv_full_name cv),
       ct_mobile_ciphertext = Sealed (seal ''mobile'' (cv_mobile cv)),
       ct_mobile_blind_index = va_hmac v (vs_blind_secret s) (cv_mobile cv),
       ct_mobile_masked = mask_mobile (cv_mobile cv),
       ct_national_id_ciphertext = map_option (seal ''national_id'') (cv_national_id cv),
       ct_national_id_blind_index =
         map_option (va_hmac v (vs_blind_secret s)) (cv_national_id cv),
       ct_national_id_masked = mask_national_id (cv_national_id cv),
       ct_emergency_name_ciphertext =
         map_option (seal ''emergency_name'') (cv_emergency_name cv),
       ct_emergency_name_masked =
         (case cv_emergency_name cv of None \<Rightarrow> None | Some n \<Rightarrow> if n = [] then None else Some (mask_name n)),
       ct_emergency_mobile_ciphertext =
         map_option (seal ''emergency_mobile'') (cv_emergency_mobile cv),
       ct_emergency_mobile_masked =
         (case cv_emergency_mobile cv of None \<Rightarrow> None | Some n \<Rightarrow> if n = [] then None else Some (mask_mobile n)),
       ct_emergency_relation_ciphertext =
         map_option (seal ''emergency_relation'') (cv_emergency_relation cv),
       ct_emergency_relation_masked = cv_emergency_relation cv,
       ct_rescue_notes_ciphertext = map_option (seal ''rescue_notes'') (cv_rescue_notes cv),
       ct_encryption_key_version = vs_key_version s,
       ct_consent_at = cv_consent_at cv,
       ct_retention_until = retention_until s (now e) inc,
       ct_legal_hold = False, ct_anonymized_at = None\<rparr>)"

definition create_reporter_contact ::
    "vault \<Rightarrow> vault_settings \<Rightarrow> env \<Rightarrow> incident \<Rightarrow> ident \<Rightarrow> reporter_input
      \<Rightarrow> api_error + reporter_contact" where
  "create_reporter_contact v s e inc device_id r =
     (case contact_input_values (now e) r of
        Inl err \<Rightarrow> Inl err | Inr cv \<Rightarrow> Inr (build_contact v s e inc device_id cv))"

record plain_contact =
  pc_full_name :: utext
  pc_mobile :: utext
  pc_national_id :: "utext option"
  pc_emergency_name :: "utext option"
  pc_emergency_mobile :: "utext option"
  pc_emergency_relation :: "utext option"
  pc_rescue_notes :: "utext option"

text \<open>An optional column: missing, opened, or (None) an exception.\<close>

definition open_optional :: "(cipher \<Rightarrow> utext option) \<Rightarrow> cipher option \<Rightarrow> utext option option" where
  "open_optional f c = (case c of None \<Rightarrow> Some None | Some x \<Rightarrow> map_option Some (f x))"

definition open_column :: "(cipher \<Rightarrow> utext option) \<Rightarrow> column \<Rightarrow> utext option" where
  "open_column f c = (case c of Sealed x \<Rightarrow> f x | Marker \<Rightarrow> None)"

definition plain_contact_of ::
    "vault \<Rightarrow> vault_settings \<Rightarrow> reporter_contact \<Rightarrow> plain_contact option" where
  "plain_contact_of v s c =
     (let opened = decrypt v s (ct_incident_id c) (ct_resident_device_id c)
            (ct_encryption_key_version c) in
      case open_column (opened ''full_name'') (ct_full_name_ciphertext c) of
        None \<Rightarrow> None
      | Some full_name \<Rightarrow>
      case open_column (opened ''mobile'') (ct_mobile_ciphertext c) of
        None \<Rightarrow> None
      | Some mobile \<Rightarrow>
      case open_optional (opened ''national_id'') (ct_national_id_ciphertext c) of
        None \<Rightarrow> None
      | Some national_id \<Rightarrow>
      case open_optional (opened ''emergency_name'') (ct_emergency_name_ciphertext c) of
        None \<Rightarrow> None
      | Some emergency_name \<Rightarrow>
      case open_optional (opened ''emergency_mobile'') (ct_emergency_mobile_ciphertext c) of
        None \<Rightarrow> None
      | Some emergency_mobile \<Rightarrow>
      case open_optional (opened ''emergency_relation'') (ct_emergency_relation_ciphertext c) of
        None \<Rightarrow> None
      | Some relation \<Rightarrow>
        map_option (\<lambda>notes.
          \<lparr>pc_full_name = full_name, pc_mobile = mobile, pc_national_id = national_id,
           pc_emergency_name = emergency_name, pc_emergency_mobile = emergency_mobile,
           pc_emergency_relation = relation, pc_rescue_notes = notes\<rparr>)
          (open_optional (opened ''rescue_notes'') (ct_rescue_notes_ciphertext c)))"

text \<open>The additional information rebuilt from the stored fields, through the schema.\<close>

definition stored_additional :: "plain_contact \<Rightarrow> additional_info" where
  "stored_additional p =
     \<lparr>add_national_id = pc_national_id p,
      add_emergency =
        (if pc_emergency_name p = None \<and> pc_emergency_mobile p = None
            \<and> pc_emergency_relation p = None then None
         else Some \<lparr>em_name = pc_emergency_name p, em_mobile = pc_emergency_mobile p,
                    em_relation = pc_emergency_relation p\<rparr>),
      add_rescue_notes = pc_rescue_notes p\<rparr>"

text \<open>
  The name and the number of an opened contact are never missing (the columns are required),
  so the guard \<open>REPORTER_CONTACT_REQUIRED\<close> of the code cannot fire.  An exception that is no
  \<open>ApiError\<close> becomes a 500 in the outermost handler.
\<close>

definition update_reporter_contact ::
    "vault \<Rightarrow> vault_settings \<Rightarrow> env \<Rightarrow> incident \<Rightarrow> reporter_contact \<Rightarrow> reporter_patch
      \<Rightarrow> api_error + reporter_contact" where
  "update_reporter_contact v s e inc previous patch =
     (case plain_contact_of v s previous of
        None \<Rightarrow> Inl internal_error
      | Some plain \<Rightarrow>
          let full_name = (case rq_full_name patch of None \<Rightarrow> pc_full_name plain | Some n \<Rightarrow> n);
              mobile = (case rq_mobile patch of None \<Rightarrow> pc_mobile plain | Some m \<Rightarrow> m) in
          (case (case rq_additional patch of
                   Some given \<Rightarrow> Some given
                 | None \<Rightarrow> map_option Some (additional_schema (stored_additional plain))) of
             None \<Rightarrow> Inl internal_error
           | Some additional \<Rightarrow>
               (case validate_values (now e) full_name mobile (rq_consent_at patch) additional of
                  Inl err \<Rightarrow> Inl err
                | Inr cv \<Rightarrow> Inr (build_contact v s e inc (ct_resident_device_id previous) cv))))"

section \<open>What is shown\<close>

record masked_emergency =
  me_name_masked :: "utext option"
  me_mobile_masked :: "utext option"
  me_relation_masked :: "utext option"

record masked_view =
  mv_full_name_masked :: utext
  mv_mobile_masked :: utext
  mv_has_national_id :: bool
  mv_emergency :: "masked_emergency option"
  mv_has_rescue_notes :: bool

definition serialize_contact_masked :: "reporter_contact option \<Rightarrow> masked_view option" where
  "serialize_contact_masked contact =
     map_option (\<lambda>c.
       \<lparr>mv_full_name_masked = ct_full_name_masked c, mv_mobile_masked = ct_mobile_masked c,
        mv_has_national_id = (ct_national_id_ciphertext c \<noteq> None),
        mv_emergency =
          (if ct_emergency_name_ciphertext c = None then None
           else Some \<lparr>me_name_masked = ct_emergency_name_masked c,
                      me_mobile_masked = ct_emergency_mobile_masked c,
                      me_relation_masked = ct_emergency_relation_masked c\<rparr>),
        mv_has_rescue_notes = (ct_rescue_notes_ciphertext c \<noteq> None)\<rparr>) contact"

record plain_view =
  pv_full_name :: utext
  pv_mobile :: utext
  pv_additional :: additional_info

definition serialize_contact_plain ::
    "vault \<Rightarrow> vault_settings \<Rightarrow> reporter_contact \<Rightarrow> plain_view option" where
  "serialize_contact_plain v s c =
     map_option (\<lambda>p.
       \<lparr>pv_full_name = pc_full_name p, pv_mobile = pc_mobile p,
        pv_additional =
          \<lparr>add_national_id = pc_national_id p,
           add_emergency =
             (if pc_emergency_name p = None \<and> pc_emergency_mobile p = None then None
              else Some \<lparr>em_name = pc_emergency_name p, em_mobile = pc_emergency_mobile p,
                         em_relation = pc_emergency_relation p\<rparr>),
           add_rescue_notes = pc_rescue_notes p\<rparr>\<rparr>) (plain_contact_of v s c)"

definition authorize_reveal :: "vault_settings \<Rightarrow> actor \<Rightarrow> string \<Rightarrow> api_error + unit" where
  "authorize_reveal s a mfa_code =
     (if ac_role a \<noteq> ''admin'' then Inl (ApiError 403 ''REPORTER_PII_READ_REQUIRED'')
      else if mfa_code \<noteq> vs_mfa_code s then Inl (ApiError 403 ''MFA_REQUIRED'')
      else Inr ())"

section \<open>Facts about stripping and digits\<close>

lemma strip_by_Nil [simp]: "strip_by P [] = []"
  by (simp add: strip_by_def)

lemma strip_by_last: "strip_by P s \<noteq> [] \<Longrightarrow> \<not> P (last (strip_by P s))"
  unfolding strip_by_def using hd_dropWhile [of P "rev (dropWhile P s)"] by (simp add: last_rev)

lemma strip_by_hd:
  assumes "strip_by P s \<noteq> []" shows "\<not> P (hd (strip_by P s))"
proof -
  let ?t = "dropWhile P s"
  have "?t = strip_by P s @ rev (takeWhile P (rev ?t))"
    using takeWhile_dropWhile_id [of P "rev ?t"] unfolding strip_by_def
    by (metis rev_append rev_rev_ident)
  moreover have "\<And>a b. ?t = a @ b \<Longrightarrow> a \<noteq> [] \<Longrightarrow> hd ?t = hd a \<and> ?t \<noteq> []" by simp
  ultimately have "hd ?t = hd (strip_by P s)" "?t \<noteq> []" using assms by blast+
  then show ?thesis using hd_dropWhile [of P s] by simp
qed

text \<open>Nothing is removed exactly when both ends are kept.\<close>

lemma strip_by_same: "s = [] \<or> (\<not> P (hd s) \<and> \<not> P (last s)) \<Longrightarrow> strip_by P s = s"
proof -
  assume *: "s = [] \<or> (\<not> P (hd s) \<and> \<not> P (last s))"
  then have "dropWhile P s = s" by (cases s) auto
  moreover have "dropWhile P (rev s) = rev s" using * by (cases s rule: rev_cases) auto
  ultimately show ?thesis by (simp add: strip_by_def)
qed

lemma strip_by_weaker:
  "(\<And>c. Q c \<Longrightarrow> P c) \<Longrightarrow> strip_by Q (strip_by P s) = strip_by P s"
  by (rule strip_by_same) (use strip_by_hd strip_by_last in blast)

lemma length_strip_by: "length (strip_by P s) \<le> length s"
  unfolding strip_by_def using length_dropWhile_le le_trans by (metis length_rev)

lemma strip_by_full: "length (strip_by P s) = length s \<Longrightarrow> strip_by P s = s"
proof -
  assume *: "length (strip_by P s) = length s"
  have *: "length (dropWhile P (rev (dropWhile P s))) = length s"
    using * by (simp add: strip_by_def)
  have b: "length (dropWhile P (rev (dropWhile P s))) \<le> length (dropWhile P s)"
    using length_dropWhile_le [of P "rev (dropWhile P s)"] by simp
  have "length (takeWhile P s) + length (dropWhile P s) = length s"
    by (metis length_append takeWhile_dropWhile_id)
  then have "length (takeWhile P s) = 0" using * b by linarith
  then have "takeWhile P s = []" by simp
  then have d: "dropWhile P s = s" by (metis append_Nil takeWhile_dropWhile_id)
  have "length (takeWhile P (rev s)) + length (dropWhile P (rev s)) = length (rev s)"
    by (metis length_append takeWhile_dropWhile_id)
  then have "takeWhile P (rev s) = []" using * d by simp
  then have "dropWhile P (rev s) = rev s" by (metis append_Nil takeWhile_dropWhile_id)
  with d show ?thesis by (simp add: strip_by_def)
qed

lemma uni_strip_idem [simp]: "uni_strip (uni_strip s) = uni_strip s"
  unfolding uni_strip_def by (rule strip_by_weaker)

lemma schema_after_strip [simp]: "schema_strip (uni_strip s) = uni_strip s"
  unfolding uni_strip_def schema_strip_def by (rule strip_by_weaker) (simp add: schema_space_def)

lemma digit_value_letter: "58 \<le> c \<Longrightarrow> c < 1632 \<Longrightarrow> digit_value c = None"
  by (simp add: digit_value_def digit_zeros_def)

lemma digit_value_low: "c < 48 \<Longrightarrow> digit_value c = None"
  by (simp add: digit_value_def digit_zeros_def)

lemma digit_value_range: "digit_value c = Some d \<Longrightarrow> 0 \<le> d \<and> d \<le> 9"
  by (auto simp: digit_value_def dest!: find_SomeD)

lemma digit_bounds: "0 \<le> digit c \<and> digit c \<le> 9"
  using digit_value_range by (auto simp: digit_def split: option.splits)

lemma upper_keeps_digit [simp]: "digit_value (upper_code c) = digit_value c"
  using digit_value_letter [of c] digit_value_letter [of "c - 32"] by (auto simp: upper_code_def)

lemma digit_not_upper: "is_digit c \<Longrightarrow> upper_code c = c"
  using digit_value_letter [of c] by (auto simp: upper_code_def is_digit_def)

lemma upper_upper [simp]: "upper_code (upper_code c) = upper_code c"
  unfolding upper_code_def by (cases "97 \<le> c \<and> c \<le> 122") auto

text \<open>No white space among the digits: the tables are disjoint.\<close>

lemma digit_value_gap1: "4250 \<le> c \<Longrightarrow> c < 6112 \<Longrightarrow> digit_value c = None"
  by (simp add: digit_value_def digit_zeros_def)

lemma digit_value_gap2: "7258 \<le> c \<Longrightarrow> c < 42528 \<Longrightarrow> digit_value c = None"
  by (simp add: digit_value_def digit_zeros_def)

lemma spaces_in_gaps:
  "list_all (\<lambda>c. c < 48 \<or> (58 \<le> c \<and> c < 1632) \<or> (4250 \<le> c \<and> c < 6112)
     \<or> (7258 \<le> c \<and> c < 42528)) spaces"
  by (simp add: spaces_def)

lemma space_no_digit: "uni_space c \<Longrightarrow> digit_value c = None"
  using spaces_in_gaps digit_value_low digit_value_letter digit_value_gap1 digit_value_gap2
  unfolding uni_space_def list_all_iff by blast

section \<open>The check digit\<close>

lemma last_upper_strip: "to_end P (map upper_code (uni_strip raw)) \<longleftrightarrow> P (map upper_code (uni_strip raw))"
proof -
  have "last (map upper_code (uni_strip raw)) \<noteq> 10" if "uni_strip raw \<noteq> []"
  proof
    assume "last (map upper_code (uni_strip raw)) = 10"
    then have "upper_code (last (uni_strip raw)) = 10" using that by (simp add: last_map)
    then have "last (uni_strip raw) = 10" by (auto simp: upper_code_def split: if_splits)
    moreover have "uni_space 10" by (simp add: uni_space_def spaces_def)
    ultimately show False using strip_by_last that unfolding uni_strip_def by metis
  qed
  then show ?thesis by (auto simp: to_end_def)
qed

text \<open>What an accepted number is: upper case, of the right form, dated and with its check character.\<close>

definition proper_national_id :: "utext \<Rightarrow> bool" where
  "proper_national_id s \<longleftrightarrow> national_id_body s \<and> strptime_date (take 8 (drop 6 s))
     \<and> id_checks ! nat (id_checksum s mod 11) = last s"

lemma validate_national_id_Some:
  "validate_national_id (Some raw) =
     (let s = map upper_code (uni_strip raw) in
      if s = [] then Inr None
      else if proper_national_id s then Inr (Some s) else Inl invalid_national_id)"
  by (simp add: validate_national_id_def normalize_optional_def last_upper_strip
      proper_national_id_def Let_def)

lemma proper_ends:
  assumes "proper_national_id s" shows "s \<noteq> []" "\<not> uni_space (hd s)" "\<not> uni_space (last s)"
proof -
  have b: "length s = 18" "list_all is_digit (take 17 s)"
      "is_digit (s ! 17) \<or> s ! 17 = 88 \<or> s ! 17 = 120"
    using assms by (auto simp: proper_national_id_def national_id_body_def)
  show ne: "s \<noteq> []" using b by auto
  have "is_digit (hd s)" using b ne by (cases s) auto
  then show "\<not> uni_space (hd s)" using space_no_digit by (auto simp: is_digit_def)
  have "last s = s ! 17" using b ne by (simp add: last_conv_nth)
  moreover have "\<not> uni_space 88" "\<not> uni_space 120" by (auto simp: uni_space_def spaces_def)
  ultimately show "\<not> uni_space (last s)" using b space_no_digit by (auto simp: is_digit_def)
qed

lemma proper_strip [simp]: "proper_national_id s \<Longrightarrow> uni_strip s = s"
  unfolding uni_strip_def by (rule strip_by_same) (use proper_ends in blast)

lemma id_checks_distinct: "distinct id_checks \<and> length id_checks = 11"
  by code_simp

lemma id_checks_inj:
  assumes "id_checks ! nat (a mod 11) = id_checks ! nat (b mod 11)" shows "a mod 11 = b mod 11"
proof -
  have "0 \<le> a mod 11" "a mod 11 < 11" "0 \<le> b mod 11" "b mod 11 < 11" by simp_all
  then have "nat (a mod 11) < length id_checks" "nat (b mod 11) < length id_checks"
    using id_checks_distinct by (simp_all add: nat_less_iff)
  then have "nat (a mod 11) = nat (b mod 11)"
    using assms id_checks_distinct nth_eq_iff_index_eq by blast
  then show ?thesis by (metis \<open>0 \<le> a mod 11\<close> \<open>0 \<le> b mod 11\<close> nat_eq_iff)
qed

text \<open>A weighted sum after one entry changed.\<close>

lemma weighted_update:
  "length xs = length ws \<Longrightarrow> i < length xs \<Longrightarrow>
   sum_list (map2 (\<lambda>c w. f c * w) (xs[i := y]) ws)
     = sum_list (map2 (\<lambda>c w. f c * w) xs ws) + (f y - f (xs ! i)) * (ws ! i :: int)"
proof (induction xs ws arbitrary: i rule: list_induct2)
  case Nil
  then show ?case by simp
next
  case (Cons x xs w ws)
  then show ?case by (cases i) (auto simp: algebra_simps)
qed

lemma id_checksum_update:
  assumes "length s = 18" "i < 17"
  shows "id_checksum (s[i := y]) = id_checksum s + (digit y - digit (s ! i)) * id_weights ! i"
proof -
  have "length (take 17 s) = length id_weights" using assms by (simp add: id_weights_def)
  then show ?thesis
    using weighted_update [of "take 17 s" id_weights i digit y] assms
    by (simp add: id_checksum_def take_update_swap)
qed

lemma single_error_moves:
  assumes "i < 17" "-9 \<le> d" "d \<le> (9 :: int)" "d \<noteq> 0"
  shows "(d * id_weights ! i) mod 11 \<noteq> 0"
proof -
  have "\<forall>w \<in> set id_weights. 1 \<le> w \<and> w \<le> (10 :: int)" by (simp add: id_weights_def)
  moreover have "i < length id_weights" using assms by (simp add: id_weights_def)
  ultimately have w: "1 \<le> id_weights ! i" "id_weights ! i \<le> 10" using nth_mem by blast+
  have "list_all (\<lambda>d. list_all (\<lambda>w. d = 0 \<or> (d * w) mod 11 \<noteq> 0) [1..10]) [-9..(9 :: int)]"
    by code_simp
  moreover have "d \<in> set [-9..9]" "id_weights ! i \<in> set [1..10]"
    unfolding set_upto using w assms by simp_all
  ultimately have "d = 0 \<or> (d * id_weights ! i) mod 11 \<noteq> 0" unfolding list_all_iff by - ((drule (1) bspec)+, assumption)
  then show ?thesis using assms(4) by simp
qed

lemma neighbours_differ:
  assumes "i < 16" "-9 \<le> d" "d \<le> (9 :: int)" "d \<noteq> 0"
  shows "(d * (id_weights ! i - id_weights ! Suc i)) mod 11 \<noteq> 0"
proof -
  have "list_all (\<lambda>i. list_all (\<lambda>d. d = 0 \<or> (d * (id_weights ! i - id_weights ! Suc i)) mod 11 \<noteq> 0)
      [-9..(9 :: int)]) [0..<16]"
    by code_simp
  moreover have "i \<in> set [0..<16]" "d \<in> set [-9..9]"
    unfolding set_upto set_upt using assms by simp_all
  ultimately have "d = 0 \<or> (d * (id_weights ! i - id_weights ! Suc i)) mod 11 \<noteq> 0"
    unfolding list_all_iff by - ((drule (1) bspec)+, assumption)
  then show ?thesis using assms(4) by simp
qed

text \<open>
  The slips of a person copying a number: one character misread (or lost to something that
  is no digit), or two different neighbouring digits swapped.
\<close>

definition slip :: "utext \<Rightarrow> utext \<Rightarrow> bool" where
  "slip s t \<longleftrightarrow>
     (\<exists>i < 17. \<exists>c. digit_value c \<noteq> digit_value (s ! i) \<and> t = s[i := c])
     \<or> (\<exists>i < 16. digit (s ! i) \<noteq> digit (s ! Suc i) \<and> t = s[i := s ! Suc i, Suc i := s ! i])"

lemma id_checksum_swap:
  assumes "length s = 18" "i < 16"
  shows "id_checksum (s[i := s ! Suc i, Suc i := s ! i])
    = id_checksum s + (digit (s ! Suc i) - digit (s ! i)) * (id_weights ! i - id_weights ! Suc i)"
  using id_checksum_update [of s i "s ! Suc i"]
    id_checksum_update [of "s[i := s ! Suc i]" "Suc i" "s ! i"] assms
  by (simp add: algebra_simps)

lemma upper_digits: "map digit_value (map upper_code s) = map digit_value s"
  by (simp add: comp_def)

lemma checksum_digits:
  "map digit_value s = map digit_value t \<Longrightarrow> id_checksum s = id_checksum t"
proof -
  have m: "map2 (\<lambda>c w. h (f c) w) xs ws = map2 h (map f xs) ws"
    for h :: "int option \<Rightarrow> int \<Rightarrow> int" and f :: "nat \<Rightarrow> int option" and xs ws
    by (induction xs arbitrary: ws) (auto split: list.splits simp: zip_Cons1)
  have *: "id_checksum u = sum_list (map2 (\<lambda>d w. (case d of None \<Rightarrow> 0 | Some x \<Rightarrow> x) * w)
      (take 17 (map digit_value u)) id_weights)" for u
    unfolding id_checksum_def digit_def
    using m [of "\<lambda>d w. (case d of None \<Rightarrow> 0 | Some x \<Rightarrow> x) * w" digit_value "take 17 u" id_weights]
    by (simp only: take_map)
  assume "map digit_value s = map digit_value t"
  then show ?thesis by (simp only: *)
qed

lemma proper_needs:
  "proper_national_id s \<Longrightarrow> length s = 18 \<and> list_all is_digit (take 17 s)
     \<and> id_checks ! nat (id_checksum s mod 11) = last s"
  by (simp add: proper_national_id_def national_id_body_def)

lemma slip_length: "slip s t \<Longrightarrow> length t = length s"
  by (auto simp: slip_def)

lemma slip_last:
  assumes "length s = 18" "slip s t" shows "last t = last s"
proof -
  have "t ! 17 = s ! 17" using assms by (auto simp: slip_def)
  moreover have "last u = u ! 17" if "length u = 18" for u :: utext
    using that by (cases "u = []") (simp_all add: last_conv_nth)
  ultimately show ?thesis using assms slip_length [OF assms(2)] by simp
qed

lemma slip_improper:
  assumes s: "proper_national_id s" and t: "slip s t"
  shows "\<not> proper_national_id (map upper_code t)"
proof
  assume p: "proper_national_id (map upper_code t)"
  note S = proper_needs [OF s] and P = proper_needs [OF p]
  have len: "length t = 18" using slip_length [OF t] S by simp
  have dig: "is_digit (s ! i)" if "i < 17" for i
    using S that by (auto simp: list_all_length)
  have digt: "is_digit (t ! i)" if "i < 17" for i
    using P that len by (auto simp: list_all_length is_digit_def)
  have "last (map upper_code t) = upper_code (last s)"
    using slip_last [OF _ t] S len by (cases "t = []") (simp_all add: last_map)
  moreover have "upper_code (last s) = last s"
  proof -
    have "last s \<in> set id_checks" using S id_checks_distinct
      by (metis nat_less_iff nth_mem of_nat_numeral pos_mod_bound pos_mod_sign zero_less_numeral)
    moreover have "list_all (\<lambda>c. upper_code c = c) id_checks" by code_simp
    ultimately show ?thesis by (simp add: list_all_iff)
  qed
  ultimately have "id_checks ! nat (id_checksum t mod 11) = id_checks ! nat (id_checksum s mod 11)"
    using P S checksum_digits [OF upper_digits, of t] by simp
  then have eq: "(id_checksum t - id_checksum s) mod 11 = 0"
    using id_checks_inj by (metis mod_eq_dvd_iff mod_0_imp_dvd dvd_imp_mod_0)
  from t consider (misread) i c where "i < 17" "digit_value c \<noteq> digit_value (s ! i)" "t = s[i := c]"
    | (swap) i where "i < 16" "digit (s ! i) \<noteq> digit (s ! Suc i)"
        "t = s[i := s ! Suc i, Suc i := s ! i]"
    unfolding slip_def by blast
  then show False
  proof cases
    case misread
    have "is_digit c" using digt [of i] misread S by simp
    then have "digit c \<noteq> digit (s ! i)"
      using misread(2) dig [OF misread(1)] by (auto simp: is_digit_def digit_def)
    then show False
      using single_error_moves [OF misread(1), of "digit c - digit (s ! i)"] eq misread
        id_checksum_update [of s i c] S digit_bounds [of c] digit_bounds [of "s ! i"] by simp
  next
    case swap
    then show False
      using neighbours_differ [OF swap(1), of "digit (s ! Suc i) - digit (s ! i)"] eq
        id_checksum_swap [of s i] S digit_bounds [of "s ! Suc i"] digit_bounds [of "s ! i"] by simp
  qed
qed

lemma slip_keeps_text:
  assumes "proper_national_id s" "slip s t" shows "uni_strip t \<noteq> []"
proof
  assume "uni_strip t = []"
  note S = proper_needs [OF assms(1)]
  have all: "uni_space c" if "c \<in> set t" for c
  proof -
    have "dropWhile uni_space (rev (dropWhile uni_space t)) = []"
      using \<open>uni_strip t = []\<close> by (simp add: uni_strip_def strip_by_def)
    then have "\<forall>x \<in> set (dropWhile uni_space t). uni_space x" by (simp add: dropWhile_eq_Nil_conv)
    then show ?thesis using that
      by (metis dropWhile_eq_Nil_conv hd_dropWhile hd_in_set)
  qed
  have "t ! 17 = s ! 17" using assms S by (auto simp: slip_def)
  moreover have "s ! 17 = last s" using S by (cases s rule: rev_cases) (auto simp: nth_append)
  moreover have "t ! 17 \<in> set t" using slip_length [OF assms(2)] S by simp
  ultimately show False using all proper_ends(3) [OF assms(1)] by metis
qed

lemma validated_id_proper: "validate_national_id v = Inr i \<Longrightarrow> pred_option proper_national_id i"
proof (cases v)
  case None
  then show "validate_national_id v = Inr i \<Longrightarrow> ?thesis"
    by (auto simp: validate_national_id_def normalize_optional_def)
next
  case (Some x)
  then show "validate_national_id v = Inr i \<Longrightarrow> ?thesis"
    by (auto simp: validate_national_id_Some Let_def split: if_splits)
qed

text \<open>
  C33. A slip in any of the first seventeen places of an accepted identity number is refused:
  the weights are non-zero modulo 11, and neighbouring weights differ modulo 11.
\<close>

theorem national_id_slip_refused:
  assumes "validate_national_id raw = Inr (Some s)" "slip s t"
  shows "validate_national_id (Some t) = Inl invalid_national_id"
proof -
  have s: "proper_national_id s" using validated_id_proper [OF assms(1)] by simp
  have "\<not> proper_national_id (map upper_code (uni_strip t))"
  proof
    assume p: "proper_national_id (map upper_code (uni_strip t))"
    then have "length (uni_strip t) = length t"
      using proper_needs [OF p] proper_needs [OF s] slip_length [OF assms(2)] by simp
    then have "uni_strip t = t" unfolding uni_strip_def by (rule strip_by_full)
    then show False using p slip_improper [OF s assms(2)] by simp
  qed
  then show ?thesis using slip_keeps_text [OF s assms(2)] by (simp add: validate_national_id_Some)
qed

section \<open>Stored values\<close>

text \<open>
  The form of what is stored.  A number may carry one newline at its end: the pattern lets it
  through when a hyphen hides it from \<open>strip\<close>; \<open>chomp\<close> takes it off.
\<close>

definition e164 :: "utext \<Rightarrow> bool" where
  "e164 m \<longleftrightarrow> take 3 m = country_code \<and> to_end mobile_body (drop 3 m)"

definition tidy :: "utext \<Rightarrow> bool" where
  "tidy s \<longleftrightarrow> s \<noteq> [] \<and> uni_strip s = s"

definition chomp :: "utext \<Rightarrow> utext" where
  "chomp s = (if s \<noteq> [] \<and> last s = 10 then butlast s else s)"

definition well_formed_values :: "contact_values \<Rightarrow> bool" where
  "well_formed_values cv \<longleftrightarrow>
     tidy (cv_full_name cv) \<and> e164 (cv_mobile cv)
     \<and> pred_option proper_national_id (cv_national_id cv)
     \<and> pred_option tidy (cv_emergency_name cv)
     \<and> pred_option e164 (cv_emergency_mobile cv)
     \<and> pred_option tidy (cv_emergency_relation cv)
     \<and> pred_option tidy (cv_rescue_notes cv)
     \<and> (cv_emergency_name cv = None \<longleftrightarrow> cv_emergency_mobile cv = None)
     \<and> (cv_emergency_relation cv \<noteq> None \<longrightarrow> cv_emergency_name cv \<noteq> None)"

lemma codes_country [simp]: "country_code = [43, 56, 54]"
  by (simp add: country_code_def codes_def)

lemma strip_by_snoc: "P c \<Longrightarrow> strip_by P (s @ [c]) = strip_by P s"
proof (cases "\<forall>x \<in> set s. P x")
  case True
  assume "P c"
  have e: "dropWhile P s = []" using True by (simp add: dropWhile_eq_Nil_conv)
  have f: "dropWhile P (s @ [c]) = dropWhile P [c]" using True by (intro dropWhile_append2) blast
  show ?thesis unfolding strip_by_def e f using \<open>P c\<close> by simp
next
  case False
  assume "P c"
  moreover obtain x where "x \<in> set s" "\<not> P x" using False by blast
  ultimately show ?thesis by (simp add: strip_by_def dropWhile_append1)
qed

lemma ascii_digit_value: "48 \<le> c \<Longrightarrow> c \<le> 57 \<Longrightarrow> digit_value c = Some (int (c - 48))"
  by (simp add: digit_value_def digit_zeros_def)

lemma ascii_digit: "48 \<le> c \<Longrightarrow> c \<le> 57 \<Longrightarrow> is_digit c"
  by (simp add: is_digit_def digit_value_def digit_zeros_def)

lemma mobile_body_facts:
  assumes "mobile_body s"
  shows "length s = 11" "\<And>c. c \<in> set s \<Longrightarrow> is_digit c" "s \<noteq> []" "is_digit (last s)"
proof -
  have *: "length s = 11" "s ! 0 = 49" "51 \<le> s ! 1" "s ! 1 \<le> 57" "list_all is_digit (drop 2 s)"
    using assms by (auto simp: mobile_body_def)
  then show "length s = 11" "s \<noteq> []" by auto
  obtain a b t where s: "s = a # b # t" using *(1) by (cases s; cases "tl s") auto
  have "is_digit a" "is_digit b" "\<forall>c \<in> set t. is_digit c"
    using *(2-5) s ascii_digit [of a] ascii_digit [of b] by (simp_all add: list_all_iff)
  then show d: "is_digit c" if "c \<in> set s" for c using that s by auto
  show "is_digit (last s)" using d *(1) by (cases "s = []") auto
qed

lemma digit_facts: "is_digit c \<Longrightarrow> \<not> uni_space c \<and> c \<noteq> 10 \<and> c \<noteq> 32 \<and> c \<noteq> 45"
  using space_no_digit [of c] digit_value_low [of c] by (auto simp: is_digit_def)

lemma e164_body:
  assumes "mobile_body s" shows "uni_strip ([43, 56, 54] @ s) = [43, 56, 54] @ s"
    "normalize_mobile ([43, 56, 54] @ s) = Inr ([43, 56, 54] @ s)"
    "chomp ([43, 56, 54] @ s) = [43, 56, 54] @ s"
proof -
  note b = mobile_body_facts [OF assms]
  have plus: "\<not> uni_space 43" by (simp add: uni_space_def spaces_def)
  show strip: "uni_strip ([43, 56, 54] @ s) = [43, 56, 54] @ s"
    unfolding uni_strip_def
    by (rule strip_by_same) (use plus b digit_facts [of "last s"] in auto)
  have "filter (\<lambda>c. c \<noteq> 32 \<and> c \<noteq> 45) s = s" using b(2) digit_facts by (simp add: filter_id_conv)
  then have "local_mobile ([43, 56, 54] @ s) = s"
    using strip by (simp add: local_mobile_def Let_def)
  then show "normalize_mobile ([43, 56, 54] @ s) = Inr ([43, 56, 54] @ s)"
    using assms by (simp add: normalize_mobile_def to_end_def)
  show "chomp ([43, 56, 54] @ s) = [43, 56, 54] @ s"
    using b(3,4) digit_facts [of "last s"] by (simp add: chomp_def)
qed

lemma e164_cases:
  assumes "e164 m"
  obtains s where "mobile_body s" "chomp m = [43, 56, 54] @ s"
    "m = [43, 56, 54] @ s \<or> m = [43, 56, 54] @ s @ [10]"
proof -
  have m: "m = [43, 56, 54] @ drop 3 m"
    using assms append_take_drop_id [of 3 m] by (simp add: e164_def)
  have "to_end mobile_body (drop 3 m)" using assms by (simp add: e164_def)
  then consider "mobile_body (drop 3 m)"
    | t where "drop 3 m = t @ [10]" "mobile_body t"
    unfolding to_end_def by (metis append_butlast_last_id)
  then show thesis
  proof cases
    case 1
    then show ?thesis using that [of "drop 3 m"] m e164_body(3) by metis
  next
    case 2
    then have "m = [43, 56, 54] @ t @ [10]" using m by simp
    moreover from this have "chomp m = [43, 56, 54] @ t" by (simp add: chomp_def)
    ultimately show ?thesis using that [of t] 2 by blast
  qed
qed

lemma e164_facts:
  assumes "e164 m"
  shows "uni_strip m = chomp m" "schema_strip m = chomp m" "normalize_mobile m = Inr (chomp m)"
    "normalize_mobile (chomp m) = Inr (chomp m)" "uni_strip (chomp m) = chomp m"
    "length (chomp m) = 14" "e164 (chomp m)" "chomp (chomp m) = chomp m"
proof -
  obtain s where s: "mobile_body s" "chomp m = [43, 56, 54] @ s"
      "m = [43, 56, 54] @ s \<or> m = [43, 56, 54] @ s @ [10]"
    using assms by (rule e164_cases)
  note b = e164_body [OF s(1)]
  have nl: "uni_space 10" "schema_space 10" by (simp_all add: uni_space_def schema_space_def spaces_def)
  show u: "uni_strip m = chomp m"
    using s b(1) strip_by_snoc [of uni_space 10 "[43, 56, 54] @ s"] nl
    unfolding uni_strip_def by auto
  show "uni_strip (chomp m) = chomp m" using u uni_strip_idem by metis
  have "schema_strip ([43, 56, 54] @ s) = [43, 56, 54] @ s"
    using schema_after_strip [of "[43, 56, 54] @ s"] unfolding b(1) .
  then show "schema_strip m = chomp m"
    using s strip_by_snoc [of schema_space 10 "[43, 56, 54] @ s"] nl
    unfolding schema_strip_def by auto
  show n: "normalize_mobile (chomp m) = Inr (chomp m)" using s b by simp
  have "local_mobile m = local_mobile (chomp m)"
    using u by (simp add: local_mobile_def \<open>uni_strip (chomp m) = chomp m\<close>)
  then show "normalize_mobile m = Inr (chomp m)" using n by (simp add: normalize_mobile_def)
  show "length (chomp m) = 14" using s mobile_body_facts(1) by simp
  show "e164 (chomp m)" using s by (simp add: e164_def to_end_def)
  show "chomp (chomp m) = chomp m" using s b by simp
qed

lemma normalize_mobile_e164: "normalize_mobile v = Inr m \<Longrightarrow> e164 m"
  by (auto simp: normalize_mobile_def e164_def Let_def split: if_splits)

lemma normalize_optional_tidy: "pred_option tidy (normalize_optional v)"
  by (auto simp: normalize_optional_def tidy_def split: option.splits)

lemma normalize_optional_Some: "normalize_optional v = Some s \<Longrightarrow> tidy s"
  using normalize_optional_tidy [of v] by simp

text \<open>Whatever passes the validation has the form above.\<close>

lemma emergency_values_form:
  assumes "emergency_values em = Inr (n, m, r)"
  shows "pred_option tidy n \<and> pred_option e164 m \<and> pred_option tidy r
    \<and> (n = None \<longleftrightarrow> m = None) \<and> (r \<noteq> None \<longrightarrow> n \<noteq> None)"
proof (cases em)
  case None
  then show ?thesis using assms by (simp add: emergency_values_def)
next
  case (Some e)
  note t = normalize_optional_tidy [of "em_name e"] normalize_optional_tidy [of "em_relation e"]
  show ?thesis
  proof (cases "normalize_optional (em_name e)")
    case None
    then show ?thesis using assms Some
      by (auto simp: emergency_values_def split: option.splits if_splits)
  next
    case (Some x)
    show ?thesis using assms t unfolding \<open>em = Some e\<close> emergency_values_def
      by (auto simp: Some dest: normalize_mobile_e164 split: option.splits sum.splits)
  qed
qed

text \<open>
  C30. What the validation lets through has one form: a name and optional texts without outer spaces
  and not empty, mobile numbers as +86 before what the code's pattern accepts, an identity number in upper case with a date that
  exists and the right check digit, an emergency contact with name and number or none at all.
\<close>

theorem validated_values_well_formed:
  assumes "validate_values tm full_name mobile consent additional = Inr cv"
  shows "well_formed_values cv"
proof (cases additional)
  case None
  then show ?thesis using assms
    by (auto simp: validate_values_def additional_values_def well_formed_values_def tidy_def
        dest: normalize_mobile_e164 split: if_splits sum.splits)
next
  case (Some a)
  then obtain i n m r where
    "validate_national_id (add_national_id a) = Inr i"
    "emergency_values (add_emergency a) = Inr (n, m, r)"
    "cv_national_id cv = i" "cv_emergency_name cv = n" "cv_emergency_mobile cv = m"
    "cv_emergency_relation cv = r"
    "cv_rescue_notes cv = normalize_optional (add_rescue_notes a)"
    "tidy (cv_full_name cv)" "e164 (cv_mobile cv)"
    using assms
    by (auto simp: validate_values_def additional_values_def tidy_def
        dest: normalize_mobile_e164 split: if_splits sum.splits)
  then show ?thesis
    using validated_id_proper [of "add_national_id a" i]
      emergency_values_form [of "add_emergency a" n m r]
      normalize_optional_tidy [of "add_rescue_notes a"]
    unfolding well_formed_values_def by auto
qed

section \<open>Reading back\<close>

definition plain_of :: "contact_values \<Rightarrow> plain_contact" where
  "plain_of cv =
     \<lparr>pc_full_name = cv_full_name cv, pc_mobile = cv_mobile cv,
      pc_national_id = cv_national_id cv, pc_emergency_name = cv_emergency_name cv,
      pc_emergency_mobile = cv_emergency_mobile cv,
      pc_emergency_relation = cv_emergency_relation cv, pc_rescue_notes = cv_rescue_notes cv\<rparr>"

lemma decrypt_encrypt:
  "authenticated v \<Longrightarrow>
   decrypt v s' inc' dev' kv' field' (encrypt v s inc dev field x)
     = (if va_key v (vs_key s') = va_key v (vs_key s)
           \<and> aad inc' dev' field' kv' = aad inc dev field (vs_key_version s)
        then Some x else None)"
  by (simp add: decrypt_def encrypt_def authenticated_def)

lemma open_sealed:
  assumes "authenticated v" "va_key v (vs_key s') = va_key v (vs_key s)"
  shows "open_optional (decrypt v s' inc dev (vs_key_version s) field)
      (map_option (encrypt v s inc dev field) x) = Some x"
  using assms by (cases x) (simp_all add: open_optional_def decrypt_encrypt)

lemma plain_contact_built:
  assumes "authenticated v"
  shows "plain_contact_of v s' (build_contact v s e inc dev cv)
    = (if va_key v (vs_key s') = va_key v (vs_key s) then Some (plain_of cv) else None)"
  using assms open_sealed [OF assms]
  by (simp add: plain_contact_of_def build_contact_def Let_def open_column_def decrypt_encrypt
      plain_of_def)

text \<open>
  C31. A stored contact opens to the values that were validated, whatever the key version in the
  settings is by then, as long as the key itself is the same; under another key reading it
  raises, because no key is kept for an earlier version.
\<close>

theorem stored_contact_reads_back:
  assumes "authenticated v" "create_reporter_contact v s e inc dev r = Inr c"
    "contact_input_values (now e) r = Inr cv"
  shows "plain_contact_of v s' c
    = (if va_key v (vs_key s') = va_key v (vs_key s) then Some (plain_of cv) else None)"
  using assms plain_contact_built [OF assms(1), of s' s e inc dev cv]
  by (auto simp: create_reporter_contact_def)

text \<open>The parts of the associated data are told apart by the colons.\<close>

lemma colon_split:
  assumes "a @ CHR '':'' # x = b @ CHR '':'' # y" "CHR '':'' \<notin> set a" "CHR '':'' \<notin> set b"
  shows "a = b \<and> x = y"
proof -
  have *: "takeWhile (\<lambda>c. c \<noteq> CHR '':'') (u @ CHR '':'' # v) = u"
    if "CHR '':'' \<notin> set u" for u v :: string
    using that by (subst takeWhile_append2) auto
  have "a = b" using * [OF assms(2), of x] * [OF assms(3), of y] assms(1) by metis
  then show ?thesis using assms(1) by simp
qed

lemma aad_inj:
  assumes "aad i d f k = aad i' d' f' k'"
    "CHR '':'' \<notin> set i \<union> set d \<union> set f \<union> set i' \<union> set d' \<union> set f'"
  shows "i = i' \<and> d = d' \<and> f = f' \<and> k = k'"
proof -
  have "i @ CHR '':'' # (d @ CHR '':'' # (f @ CHR '':'' # k))
      = i' @ CHR '':'' # (d' @ CHR '':'' # (f' @ CHR '':'' # k'))"
    using assms(1) by (simp add: aad_def)
  then have 1: "i = i' \<and> d @ CHR '':'' # (f @ CHR '':'' # k) = d' @ CHR '':'' # (f' @ CHR '':'' # k')"
    by (rule colon_split) (use assms(2) in simp_all)
  then have 2: "d = d' \<and> f @ CHR '':'' # k = f' @ CHR '':'' # k'"
    using assms(2) by (intro colon_split) simp_all
  then have "f = f' \<and> k = k'" using assms(2) by (intro colon_split) simp_all
  with 1 2 show ?thesis by blast
qed

text \<open>
  C32. A ciphertext opens in its own place only: copied into the row of another incident or device,
  into another field, or under another key version, it raises.
\<close>

theorem ciphertext_bound_to_place:
  assumes "authenticated v"
    "CHR '':'' \<notin> set inc \<union> set dev \<union> set field \<union> set inc' \<union> set dev' \<union> set field'"
  shows "decrypt v s inc' dev' version' field' (encrypt v s inc dev field x)
    = (if inc' = inc \<and> dev' = dev \<and> field' = field \<and> version' = vs_key_version s
       then Some x else None)"
  using aad_inj [of inc' dev' field' version' inc dev field "vs_key_version s"] assms
  by (auto simp: decrypt_encrypt)

section \<open>Changing a contact\<close>

text \<open>The lengths the schemas leave, as far as the stored values go through them again.\<close>

definition short_values :: "contact_values \<Rightarrow> bool" where
  "short_values cv \<longleftrightarrow>
     pred_option (\<lambda>s. length s \<le> 80) (cv_emergency_name cv)
     \<and> pred_option (\<lambda>s. length s \<le> 40) (cv_emergency_relation cv)
     \<and> pred_option (\<lambda>s. length s \<le> 500) (cv_rescue_notes cv)"

definition chomp_values :: "contact_values \<Rightarrow> contact_values" where
  "chomp_values cv = cv\<lparr>cv_mobile := chomp (cv_mobile cv),
     cv_emergency_mobile := map_option chomp (cv_emergency_mobile cv)\<rparr>"

lemma tidy_facts:
  assumes "tidy s" shows "uni_strip s = s" "schema_strip s = s" "s \<noteq> []" "1 \<le> length s"
    "normalize_optional (Some s) = Some s"
  using assms schema_after_strip [of s] by (auto simp: tidy_def normalize_optional_def Suc_le_eq)

lemma proper_revalidates:
  assumes "proper_national_id s" "\<And>c. c \<in> set s \<Longrightarrow> upper_code c = c"
  shows "validate_national_id (Some s) = Inr (Some s)"
proof -
  have "map upper_code s = s" using assms(2) by (simp add: map_idI)
  then show ?thesis using assms(1) proper_ends(1) by (simp add: validate_national_id_Some Let_def)
qed

lemma validated_id_upper:
  "validate_national_id v = Inr (Some s) \<Longrightarrow> c \<in> set s \<Longrightarrow> upper_code c = c"
  by (cases v) (auto simp: validate_national_id_def normalize_optional_def Let_def
      split: if_splits)

lemma proper_schema: "proper_national_id s \<Longrightarrow> schema_strip s = s \<and> length s = 18"
  using proper_strip [of s] schema_after_strip [of s] proper_needs by auto

text \<open>Stored values pass the schema and the validation again, up to the newline.\<close>

lemma stored_additional_again:
  assumes wf: "well_formed_values cv" and short: "short_values cv"
    and up: "\<And>s c. cv_national_id cv = Some s \<Longrightarrow> c \<in> set s \<Longrightarrow> upper_code c = c"
  shows "\<exists>a. additional_schema (stored_additional (plain_of cv)) = Some a
    \<and> additional_values (Some a) = Inr (cv_national_id cv,
        (cv_emergency_name cv, map_option chomp (cv_emergency_mobile cv),
         cv_emergency_relation cv), cv_rescue_notes cv)"
proof -
  have i: "str_field 18 18 (cv_national_id cv) = Some (cv_national_id cv)"
    "validate_national_id (cv_national_id cv) = Inr (cv_national_id cv)"
    using wf up proper_schema proper_revalidates
    by (cases "cv_national_id cv"; auto simp: well_formed_values_def str_field_def
        validate_national_id_def normalize_optional_def)+
  have n: "str_field 1 500 (cv_rescue_notes cv) = Some (cv_rescue_notes cv)"
    "normalize_optional (cv_rescue_notes cv) = cv_rescue_notes cv"
    using wf short tidy_facts
    by (cases "cv_rescue_notes cv"; auto simp: well_formed_values_def short_values_def
        str_field_def normalize_optional_def Suc_le_eq)+
  have r: "str_field 1 40 (cv_emergency_relation cv) = Some (cv_emergency_relation cv)"
    "normalize_optional (cv_emergency_relation cv) = cv_emergency_relation cv"
    using wf short tidy_facts
    by (cases "cv_emergency_relation cv"; auto simp: well_formed_values_def short_values_def
        str_field_def normalize_optional_def Suc_le_eq)+
  show ?thesis
  proof (cases "cv_emergency_name cv")
    case None
    then have "cv_emergency_mobile cv = None" "cv_emergency_relation cv = None"
      using wf by (auto simp: well_formed_values_def)
    then show ?thesis using None i n
      by (simp add: stored_additional_def plain_of_def additional_schema_def additional_values_def
          emergency_values_def)
  next
    case (Some nm)
    then obtain m where m: "cv_emergency_mobile cv = Some m" "e164 m"
      using wf by (auto simp: well_formed_values_def)
    have nm: "tidy nm" "length nm \<le> 80"
      using wf short Some by (auto simp: well_formed_values_def short_values_def)
    have "str_field 1 80 (Some nm) = Some (Some nm)"
      using nm tidy_facts by (simp add: str_field_def)
    moreover have "str_field 11 32 (Some m) = Some (Some (chomp m))"
      using e164_facts [OF m(2)] by (simp add: str_field_def)
    moreover have "normalize_optional (Some nm) = Some nm"
      "normalize_optional (Some (chomp m)) = Some (chomp m)"
      using nm tidy_facts(5) e164_facts(5,6) [OF m(2)] by (auto simp: normalize_optional_def)
    ultimately show ?thesis using Some m i n r e164_facts(4) [OF m(2)]
      by (simp add: stored_additional_def plain_of_def additional_schema_def additional_values_def
          emergency_schema_def emergency_values_def)
  qed
qed

lemma normalize_optional_shorter:
  "normalize_optional v = Some s \<Longrightarrow> \<exists>t. v = Some t \<and> length s \<le> length t"
  using length_strip_by by (auto simp: normalize_optional_def uni_strip_def
      split: option.splits if_splits)

lemma str_field_bound: "str_field lo hi v = Some w \<Longrightarrow> w = Some s \<Longrightarrow> length s \<le> hi"
  by (auto simp: str_field_def split: option.splits if_splits)

lemma emergency_schema_bounds:
  assumes "emergency_schema e = Some e'"
  shows "pred_option (\<lambda>s. length s \<le> 80) (em_name e')
    \<and> pred_option (\<lambda>s. length s \<le> 40) (em_relation e')"
  using assms str_field_bound
  by (auto simp: emergency_schema_def pred_option_def elim: option.set_cases split: option.splits)

lemma additional_schema_bounds:
  assumes "additional_schema a = Some a'"
  shows "pred_option (\<lambda>s. length s \<le> 500) (add_rescue_notes a')
    \<and> (\<forall>e'. add_emergency a' = Some e' \<longrightarrow> pred_option (\<lambda>s. length s \<le> 80) (em_name e')
        \<and> pred_option (\<lambda>s. length s \<le> 40) (em_relation e'))"
  using assms str_field_bound emergency_schema_bounds
  by (auto simp: additional_schema_def pred_option_def elim!: option.set_cases
      split: option.splits)

lemma normalize_optional_bound:
  "pred_option (\<lambda>s. length s \<le> n) v \<Longrightarrow> pred_option (\<lambda>s. length s \<le> n) (normalize_optional v)"
  using order_trans [OF length_strip_by]
  by (auto simp: normalize_optional_def uni_strip_def split: option.splits)

lemma additional_values_short:
  assumes "additional_schema a = Some a'" "additional_values (Some a') = Inr (i, (n, m, r), nt)"
  shows "pred_option (\<lambda>s. length s \<le> 80) n \<and> pred_option (\<lambda>s. length s \<le> 40) r
    \<and> pred_option (\<lambda>s. length s \<le> 500) nt"
proof (cases "add_emergency a'")
  case None
  then show ?thesis using additional_schema_bounds [OF assms(1)] assms(2) normalize_optional_bound
    by (auto simp: additional_values_def emergency_values_def split: sum.splits)
next
  case (Some e)
  note b = additional_schema_bounds [OF assms(1)]
  have "n = None \<or> n = normalize_optional (em_name e)"
    "r = None \<or> r = normalize_optional (em_relation e)"
    "nt = normalize_optional (add_rescue_notes a')"
    using assms(2) Some by (auto simp: additional_values_def emergency_values_def Let_def
        split: sum.splits option.splits if_splits)
  then show ?thesis using b Some normalize_optional_bound by auto
qed

lemma created_values_short:
  assumes "reporter_schema raw = Some r" "contact_input_values tm r = Inr cv"
  shows "short_values cv"
proof (cases "ri_additional r")
  case None
  then show ?thesis using assms(2)
    by (auto simp: contact_input_values_def validate_values_def additional_values_def
        short_values_def split: if_splits sum.splits)
next
  case (Some a')
  then obtain a where "additional_schema a = Some a'"
    using assms(1) by (auto simp: reporter_schema_def split: option.splits)
  moreover obtain i n m r' nt where "additional_values (Some a') = Inr (i, (n, m, r'), nt)"
    "cv_emergency_name cv = n" "cv_emergency_relation cv = r'" "cv_rescue_notes cv = nt"
    using assms(2) Some by (auto simp: contact_input_values_def validate_values_def
        split: if_splits sum.splits)
  ultimately show ?thesis using additional_values_short by (simp add: short_values_def)
qed

lemma created_id_upper:
  assumes "validate_values tm n m t a = Inr cv" "cv_national_id cv = Some s" "c \<in> set s"
  shows "upper_code c = c"
proof (cases a)
  case None
  then show ?thesis using assms
    by (auto simp: validate_values_def additional_values_def split: if_splits sum.splits)
next
  case (Some x)
  then have "validate_national_id (add_national_id x) = Inr (Some s)" using assms
    by (auto simp: validate_values_def additional_values_def split: if_splits sum.splits)
  then show ?thesis using assms(3) validated_id_upper by blast
qed

text \<open>
  A patch that touches none of the fields of a contact created through the API succeeds and
  keeps every field, but for a newline at the end of a number.  The time of consent is not
  kept: unless the patch brings one, the new row has the time of the patch.
\<close>

theorem unchanged_update_keeps_contact:
  assumes "authenticated v" "reporter_schema raw = Some r"
    and cv: "contact_input_values (now e) r = Inr cv"
    and "rq_full_name p = None" "rq_mobile p = None" "rq_additional p = None"
  shows "\<exists>c. update_reporter_contact v s e' inc (build_contact v s e inc dev cv) p = Inr c
    \<and> plain_contact_of v s c = Some (plain_of (chomp_values cv))
    \<and> ct_consent_at c = (case rq_consent_at p of None \<Rightarrow> now e' | Some t \<Rightarrow> t)"
proof -
  have wf: "well_formed_values cv"
    using cv validated_values_well_formed unfolding contact_input_values_def by blast
  obtain a where a: "additional_schema (stored_additional (plain_of cv)) = Some a"
    "additional_values (Some a) = Inr (cv_national_id cv,
        (cv_emergency_name cv, map_option chomp (cv_emergency_mobile cv),
         cv_emergency_relation cv), cv_rescue_notes cv)"
    using stored_additional_again [OF wf created_values_short [OF assms(2) cv]]
      created_id_upper cv unfolding contact_input_values_def by blast
  let ?cv = "chomp_values cv\<lparr>cv_consent_at := (case rq_consent_at p of None \<Rightarrow> now e' | Some t \<Rightarrow> t)\<rparr>"
  have "cv_full_name cv \<noteq> []" "uni_strip (cv_full_name cv) = cv_full_name cv" "e164 (cv_mobile cv)"
    using wf by (auto simp: well_formed_values_def tidy_def)
  then have "validate_values (now e') (cv_full_name cv) (cv_mobile cv) (rq_consent_at p) (Some a)
      = Inr ?cv"
    using a(2) e164_facts(3) [of "cv_mobile cv"]
    by (simp add: validate_values_def chomp_values_def)
  then have "update_reporter_contact v s e' inc (build_contact v s e inc dev cv) p
      = Inr (build_contact v s e' inc dev ?cv)"
    using assms a(1) plain_contact_built [OF assms(1), of s s e inc dev cv]
    by (simp add: update_reporter_contact_def plain_of_def build_contact_def Let_def)
  moreover have "plain_contact_of v s (build_contact v s e' inc dev ?cv) = Some (plain_of ?cv)"
    using plain_contact_built [OF assms(1)] by simp
  ultimately show ?thesis by (simp add: plain_of_def build_contact_def Let_def)
qed

section \<open>What the masked view lets through\<close>

definition initial_part :: "utext \<Rightarrow> nat \<times> nat" where
  "initial_part n = (hd n, min (length n) 4)"

definition number_part :: "utext \<Rightarrow> utext \<times> utext" where
  "number_part m = (take 3 (drop 3 m), last4 (drop 3 m))"

definition shown_part ::
    "contact_values \<Rightarrow> (nat \<times> nat) \<times> (utext \<times> utext) \<times> bool \<times> (nat \<times> nat) option
      \<times> (utext \<times> utext) option \<times> utext option \<times> bool" where
  "shown_part cv =
     (initial_part (cv_full_name cv), number_part (cv_mobile cv), cv_national_id cv \<noteq> None,
      map_option initial_part (cv_emergency_name cv),
      map_option number_part (cv_emergency_mobile cv), cv_emergency_relation cv,
      cv_rescue_notes cv \<noteq> None)"

lemma mask_name_initial:
  "tidy n \<Longrightarrow> mask_name n = (let (c, k) = initial_part n in c # replicate (max 1 (k - 1)) 42)"
  by (cases n) (auto simp: mask_name_def tidy_def initial_part_def Let_def min_def max_def)

lemma mask_mobile_number:
  "e164 m \<Longrightarrow> mask_mobile m = (let (a, b) = number_part m in a @ codes ''****'' @ b)"
  by (simp add: mask_mobile_def e164_def number_part_def Let_def)

definition masked_of :: "contact_values \<Rightarrow> masked_view" where
  "masked_of cv = (case shown_part cv of (name, num, has_id, ename, enum, relation, nt) \<Rightarrow>
     \<lparr>mv_full_name_masked = fst name # replicate (max 1 (snd name - 1)) 42,
      mv_mobile_masked = fst num @ codes ''****'' @ snd num, mv_has_national_id = has_id,
      mv_emergency = map_option (\<lambda>n.
        \<lparr>me_name_masked = Some (fst n # replicate (max 1 (snd n - 1)) 42),
         me_mobile_masked = map_option (\<lambda>x. fst x @ codes ''****'' @ snd x) enum,
         me_relation_masked = relation\<rparr>) ename,
      mv_has_rescue_notes = nt\<rparr>)"

lemma e164_not_Nil: "e164 m \<Longrightarrow> m \<noteq> []"
  by (auto simp: e164_def)

text \<open>
  The masked view of a contact is a function of the part listed in \<open>shown_part\<close>: the first
  character and the length (up to four) of each name, the first three and last four digits of
  each number, whether there is an identity number and a note, and the relation of the
  emergency contact, which is shown as it is.
\<close>

theorem masked_view_of_shown_part:
  assumes "well_formed_values cv"
  shows "serialize_contact_masked (Some (build_contact v s e inc dev cv)) = Some (masked_of cv)"
proof (cases "cv_emergency_name cv")
  case None
  then show ?thesis
    using assms mask_name_initial [of "cv_full_name cv"] mask_mobile_number [of "cv_mobile cv"]
    by (simp add: serialize_contact_masked_def build_contact_def masked_of_def shown_part_def
        well_formed_values_def Let_def case_prod_beta)
next
  case (Some n)
  then obtain m where m: "cv_emergency_mobile cv = Some m" "e164 m" "tidy n"
    using assms by (auto simp: well_formed_values_def)
  then show ?thesis
    using Some assms mask_name_initial [of "cv_full_name cv"] mask_mobile_number [of "cv_mobile cv"]
      mask_name_initial [of n] mask_mobile_number [of m] e164_not_Nil [of m]
    by (simp add: serialize_contact_masked_def build_contact_def masked_of_def shown_part_def
        well_formed_values_def Let_def case_prod_beta tidy_def)
qed

section \<open>Instances\<close>

text \<open>A vault whose ciphertexts carry key and associated data in the clear.\<close>

definition demo_prefix :: "string \<Rightarrow> string \<Rightarrow> nat list" where
  "demo_prefix k a = codes k @ 256 # codes a @ [256]"

definition demo_vault :: vault where
  "demo_vault = \<lparr>va_key = (\<lambda>k. k), va_seal = (\<lambda>k n s a. demo_prefix k a @ s),
     va_open = (\<lambda>k n t a. if take (length (demo_prefix k a)) t = demo_prefix k a
       then Some (drop (length (demo_prefix k a)) t) else None),
     va_nonce = (\<lambda>_. [1, 2, 3]), va_hmac = (\<lambda>k s. k)\<rparr>"

definition demo_vault_settings :: vault_settings where
  "demo_vault_settings = \<lparr>vs_key = ''k'', vs_key_version = ''v1'', vs_blind_secret = ''b'',
     vs_retention_days = 90, vs_mfa_code = ''000000''\<rparr>"

lemma codes_inj: "codes k = codes k' \<longleftrightarrow> k = k'"
proof -
  have "inj (of_char :: char \<Rightarrow> nat)" by (simp add: inj_on_def)
  then show ?thesis unfolding codes_def by (simp add: inj_map_eq_map)
qed

lemma codes_small: "c \<in> set (codes k) \<Longrightarrow> c \<noteq> 256"
proof -
  assume "c \<in> set (codes k)"
  then obtain x :: char where "c = of_char x" by (auto simp: codes_def)
  have "of_char x < (256 :: nat)" by simp
  with \<open>c = of_char x\<close> show ?thesis by (metis less_irrefl)
qed

lemma demo_prefix_inj:
  assumes "take (length (demo_prefix k' a')) (demo_prefix k a @ s) = demo_prefix k' a'"
  shows "k' = k \<and> a' = a"
proof -
  have tw: "takeWhile (\<lambda>c. c \<noteq> 256) (codes u @ 256 # v) = codes u"
    "drop 1 (dropWhile (\<lambda>c. c \<noteq> 256) (codes u @ 256 # v)) = v" for u v
    using codes_small by (subst takeWhile_append2 dropWhile_append2; auto)+
  let ?r = "drop (length (demo_prefix k' a')) (demo_prefix k a @ s)"
  have "demo_prefix k a @ s = demo_prefix k' a' @ ?r" using assms by (metis append_take_drop_id)
  then have eq: "codes k @ 256 # (codes a @ 256 # s) = codes k' @ 256 # (codes a' @ 256 # ?r)"
    by (simp add: demo_prefix_def [of k a] demo_prefix_def [of k' a'])
  have "codes k = codes k'" using arg_cong [OF eq, of "takeWhile (\<lambda>c. c \<noteq> 256)"] by (simp only: tw)
  moreover have "codes a @ 256 # s = codes a' @ 256 # ?r"
    using arg_cong [OF eq, of "\<lambda>t. drop 1 (dropWhile (\<lambda>c. c \<noteq> 256) t)"] by (simp only: tw)
  then have "codes a = codes a'" using arg_cong [of _ _ "takeWhile (\<lambda>c. c \<noteq> 256)"] by (metis tw(1))
  ultimately show ?thesis by (simp add: codes_inj)
qed

lemma demo_vault_authenticated: "authenticated demo_vault"
  using demo_prefix_inj by (fastforce simp: authenticated_def demo_vault_def)

definition demo_reporter :: reporter_input where
  "demo_reporter = \<lparr>ri_full_name = [29579, 22823], ri_mobile = codes ''138 1234 5678'',
     ri_consent_at = None,
     ri_additional = Some \<lparr>add_national_id = Some (codes ''11010519491231002x''),
       add_emergency = Some \<lparr>em_name = Some [26446], em_mobile = Some (codes ''+86-13912345678''),
         em_relation = None\<rparr>, add_rescue_notes = None\<rparr>\<rparr>"

definition demo_values :: contact_values where
  "demo_values = \<lparr>cv_full_name = [29579, 22823], cv_mobile = codes ''+8613812345678'',
     cv_national_id = Some (codes ''11010519491231002X''), cv_emergency_name = Some [26446],
     cv_emergency_mobile = Some (codes ''+8613912345678''), cv_emergency_relation = None,
     cv_rescue_notes = None, cv_consent_at = 7\<rparr>"

lemmas demo_run = codes_def uni_strip_def strip_by_def uni_space_def spaces_def
  normalize_mobile_def local_mobile_def to_end_def mobile_body_def is_digit_def
  ascii_digit_value digit_value_letter upper_code_def normalize_optional_def

lemma demo_id_valid:
  "validate_national_id (Some (codes ''11010519491231002x''))
     = Inr (Some (codes ''11010519491231002X''))"
  by (simp add: demo_run validate_national_id_def national_id_body_def number_def digit_def
      month_days_def id_checksum_def id_weights_def id_checks_def Let_def)

lemma demo_values_valid: "contact_input_values 7 demo_reporter = Inr demo_values"
  using demo_id_valid
  by (simp add: contact_input_values_def validate_values_def additional_values_def
      emergency_values_def demo_reporter_def demo_values_def demo_run Let_def)

lemma demo_reporter_schema: "reporter_schema demo_reporter = Some demo_reporter"
  by (simp add: reporter_schema_def demo_reporter_def str_field_def schema_strip_def
      schema_space_def additional_schema_def emergency_schema_def strip_by_def uni_space_def
      spaces_def codes_def)

definition demo_actor_env :: env where
  "demo_actor_env = \<lparr>now = 7, new_id = (\<lambda>_. ''c1''), request_ctx = None\<rparr>"

abbreviation demo_contact :: reporter_contact where
  "demo_contact \<equiv> build_contact demo_vault demo_vault_settings demo_actor_env
     demo_incident ''d1'' demo_values"

theorem national_id_slip_refused_witness:
  "validate_national_id (Some (codes ''10110519491231002X'')) = Inl invalid_national_id"
proof (rule national_id_slip_refused [OF demo_id_valid])
  show "slip (codes ''11010519491231002X'') (codes ''10110519491231002X'')"
    unfolding slip_def
    by (intro disjI2 exI [of _ 1]) (simp add: codes_def digit_def ascii_digit_value)
qed

theorem validated_values_well_formed_witness: "well_formed_values demo_values"
  using demo_values_valid unfolding contact_input_values_def
  by (rule validated_values_well_formed)

theorem stored_contact_reads_back_witness:
  "plain_contact_of demo_vault (demo_vault_settings\<lparr>vs_key_version := ''v2''\<rparr>) demo_contact
     = Some (plain_of demo_values)
   \<and> plain_contact_of demo_vault (demo_vault_settings\<lparr>vs_key := ''k2''\<rparr>) demo_contact = None"
proof -
  have c: "create_reporter_contact demo_vault demo_vault_settings demo_actor_env
      demo_incident ''d1'' demo_reporter = Inr demo_contact"
    using demo_values_valid by (simp add: create_reporter_contact_def demo_actor_env_def)
  have v: "contact_input_values (now demo_actor_env) demo_reporter = Inr demo_values"
    using demo_values_valid by (simp add: demo_actor_env_def)
  show ?thesis
    using stored_contact_reads_back [OF demo_vault_authenticated c v] by (simp add: demo_vault_def demo_vault_settings_def)
qed

theorem ciphertext_bound_to_place_witness:
  "decrypt demo_vault demo_vault_settings ''i1'' ''d2'' ''v1'' ''mobile''
     (encrypt demo_vault demo_vault_settings ''i1'' ''d1'' ''mobile'' [49]) = None"
  using ciphertext_bound_to_place [OF demo_vault_authenticated, where inc = "''i1''"
      and dev = "''d1''" and field = "''mobile''" and inc' = "''i1''" and dev' = "''d2''"
      and field' = "''mobile''" and x = "[49]"] by simp

definition demo_patch :: reporter_patch where
  "demo_patch = \<lparr>rq_full_name = None, rq_mobile = None, rq_consent_at = None,
     rq_additional = None\<rparr>"

theorem unchanged_update_keeps_contact_witness:
  "\<exists>c. update_reporter_contact demo_vault demo_vault_settings (demo_actor_env\<lparr>now := 99\<rparr>)
      demo_incident demo_contact demo_patch = Inr c
    \<and> plain_contact_of demo_vault demo_vault_settings c = Some (plain_of (chomp_values demo_values))
    \<and> ct_consent_at c = 99"
proof -
  have v: "contact_input_values (now demo_actor_env) demo_reporter = Inr demo_values"
    using demo_values_valid by (simp add: demo_actor_env_def)
  show ?thesis
    using unchanged_update_keeps_contact [OF demo_vault_authenticated demo_reporter_schema v,
        of demo_patch demo_vault_settings "demo_actor_env\<lparr>now := 99\<rparr>" demo_incident
          "''d1''"] by (simp add: demo_patch_def)
qed

theorem masked_view_of_shown_part_witness:
  "serialize_contact_masked (Some demo_contact) = Some (masked_of demo_values)"
proof (rule masked_view_of_shown_part)
  show "well_formed_values demo_values"
    unfolding well_formed_values_def tidy_def e164_def proper_national_id_def national_id_body_def
    by (simp add: demo_values_def demo_run number_def digit_def
      month_days_def id_checksum_def id_weights_def id_checks_def Let_def)
qed

text \<open>A number with a newline and a hyphen at the end is accepted, newline and all.\<close>

lemma mobile_keeps_newline:
  "normalize_mobile (codes ''13812345678'' @ [10, 45])
     = Inr (codes ''+8613812345678'' @ [10])"
  by (simp add: demo_run)

text \<open>So is one in digits of another script.\<close>

lemma mobile_keeps_script:
  "normalize_mobile (codes ''138'' @ [1633, 1634, 1635, 1636, 1637, 1638, 1639, 1640])
     = Inr (codes ''+86138'' @ [1633, 1634, 1635, 1636, 1637, 1638, 1639, 1640])"
  by (simp add: demo_run digit_value_def digit_zeros_def)

end
