(* ===== verification/Store.thy ===== *)
theory Store
  imports Notifications Contacts Idempotency Jobs Detection
begin

text \<open>
  The database of the report handlers and of the retention pass: the tables of the components
  below, the reporter contacts, the idempotency records and the files of the attachments.
  A path is the list of its resolved parts.
\<close>

type_synonym path = "string list"

record full_db = push_db +
  db_contacts :: "reporter_contact list"
  db_idempotency :: "idem_row list"
  db_jobs :: "job list"
  fs_files :: "path list"
  fs_others :: "path list"

text \<open>\<open>modify_where\<close> with one idempotent function: a second selection only widens the first.\<close>

lemma modify_where_twice:
  assumes "\<And>r. f (f r) = f r" "\<And>r. P (f r) = P r"
  shows "modify_where P f (modify_where Q f rs) = modify_where (\<lambda>r. P r \<or> Q r) f rs"
  using assms by (induction rs) auto

lemma modify_where_cong:
  "(\<And>r. r \<in> set rs \<Longrightarrow> P r = Q r) \<Longrightarrow> modify_where P f rs = modify_where Q f rs"
  by (induction rs) auto

lemma modify_where_False [simp]: "modify_where (\<lambda>_. False) f rs = rs"
  by (induction rs) auto

text \<open>A database with one incident, for the witnesses.\<close>

definition demo_full_db :: "incident \<Rightarrow> report list \<Rightarrow> reporter_contact list \<Rightarrow> path list \<Rightarrow> full_db" where
  "demo_full_db inc rs cs ps = \<lparr>db_incidents = [inc], db_analyses = [], db_outbox = [], db_audit = [],
     tx_key = 1, data_marker = None, map_marker = None, pending_stale = [], id_count = 0,
     db_devices = [demo_device], db_accounts = [], db_memberships = [], db_refresh = [],
     db_reports = rs, db_report_revisions = [], db_attachments = [],
     db_blind_spots = [], db_questions = [], db_answers = [],
     db_answer_revisions = [], db_fragments = [], db_cases = [],
     db_evidence = [], db_decisions = [], db_facts = [],
     db_fact_versions = [], db_features = [], db_push_devices = [], db_preferences = [],
     db_notifications = [], db_deliveries = [], db_receipts = [], db_contacts = cs,
     db_idempotency = [], db_jobs = [], fs_files = ps, fs_others = []\<rparr>"

text \<open>A report as a resident's device creates it, for the witnesses.\<close>

definition demo_report :: report where
  "demo_report = \<lparr>rp_id = ''r1'', rp_incident_id = ''inc'', rp_reporter_device_id = ''d1'',
     rp_reporter_contact_id = Some ''c1'', rp_category = ''flood'', rp_content_original = [1],
     rp_content_display = [1], rp_location_text = [2], rp_latitude = None, rp_longitude = None,
     rp_wgs84_latitude = None, rp_wgs84_longitude = None, rp_gcj02_latitude = None,
     rp_gcj02_longitude = None, rp_location_accuracy_m = None, rp_location_source = ''manual'',
     rp_coordinate_system = None, rp_location_provider = None, rp_location_observed_at = None,
     rp_algorithm_version = None, rp_is_urgent = False, rp_priority = ''low'',
     rp_priority_source = ''rule'', rp_manual_priority = None, rp_status = ''new'',
     rp_is_directed_answer = False, rp_directed_answer_id = None, rp_ai_refinement_id = None,
     rp_attachment_count = 0, rp_revision = 1, rp_deleted_at = None, rp_created_at = 0,
     rp_updated_at = 0\<rparr>"

end
