(* ===== verification/Retention.thy ===== *)
theory Retention
  imports Store "HOL-Library.Sublist"
begin

text \<open>
  The retention pass (\<open>services/retention.py\<close>): expired idempotency records, sessions, outbox
  events and audit entries are deleted, contacts past their date are made anonymous, and of an
  incident closed long enough every report, revision, attachment (with its files), answer,
  fragment, piece of evidence, analysis and map position is emptied.

  \<open>rt_resolve\<close> is \<open>Path.resolve\<close> (the file system's), \<open>rt_sha_json\<close> the SHA-256 of canonical
  JSON and \<open>rt_sha\<close> that of a text.
\<close>

record retention_settings =
  rt_replay_hours :: int
  rt_audit_days :: int
  rt_business_days :: int
  rt_root :: path
  rt_resolve :: "string \<Rightarrow> path"
  rt_quarantine :: "ident \<Rightarrow> path"
  rt_sha_json :: "json \<Rightarrow> string"
  rt_sha :: "string \<Rightarrow> string"

definition marker :: utext where "marker = codes ''[retention-expired]''"

definition expired_flag :: "json \<Rightarrow> bool" where
  "expired_flag j \<longleftrightarrow> jget j ''retention_expired'' = JBool True"

section \<open>One row\<close>

definition anonymize_report :: "time \<Rightarrow> report \<Rightarrow> report" where
  "anonymize_report tm r = r\<lparr>rp_content_original := marker, rp_content_display := marker,
     rp_location_text := marker, rp_latitude := None, rp_longitude := None,
     rp_wgs84_latitude := None, rp_wgs84_longitude := None, rp_gcj02_latitude := None,
     rp_gcj02_longitude := None, rp_location_accuracy_m := None,
     rp_location_source := ''retention'', rp_coordinate_system := None,
     rp_location_provider := None, rp_location_observed_at := None,
     rp_algorithm_version := None, rp_ai_refinement_id := None,
     rp_deleted_at := (case rp_deleted_at r of None \<Rightarrow> Some tm | Some t \<Rightarrow> Some t)\<rparr>"

definition report_expired :: "report \<Rightarrow> bool" where
  "report_expired r \<longleftrightarrow> rp_deleted_at r \<noteq> None \<and> rp_content_original r = marker
     \<and> rp_content_display r = marker"

definition anonymize_attachment :: "attachment \<Rightarrow> attachment" where
  "anonymize_attachment a = a\<lparr>at_file_name := marker, at_mime_type := None, at_size_bytes := 0,
     at_expected_sha256 := replicate 64 CHR ''0'', at_sha256 := None, at_perceptual_hash := None,
     at_duplicate_of_attachment_id := None, at_source_cluster_id := None,
     at_original_path := None, at_sanitized_path := None, at_thumbnail_path := None,
     at_bucket := None, at_object_key := None, at_etag := None, at_width := None,
     at_height := None, at_duration_ms := None, at_cover_path := None, at_preview_path := None,
     at_captured_at := None, at_exif_data := None, at_metadata_status := ''expired'',
     at_malware_scan_status := ''expired'', at_ocr_status := ''expired'',
     at_vision_status := ''expired'', at_ocr_text := None, at_vision_summary := None,
     at_transcript_status := Some ''expired'', at_transcript_text := None,
     at_transcode_status := Some ''expired'', at_keyframe_status := Some ''expired'',
     at_policy_snapshot := None, at_rejection_reason := Some ''RETENTION_EXPIRED'',
     at_uploaded_at := None\<rparr>"

definition attachment_expired :: "attachment \<Rightarrow> bool" where
  "attachment_expired a \<longleftrightarrow> at_rejection_reason a = Some ''RETENTION_EXPIRED''
     \<and> at_original_path a = None \<and> at_sanitized_path a = None \<and> at_thumbnail_path a = None"

definition anonymize_contact ::
    "retention_settings \<Rightarrow> time \<Rightarrow> reporter_contact \<Rightarrow> reporter_contact" where
  "anonymize_contact s tm c =
     (if ct_anonymized_at c \<noteq> None then c
      else c\<lparr>ct_full_name_ciphertext := Marker, ct_full_name_masked := marker,
        ct_mobile_ciphertext := Marker,
        ct_mobile_blind_index := rt_sha s (''retention:'' @ ct_id c @ '':mobile''),
        ct_mobile_masked := marker, ct_national_id_ciphertext := None,
        ct_national_id_blind_index := None, ct_national_id_masked := None,
        ct_emergency_name_ciphertext := None, ct_emergency_name_masked := None,
        ct_emergency_mobile_ciphertext := None, ct_emergency_mobile_masked := None,
        ct_emergency_relation_ciphertext := None, ct_emergency_relation_masked := None,
        ct_rescue_notes_ciphertext := None, ct_encryption_key_version := ''retention'',
        ct_anonymized_at := Some tm\<rparr>)"

definition anonymize_answer :: "answer \<Rightarrow> answer" where
  "anonymize_answer a = a\<lparr>da_option_id := ''[retention-expired]'',
     da_semantic_value := ''[retention-expired]'', da_answer_text := marker,
     da_observed_latitude := None, da_observed_longitude := None,
     da_observed_coordinate_system := None\<rparr>"

definition answer_expired :: "answer \<Rightarrow> bool" where
  "answer_expired a \<longleftrightarrow> da_answer_text a = marker"

definition anonymize_fragment :: "fragment \<Rightarrow> fragment" where
  "anonymize_fragment f = f\<lparr>fg_source_ref_id := None, fg_source_cluster_id := None,
     fg_claim_key := None, fg_claim_value := None, fg_label := marker, fg_description := marker,
     fg_location_text := marker, fg_latitude := None, fg_longitude := None,
     fg_coordinate_system := None, fg_status := ''expired'', fg_confidence := 0,
     fg_observed_at := None\<rparr>"

definition fragment_expired :: "fragment \<Rightarrow> bool" where
  "fragment_expired f \<longleftrightarrow> fg_status f = ''expired'' \<and> fg_description f = marker"

text \<open>The rows that carry a snapshot keep their own flag, and are left alone once it is set.\<close>

definition expire_revision :: "report_revision \<Rightarrow> report_revision" where
  "expire_revision r = (if expired_flag (rr_snapshot r) then r else r\<lparr>rr_snapshot :=
     JObj [(''retention_expired'', JBool True), (''report_id'', JStr (rr_report_id r)),
           (''revision'', JInt (rr_revision r))]\<rparr>)"

definition expire_answer_revision :: "answer_revision \<Rightarrow> answer_revision" where
  "expire_answer_revision r = (if expired_flag (dr_snapshot r) then r else r\<lparr>dr_snapshot :=
     JObj [(''retention_expired'', JBool True), (''answer_id'', JStr (dr_answer_id r)),
           (''revision'', JInt (dr_revision r))]\<rparr>)"

definition expire_evidence :: "(json \<Rightarrow> string) \<Rightarrow> evidence \<Rightarrow> evidence" where
  "expire_evidence sha e = (if expired_flag (ce_snapshot e) then e else
     let snapshot = JObj [(''retention_expired'', JBool True), (''kind'', JStr (ce_kind e)),
           (''source_id'', JStr (ce_source_id e)),
           (''source_revision'', JInt (ce_source_revision e))] in
     e\<lparr>ce_snapshot := snapshot, ce_snapshot_sha256 := sha snapshot, ce_source_cluster_id := None\<rparr>)"

definition expire_analysis :: "(json \<Rightarrow> string) \<Rightarrow> time \<Rightarrow> ai_analysis \<Rightarrow> ai_analysis" where
  "expire_analysis sha tm a = (if expired_flag (an_input_snapshot a) then a else
     let gone = JObj [(''retention_expired'', JBool True)] in
     a\<lparr>an_input_snapshot := JObj [(''retention_expired'', JBool True),
          (''analysis_type'', JStr (an_analysis_type a)),
          (''input_version'', JInt (an_input_version a))],
       an_context_package := map_option (\<lambda>_. gone) (an_context_package a),
       an_context_sha256 := (if an_context_package a = None then an_context_sha256 a
         else Some (sha gone)),
       an_output := map_option (\<lambda>_. gone) (an_output a), an_is_stale := True,
       an_stale_at := (case an_stale_at a of None \<Rightarrow> Some tm | Some t \<Rightarrow> Some t),
       an_stale_reason := Some ''retention_expired''\<rparr>)"

definition remove_feature :: "map_feature \<Rightarrow> map_feature" where
  "remove_feature f = f\<lparr>mf_title := marker, mf_status := ''expired'', mf_latitude_wgs84 := None,
     mf_longitude_wgs84 := None, mf_latitude_gcj02 := None, mf_longitude_gcj02 := None,
     mf_is_deleted := True, mf_public_data := JObj [], mf_private_data := JObj []\<rparr>"

definition feature_removed :: "map_feature \<Rightarrow> bool" where
  "feature_removed f \<longleftrightarrow> mf_is_deleted f \<and> mf_latitude_wgs84 f = None
     \<and> mf_longitude_wgs84 f = None \<and> mf_public_data f = JObj [] \<and> mf_private_data f = JObj []"

section \<open>Files\<close>

text \<open>\<open>root in candidate.parents\<close>\<close>

definition safe_storage_file :: "retention_settings \<Rightarrow> path \<Rightarrow> bool" where
  "safe_storage_file s candidate \<longleftrightarrow> candidate \<noteq> rt_root s \<and> strict_prefix (rt_root s) candidate"

definition stored_paths :: "retention_settings \<Rightarrow> attachment \<Rightarrow> path list" where
  "stored_paths s a =
     map (rt_resolve s) (List.map_filter (\<lambda>p. p)
       [at_original_path a, at_sanitized_path a, at_thumbnail_path a])
     @ [rt_quarantine s (at_id a)]"

definition file_candidates :: "retention_settings \<Rightarrow> attachment list \<Rightarrow> path list" where
  "file_candidates s as = remdups (filter (safe_storage_file s) (concat (map (stored_paths s) as)))"

text \<open>The files left, the number deleted and the number of paths skipped.\<close>

definition remove_attachment_files ::
    "retention_settings \<Rightarrow> attachment list \<Rightarrow> path list \<Rightarrow> path list \<Rightarrow> path list \<times> nat \<times> nat" where
  "remove_attachment_files s as files others =
     (let candidates = file_candidates s as;
          unsafe = filter (\<lambda>p. \<not> safe_storage_file s p) (concat (map (stored_paths s) as)) in
      (filter (\<lambda>p. p \<notin> set candidates) files,
       length (filter (\<lambda>p. p \<in> set files) candidates),
       length unsafe + length (filter (\<lambda>p. p \<notin> set files \<and> p \<in> set others) candidates)))"

section \<open>One incident\<close>

record retention_result =
  cr_idempotency :: nat
  cr_refresh :: nat
  cr_outbox :: nat
  cr_audit :: nat
  cr_incidents :: nat
  cr_reports :: nat
  cr_contacts :: nat
  cr_report_revisions :: nat
  cr_attachments :: nat
  cr_answers :: nat
  cr_answer_revisions :: nat
  cr_fragments :: nat
  cr_evidence :: nat
  cr_analyses :: nat
  cr_features :: nat
  cr_files :: nat
  cr_unsafe :: nat

definition no_result :: retention_result where
  "no_result = \<lparr>cr_idempotency = 0, cr_refresh = 0, cr_outbox = 0, cr_audit = 0, cr_incidents = 0,
     cr_reports = 0, cr_contacts = 0, cr_report_revisions = 0, cr_attachments = 0, cr_answers = 0,
     cr_answer_revisions = 0, cr_fragments = 0, cr_evidence = 0, cr_analyses = 0, cr_features = 0,
     cr_files = 0, cr_unsafe = 0\<rparr>"

text \<open>Which rows belong to an incident, as the joins of the code select them.\<close>

definition report_of :: "'a core_db_scheme \<Rightarrow> ident \<Rightarrow> report_revision \<Rightarrow> bool" where
  "report_of db i v \<longleftrightarrow>
     list_ex (\<lambda>r. rp_id r = rr_report_id v \<and> rp_incident_id r = i) (db_reports db)"

definition answer_of :: "'a core_db_scheme \<Rightarrow> ident \<Rightarrow> answer \<Rightarrow> bool" where
  "answer_of db i a \<longleftrightarrow>
     list_ex (\<lambda>q. qn_id q = da_question_id a \<and> qn_incident_id q = i) (db_questions db)"

definition answer_revision_of :: "'a core_db_scheme \<Rightarrow> ident \<Rightarrow> answer_revision \<Rightarrow> bool" where
  "answer_revision_of db i v \<longleftrightarrow>
     list_ex (\<lambda>a. da_id a = dr_answer_id v \<and> answer_of db i a) (db_answers db)"

definition evidence_in :: "'a core_db_scheme \<Rightarrow> ident \<Rightarrow> evidence \<Rightarrow> bool" where
  "evidence_in db i e \<longleftrightarrow>
     list_ex (\<lambda>c. cc_id c = ce_conflict_id e \<and> cc_incident_id c = i) (db_cases db)"

definition contact_of :: "ident \<Rightarrow> reporter_contact \<Rightarrow> bool" where
  "contact_of i c \<longleftrightarrow> ct_incident_id c = i \<and> \<not> ct_legal_hold c"

definition feature_of :: "ident \<Rightarrow> map_feature \<Rightarrow> bool" where
  "feature_of i f \<longleftrightarrow> mf_incident_id f = i \<and> (mf_kind f = ''report'' \<or> mf_kind f = ''fragment'')"

text \<open>What is counted, and whether anything was: the code's \<open>changed\<close>.\<close>

definition count :: "('r \<Rightarrow> bool) \<Rightarrow> 'r list \<Rightarrow> nat" where
  "count P rs = length (filter P rs)"

definition incident_counts ::
    "retention_settings \<Rightarrow> ident \<Rightarrow> 'a full_db_scheme \<Rightarrow> retention_result" where
  "incident_counts s i db = no_result\<lparr>
     cr_reports := count (\<lambda>r. rp_incident_id r = i \<and> \<not> report_expired r) (db_reports db),
     cr_contacts := count (\<lambda>c. contact_of i c \<and> ct_anonymized_at c = None) (db_contacts db),
     cr_report_revisions :=
       count (\<lambda>v. report_of db i v \<and> \<not> expired_flag (rr_snapshot v)) (db_report_revisions db),
     cr_attachments :=
       count (\<lambda>a. at_incident_id a = i \<and> \<not> attachment_expired a) (db_attachments db),
     cr_answers := count (\<lambda>a. answer_of db i a \<and> \<not> answer_expired a) (db_answers db),
     cr_answer_revisions :=
       count (\<lambda>v. answer_revision_of db i v \<and> \<not> expired_flag (dr_snapshot v))
         (db_answer_revisions db),
     cr_fragments := count (\<lambda>f. fg_incident_id f = i \<and> \<not> fragment_expired f) (db_fragments db),
     cr_evidence := count (\<lambda>e. evidence_in db i e \<and> \<not> expired_flag (ce_snapshot e)) (db_evidence db),
     cr_analyses :=
       count (\<lambda>a. an_incident_id a = i \<and> \<not> expired_flag (an_input_snapshot a)) (db_analyses db),
     cr_features := count (\<lambda>f. feature_of i f \<and> \<not> feature_removed f) (db_features db)\<rparr>"

definition counts_changed :: "retention_result \<Rightarrow> bool" where
  "counts_changed r \<longleftrightarrow> cr_reports r + cr_contacts r + cr_report_revisions r + cr_attachments r
     + cr_answers r + cr_answer_revisions r + cr_fragments r + cr_evidence r + cr_analyses r
     + cr_features r > 0"

definition anonymize_rows ::
    "retention_settings \<Rightarrow> time \<Rightarrow> ident \<Rightarrow> 'a full_db_scheme \<Rightarrow> 'a full_db_scheme" where
  "anonymize_rows s tm i db = db\<lparr>
     db_reports := modify_where (\<lambda>r. rp_incident_id r = i) (anonymize_report tm) (db_reports db),
     db_contacts := modify_where (contact_of i) (anonymize_contact s tm) (db_contacts db),
     db_report_revisions := modify_where (report_of db i) expire_revision (db_report_revisions db),
     db_attachments :=
       modify_where (\<lambda>a. at_incident_id a = i) anonymize_attachment (db_attachments db),
     db_answers := modify_where (answer_of db i) anonymize_answer (db_answers db),
     db_answer_revisions :=
       modify_where (answer_revision_of db i) expire_answer_revision (db_answer_revisions db),
     db_fragments := modify_where (\<lambda>f. fg_incident_id f = i) anonymize_fragment (db_fragments db),
     db_evidence := modify_where (evidence_in db i) (expire_evidence (rt_sha_json s)) (db_evidence db),
     db_analyses :=
       modify_where (\<lambda>a. an_incident_id a = i) (expire_analysis (rt_sha_json s) tm) (db_analyses db),
     db_features := modify_where (feature_of i) remove_feature (db_features db)\<rparr>"

definition anonymize_incident ::
    "retention_settings \<Rightarrow> time \<Rightarrow> ident \<Rightarrow> 'a full_db_scheme
      \<Rightarrow> retention_result \<times> 'a full_db_scheme" where
  "anonymize_incident s tm i db =
     (let (files, deleted, unsafe) = remove_attachment_files s
            (filter (\<lambda>a. at_incident_id a = i) (db_attachments db)) (fs_files db) (fs_others db) in
      ((incident_counts s i db)\<lparr>cr_files := deleted, cr_unsafe := unsafe\<rparr>,
       (anonymize_rows s tm i db)\<lparr>fs_files := files\<rparr>))"

section \<open>The pass\<close>

definition add_result :: "retention_result \<Rightarrow> retention_result \<Rightarrow> retention_result" where
  "add_result a b = \<lparr>cr_idempotency = cr_idempotency a + cr_idempotency b,
     cr_refresh = cr_refresh a + cr_refresh b, cr_outbox = cr_outbox a + cr_outbox b,
     cr_audit = cr_audit a + cr_audit b, cr_incidents = cr_incidents a + cr_incidents b,
     cr_reports = cr_reports a + cr_reports b, cr_contacts = cr_contacts a + cr_contacts b,
     cr_report_revisions = cr_report_revisions a + cr_report_revisions b,
     cr_attachments = cr_attachments a + cr_attachments b, cr_answers = cr_answers a + cr_answers b,
     cr_answer_revisions = cr_answer_revisions a + cr_answer_revisions b,
     cr_fragments = cr_fragments a + cr_fragments b, cr_evidence = cr_evidence a + cr_evidence b,
     cr_analyses = cr_analyses a + cr_analyses b, cr_features = cr_features a + cr_features b,
     cr_files = cr_files a + cr_files b, cr_unsafe = cr_unsafe a + cr_unsafe b\<rparr>"

definition incident_step ::
    "retention_settings \<Rightarrow> time \<Rightarrow> ident \<Rightarrow> retention_result \<times> 'a full_db_scheme
      \<Rightarrow> retention_result \<times> 'a full_db_scheme" where
  "incident_step s tm i acc =
     (let (r, db) = anonymize_incident s tm i (snd acc) in
      (add_result (fst acc) (r\<lparr>cr_incidents := if counts_changed r then 1 else 0\<rparr>), db))"

definition contact_due :: "time \<Rightarrow> reporter_contact \<Rightarrow> bool" where
  "contact_due tm c \<longleftrightarrow> ct_retention_until c \<le> tm \<and> \<not> ct_legal_hold c"

definition incident_due :: "retention_settings \<Rightarrow> time \<Rightarrow> incident \<Rightarrow> bool" where
  "incident_due s tm inc \<longleftrightarrow> inc_status inc = ''closed''
     \<and> (case inc_closed_at inc of None \<Rightarrow> False | Some t \<Rightarrow> t \<le> tm - days (rt_business_days s))"

definition outbox_expired :: "retention_settings \<Rightarrow> time \<Rightarrow> outbox_row \<Rightarrow> bool" where
  "outbox_expired s tm ob \<longleftrightarrow> (case ob_published_at ob of
     None \<Rightarrow> False | Some t \<Rightarrow> t \<le> tm - hours (rt_replay_hours s))"

definition audit_expired :: "retention_settings \<Rightarrow> time \<Rightarrow> audit_row \<Rightarrow> bool" where
  "audit_expired s tm a \<longleftrightarrow> au_created_at a \<le> tm - days (rt_audit_days s)"

text \<open>The part before the incidents.\<close>

definition delete_expired ::
    "retention_settings \<Rightarrow> time \<Rightarrow> 'a full_db_scheme \<Rightarrow> 'a full_db_scheme" where
  "delete_expired s tm db = db\<lparr>
     db_idempotency := filter (\<lambda>r. \<not> ir_expires_at r \<le> tm) (db_idempotency db),
     db_refresh := filter (\<lambda>r. \<not> rs_expires_at r \<le> tm) (db_refresh db),
     db_outbox := filter (\<lambda>ob. \<not> outbox_expired s tm ob) (db_outbox db),
     db_audit := filter (\<lambda>a. \<not> audit_expired s tm a) (db_audit db),
     db_contacts := modify_where (contact_due tm) (anonymize_contact s tm) (db_contacts db)\<rparr>"

definition deletion_counts ::
    "retention_settings \<Rightarrow> time \<Rightarrow> 'a full_db_scheme \<Rightarrow> retention_result" where
  "deletion_counts s tm db = no_result\<lparr>
     cr_idempotency := count (\<lambda>r. ir_expires_at r \<le> tm) (db_idempotency db),
     cr_refresh := count (\<lambda>r. rs_expires_at r \<le> tm) (db_refresh db),
     cr_outbox := count (outbox_expired s tm) (db_outbox db),
     cr_audit := count (audit_expired s tm) (db_audit db),
     cr_contacts := count (\<lambda>c. contact_due tm c \<and> ct_anonymized_at c = None) (db_contacts db)\<rparr>"

definition due_incidents :: "retention_settings \<Rightarrow> time \<Rightarrow> 'a ev_db_scheme \<Rightarrow> ident list" where
  "due_incidents s tm db = map inc_id (filter (incident_due s tm) (db_incidents db))"

definition cleanup_retention_once ::
    "retention_settings \<Rightarrow> time \<Rightarrow> 'a full_db_scheme \<Rightarrow> retention_result \<times> 'a full_db_scheme" where
  "cleanup_retention_once s tm db =
     fold (incident_step s tm) (due_incidents s tm db)
       (deletion_counts s tm db, delete_expired s tm db)"

section \<open>One row twice\<close>

lemma incident_row_keys [simp]:
  "rp_id (anonymize_report tm r) = rp_id r"
  "rp_incident_id (anonymize_report tm r) = rp_incident_id r"
  "at_id (anonymize_attachment a) = at_id a"
  "at_incident_id (anonymize_attachment a) = at_incident_id a"
  "ct_id (anonymize_contact s tm c) = ct_id c"
  "ct_incident_id (anonymize_contact s tm c) = ct_incident_id c"
  "ct_legal_hold (anonymize_contact s tm c) = ct_legal_hold c"
  "ct_retention_until (anonymize_contact s tm c) = ct_retention_until c"
  "da_id (anonymize_answer w) = da_id w"
  "da_question_id (anonymize_answer w) = da_question_id w"
  "fg_incident_id (anonymize_fragment f) = fg_incident_id f"
  "rr_report_id (expire_revision v) = rr_report_id v"
  "dr_answer_id (expire_answer_revision u) = dr_answer_id u"
  "ce_conflict_id (expire_evidence sha e) = ce_conflict_id e"
  "an_incident_id (expire_analysis sha tm y) = an_incident_id y"
  "mf_incident_id (remove_feature g) = mf_incident_id g"
  "mf_kind (remove_feature g) = mf_kind g"
  by (simp_all add: anonymize_report_def anonymize_attachment_def anonymize_contact_def
      anonymize_answer_def anonymize_fragment_def expire_revision_def expire_answer_revision_def
      expire_evidence_def expire_analysis_def remove_feature_def Let_def)

lemma row_flags [simp]:
  "report_expired (anonymize_report tm r)"
  "attachment_expired (anonymize_attachment a)"
  "ct_anonymized_at (anonymize_contact s tm c) \<noteq> None"
  "answer_expired (anonymize_answer w)"
  "fragment_expired (anonymize_fragment f)"
  "expired_flag (rr_snapshot (expire_revision v))"
  "expired_flag (dr_snapshot (expire_answer_revision u))"
  "expired_flag (ce_snapshot (expire_evidence sha e))"
  "expired_flag (an_input_snapshot (expire_analysis sha tm y))"
  "feature_removed (remove_feature g)"
  by (simp_all add: anonymize_report_def report_expired_def anonymize_attachment_def
      attachment_expired_def anonymize_contact_def anonymize_answer_def answer_expired_def
      anonymize_fragment_def fragment_expired_def expire_revision_def expire_answer_revision_def
      expire_evidence_def expire_analysis_def remove_feature_def feature_removed_def
      expired_flag_def Let_def split: option.splits)

lemma row_twice [simp]:
  "anonymize_report tm (anonymize_report tm r) = anonymize_report tm r"
  "anonymize_attachment (anonymize_attachment a) = anonymize_attachment a"
  "anonymize_contact s tm (anonymize_contact s tm c) = anonymize_contact s tm c"
  "anonymize_answer (anonymize_answer w) = anonymize_answer w"
  "anonymize_fragment (anonymize_fragment f) = anonymize_fragment f"
  "expire_revision (expire_revision v) = expire_revision v"
  "expire_answer_revision (expire_answer_revision u) = expire_answer_revision u"
  "expire_evidence sha (expire_evidence sha e) = expire_evidence sha e"
  "expire_analysis sha tm (expire_analysis sha tm y) = expire_analysis sha tm y"
  "remove_feature (remove_feature g) = remove_feature g"
proof -
  show "expire_revision (expire_revision v) = expire_revision v"
    using row_flags(6) [of v] by (simp add: expire_revision_def [of "expire_revision v"])
  show "expire_answer_revision (expire_answer_revision u) = expire_answer_revision u"
    using row_flags(7) [of u]
    by (simp add: expire_answer_revision_def [of "expire_answer_revision u"])
  show "expire_evidence sha (expire_evidence sha e) = expire_evidence sha e"
    using row_flags(8) [of sha e]
    by (simp add: expire_evidence_def [of sha "expire_evidence sha e"])
  show "expire_analysis sha tm (expire_analysis sha tm y) = expire_analysis sha tm y"
    using row_flags(9) [of sha tm y]
    by (simp add: expire_analysis_def [of sha tm "expire_analysis sha tm y"])
  show "anonymize_contact s tm (anonymize_contact s tm c) = anonymize_contact s tm c"
    using row_flags(3) [of s tm c]
    by (simp add: anonymize_contact_def [of s tm "anonymize_contact s tm c"])
qed (simp_all add: anonymize_report_def anonymize_attachment_def anonymize_answer_def
    anonymize_fragment_def remove_feature_def split: option.splits)

lemma selections [simp]:
  "contact_of i (anonymize_contact s tm c) = contact_of i c"
  "contact_due tm' (anonymize_contact s tm c) = contact_due tm' c"
  "feature_of i (remove_feature g) = feature_of i g"
  "report_of db i (expire_revision v) = report_of db i v"
  "answer_of db i (anonymize_answer w) = answer_of db i w"
  "answer_revision_of db i (expire_answer_revision u) = answer_revision_of db i u"
  "evidence_in db i (expire_evidence sha e) = evidence_in db i e"
  by (simp_all add: contact_of_def contact_due_def feature_of_def report_of_def answer_of_def
      answer_revision_of_def evidence_in_def)

lemma count_modified:
  assumes "\<And>r. P (f r) = P r" "\<And>r. \<not> Q (f r)"
  shows "count (\<lambda>r. P r \<and> Q r) (modify_where P f rs) = 0"
  using assms by (induction rs) (auto simp: count_def)

lemma list_ex_modify:
  "(\<And>r. Q r \<Longrightarrow> P (f r) = P r) \<Longrightarrow> list_ex P (modify_where Q f rs) = list_ex P rs"
  by (induction rs) auto

text \<open>The joins see through the pass: it changes no key.\<close>

lemma joins_kept [simp]:
  "report_of (anonymize_rows s tm j db) i = report_of db i"
  "answer_of (anonymize_rows s tm j db) i = answer_of db i"
  "answer_revision_of (anonymize_rows s tm j db) i = answer_revision_of db i"
  "evidence_in (anonymize_rows s tm j db) i = evidence_in db i"
proof -
  show r: "report_of (anonymize_rows s tm j db) i = report_of db i"
    by (rule ext) (simp add: report_of_def anonymize_rows_def list_ex_modify)
  show a: "answer_of (anonymize_rows s tm j db) i = answer_of db i"
    by (rule ext) (simp add: answer_of_def anonymize_rows_def)
  show "answer_revision_of (anonymize_rows s tm j db) i = answer_revision_of db i"
    unfolding answer_revision_of_def a by (rule ext) (simp add: anonymize_rows_def list_ex_modify)
  show "evidence_in (anonymize_rows s tm j db) i = evidence_in db i"
    by (rule ext) (simp add: evidence_in_def anonymize_rows_def)
qed

section \<open>Independent idempotent steps\<close>

text \<open>
  The interface between one incident and the pass over all that are due: steps that may be
  repeated and exchanged.  A run then absorbs any of its steps, and so itself.
\<close>

locale repeatable =
  fixes step :: "'i \<Rightarrow> 'd \<Rightarrow> 'd"
  assumes twice: "step i (step i d) = step i d"
    and exchange: "step i (step j d) = step j (step i d)"
begin

lemma step_past: "step i (fold step is d) = fold step is (step i d)"
  by (induction "is" arbitrary: d) (simp_all add: exchange)

lemma absorb: "i \<in> set is \<Longrightarrow> step i (fold step is d) = fold step is d"
proof (induction "is" arbitrary: d)
  case Nil
  then show ?case by simp
next
  case (Cons j js)
  show ?case
  proof (cases "i = j")
    case True
    then show ?thesis using step_past [of j js "step j d"] by (simp add: twice)
  next
    case False
    then show ?thesis using Cons by simp
  qed
qed

lemma run_twice: "set js \<subseteq> set is \<Longrightarrow> fold step js (fold step is d) = fold step is d"
  by (induction js) (simp_all add: absorb)

end

lemma anonymize_rows_exchange:
  "anonymize_rows s tm i (anonymize_rows s tm j db) = anonymize_rows s tm j (anonymize_rows s tm i db)"
  unfolding anonymize_rows_def [of s tm i "anonymize_rows s tm j db"]
    anonymize_rows_def [of s tm j "anonymize_rows s tm i db"] joins_kept
  by (simp add: anonymize_rows_def modify_where_twice disj_commute)

lemma anonymize_rows_twice: "anonymize_rows s tm i (anonymize_rows s tm i db) = anonymize_rows s tm i db"
  unfolding anonymize_rows_def [of s tm i "anonymize_rows s tm i db"] joins_kept
  by (simp add: anonymize_rows_def modify_where_twice)

section \<open>The pass twice\<close>

definition incident_files :: "retention_settings \<Rightarrow> ident \<Rightarrow> 'a core_db_scheme \<Rightarrow> path list" where
  "incident_files s i db = file_candidates s (filter (\<lambda>a. at_incident_id a = i) (db_attachments db))"

definition incident_pass ::
    "retention_settings \<Rightarrow> time \<Rightarrow> ident \<Rightarrow> 'a full_db_scheme \<Rightarrow> 'a full_db_scheme" where
  "incident_pass s tm i db = snd (anonymize_incident s tm i db)"

lemma incident_pass_eq:
  "incident_pass s tm i db = (anonymize_rows s tm i db)\<lparr>fs_files :=
     filter (\<lambda>p. p \<notin> set (incident_files s i db)) (fs_files db)\<rparr>"
  by (simp add: incident_pass_def anonymize_incident_def remove_attachment_files_def
      incident_files_def Let_def)

lemma joins_ignore_files [simp]:
  "report_of (db\<lparr>fs_files := fs\<rparr>) i = report_of db i"
  "answer_of (db\<lparr>fs_files := fs\<rparr>) i = answer_of db i"
  "answer_revision_of (db\<lparr>fs_files := fs\<rparr>) i = answer_revision_of db i"
  "evidence_in (db\<lparr>fs_files := fs\<rparr>) i = evidence_in db i"
  by (simp_all add: fun_eq_iff report_of_def answer_of_def answer_revision_of_def evidence_in_def)

lemma rows_ignore_files:
  "anonymize_rows s tm i (db\<lparr>fs_files := fs\<rparr>) = (anonymize_rows s tm i db)\<lparr>fs_files := fs\<rparr>"
  by (simp add: anonymize_rows_def)

lemma files_ignore_files [simp]:
  "incident_files s i (db\<lparr>fs_files := fs\<rparr>) = incident_files s i db"
  "fs_files (anonymize_rows s tm i db) = fs_files db"
  "fs_others (anonymize_rows s tm i db) = fs_others db"
  by (simp_all add: incident_files_def anonymize_rows_def)

lemma filter_modify_other:
  "(\<And>r. Q r \<Longrightarrow> \<not> P r) \<Longrightarrow> (\<And>r. P (f r) = P r) \<Longrightarrow> filter P (modify_where Q f rs) = filter P rs"
  by (induction rs) auto

lemma incident_files_other:
  "i \<noteq> j \<Longrightarrow> incident_files s i (anonymize_rows s tm j db) = incident_files s i db"
  by (simp add: incident_files_def anonymize_rows_def filter_modify_other)

lemma stored_paths_less: "set (stored_paths s (anonymize_attachment a)) \<subseteq> set (stored_paths s a)"
  by (simp add: stored_paths_def anonymize_attachment_def List.map_filter_def)

lemma incident_files_same:
  "set (incident_files s i (anonymize_rows s tm i db)) \<subseteq> set (incident_files s i db)"
proof -
  have "filter (\<lambda>a. at_incident_id a = i)
      (modify_where (\<lambda>a. at_incident_id a = i) anonymize_attachment (db_attachments db))
      = map anonymize_attachment (filter (\<lambda>a. at_incident_id a = i) (db_attachments db))"
    by (induction "db_attachments db" arbitrary: db) (simp_all add: modify_where_def filter_map comp_def)
  then show ?thesis using stored_paths_less
    by (fastforce simp: incident_files_def anonymize_rows_def file_candidates_def)
qed

lemma incident_pass_twice: "incident_pass s tm i (incident_pass s tm i db) = incident_pass s tm i db"
proof -
  have "filter (\<lambda>p. p \<notin> set (incident_files s i (anonymize_rows s tm i db)))
      (filter (\<lambda>p. p \<notin> set (incident_files s i db)) (fs_files db))
      = filter (\<lambda>p. p \<notin> set (incident_files s i db)) (fs_files db)"
    unfolding filter_filter
    by (rule filter_cong [OF refl]) (use incident_files_same [of s i tm db] in blast)
  then show ?thesis
    by (simp add: incident_pass_eq rows_ignore_files anonymize_rows_twice del: filter_filter)
qed

lemma incident_pass_exchange:
  "incident_pass s tm i (incident_pass s tm j db) = incident_pass s tm j (incident_pass s tm i db)"
proof (cases "i = j")
  case False
  have "filter (\<lambda>p. p \<notin> set (incident_files s i db)) (filter (\<lambda>p. p \<notin> set (incident_files s j db)) fs)
      = filter (\<lambda>p. p \<notin> set (incident_files s j db)) (filter (\<lambda>p. p \<notin> set (incident_files s i db)) fs)"
    for fs by (simp add: conj_commute)
  then show ?thesis using False anonymize_rows_exchange [of s tm i j db]
    by (simp add: incident_pass_eq rows_ignore_files incident_files_other del: filter_filter)
qed simp

interpretation incidents: repeatable "incident_pass s tm"
  by unfold_locales (rule incident_pass_twice, rule incident_pass_exchange)

text \<open>The deletions and the contacts past their date come before the incidents, or after.\<close>

lemma delete_expired_twice: "delete_expired s tm (delete_expired s tm db) = delete_expired s tm db"
  by (simp add: delete_expired_def modify_where_twice)

lemma delete_expired_exchange:
  "delete_expired s tm (incident_pass s tm i db) = incident_pass s tm i (delete_expired s tm db)"
proof -
  have "report_of (delete_expired s tm db) i = report_of db i"
    "answer_of (delete_expired s tm db) i = answer_of db i"
    "answer_revision_of (delete_expired s tm db) i = answer_revision_of db i"
    "evidence_in (delete_expired s tm db) i = evidence_in db i"
    "incident_files s i (delete_expired s tm db) = incident_files s i db"
    by (simp_all add: fun_eq_iff report_of_def answer_of_def answer_revision_of_def evidence_in_def
        incident_files_def delete_expired_def)
  then have *: "incident_pass s tm i (delete_expired s tm db)
      = (incident_pass s tm i db)\<lparr>
          db_idempotency := filter (\<lambda>r. \<not> ir_expires_at r \<le> tm) (db_idempotency db),
          db_refresh := filter (\<lambda>r. \<not> rs_expires_at r \<le> tm) (db_refresh db),
          db_outbox := filter (\<lambda>ob. \<not> outbox_expired s tm ob) (db_outbox db),
          db_audit := filter (\<lambda>a. \<not> audit_expired s tm a) (db_audit db),
          db_contacts := modify_where (\<lambda>c. contact_of i c \<or> contact_due tm c)
            (anonymize_contact s tm) (db_contacts db)\<rparr>"
    by (simp add: incident_pass_eq anonymize_rows_def delete_expired_def modify_where_twice)
  show ?thesis unfolding *
    by (simp add: incident_pass_eq anonymize_rows_def delete_expired_def modify_where_twice
        disj_commute)
qed

lemma delete_expired_run:
  "delete_expired s tm (fold (incident_pass s tm) is db) = fold (incident_pass s tm) is (delete_expired s tm db)"
  by (induction "is" arbitrary: db) (simp_all add: delete_expired_exchange)

lemma due_incidents_kept [simp]:
  "due_incidents s tm (delete_expired s tm' db) = due_incidents s tm db"
  "due_incidents s tm (fold (incident_pass s tm') is db) = due_incidents s tm db"
proof -
  show "due_incidents s tm (delete_expired s tm' db) = due_incidents s tm db"
    by (simp add: due_incidents_def delete_expired_def)
  have one: "due_incidents s tm (incident_pass s tm' i db) = due_incidents s tm db"
    for i and db :: "'b full_db_scheme"
    by (simp add: due_incidents_def incident_pass_eq anonymize_rows_def)
  show "due_incidents s tm (fold (incident_pass s tm') is db) = due_incidents s tm db"
    by (induction "is" arbitrary: db) (simp_all add: one)
qed

lemma step_database: "snd (fold (incident_step s tm) is acc) = fold (incident_pass s tm) is (snd acc)"
  by (induction "is" arbitrary: acc)
    (simp_all add: incident_step_def incident_pass_def case_prod_beta Let_def)

lemma cleanup_database:
  "snd (cleanup_retention_once s tm db)
     = fold (incident_pass s tm) (due_incidents s tm db) (delete_expired s tm db)"
  by (simp add: cleanup_retention_once_def step_database)

lemma deletion_counts_after:
  "deletion_counts s tm (delete_expired s tm db) = no_result"
proof -
  have "count (\<lambda>c. contact_due tm c \<and> ct_anonymized_at c = None)
      (modify_where (contact_due tm) (anonymize_contact s tm) (db_contacts db)) = 0"
    by (rule count_modified) simp_all
  moreover have "count P (filter (\<lambda>x. \<not> P x) xs) = 0" for P :: "'b \<Rightarrow> bool" and xs
    by (simp add: count_def filter_empty_conv)
  ultimately show ?thesis by (simp add: deletion_counts_def delete_expired_def no_result_def count_def)
qed

lemma incident_counts_after: "incident_counts s i (incident_pass s tm i db) = no_result"
proof -
  have j: "report_of (incident_pass s tm i db) i = report_of db i"
    "answer_of (incident_pass s tm i db) i = answer_of db i"
    "answer_revision_of (incident_pass s tm i db) i = answer_revision_of db i"
    "evidence_in (incident_pass s tm i db) i = evidence_in db i"
    by (simp_all add: incident_pass_eq)
  show ?thesis unfolding incident_counts_def j
    by (simp add: incident_pass_eq anonymize_rows_def no_result_def count_modified)
qed

text \<open>A result that reports nothing but paths it refused to follow.\<close>

definition quiet :: "retention_result \<Rightarrow> bool" where
  "quiet r \<longleftrightarrow> r = no_result\<lparr>cr_unsafe := cr_unsafe r\<rparr>"

lemma quiet_step:
  assumes "quiet (fst acc)" "incident_pass s tm i (snd acc) = snd acc"
  shows "quiet (fst (incident_step s tm i acc))"
proof -
  let ?db = "snd acc"
  have c: "incident_counts s i ?db = no_result" using incident_counts_after [of s i tm ?db] assms(2) by simp
  have "fs_files ?db = filter (\<lambda>p. p \<notin> set (incident_files s i ?db)) (fs_files ?db)"
    using arg_cong [OF assms(2), of fs_files] by (simp add: incident_pass_eq)
  then have "\<forall>p \<in> set (fs_files ?db). p \<notin> set (incident_files s i ?db)"
    by (metis (mono_tags, lifting) filter_id_conv)
  then have "filter (\<lambda>p. p \<in> set (fs_files ?db)) (incident_files s i ?db) = []"
    by (auto simp: filter_empty_conv)
  then have "fst (snd (remove_attachment_files s
      (filter (\<lambda>a. at_incident_id a = i) (db_attachments ?db)) (fs_files ?db) (fs_others ?db))) = 0"
    by (simp add: remove_attachment_files_def incident_files_def Let_def)
  moreover obtain n where "fst acc = no_result\<lparr>cr_unsafe := n\<rparr>"
    using assms(1) unfolding quiet_def by blast
  ultimately show ?thesis using c
    by (simp add: incident_step_def anonymize_incident_def add_result_def quiet_def no_result_def
        counts_changed_def case_prod_beta Let_def)
qed

lemma quiet_run:
  "quiet (fst acc) \<Longrightarrow> (\<And>i. i \<in> set is \<Longrightarrow> incident_pass s tm i (snd acc) = snd acc) \<Longrightarrow>
   quiet (fst (fold (incident_step s tm) is acc))"
proof (induction "is" arbitrary: acc)
  case Nil
  then show ?case by simp
next
  case (Cons i "is")
  have "snd (incident_step s tm i acc) = snd acc"
    using Cons.prems(2) [of i] by (simp add: incident_step_def incident_pass_def case_prod_beta Let_def)
  then show ?case using Cons.IH [of "incident_step s tm i acc"] Cons.prems quiet_step [of acc s tm i] by simp
qed

text \<open>
  C28. A pass is idempotent, as its comment claims: run again at the same time it changes nothing
  and reports nothing, apart from paths outside the storage root, which it meets again.
\<close>

theorem second_pass_does_nothing:
  "snd (cleanup_retention_once s tm (snd (cleanup_retention_once s tm db)))
     = snd (cleanup_retention_once s tm db)
   \<and> quiet (fst (cleanup_retention_once s tm (snd (cleanup_retention_once s tm db))))"
proof -
  let ?is = "due_incidents s tm db"
  let ?db = "snd (cleanup_retention_once s tm db)"
  have d: "delete_expired s tm ?db = ?db"
    by (simp add: cleanup_database delete_expired_run delete_expired_twice)
  have i: "due_incidents s tm ?db = ?is" by (simp add: cleanup_database)
  have same: "incident_pass s tm i ?db = ?db" if "i \<in> set ?is" for i
    using incidents.absorb that by (simp add: cleanup_database)
  have "fold (incident_pass s tm) ?is ?db = ?db"
    by (simp add: cleanup_database incidents.run_twice)
  moreover have "deletion_counts s tm ?db = no_result"
    using deletion_counts_after [of s tm ?db] d by simp
  moreover have "quiet (fst (fold (incident_step s tm) ?is (no_result, ?db)))"
    by (rule quiet_run) (simp_all add: quiet_def no_result_def same)
  ultimately show ?thesis
    by (simp only: cleanup_retention_once_def [of s tm ?db] step_database i d fst_conv snd_conv simp_thms)
qed

lemma run_deletes_stored:
  "p \<in> set (fs_files db) \<Longrightarrow> p \<notin> set (fs_files (fold (incident_pass s tm) is db)) \<Longrightarrow>
    strict_prefix (rt_root s) p"
proof (induction "is" arbitrary: db)
  case Nil
  then show ?case by simp
next
  case (Cons i "is")
  show ?case
  proof (cases "p \<in> set (incident_files s i db)")
    case True
    then show ?thesis by (simp add: incident_files_def file_candidates_def safe_storage_file_def)
  next
    case False
    then have "p \<in> set (fs_files (incident_pass s tm i db))"
      using Cons.prems(1) by (simp add: incident_pass_eq)
    then show ?thesis using Cons.IH Cons.prems(2) by simp
  qed
qed

text \<open>Files are deleted below the storage root only.\<close>

theorem only_stored_files_deleted:
  assumes "p \<in> set (fs_files db)" "p \<notin> set (fs_files (snd (cleanup_retention_once s tm db)))"
  shows "strict_prefix (rt_root s) p"
proof (rule run_deletes_stored)
  show "p \<in> set (fs_files (delete_expired s tm db))" using assms(1) by (simp add: delete_expired_def)
  show "p \<notin> set (fs_files (fold (incident_pass s tm) (due_incidents s tm db) (delete_expired s tm db)))"
    using assms(2) unfolding cleanup_database .
qed

section \<open>What is left\<close>

definition report_blank :: "report \<Rightarrow> bool" where
  "report_blank r \<longleftrightarrow> rp_content_original r = marker \<and> rp_content_display r = marker
     \<and> rp_location_text r = marker \<and> rp_latitude r = None \<and> rp_longitude r = None
     \<and> rp_wgs84_latitude r = None \<and> rp_wgs84_longitude r = None \<and> rp_gcj02_latitude r = None
     \<and> rp_gcj02_longitude r = None \<and> rp_ai_refinement_id r = None \<and> rp_deleted_at r \<noteq> None"

definition contact_blank :: "reporter_contact \<Rightarrow> bool" where
  "contact_blank c \<longleftrightarrow> ct_full_name_ciphertext c = Marker \<and> ct_full_name_masked c = marker
     \<and> ct_mobile_ciphertext c = Marker \<and> ct_mobile_masked c = marker
     \<and> ct_national_id_ciphertext c = None \<and> ct_national_id_blind_index c = None
     \<and> ct_national_id_masked c = None \<and> ct_emergency_name_ciphertext c = None
     \<and> ct_emergency_mobile_ciphertext c = None \<and> ct_emergency_relation_ciphertext c = None
     \<and> ct_emergency_name_masked c = None \<and> ct_emergency_mobile_masked c = None
     \<and> ct_emergency_relation_masked c = None \<and> ct_rescue_notes_ciphertext c = None"

definition attachment_blank :: "attachment \<Rightarrow> bool" where
  "attachment_blank a \<longleftrightarrow> at_file_name a = marker \<and> at_sha256 a = None
     \<and> at_original_path a = None \<and> at_sanitized_path a = None \<and> at_thumbnail_path a = None
     \<and> at_object_key a = None \<and> at_exif_data a = None \<and> at_ocr_text a = None
     \<and> at_vision_summary a = None \<and> at_transcript_text a = None"

definition fragment_blank :: "fragment \<Rightarrow> bool" where
  "fragment_blank f \<longleftrightarrow> fg_label f = marker \<and> fg_description f = marker
     \<and> fg_location_text f = marker \<and> fg_latitude f = None \<and> fg_longitude f = None
     \<and> fg_claim_value f = None \<and> fg_source_ref_id f = None"

definition answer_blank :: "answer \<Rightarrow> bool" where
  "answer_blank a \<longleftrightarrow> da_answer_text a = marker \<and> da_observed_latitude a = None
     \<and> da_observed_longitude a = None"

definition feature_blank :: "map_feature \<Rightarrow> bool" where
  "feature_blank f \<longleftrightarrow> feature_removed f \<and> mf_title f = marker"

definition incident_blank :: "ident \<Rightarrow> 'a full_db_scheme \<Rightarrow> bool" where
  "incident_blank i db \<longleftrightarrow>
     list_all (\<lambda>r. rp_incident_id r = i \<longrightarrow> report_blank r) (db_reports db)
     \<and> list_all (\<lambda>c. contact_of i c \<longrightarrow> contact_blank c) (db_contacts db)
     \<and> list_all (\<lambda>v. report_of db i v \<longrightarrow> expired_flag (rr_snapshot v)) (db_report_revisions db)
     \<and> list_all (\<lambda>a. at_incident_id a = i \<longrightarrow> attachment_blank a) (db_attachments db)
     \<and> list_all (\<lambda>a. answer_of db i a \<longrightarrow> answer_blank a) (db_answers db)
     \<and> list_all (\<lambda>v. answer_revision_of db i v \<longrightarrow> expired_flag (dr_snapshot v))
         (db_answer_revisions db)
     \<and> list_all (\<lambda>f. fg_incident_id f = i \<longrightarrow> fragment_blank f) (db_fragments db)
     \<and> list_all (\<lambda>e. evidence_in db i e \<longrightarrow> expired_flag (ce_snapshot e)) (db_evidence db)
     \<and> list_all (\<lambda>a. an_incident_id a = i \<longrightarrow> expired_flag (an_input_snapshot a)) (db_analyses db)
     \<and> list_all (\<lambda>f. feature_of i f \<longrightarrow> feature_blank f) (db_features db)"

text \<open>A contact is marked anonymous only when it is.\<close>

definition mark_honest :: "reporter_contact \<Rightarrow> bool" where
  "mark_honest c \<longleftrightarrow> (ct_anonymized_at c \<noteq> None \<longrightarrow> contact_blank c)"

definition marks_honest :: "'a full_db_scheme \<Rightarrow> bool" where
  "marks_honest db \<longleftrightarrow> list_all mark_honest (db_contacts db)"

lemma rows_blank [simp]:
  "report_blank (anonymize_report tm r)"
  "attachment_blank (anonymize_attachment a)"
  "fragment_blank (anonymize_fragment f)"
  "answer_blank (anonymize_answer w)"
  "feature_blank (remove_feature g)"
  by (simp_all add: report_blank_def anonymize_report_def attachment_blank_def
      anonymize_attachment_def fragment_blank_def anonymize_fragment_def answer_blank_def
      anonymize_answer_def feature_blank_def feature_removed_def remove_feature_def
      split: option.splits)

lemma contact_blanked:
  "mark_honest c \<Longrightarrow> contact_blank (anonymize_contact s tm c)"
  by (simp add: anonymize_contact_def contact_blank_def mark_honest_def)

lemma list_all_modified:
  "(\<And>r. P (f r) = P r) \<Longrightarrow> (\<And>r. r \<in> set rs \<Longrightarrow> Q (f r)) \<Longrightarrow>
   list_all (\<lambda>r. P r \<longrightarrow> Q r) (modify_where P f rs)"
  by (induction rs) auto

lemma marks_kept_contacts:
  "list_all mark_honest cs \<Longrightarrow> list_all mark_honest (modify_where P (anonymize_contact s tm) cs)"
  using contact_blanked by (induction cs) (auto simp: mark_honest_def)

lemma marks_kept:
  "marks_honest db \<Longrightarrow> marks_honest (delete_expired s tm db)"
  "marks_honest db \<Longrightarrow> marks_honest (incident_pass s tm i db)"
  by (simp_all add: marks_honest_def delete_expired_def incident_pass_eq anonymize_rows_def
      marks_kept_contacts)

lemma marks_kept_run: "marks_honest db \<Longrightarrow> marks_honest (fold (incident_pass s tm) is db)"
  by (induction "is" arbitrary: db) (simp_all add: marks_kept)

lemma incident_blank_after:
  assumes "marks_honest db" shows "incident_blank i (incident_pass s tm i db)"
proof -
  have j: "report_of (incident_pass s tm i db) i = report_of db i"
    "answer_of (incident_pass s tm i db) i = answer_of db i"
    "answer_revision_of (incident_pass s tm i db) i = answer_revision_of db i"
    "evidence_in (incident_pass s tm i db) i = evidence_in db i"
    by (simp_all add: incident_pass_eq)
  have "list_all (\<lambda>c. contact_of i c \<longrightarrow> contact_blank c)
      (modify_where (contact_of i) (anonymize_contact s tm) (db_contacts db))"
    by (rule list_all_modified) (use assms contact_blanked in \<open>auto simp: marks_honest_def list_all_iff\<close>)
  then show ?thesis unfolding incident_blank_def j
    by (simp add: incident_pass_eq anonymize_rows_def list_all_modified)
qed


text \<open>Rows of the other incidents stay as they are.\<close>

definition rows_kept :: "ident \<Rightarrow> 'a full_db_scheme \<Rightarrow> 'a full_db_scheme \<Rightarrow> bool" where
  "rows_kept i db db' \<longleftrightarrow>
     filter (\<lambda>r. rp_incident_id r = i) (db_reports db') = filter (\<lambda>r. rp_incident_id r = i) (db_reports db)
     \<and> filter (\<lambda>a. at_incident_id a = i) (db_attachments db')
         = filter (\<lambda>a. at_incident_id a = i) (db_attachments db)
     \<and> filter (\<lambda>f. fg_incident_id f = i) (db_fragments db')
         = filter (\<lambda>f. fg_incident_id f = i) (db_fragments db)
     \<and> filter (\<lambda>a. an_incident_id a = i) (db_analyses db')
         = filter (\<lambda>a. an_incident_id a = i) (db_analyses db)
     \<and> filter (\<lambda>f. mf_incident_id f = i) (db_features db')
         = filter (\<lambda>f. mf_incident_id f = i) (db_features db)"

lemma rows_kept_pass: "i \<noteq> j \<Longrightarrow> rows_kept i db (incident_pass s tm j db)"
  by (auto simp: rows_kept_def incident_pass_eq anonymize_rows_def feature_of_def
      intro!: filter_modify_other)

lemma rows_kept_run: "i \<notin> set is \<Longrightarrow> rows_kept i db (fold (incident_pass s tm) is db)"
proof (induction "is" arbitrary: db)
  case Nil
  then show ?case by (simp add: rows_kept_def)
next
  case (Cons j js)
  then show ?case using Cons.IH [of "incident_pass s tm j db"] rows_kept_pass [of i j db s tm]
    by (simp add: rows_kept_def)
qed

theorem live_incident_kept:
  assumes "i \<notin> set (due_incidents s tm db)"
  shows "rows_kept i db (snd (cleanup_retention_once s tm db))"
  using rows_kept_run [OF assms, of "delete_expired s tm db" s tm]
  by (simp add: cleanup_database rows_kept_def delete_expired_def)

text \<open>
  The contact of a live incident does not live as long: its date was fixed when it was stored,
  from that very day as long as the incident was open, and once past it the contact is gone.
\<close>

lemma contacts_run:
  "c \<in> set (db_contacts db) \<Longrightarrow> ct_full_name_ciphertext c = Marker \<Longrightarrow>
   \<exists>c' \<in> set (db_contacts (fold (incident_pass s tm) is db)).
     ct_id c' = ct_id c \<and> ct_full_name_ciphertext c' = Marker"
proof (induction "is" arbitrary: db c)
  case Nil
  then show ?case by auto
next
  case (Cons i "is")
  let ?c = "if contact_of i c then anonymize_contact s tm c else c"
  have "?c \<in> set (db_contacts (incident_pass s tm i db))"
    using Cons.prems(1) by (auto simp: incident_pass_eq anonymize_rows_def set_modify_where)
  moreover have "ct_id ?c = ct_id c" "ct_full_name_ciphertext ?c = Marker"
    using Cons.prems(2) by (simp_all add: anonymize_contact_def)
  ultimately show ?case using Cons.IH [of ?c "incident_pass s tm i db"] by simp
qed

theorem open_incident_loses_contact:
  assumes "c = build_contact v vs e inc dev cv" "inc_closed_at inc = None"
    "c \<in> set (db_contacts db)" "now e + days (vs_retention_days vs) \<le> tm"
  shows "\<exists>c' \<in> set (db_contacts (snd (cleanup_retention_once s tm db))).
    ct_id c' = ct_id c \<and> plain_contact_of v vs c' = None"
proof -
  let ?c = "anonymize_contact s tm c"
  have "contact_due tm c"
    using assms by (simp add: contact_due_def build_contact_def retention_until_def Let_def)
  then have "?c \<in> set (db_contacts (delete_expired s tm db))"
    using assms(3) by (auto simp: delete_expired_def set_modify_where image_iff intro: bexI [of _ c])
  moreover have "ct_full_name_ciphertext ?c = Marker" "ct_id ?c = ct_id c"
    using assms(1) by (simp_all add: anonymize_contact_def build_contact_def Let_def)
  ultimately obtain c' where "c' \<in> set (db_contacts (snd (cleanup_retention_once s tm db)))"
    "ct_id c' = ct_id c" "ct_full_name_ciphertext c' = Marker"
    using contacts_run [of ?c "delete_expired s tm db"] unfolding cleanup_database by metis
  then show ?thesis
    by (intro bexI [of _ c']) (simp_all add: plain_contact_of_def open_column_def Let_def)
qed

section \<open>Instances\<close>

definition demo_retention :: retention_settings where
  "demo_retention = \<lparr>rt_replay_hours = 24, rt_audit_days = 365, rt_business_days = 180,
     rt_root = [''srv''], rt_resolve = (\<lambda>p. [p]), rt_quarantine = (\<lambda>i. [''srv'', ''quarantine'', i]),
     rt_sha_json = (\<lambda>_. ''h''), rt_sha = (\<lambda>_. ''h'')\<rparr>"

definition demo_closed :: incident where
  "demo_closed = demo_incident\<lparr>inc_status := ''closed'', inc_closed_at := Some 0\<rparr>"

definition demo_attachment :: attachment where
  "demo_attachment = \<lparr>at_id = ''a1'', at_incident_id = ''inc'', at_report_id = Some ''r1'',
     at_directed_answer_id = None, at_uploader_device_id = ''d1'', at_file_name = [1],
     at_declared_mime_type = ''image/png'', at_media_type = ''image'', at_client_source = None,
     at_storage_provider = ''local_proxy'', at_bucket = None, at_object_key = None, at_etag = None,
     at_mime_type = None, at_size_bytes = 10, at_expected_sha256 = ''h'', at_sha256 = Some ''h'',
     at_perceptual_hash = None, at_duplicate_of_attachment_id = None, at_source_cluster_id = None,
     at_original_path = Some ''o'', at_sanitized_path = None, at_thumbnail_path = None,
     at_width = None, at_height = None, at_duration_ms = None, at_cover_path = None,
     at_preview_path = None, at_transcript_status = None, at_transcript_text = None,
     at_transcode_status = None, at_keyframe_status = None, at_processing_progress = 100,
     at_policy_snapshot = None, at_captured_at = None, at_exif_data = None,
     at_metadata_status = ''ready'', at_malware_scan_status = ''clean'', at_ocr_status = ''pending'',
     at_vision_status = ''pending'', at_ocr_text = None, at_vision_summary = None,
     at_rejection_reason = None, at_upload_expires_at = 0, at_uploaded_at = Some 0,
     at_created_at = 0\<rparr>"

abbreviation demo_closed_db :: full_db where
  "demo_closed_db \<equiv> (demo_full_db demo_closed [demo_report] [demo_contact]
     [[''srv'', ''quarantine'', ''a1''], [''o'']])\<lparr>db_attachments := [demo_attachment]\<rparr>"

lemma demo_due_incidents: "due_incidents demo_retention (days 180) demo_closed_db = [''inc'']"
  by (simp add: due_incidents_def incident_due_def demo_full_db_def demo_closed_def
      demo_incident_def demo_retention_def)


theorem live_incident_kept_witness:
  "rows_kept ''other'' demo_closed_db (snd (cleanup_retention_once demo_retention (days 180) demo_closed_db))"
  by (rule live_incident_kept) (simp add: demo_due_incidents)

text \<open>The file in quarantine goes, the one outside the storage root stays.\<close>

lemma demo_files:
  "fs_files (snd (cleanup_retention_once demo_retention (days 180) demo_closed_db)) = [[''o'']]"
  unfolding cleanup_database demo_due_incidents
  by (simp add: incident_pass_eq delete_expired_def incident_files_def file_candidates_def
      stored_paths_def List.map_filter_def demo_full_db_def demo_attachment_def demo_retention_def
      safe_storage_file_def strict_prefix_def)

theorem only_stored_files_deleted_witness: "strict_prefix [''srv''] [''srv'', ''quarantine'', ''a1'']"
proof -
  have "strict_prefix (rt_root demo_retention) [''srv'', ''quarantine'', ''a1'']"
    by (rule only_stored_files_deleted [where db = demo_closed_db and tm = "days 180"])
      (use demo_files in \<open>simp_all add: demo_full_db_def\<close>)
  then show ?thesis by (simp add: demo_retention_def)
qed

theorem open_incident_loses_contact_witness:
  "\<exists>c' \<in> set (db_contacts (snd (cleanup_retention_once demo_retention (7 + days 90)
      (demo_full_db demo_incident [demo_report] [demo_contact] [])))).
    ct_id c' = ''c1'' \<and> plain_contact_of demo_vault demo_vault_settings c' = None"
proof -
  have "ct_id demo_contact = ''c1''" by (simp add: build_contact_def demo_actor_env_def Let_def)
  then show ?thesis
    using open_incident_loses_contact [OF refl,
        where v = demo_vault and vs = demo_vault_settings and e = demo_actor_env
          and inc = demo_incident and dev = "''d1''" and cv = demo_values and tm = "7 + days 90"
          and db = "demo_full_db demo_incident [demo_report] [demo_contact] []"]
    by (simp add: demo_full_db_def demo_actor_env_def demo_vault_settings_def demo_incident_def)
qed

end
