(* ===== verification/Patterns.thy ===== *)
theory Patterns
  imports Prelude
begin

text \<open>
  The part of Python's \<open>re\<close> that the extraction of claims uses: literals, character classes,
  bounded and unbounded greedy repetition of a class, alternatives, word boundaries and a
  look-behind of one character, matched without regard to case.

  \<open>ends\<close> is the backtracking matcher: the places where a match from \<open>i\<close> can end, in the order
  in which the engine tries them, so that the first one is the match that \<open>re\<close> reports.
  \<open>matches\<close> says declaratively what a pattern stands for.  Whether a character belongs to a
  word (\<open>\\w\<close>) is the parameter \<open>W\<close>, the interpreter's Unicode table.
\<close>

datatype cls = Not_newline | Word_char | One_of "nat list"

datatype rx =
    Lit utext
  | Cls cls
  | Upto nat cls
  | Star cls
  | Cat rx rx
  | Or rx rx
  | Boundary
  | Not_after nat

text \<open>
  \<open>re.IGNORECASE\<close> for the letters that occur in the patterns: ASCII letters and the few other
  characters that fold to them (Kelvin sign, dotted and dotless i, long s).
\<close>

definition fold_code :: "nat \<Rightarrow> nat" where
  "fold_code c = (if 65 \<le> c \<and> c \<le> 90 then c + 32
     else if c = 8490 then 107 else if c = 304 \<or> c = 305 then 105 else if c = 383 then 115 else c)"

definition same_letter :: "nat \<Rightarrow> nat \<Rightarrow> bool" where
  "same_letter a b \<longleftrightarrow> fold_code a = fold_code b"

fun in_cls :: "(nat \<Rightarrow> bool) \<Rightarrow> cls \<Rightarrow> nat \<Rightarrow> bool" where
  "in_cls W Not_newline c = (c \<noteq> 10)"
| "in_cls W Word_char c = W c"
| "in_cls W (One_of cs) c = list_ex (same_letter c) cs"

definition word_at :: "(nat \<Rightarrow> bool) \<Rightarrow> utext \<Rightarrow> nat \<Rightarrow> bool" where
  "word_at W s i \<longleftrightarrow> i < length s \<and> W (s ! i)"

definition boundary_at :: "(nat \<Rightarrow> bool) \<Rightarrow> utext \<Rightarrow> nat \<Rightarrow> bool" where
  "boundary_at W s i \<longleftrightarrow> (0 < i \<and> word_at W s (i - 1)) \<noteq> word_at W s i"

definition literal_at :: "utext \<Rightarrow> utext \<Rightarrow> nat \<Rightarrow> bool" where
  "literal_at w s i \<longleftrightarrow> list_all2 same_letter w (take (length w) (drop i s))"

text \<open>A greedy run of at most \<open>n\<close> characters gives them back one at a time.\<close>

definition run_ends :: "(nat \<Rightarrow> bool) \<Rightarrow> utext \<Rightarrow> nat \<Rightarrow> nat \<Rightarrow> nat list" where
  "run_ends P s n i = rev [i ..< Suc (i + length (takeWhile P (take n (drop i s))))]"

fun ends :: "(nat \<Rightarrow> bool) \<Rightarrow> utext \<Rightarrow> rx \<Rightarrow> nat \<Rightarrow> nat list" where
  "ends W s (Lit w) i = (if literal_at w s i then [i + length w] else [])"
| "ends W s (Cls c) i = (if i < length s \<and> in_cls W c (s ! i) then [Suc i] else [])"
| "ends W s (Upto n c) i = run_ends (in_cls W c) s n i"
| "ends W s (Star c) i = run_ends (in_cls W c) s (length s - i) i"
| "ends W s (Cat a b) i = concat (map (ends W s b) (ends W s a i))"
| "ends W s (Or a b) i = ends W s a i @ ends W s b i"
| "ends W s Boundary i = (if boundary_at W s i then [i] else [])"
| "ends W s (Not_after c) i = (if 0 < i \<and> same_letter (s ! (i - 1)) c then [] else [i])"

text \<open>\<open>re.search\<close> as a truth value.\<close>

definition found :: "(nat \<Rightarrow> bool) \<Rightarrow> rx \<Rightarrow> utext \<Rightarrow> bool" where
  "found W r s \<longleftrightarrow> list_ex (\<lambda>i. ends W s r i \<noteq> []) [0 ..< Suc (length s)]"

text \<open>\<open>re.sub("", s)\<close> from a position on: matches are left out, leftmost first.\<close>

function erase_from :: "(nat \<Rightarrow> bool) \<Rightarrow> rx \<Rightarrow> utext \<Rightarrow> nat \<Rightarrow> utext" where
  "erase_from W r s i =
     (if length s \<le> i then []
      else case ends W s r i of
        j # _ \<Rightarrow> if i < j then erase_from W r s j else s ! i # erase_from W r s (Suc i)
      | [] \<Rightarrow> s ! i # erase_from W r s (Suc i))"
  by pat_completeness auto

termination
  by (relation "measure (\<lambda>(W, r, s, i). length s - i)") auto

declare erase_from.simps [simp del]

definition erase :: "(nat \<Rightarrow> bool) \<Rightarrow> rx \<Rightarrow> utext \<Rightarrow> utext" where
  "erase W r s = erase_from W r s 0"

section \<open>What a pattern stands for\<close>

inductive matches :: "(nat \<Rightarrow> bool) \<Rightarrow> utext \<Rightarrow> rx \<Rightarrow> nat \<Rightarrow> nat \<Rightarrow> bool" for W s where
  m_lit: "length w + i \<le> length s \<Longrightarrow> (\<And>k. k < length w \<Longrightarrow> same_letter (w ! k) (s ! (i + k))) \<Longrightarrow>
    matches W s (Lit w) i (i + length w)"
| m_cls: "i < length s \<Longrightarrow> in_cls W c (s ! i) \<Longrightarrow> matches W s (Cls c) i (Suc i)"
| m_upto: "i \<le> j \<Longrightarrow> j \<le> length s \<Longrightarrow> j \<le> i + n \<Longrightarrow> (\<And>k. i \<le> k \<Longrightarrow> k < j \<Longrightarrow> in_cls W c (s ! k)) \<Longrightarrow>
    matches W s (Upto n c) i j"
| m_star: "i \<le> j \<Longrightarrow> j \<le> length s \<Longrightarrow> (\<And>k. i \<le> k \<Longrightarrow> k < j \<Longrightarrow> in_cls W c (s ! k)) \<Longrightarrow>
    matches W s (Star c) i j"
| m_cat: "matches W s a i j \<Longrightarrow> matches W s b j k \<Longrightarrow> matches W s (Cat a b) i k"
| m_or1: "matches W s a i j \<Longrightarrow> matches W s (Or a b) i j"
| m_or2: "matches W s b i j \<Longrightarrow> matches W s (Or a b) i j"
| m_boundary: "boundary_at W s i \<Longrightarrow> matches W s Boundary i i"
| m_not_after: "\<not> (0 < i \<and> same_letter (s ! (i - 1)) c) \<Longrightarrow> matches W s (Not_after c) i i"

inductive_cases lit_matches [elim!]: "matches W s (Lit w) i j"
inductive_cases cls_matches [elim!]: "matches W s (Cls c) i j"
inductive_cases upto_matches [elim!]: "matches W s (Upto n c) i j"
inductive_cases star_matches [elim!]: "matches W s (Star c) i j"
inductive_cases boundary_matches [elim!]: "matches W s Boundary i j"
inductive_cases not_after_matches [elim!]: "matches W s (Not_after c) i j"

inductive_simps cat_matches: "matches W s (Cat a b) i j"
inductive_simps or_matches: "matches W s (Or a b) i j"

lemma literal_at_iff:
  "i \<le> length s \<Longrightarrow> literal_at w s i \<longleftrightarrow>
     length w + i \<le> length s \<and> (\<forall>k < length w. same_letter (w ! k) (s ! (i + k)))"
  by (auto simp: literal_at_def list_all2_conv_all_nth)

lemma takeWhile_reaches:
  "k \<le> length t \<Longrightarrow> \<forall>x \<in> set (take k t). P x \<Longrightarrow> k \<le> length (takeWhile P t)"
proof (induction t arbitrary: k)
  case (Cons x t)
  then show ?case by (cases k) auto
qed simp

lemma in_run_ends:
  assumes "i \<le> length s"
  shows "j \<in> set (run_ends P s n i) \<longleftrightarrow>
    i \<le> j \<and> j \<le> length s \<and> j \<le> i + n \<and> (\<forall>k. i \<le> k \<and> k < j \<longrightarrow> P (s ! k))"
proof
  let ?t = "take n (drop i s)"
  let ?w = "takeWhile P ?t"
  have len: "length ?w \<le> length ?t" by (rule length_takeWhile_le)
  {
    assume "j \<in> set (run_ends P s n i)"
    then have j: "i \<le> j" "j \<le> i + length ?w" by (auto simp: run_ends_def)
    have "P (s ! k)" if "i \<le> k" "k < j" for k
    proof -
      have k: "k - i < length ?w" using that j by simp
      then have "P (?w ! (k - i))" using set_takeWhileD nth_mem by metis
      moreover have "?w ! (k - i) = ?t ! (k - i)" using k by (rule takeWhile_nth)
      ultimately show ?thesis using k len that assms by simp
    qed
    then show "i \<le> j \<and> j \<le> length s \<and> j \<le> i + n \<and> (\<forall>k. i \<le> k \<and> k < j \<longrightarrow> P (s ! k))"
      using j len assms by auto
  }
  {
    assume *: "i \<le> j \<and> j \<le> length s \<and> j \<le> i + n \<and> (\<forall>k. i \<le> k \<and> k < j \<longrightarrow> P (s ! k))"
    then have "j - i \<le> length ?t" by auto
    moreover have "\<forall>x \<in> set (take (j - i) ?t). P x"
      using * by (auto simp: in_set_conv_nth)
    ultimately have "j - i \<le> length ?w" by (rule takeWhile_reaches)
    then show "j \<in> set (run_ends P s n i)" using * by (auto simp: run_ends_def)
  }
qed

lemma matches_forward: "matches W s r i j \<Longrightarrow> i \<le> length s \<Longrightarrow> i \<le> j \<and> j \<le> length s"
  by (induction rule: matches.induct) auto

text \<open>The backtracking matcher finds exactly the matches.\<close>

lemma in_ends:
  "i \<le> length s \<Longrightarrow> j \<in> set (ends W s r i) \<longleftrightarrow> matches W s r i j"
proof (induction r arbitrary: i j)
  case (Lit w)
  then show ?case by (auto simp: literal_at_iff intro: m_lit split: if_splits)
next
  case (Cls c)
  then show ?case by (auto intro: m_cls)
next
  case (Upto n c)
  then show ?case by (auto simp: in_run_ends intro: m_upto)
next
  case (Star c)
  then show ?case by (auto simp: in_run_ends intro: m_star)
next
  case (Cat a b)
  have "j \<in> set (ends W s (Cat a b) i) \<longleftrightarrow> (\<exists>k \<in> set (ends W s a i). j \<in> set (ends W s b k))"
    by auto
  also have "\<dots> \<longleftrightarrow> (\<exists>k. matches W s a i k \<and> matches W s b k j)"
    using Cat matches_forward by metis
  finally show ?case by (simp add: cat_matches)
next
  case (Or a b)
  then show ?case by (auto simp: or_matches)
next
  case Boundary
  then show ?case by (auto intro: m_boundary)
next
  case (Not_after c)
  then show ?case by (auto intro: m_not_after)
qed

text \<open>
  Searching: something is found exactly where the pattern stands for some stretch of the text.
\<close>

theorem found_iff_matches:
  "found W r s \<longleftrightarrow> (\<exists>i j. i \<le> length s \<and> matches W s r i j)"
proof -
  have "found W r s \<longleftrightarrow> (\<exists>i. i \<le> length s \<and> ends W s r i \<noteq> [])"
    unfolding found_def list_ex_iff set_upt Bex_def atLeastLessThan_iff by (simp add: less_Suc_eq_le)
  also have "\<dots> \<longleftrightarrow> (\<exists>i. i \<le> length s \<and> (\<exists>j. j \<in> set (ends W s r i)))"
    by (simp only: ex_in_conv set_empty)
  finally show ?thesis using in_ends by blast
qed

lemma found_Or: "found W (Or a b) s \<longleftrightarrow> found W a s \<or> found W b s"
  by (auto simp: found_iff_matches or_matches)

end
