(* ===== verification/Claims.thy ===== *)
theory Claims
  imports Patterns Store
begin

text \<open>
  What a resident's report says about a road (\<open>services/report_observations.py\<close>, first part):
  the patterns, the narrow claims extracted from the text, the keys of the facts they are
  about, and the test whether two places are the same.

  The tables of the interpreter (word characters, case folding), SHA-256 and the keyed hash of
  devices are fields of \<open>observing\<close>, beside the settings (\<open>oc_radius\<close> is the radius as the JSON
  number it is stored as).
\<close>

record observing = detection +
  oc_word :: "nat \<Rightarrow> bool"
  oc_sha_text :: "utext \<Rightarrow> string"
  oc_cluster :: "ident \<Rightarrow> string"
  oc_grace_minutes :: int
  oc_min_answers :: int
  oc_radius :: rat
  oc_job_max_attempts :: int

section \<open>The patterns\<close>

fun alts :: "rx list \<Rightarrow> rx" where
  "alts [] = Cls (One_of [])"
| "alts [r] = r"
| "alts (r # rs) = Or r (alts rs)"

text \<open>\<open>a.{0,n}b\<close> and \<open>\\b(?:a)\\b\<close>\<close>

definition between :: "nat \<Rightarrow> rx \<Rightarrow> rx \<Rightarrow> rx" where
  "between n a b = Cat a (Cat (Upto n Not_newline) b)"

definition word :: "rx \<Rightarrow> rx" where
  "word a = Cat Boundary (Cat a Boundary)"

text \<open>No passing, or road or bridge closed.\<close>

definition road_blocked :: rx where
  "road_blocked = alts [
     between 8 (alts [Lit [26080, 27861], Lit [19981, 33021], Lit [19981, 21487], Lit [31105,
         27490], Lit [20013, 26029]]) (alts [Lit [36890, 34892]]),
     between 8 (alts [Lit [36947, 36335], Lit [26725, 26753]]) (alts [Lit [23553, 38381],
         Lit [20013, 26029]]),
     Lit [23553, 36335],
     word (alts [Lit (codes ''blocked''), Lit (codes ''closed''), Lit (codes ''impassable'')])]"

text \<open>Passable, restored, normal or slow passing; open road or bridge.\<close>

definition road_passable :: rx where
  "road_passable = alts [
     between 8 (alts [Cat (Not_after 19981) (Lit [21487]), Lit [21487, 20197], Lit [33021,
         22815], Lit [20173, 21487], Lit [23578, 21487], Lit [24674, 22797], Lit [27491,
         24120], Lit [32531, 24930]]) (alts [Lit [36890, 34892]]),
     between 8 (alts [Lit [36947, 36335], Lit [26725, 26753]]) (alts [Lit [30021, 36890],
         Lit [24320, 25918]]),
     word (alts [Lit (codes ''passable''), Lit (codes ''open to traffic'')])]"

text \<open>Standing water, landslide, rockfall, damage.\<close>

definition road_risk :: rx where
  "road_risk = alts [
     Lit [31215, 27700],
     Lit [22604, 26041],
     Lit [33853, 30707],
     between 6 (alts [Lit [36335, 38754]]) (alts [Lit [25439, 22351], Lit [22604, 38519],
         Lit [24320, 35010]]),
     between 6 (alts [Lit [36947, 36335], Lit [26725, 26753]]) (alts [Lit [25439, 22351],
         Lit [21361, 38505], Lit [24322, 24120]]),
     word (alts [Cat (Lit (codes ''flood'')) (alts [Lit (codes ''ed''), Lit (codes ''ing''),
         Lit []]), Lit (codes ''landslide''), Lit (codes ''road damage''),
         Lit (codes ''bridge damage'')])]"

text \<open>No standing water, or water gone.\<close>

definition road_flood_absent :: rx where
  "road_flood_absent = alts [
     between 4 (alts [Lit [27809, 26377], Lit [26080], Lit [26410, 35265], Lit [26410, 21457,
         29616], Lit [24182, 26410], Lit [23578, 26410], Lit [19981, 23384, 22312], Lit [24182,
         26080]]) (alts [Lit [31215, 27700]]),
     between 6 (alts [Lit [31215, 27700]]) (alts [Lit [24050, 36864], Lit [28040, 36864],
         Lit [36864, 21435], Lit [24050, 25490, 38500]])]"

text \<open>Whether there is standing water.\<close>

definition road_flood_uncertain :: rx where
  "road_flood_uncertain = alts [
     between 10 (alts [Lit [26159, 21542], Lit [26377, 26080], Lit [26377, 27809, 26377],
         Lit [19981, 30830, 23450], Lit [19981, 30693, 36947], Lit [26410, 30693], Lit [24453,
         30830, 35748]]) (alts [Lit [31215, 27700]]),
     between 10 (alts [Lit [31215, 27700]]) (alts [Lit [26159, 21542], Lit [26377, 26080],
         Lit [19981, 30830, 23450], Lit [19981, 30693, 36947], Lit [26410, 30693], Lit [24453,
         30830, 35748], Lit [24773, 20917, 19981, 26126]])]"

text \<open>Standing water.\<close>

definition road_flood_present :: rx where
  "road_flood_present = Lit [31215, 27700]"

text \<open>Whether, unknown, to be confirmed, a question mark.\<close>

definition road_uncertain :: rx where
  "road_uncertain = alts [
     Lit [26159, 21542],
     Lit [33021, 21542],
     Lit [33021, 19981, 33021],
     Lit [19981, 30830, 23450],
     Lit [19981, 30693, 36947],
     Lit [26410, 30693],
     Lit [24453, 30830, 35748],
     Cls (One_of [21527, 65311, 63]),
     word (alts [Lit (codes ''unknown''), Lit (codes ''unclear''), Lit (codes ''uncertain''),
         Lit (codes ''not sure''), Lit (codes ''whether'')])]"

text \<open>Passing, road, bridge, road conditions.\<close>

definition road_topic :: rx where
  "road_topic = alts [
     Lit [36890, 34892],
     Lit [36947, 36335],
     Lit [26725, 26753],
     Lit [36335, 20917],
     word (Cat (alts [Lit (codes ''road''), Lit (codes ''bridge''),
         Lit (codes ''passab'')]) (Star Word_char))]"

section \<open>Claims\<close>

record structured_claim =
  sc_topic :: string
  sc_key :: string
  sc_value :: string

text \<open>\<open>"".join(value.split()).casefold()\<close>\<close>

definition normalized_location :: "'a observing_scheme \<Rightarrow> utext \<Rightarrow> utext" where
  "normalized_location K s = dt_casefold K (filter (\<lambda>c. \<not> uni_space c) s)"

definition road_fact_key :: "'a observing_scheme \<Rightarrow> utext \<Rightarrow> string" where
  "road_fact_key K s = ''road.passability:'' @ take 20 (oc_sha_text K (normalized_location K s))"

definition road_flooding_fact_key :: "'a observing_scheme \<Rightarrow> utext \<Rightarrow> string" where
  "road_flooding_fact_key K s = ''road.flooding:'' @ take 20 (oc_sha_text K (normalized_location K s))"

definition claim_text :: "report \<Rightarrow> utext" where
  "claim_text r = rp_content_original r @ 10 # rp_content_display r"

definition passability :: "'a observing_scheme \<Rightarrow> report \<Rightarrow> string \<Rightarrow> structured_claim option" where
  "passability K r v = Some \<lparr>sc_topic = ''road_passability'',
     sc_key = road_fact_key K (rp_location_text r), sc_value = v\<rparr>"

definition flooding :: "'a observing_scheme \<Rightarrow> report \<Rightarrow> string \<Rightarrow> structured_claim option" where
  "flooding K r v = Some \<lparr>sc_topic = ''road_flooding'',
     sc_key = road_flooding_fact_key K (rp_location_text r), sc_value = v\<rparr>"

definition extract_structured_claim ::
    "'a observing_scheme \<Rightarrow> report \<Rightarrow> structured_claim option" where
  "extract_structured_claim K r =
     (if rp_category r \<noteq> ''road'' then None
      else let s = claim_text r; W = oc_word K;
               blocked = found W road_blocked s; passable = found W road_passable s;
               flood_absent = found W road_flood_absent s;
               flood_present = found W road_flood_present (erase W road_flood_absent s) in
        if found W road_flood_uncertain s then flooding K r ''unknown''
        else if found W road_uncertain s \<and> found W road_topic s then passability K r ''unknown''
        else if blocked \<noteq> passable then passability K r (if blocked then ''blocked'' else ''passable'')
        else if flood_absent \<noteq> flood_present
          then flooding K r (if flood_absent then ''absent'' else ''present'')
        else if flood_absent \<or> flood_present then flooding K r ''unknown''
        else if blocked \<or> passable \<or> found W road_risk s then passability K r ''unknown''
        else None)"

text \<open>Near by coordinates when both places have them, otherwise the same normalised text.\<close>

definition same_location :: "'a observing_scheme \<Rightarrow> place \<Rightarrow> place \<Rightarrow> api_error + bool" where
  "same_location K a b =
     (if located a \<and> located b then
        (case place_position a of
           Inl err \<Rightarrow> Inl err
         | Inr p \<Rightarrow>
             (case place_position b of
                Inl err \<Rightarrow> Inl err
              | Inr q \<Rightarrow> Inr (case (p, q) of
                    (Some x, Some y) \<Rightarrow> haversine_m (pos_wgs84_latitude x) (pos_wgs84_longitude x)
                        (pos_wgs84_latitude y) (pos_wgs84_longitude y) \<le> dt_radius_m K
                  | _ \<Rightarrow> False)))
      else Inr (normalized_location K (pl_text a) \<noteq> []
             \<and> normalized_location K (pl_text a) = normalized_location K (pl_text b)))"

section \<open>Two texts, one line each\<close>

text \<open>
  The two texts of a report are searched as one, with a newline between them.  A pattern that
  can match no newline finds something there exactly when it does in one of the two.
\<close>

fun one_line :: "(nat \<Rightarrow> bool) \<Rightarrow> rx \<Rightarrow> bool" where
  "one_line W (Lit w) = list_all (\<lambda>c. \<not> same_letter c 10) w"
| "one_line W (Cls c) = (\<not> in_cls W c 10)"
| "one_line W (Upto n c) = (\<not> in_cls W c 10)"
| "one_line W (Star c) = (\<not> in_cls W c 10)"
| "one_line W (Cat a b) = (one_line W a \<and> one_line W b)"
| "one_line W (Or a b) = (one_line W a \<and> one_line W b)"
| "one_line W Boundary = True"
| "one_line W (Not_after c) = (\<not> same_letter 10 c)"

lemma matches_first:
  assumes "\<not> W 10" "matches W (a @ 10 # b) r i j" "one_line W r" "i \<le> length a"
  shows "j \<le> length a \<and> matches W a r i j"
  using assms(2-)
proof (induction rule: matches.induct)
  case (m_lit w i)
  have "length w + i \<le> length a"
  proof (rule ccontr)
    assume "\<not> ?thesis"
    then have k: "length a - i < length w" "i + (length a - i) = length a" using m_lit by auto
    then have "same_letter (w ! (length a - i)) 10" using m_lit(2) [OF k(1)] by (simp add: nth_append)
    then show False using m_lit(3) k(1) by (auto simp: list_all_length)
  qed
  moreover from this have "same_letter (w ! k) (a ! (i + k))" if "k < length w" for k
    using m_lit(2) [OF that] that by (simp add: nth_append)
  ultimately show ?case by (auto intro: matches.m_lit)
next
  case (m_cls i c)
  then have "i < length a" by (cases "i = length a") (auto simp: nth_append)
  then show ?case using m_cls by (auto intro: matches.m_cls simp: nth_append)
next
  case (m_upto i j n c)
  have "j \<le> length a" using m_upto(4) [of "length a"] m_upto by (force simp: nth_append)
  moreover from this have "in_cls W c (a ! k)" if "i \<le> k" "k < j" for k
    using m_upto(4) [OF that] that by (simp add: nth_append)
  ultimately show ?case using m_upto by (auto intro: matches.m_upto)
next
  case (m_star i j c)
  have "j \<le> length a" using m_star(3) [of "length a"] m_star by (force simp: nth_append)
  moreover from this have "in_cls W c (a ! k)" if "i \<le> k" "k < j" for k
    using m_star(3) [OF that] that by (simp add: nth_append)
  ultimately show ?case using m_star by (auto intro: matches.m_star)
next
  case (m_boundary i)
  have "word_at W (a @ 10 # b) k = word_at W a k" if "k \<le> length a" for k
    using that assms(1) by (auto simp: word_at_def nth_append)
  then have "boundary_at W a i" using m_boundary by (simp add: boundary_at_def)
  then show ?case using m_boundary by (auto intro: matches.m_boundary)
next
  case (m_not_after i c)
  then have "\<not> (0 < i \<and> same_letter (a ! (i - 1)) c)" by (auto simp: nth_append split: if_splits)
  then show ?case using m_not_after by (auto intro: matches.m_not_after)
qed (auto intro: matches.intros)

lemma matches_second:
  assumes "\<not> W 10" "matches W (a @ 10 # b) r i j" "one_line W r" "i = Suc (length a + i')"
  shows "\<exists>j'. j = Suc (length a + j') \<and> matches W b r i' j'"
  using assms(2-)
proof (induction arbitrary: i' rule: matches.induct)
  case (m_lit w i)
  have "same_letter (w ! k) (b ! (i' + k))" if "k < length w" for k
    using m_lit(2) [OF that] m_lit(4) by (simp add: nth_append)
  then have "matches W b (Lit w) i' (i' + length w)" using m_lit by (intro matches.m_lit) auto
  then show ?case using m_lit by (intro exI [of _ "i' + length w"]) simp
next
  case (m_cls i c)
  then have "matches W b (Cls c) i' (Suc i')" by (intro matches.m_cls) (auto simp: nth_append)
  then show ?case using m_cls by (intro exI [of _ "Suc i'"]) simp
next
  case (m_upto i j n c)
  let ?j = "j - Suc (length a)"
  have "in_cls W c (b ! k)" if "i' \<le> k" "k < ?j" for k
    using m_upto(4) [of "Suc (length a + k)"] m_upto that by (simp add: nth_append)
  then have "matches W b (Upto n c) i' ?j" using m_upto by (intro matches.m_upto) auto
  then show ?case using m_upto by (intro exI [of _ ?j]) simp
next
  case (m_star i j c)
  let ?j = "j - Suc (length a)"
  have "in_cls W c (b ! k)" if "i' \<le> k" "k < ?j" for k
    using m_star(3) [of "Suc (length a + k)"] m_star that by (simp add: nth_append)
  then have "matches W b (Star c) i' ?j" using m_star by (intro matches.m_star) auto
  then show ?case using m_star by (intro exI [of _ ?j]) simp
next
  case (m_boundary i)
  have "word_at W (a @ 10 # b) (Suc (length a + k)) = word_at W b k" for k
    by (auto simp: word_at_def nth_append)
  moreover have "(0 < i \<and> word_at W (a @ 10 # b) (i - 1)) = (0 < i' \<and> word_at W b (i' - 1))"
    using m_boundary(3) assms(1) by (cases i') (auto simp: word_at_def nth_append)
  ultimately have "boundary_at W b i'" using m_boundary by (simp add: boundary_at_def)
  then show ?case using m_boundary by (auto intro: matches.m_boundary)
next
  case (m_not_after i c)
  then have "\<not> (0 < i' \<and> same_letter (b ! (i' - 1)) c)" by (cases i') (auto simp: nth_append)
  then show ?case using m_not_after by (auto intro: matches.m_not_after)
next
  case (m_cat r i j r' k)
  then show ?case by (fastforce intro: matches.m_cat)
qed (auto intro: matches.intros)

lemma first_matches:
  assumes "\<not> W 10" "matches W a r i j" "i \<le> length a"
  shows "matches W (a @ 10 # b) r i j \<and> j \<le> length a"
  using assms(2-)
proof (induction rule: matches.induct)
  case (m_lit w i)
  have "same_letter (w ! k) ((a @ 10 # b) ! (i + k))" if "k < length w" for k
    using m_lit(2) [OF that] m_lit(1) that by (simp add: nth_append)
  then show ?case using m_lit by (auto intro: matches.m_lit)
next
  case (m_cls i c)
  then show ?case by (auto intro: matches.m_cls simp: nth_append)
next
  case (m_upto i j n c)
  have "in_cls W c ((a @ 10 # b) ! k)" if "i \<le> k" "k < j" for k
    using m_upto(4) [OF that] m_upto(2) that by (simp add: nth_append)
  then show ?case using m_upto by (auto intro: matches.m_upto)
next
  case (m_star i j c)
  have "in_cls W c ((a @ 10 # b) ! k)" if "i \<le> k" "k < j" for k
    using m_star(3) [OF that] m_star(2) that by (simp add: nth_append)
  then show ?case using m_star by (auto intro: matches.m_star)
next
  case (m_boundary i)
  have "word_at W (a @ 10 # b) k = word_at W a k" if "k \<le> length a" for k
    using that assms(1) by (auto simp: word_at_def nth_append)
  then have "boundary_at W (a @ 10 # b) i" using m_boundary by (simp add: boundary_at_def)
  then show ?case using m_boundary by (auto intro: matches.m_boundary)
next
  case (m_not_after i c)
  then have "\<not> (0 < i \<and> same_letter ((a @ 10 # b) ! (i - 1)) c)"
    by (auto simp: nth_append split: if_splits)
  then show ?case using m_not_after by (auto intro: matches.m_not_after)
qed (auto intro: matches.intros)

lemma second_matches:
  assumes "\<not> W 10" "matches W b r i j" "one_line W r"
  shows "matches W (a @ 10 # b) r (Suc (length a + i)) (Suc (length a + j))"
  using assms(2-)
proof (induction rule: matches.induct)
  case (m_lit w i)
  have "same_letter (w ! k) ((a @ 10 # b) ! (Suc (length a + i) + k))" if "k < length w" for k
    using m_lit(2) [OF that] by (simp add: nth_append)
  then show ?case using m_lit matches.m_lit [of w "Suc (length a + i)" "a @ 10 # b" W]
    by (simp add: add.assoc)
next
  case (m_cls i c)
  then show ?case by (auto intro: matches.m_cls simp: nth_append)
next
  case (m_upto i j n c)
  have "in_cls W c ((a @ 10 # b) ! k)" if "Suc (length a + i) \<le> k" "k < Suc (length a + j)" for k
    using m_upto(4) [of "k - Suc (length a)"] that by (auto simp: nth_append nth_Cons')
  then show ?case using m_upto by (auto intro: matches.m_upto)
next
  case (m_star i j c)
  have "in_cls W c ((a @ 10 # b) ! k)" if "Suc (length a + i) \<le> k" "k < Suc (length a + j)" for k
    using m_star(3) [of "k - Suc (length a)"] that by (auto simp: nth_append nth_Cons')
  then show ?case using m_star by (auto intro: matches.m_star)
next
  case (m_boundary i)
  have "word_at W (a @ 10 # b) (Suc (length a + k)) = word_at W b k" for k
    by (auto simp: word_at_def nth_append)
  moreover have "(word_at W (a @ 10 # b) (length a + i)) = (0 < i \<and> word_at W b (i - 1))"
    using assms(1) by (cases i) (auto simp: word_at_def nth_append)
  ultimately have "boundary_at W (a @ 10 # b) (Suc (length a + i))"
    using m_boundary by (simp add: boundary_at_def)
  then show ?case by (rule matches.m_boundary)
next
  case (m_not_after i c)
  then have "\<not> same_letter ((a @ 10 # b) ! (length a + i)) c"
    by (cases i) (auto simp: nth_append)
  then show ?case by (auto intro: matches.m_not_after)
qed (auto intro: matches.intros)

lemma found_joined:
  assumes "\<not> W 10" "one_line W r"
  shows "found W r (a @ 10 # b) \<longleftrightarrow> found W r a \<or> found W r b"
proof
  assume "found W r (a @ 10 # b)"
  then obtain i j where m: "i \<le> length (a @ 10 # b)" "matches W (a @ 10 # b) r i j"
    unfolding found_iff_matches by blast
  show "found W r a \<or> found W r b"
  proof (cases "i \<le> length a")
    case True
    then show ?thesis using matches_first [of W a b r i j] m(2) assms unfolding found_iff_matches by blast
  next
    case False
    then have "i = Suc (length a + (i - Suc (length a)))" by simp
    then obtain j' where "matches W b r (i - Suc (length a)) j'"
      using matches_second [of W a b r i j] m(2) assms by blast
    moreover have "i - Suc (length a) \<le> length b" using m(1) by simp
    ultimately show ?thesis unfolding found_iff_matches by blast
  qed
next
  assume "found W r a \<or> found W r b"
  then show "found W r (a @ 10 # b)"
  proof
    assume "found W r a"
    then obtain i j where "i \<le> length a" "matches W a r i j" unfolding found_iff_matches by blast
    then have "matches W (a @ 10 # b) r i j" "i \<le> length (a @ 10 # b)"
      using first_matches [of W a r i j b] assms(1) by auto
    then show ?thesis unfolding found_iff_matches by blast
  next
    assume "found W r b"
    then obtain i j where "i \<le> length b" "matches W b r i j" unfolding found_iff_matches by blast
    then have "matches W (a @ 10 # b) r (Suc (length a + i)) (Suc (length a + j))"
      "Suc (length a + i) \<le> length (a @ 10 # b)"
      using second_matches [of W b r i j a] assms by auto
    then show ?thesis unfolding found_iff_matches by blast
  qed
qed

lemma patterns_one_line:
  assumes "\<not> W 10"
  shows "one_line W road_blocked" "one_line W road_passable" "one_line W road_uncertain"
    "one_line W road_topic" "one_line W road_flood_uncertain"
  using assms
  by (simp_all add: road_blocked_def road_passable_def road_uncertain_def road_topic_def
      road_flood_uncertain_def between_def word_def codes_def same_letter_def fold_code_def)

text \<open>
  A concrete claim about passability rests on one of the two texts of the report and is
  contradicted by neither: nothing is read across the border between them, and neither asks
  a question about the road.
\<close>

theorem concrete_passability_uncontradicted:
  assumes "\<not> oc_word K 10" "extract_structured_claim K r = Some c"
    and "sc_topic c = ''road_passability''" "sc_value c \<noteq> ''unknown''"
  shows "\<exists>yes no. (sc_value c, yes, no) \<in> {(''blocked'', road_blocked, road_passable),
        (''passable'', road_passable, road_blocked)}
    \<and> (found (oc_word K) yes (rp_content_original r) \<or> found (oc_word K) yes (rp_content_display r))
    \<and> \<not> found (oc_word K) no (rp_content_original r)
    \<and> \<not> found (oc_word K) no (rp_content_display r)
    \<and> \<not> found (oc_word K) road_flood_uncertain (rp_content_original r)
    \<and> \<not> found (oc_word K) road_flood_uncertain (rp_content_display r)"
proof -
  let ?W = "oc_word K"
  have joined: "found ?W p (rp_content_original r @ 10 # rp_content_display r)
      \<longleftrightarrow> found ?W p (rp_content_original r) \<or> found ?W p (rp_content_display r)"
    if "one_line ?W p" for p
    using found_joined [of ?W p] assms(1) that by blast
  have e: "\<not> found ?W road_flood_uncertain (claim_text r)"
    "found ?W road_blocked (claim_text r) \<noteq> found ?W road_passable (claim_text r)"
    "sc_value c = (if found ?W road_blocked (claim_text r) then ''blocked'' else ''passable'')"
    using assms(2-4)
    by (auto simp: extract_structured_claim_def Let_def passability_def flooding_def split: if_splits)
  show ?thesis
    using e patterns_one_line [of ?W] assms(1) unfolding claim_text_def
    by (cases "found ?W road_blocked (claim_text r)") (auto simp: joined claim_text_def)
qed

section \<open>Instances\<close>

definition demo_word :: "nat \<Rightarrow> bool" where
  "demo_word c \<longleftrightarrow> c \<in> {48..57} \<union> {65..90} \<union> {97..122} \<union> {95} \<union> {19968..40959}"

definition demo_observing :: observing where
  "demo_observing = \<lparr>dt_casefold = (\<lambda>s. s), dt_isalnum = demo_word, dt_isdigit = (\<lambda>c. c \<in> {48..57}),
     dt_sha = (\<lambda>_. ''h''), dt_radius_m = 100, dt_window_hours = 6, oc_word = demo_word,
     oc_sha_text = (\<lambda>s. if s = [] then ''e'' else ''h''), oc_cluster = (\<lambda>d. d),
     oc_grace_minutes = 15, oc_min_answers = 3, oc_radius = 100, oc_job_max_attempts = 3\<rparr>"

text \<open>"The road has not been reopened to traffic yet": eight characters, one text twice.\<close>

definition not_restored :: utext where
  "not_restored = [36947, 36335, 23578, 26410, 24674, 22797, 36890, 34892]"

text \<open>"Passing normally is impossible".\<close>

definition cannot_pass_normally :: utext where
  "cannot_pass_normally = [26080, 27861, 27491, 24120, 36890, 34892]"

text \<open>A pattern is found only in a text that has the characters it needs.\<close>

fun possible :: "(nat \<Rightarrow> bool) \<Rightarrow> utext \<Rightarrow> rx \<Rightarrow> bool" where
  "possible W s (Lit w) = list_all (\<lambda>c. list_ex (same_letter c) s) w"
| "possible W s (Cls c) = list_ex (in_cls W c) s"
| "possible W s (Cat a b) = (possible W s a \<and> possible W s b)"
| "possible W s (Or a b) = (possible W s a \<or> possible W s b)"
| "possible W s _ = True"

lemma matches_possible: "matches W s r i j \<Longrightarrow> i \<le> length s \<Longrightarrow> possible W s r"
proof (induction rule: matches.induct)
  case (m_lit w i)
  have "list_ex (same_letter c) s" if c: "c \<in> set w" for c
  proof -
    obtain k where k: "k < length w" "w ! k = c" using c by (auto simp: in_set_conv_nth)
    then have "same_letter c (s ! (i + k))" "i + k < length s" using m_lit by auto
    then show ?thesis by (auto simp: list_ex_iff)
  qed
  then show ?case by (simp add: list_all_iff)
next
  case (m_cat a i j b k)
  then show ?case using matches_forward by simp
qed (auto simp: list_ex_iff)

lemma found_possible: "found W r s \<Longrightarrow> possible W s r"
  using matches_possible unfolding found_iff_matches by blast

lemma between_match:
  assumes "matches W s a i k" "matches W s b m j" "k \<le> m" "m \<le> k + n" "m \<le> length s"
    "\<And>x. k \<le> x \<Longrightarrow> x < m \<Longrightarrow> s ! x \<noteq> 10"
  shows "matches W s (between n a b) i j"
  unfolding between_def by (rule m_cat [OF assms(1) m_cat [OF m_upto assms(2)]]) (use assms in auto)

lemma literal_match:
  "literal_at w s i \<Longrightarrow> i \<le> length s \<Longrightarrow> j = i + length w \<Longrightarrow> matches W s (Lit w) i j"
  by (auto simp: literal_at_iff intro: m_lit)

lemma not_restored_read:
  "found W road_passable not_restored" "\<not> found W road_blocked not_restored"
  "\<not> found W road_flood_uncertain not_restored" "\<not> found W road_uncertain not_restored"
proof -
  have "matches W not_restored (Lit [24674, 22797]) 4 6" "matches W not_restored (Lit [36890, 34892]) 6 8"
    by (rule literal_match; simp add: not_restored_def literal_at_def same_letter_def)+
  note lit = this
  have "matches W not_restored (between 8 (alts [Cat (Not_after 19981) (Lit [21487]),
      Lit [21487, 20197], Lit [33021, 22815], Lit [20173, 21487], Lit [23578, 21487],
      Lit [24674, 22797], Lit [27491, 24120], Lit [32531, 24930]]) (alts [Lit [36890, 34892]])) 4 8"
    by (rule between_match [of _ _ _ 4 6 _ 6]) (use lit in \<open>simp_all add: or_matches not_restored_def [symmetric]\<close>, simp_all add: not_restored_def)
  then show "found W road_passable not_restored"
    unfolding found_iff_matches road_passable_def
    by (intro exI [of _ 4] exI [of _ 8]) (simp add: or_matches, simp add: not_restored_def)
  have "\<not> possible W not_restored road_blocked" "\<not> possible W not_restored road_flood_uncertain"
    "\<not> possible W not_restored road_uncertain"
    by (simp_all add: road_blocked_def road_flood_uncertain_def road_uncertain_def between_def
        word_def codes_def not_restored_def same_letter_def fold_code_def)
  then show "\<not> found W road_blocked not_restored" "\<not> found W road_flood_uncertain not_restored"
    "\<not> found W road_uncertain not_restored"
    using found_possible by blast+
qed

text \<open>
  A report that says that a road has not been reopened to traffic yet is recorded as the
  claim that the road is passable.
\<close>

lemma not_restored_claimed_passable:
  assumes "\<not> oc_word K 10" "rp_category r = ''road''"
    "rp_content_original r = not_restored" "rp_content_display r = not_restored"
  shows "extract_structured_claim K r = passability K r ''passable''"
  using assms not_restored_read [of "oc_word K"] patterns_one_line [of "oc_word K"]
    found_joined [of "oc_word K" _ not_restored not_restored]
  by (simp add: extract_structured_claim_def claim_text_def Let_def)

definition demo_road_report :: report where
  "demo_road_report = demo_report\<lparr>rp_category := ''road'', rp_content_original := not_restored,
     rp_content_display := not_restored\<rparr>"

lemma demo_road_claim:
  "extract_structured_claim demo_observing demo_road_report
     = Some \<lparr>sc_topic = ''road_passability'', sc_key = ''road.passability:h'', sc_value = ''passable''\<rparr>"
  by (subst not_restored_claimed_passable)
    (simp_all add: demo_road_report_def demo_observing_def demo_word_def passability_def
      road_fact_key_def normalized_location_def demo_report_def uni_space_def spaces_def)

theorem concrete_passability_uncontradicted_witness:
  "found demo_word road_passable not_restored \<and> \<not> found demo_word road_blocked not_restored"
proof -
  have "\<not> oc_word demo_observing 10" by (simp add: demo_observing_def demo_word_def)
  from concrete_passability_uncontradicted [OF this demo_road_claim] show ?thesis
    by (auto simp: demo_road_report_def demo_observing_def)
qed

end
