(* ===== verification/Observations.thy ===== *)
theory Observations
  imports Claims
begin

text \<open>
  The observation a report stands for (\<open>services/report_observations.py\<close>): its fragment, the
  background job that looks for a blind spot when the claim is unknown, the withdrawal of
  evidence when the report changes, the conflicts that lose their ground by it, and the blind
  spots that open, resolve and move with the reports around them.

  A function that can raise (a position outside the valid range) returns a sum; rows are read
  again from the tables where the code holds on to an object of the session.
\<close>

section \<open>Sequencing\<close>

definition and_then :: "'e + 'a \<Rightarrow> ('a \<Rightarrow> 'e + 'b) \<Rightarrow> 'e + 'b" where
  "and_then m f = (case m of Inl err \<Rightarrow> Inl err | Inr x \<Rightarrow> f x)"

text \<open>A loop whose body can raise.\<close>

fun each :: "('x \<Rightarrow> 's \<Rightarrow> 'e + 's) \<Rightarrow> 'x list \<Rightarrow> 's \<Rightarrow> 'e + 's" where
  "each f [] s = Inr s"
| "each f (x # xs) s = and_then (f x s) (each f xs)"

fun filter_res :: "('x \<Rightarrow> 'e + bool) \<Rightarrow> 'x list \<Rightarrow> 'e + 'x list" where
  "filter_res p [] = Inr []"
| "filter_res p (x # xs) =
     and_then (p x) (\<lambda>b. map_sum id (\<lambda>ys. if b then x # ys else ys) (filter_res p xs))"

text \<open>The first element that satisfies a test; the later ones are not tested.\<close>

fun find_res :: "('x \<Rightarrow> 'e + bool) \<Rightarrow> 'x list \<Rightarrow> 'e + 'x option" where
  "find_res p [] = Inr None"
| "find_res p (x # xs) = and_then (p x) (\<lambda>b. if b then Inr (Some x) else find_res p xs)"

text \<open>\<open>a and b\<close> where \<open>b\<close> can raise and is evaluated only when \<open>a\<close> holds.\<close>

definition and_also :: "bool \<Rightarrow> 'e + bool \<Rightarrow> 'e + bool" where
  "and_also a b = (if a then b else Inr False)"

section \<open>Rows\<close>

definition get_fragment :: "'a core_db_scheme \<Rightarrow> ident \<Rightarrow> fragment option" where
  "get_fragment db i = find (\<lambda>f. fg_id f = i) (db_fragments db)"

definition put_fragment :: "fragment \<Rightarrow> 'a core_db_scheme \<Rightarrow> 'a core_db_scheme" where
  "put_fragment f db = db\<lparr>db_fragments := modify_where (\<lambda>x. fg_id x = fg_id f) (\<lambda>_. f) (db_fragments db)\<rparr>"

definition put_blind_spot :: "blind_spot \<Rightarrow> 'a core_db_scheme \<Rightarrow> 'a core_db_scheme" where
  "put_blind_spot b db =
     db\<lparr>db_blind_spots := modify_where (\<lambda>x. bs_id x = bs_id b) (\<lambda>_. b) (db_blind_spots db)\<rparr>"

definition blind_place :: "blind_spot \<Rightarrow> place" where
  "blind_place b = \<lparr>pl_latitude = bs_latitude b, pl_longitude = bs_longitude b,
     pl_system = bs_coordinate_system b, pl_text = bs_location_text b\<rparr>"

text \<open>\<open>blind_spot.scope_data or {}\<close>, and a dictionary without a key.\<close>

definition scope_of :: "blind_spot \<Rightarrow> json" where
  "scope_of b = (case bs_scope_data b of
     None \<Rightarrow> JObj [] | Some d \<Rightarrow> if truthy d then d else JObj [])"

fun json_without :: "json \<Rightarrow> string \<Rightarrow> json" where
  "json_without (JObj kvs) k = JObj (filter (\<lambda>(x, y). x \<noteq> k) kvs)"
| "json_without j k = j"

definition is_gap :: "blind_spot \<Rightarrow> bool" where
  "is_gap b \<longleftrightarrow> jget (scope_of b) ''source'' = JStr ''resident_report_gap''"

definition fragment_data :: "fragment \<Rightarrow> json" where
  "fragment_data f = json_set (json_set (json_set (fragment_snapshot f)
     ''incident_id'' (JStr (fg_incident_id f))) ''status'' (JStr (fg_status f)))
     ''received_at'' (JInt (fg_received_at f))"

definition blind_spot_data :: "blind_spot \<Rightarrow> json" where
  "blind_spot_data b = JObj
     [(''id'', JStr (bs_id b)), (''incident_id'', JStr (bs_incident_id b)),
      (''claim_key'', JStr (bs_claim_key b)), (''title'', JText (bs_title b)),
      (''location_text'', JText (bs_location_text b)), (''latitude'', jopt JNum (bs_latitude b)),
      (''longitude'', jopt JNum (bs_longitude b)),
      (''coordinate_system'', jopt JStr (bs_coordinate_system b)),
      (''scope_type'', JStr (bs_scope_type b)),
      (''scope_data'', case bs_scope_data b of None \<Rightarrow> JNull | Some d \<Rightarrow> d),
      (''severity'', JStr (bs_severity b)),
      (''route_impact_count'', JInt (bs_route_impact_count b)),
      (''min_valid_answers'', JInt (bs_min_valid_answers b)), (''status'', JStr (bs_status b)),
      (''resolution_value'', jopt JStr (bs_resolution_value b)),
      (''revision'', JInt (bs_revision b)), (''created_at'', JInt (bs_created_at b)),
      (''updated_at'', JInt (bs_updated_at b))]"

text \<open>The event of a request: what the code passes to \<open>emit_event\<close> besides the defaults.\<close>

definition announce ::
    "env \<Rightarrow> ident \<Rightarrow> string option \<Rightarrow> string \<Rightarrow> string \<Rightarrow> ident \<Rightarrow> int \<Rightarrow> json
      \<Rightarrow> 'a ev_db_scheme \<Rightarrow> 'a ev_db_scheme" where
  "announce e iid rid event_type resource_type resource_id revision payload db =
     snd (emit_event e iid ((simple_emission event_type resource_type resource_id revision payload
       ''operators'')\<lparr>em_request_id := rid\<rparr>) db)"

section \<open>The fragment of a report\<close>

definition category_label :: "string \<Rightarrow> utext" where
  "category_label c =
     (case map_of [(''rescue'', [25937, 25588]), (''medical'', [21307, 30103]),
        (''water'', [39278, 27700]), (''food'', [39135, 29289]), (''shelter'', [23433, 32622]),
        (''road'', [36947, 36335])] c of None \<Rightarrow> codes c | Some l \<Rightarrow> l)"

definition report_values :: "'k observing_scheme \<Rightarrow> report \<Rightarrow> fragment \<Rightarrow> fragment" where
  "report_values K r f =
     (let claim = extract_structured_claim K r in
      f\<lparr>fg_incident_id := rp_incident_id r, fg_source_type := ''resident_report'',
        fg_source_ref_id := Some (rp_id r),
        fg_source_cluster_id := Some (take 36 (oc_cluster K (rp_reporter_device_id r))),
        fg_topic := (case claim of None \<Rightarrow> rp_category r | Some c \<Rightarrow> sc_topic c),
        fg_claim_key := map_option sc_key claim, fg_claim_value := map_option sc_value claim,
        fg_label := take 120 (category_label (rp_category r) @ [32, 183, 32] @ rp_location_text r),
        fg_description := rp_content_display r, fg_location_text := rp_location_text r,
        fg_latitude := rp_latitude r, fg_longitude := rp_longitude r,
        fg_coordinate_system := rp_coordinate_system r,
        fg_confidence := (case claim of
            Some c \<Rightarrow> if sc_value c \<noteq> ''unknown'' then 7 / 10 else 3 / 10 | None \<Rightarrow> 3 / 10),
        fg_observed_at := Some (case rp_location_observed_at r of
            Some t \<Rightarrow> t | None \<Rightarrow> rp_updated_at r),
        fg_received_at := rp_updated_at r\<rparr>)"

definition blank_fragment :: "ident \<Rightarrow> fragment" where
  "blank_fragment i = \<lparr>fg_id = i, fg_incident_id = [], fg_source_type = [], fg_source_ref_id = None,
     fg_source_cluster_id = None, fg_topic = [], fg_claim_key = None, fg_claim_value = None,
     fg_label = [], fg_description = [], fg_location_text = [], fg_latitude = None,
     fg_longitude = None, fg_coordinate_system = None, fg_shape = ''circle'',
     fg_status = ''normal'', fg_confidence = 0, fg_observed_at = None, fg_received_at = 0,
     fg_revision = 1\<rparr>"

text \<open>The fields whose change makes the observation a new one.\<close>

definition essence ::
    "fragment \<Rightarrow> string option \<times> string option \<times> utext \<times> rat option \<times> rat option
      \<times> string option \<times> time option" where
  "essence f = (fg_claim_key f, fg_claim_value f, fg_location_text f, fg_latitude f,
     fg_longitude f, fg_coordinate_system f, fg_observed_at f)"

definition find_report_fragment :: "'a core_db_scheme \<Rightarrow> ident \<Rightarrow> ident \<Rightarrow> fragment option" where
  "find_report_fragment db iid rid =
     find (\<lambda>f. fg_incident_id f = iid \<and> fg_source_type f = ''resident_report''
        \<and> fg_source_ref_id f = Some rid) (db_fragments db)"

text \<open>The fragment, whether it was created and whether it changed.\<close>

definition upsert_report_fragment ::
    "'k observing_scheme \<Rightarrow> env \<Rightarrow> report \<Rightarrow> 'a core_db_scheme
      \<Rightarrow> (fragment \<times> bool \<times> bool) \<times> 'a core_db_scheme" where
  "upsert_report_fragment K e r db0 =
     (let db = flush db0 in
      case find_report_fragment db (rp_incident_id r) (rp_id r) of
        None \<Rightarrow>
          (let f = report_values K r (blank_fragment (new_id e (id_count db)))
           in ((f, True, True), db\<lparr>db_fragments := db_fragments db @ [f],
                 id_count := Suc (id_count db)\<rparr>))
      | Some old \<Rightarrow>
          (let new = report_values K r old; reactivating = (fg_status old = ''withdrawn'') in
           if new = old \<and> \<not> reactivating then ((old, False, False), db)
           else
             (let f = new\<lparr>fg_status := (if reactivating \<or> essence new \<noteq> essence old then ''normal''
                    else fg_status old), fg_revision := fg_revision old + 1\<rparr>
              in ((f, False, True), put_fragment f db))))"

section \<open>The job that looks for a blind spot\<close>

definition is_explicitly_uncertain :: "'k observing_scheme \<Rightarrow> fragment \<Rightarrow> bool" where
  "is_explicitly_uncertain K f \<longleftrightarrow>
     (fg_topic f = ''road_flooding'' \<and> found (oc_word K) road_flood_uncertain (fg_description f))
     \<or> (fg_topic f = ''road_passability'' \<and> found (oc_word K) road_uncertain (fg_description f)
        \<and> found (oc_word K) road_topic (fg_description f))"

definition grace_minutes :: "'k observing_scheme \<Rightarrow> incident \<Rightarrow> fragment option \<Rightarrow> int" where
  "grace_minutes K inc f =
     (if (case f of Some x \<Rightarrow> is_explicitly_uncertain K x | None \<Rightarrow> False) then 0
      else case jget (inc_feature_flags inc) ''blind_spot_report_grace_minutes'' of
        JInt n \<Rightarrow> if 0 \<le> n then n else oc_grace_minutes K
      | _ \<Rightarrow> oc_grace_minutes K)"

definition detects :: "fragment \<Rightarrow> job \<Rightarrow> bool" where
  "detects f j \<longleftrightarrow> jb_type j = ''blind_spot.detect'' \<and> jget (jb_payload j) ''fragment_id'' = JStr (fg_id f)"

definition for_revision :: "int \<Rightarrow> job \<Rightarrow> bool" where
  "for_revision n j \<longleftrightarrow> jget (jb_payload j) ''fragment_revision'' = JInt n"

definition ensure_blind_spot_job ::
    "'k observing_scheme \<Rightarrow> env \<Rightarrow> incident \<Rightarrow> fragment \<Rightarrow> 'a full_db_scheme \<Rightarrow> 'a full_db_scheme" where
  "ensure_blind_spot_job K e inc f db =
     (if fg_claim_value f \<noteq> Some ''unknown'' then db
      else if list_ex (\<lambda>j. detects f j \<and> for_revision (fg_revision f) j) (db_jobs db) then flush db
      else
        (let grace = grace_minutes K inc (Some f); due = fg_received_at f + minutes grace in
         (flush db)\<lparr>db_jobs := db_jobs db @
            [\<lparr>jb_id = new_id e (id_count db), jb_type = ''blind_spot.detect'',
              jb_status = ''queued'',
              jb_payload = JObj [(''incident_id'', JStr (inc_id inc)),
                (''fragment_id'', JStr (fg_id f)), (''fragment_revision'', JInt (fg_revision f)),
                (''grace_minutes'', JInt grace), (''due_at'', JInt due)],
              jb_attempts = 0, jb_max_attempts = oc_job_max_attempts K, jb_run_after = due,
              jb_lease_expires_at = None, jb_last_error = None, jb_created_at = now e,
              jb_updated_at = now e\<rparr>],
           id_count := Suc (id_count db)\<rparr>))"

definition cancel_row :: "env \<Rightarrow> job \<Rightarrow> job" where
  "cancel_row e j = j\<lparr>jb_status := ''canceled'', jb_lease_expires_at := None,
     jb_last_error := Some ''canceled because the source report observation changed'',
     jb_updated_at := now e\<rparr>"

definition cancel_blind_spot_jobs ::
    "env \<Rightarrow> fragment \<Rightarrow> int option \<Rightarrow> 'a full_db_scheme \<Rightarrow> 'a full_db_scheme" where
  "cancel_blind_spot_jobs e f keep db =
     (flush db)\<lparr>db_jobs := modify_where
        (\<lambda>j. detects f j \<and> jb_status j \<in> set [''queued'', ''retry'', ''running'']
           \<and> \<not> (case keep of None \<Rightarrow> False | Some n \<Rightarrow> for_revision n j))
        (cancel_row e) (db_jobs db)\<rparr>"

section \<open>Evidence\<close>

text \<open>The cases that cited the fragment, and for each the evidence withdrawn.\<close>

definition cites :: "fragment \<Rightarrow> evidence \<Rightarrow> bool" where
  "cites f v \<longleftrightarrow> ce_kind v = ''fragment'' \<and> ce_source_id v = fg_id f \<and> ce_is_current v"

definition invalidate_fragment_evidence ::
    "fragment \<Rightarrow> 'a core_db_scheme
      \<Rightarrow> (conflict_case list \<times> (ident \<times> ident list) list) \<times> 'a core_db_scheme" where
  "invalidate_fragment_evidence f db =
     (let evidence = filter (cites f) (db_evidence db);
          case_ids = remdups (map ce_conflict_id evidence) in
      ((filter (\<lambda>c. cc_id c \<in> set case_ids) (db_cases db),
        map (\<lambda>i. (i, map ce_id (filter (\<lambda>v. ce_conflict_id v = i) evidence))) case_ids),
       (flush db)\<lparr>db_evidence := modify_where (cites f) (\<lambda>v. v\<lparr>ce_is_current := False\<rparr>)
          (db_evidence db)\<rparr>))"

definition evidence_source_identity :: "evidence \<Rightarrow> string \<times> string" where
  "evidence_source_identity v =
     (case or_else (ce_source_cluster_id v) None of
        Some c \<Rightarrow> (''cluster'', c)
      | None \<Rightarrow>
          (case (jget (ce_snapshot v) ''source_type'', jget (ce_snapshot v) ''source_ref_id'') of
             (JStr a, JStr b) \<Rightarrow> (a, b)
           | _ \<Rightarrow> (ce_kind v, ce_source_id v)))"

definition comparable_value :: "evidence \<Rightarrow> string option" where
  "comparable_value v =
     (if ce_kind v \<noteq> ''fragment'' then None
      else case jget (ce_snapshot v) ''claim_value'' of
        JStr s \<Rightarrow> if lower s \<noteq> ''unknown'' then Some s else None
      | _ \<Rightarrow> None)"

fun has_cross_source_contradiction :: "evidence list \<Rightarrow> bool" where
  "has_cross_source_contradiction [] = False"
| "has_cross_source_contradiction (v # vs) =
     ((case comparable_value v of
         None \<Rightarrow> False
       | Some x \<Rightarrow> list_ex (\<lambda>w. evidence_source_identity v \<noteq> evidence_source_identity w
            \<and> comparable_value w \<noteq> None \<and> comparable_value w \<noteq> Some x) vs)
      \<or> has_cross_source_contradiction vs)"

section \<open>Conflicts that lose their ground\<close>

definition get_case_row :: "'a core_db_scheme \<Rightarrow> ident \<Rightarrow> conflict_case option" where
  "get_case_row db i = find (\<lambda>c. cc_id c = i) (db_cases db)"

text \<open>What follows the withdrawal of evidence, up to the review of the fact it supported.\<close>

definition withdraw_from_case ::
    "env \<Rightarrow> ident \<Rightarrow> actor option \<Rightarrow> string option \<Rightarrow> ident list \<Rightarrow> int \<Rightarrow> conflict_case
      \<Rightarrow> 'a core_db_scheme \<Rightarrow> conflict_case \<times> 'a core_db_scheme" where
  "withdraw_from_case e iid actr rid withdrawn previous c0 db0 =
     (let c = (if cc_revision c0 = previous then c0\<lparr>cc_revision := cc_revision c0 + 1\<rparr> else c0);
          db1 = mark_analyses_stale e c ''evidence_withdrawn'' (put_case c db0);
          db2 = record_audit e actr (Some iid) ''conflict.evidence_withdrawn'' ''conflict''
                  (Some (cc_id c)) rid db1;
          db3 = announce e iid rid ''conflict.updated'' ''conflict'' (cc_id c) (cc_revision c)
                  (JObj [(''conflict_id'', JStr (cc_id c)), (''reason'', JStr ''evidence_withdrawn''),
                         (''withdrawn_evidence_ids'', JArr (map JStr (sort withdrawn)))]) db2;
          db4 = flush db3 in
      case find_fact db4 (cc_incident_id c) (cc_fact_key c) of
        None \<Rightarrow> (c, db4)
      | Some f \<Rightarrow>
          (case current_version db4 f of
             None \<Rightarrow> (c, db4)
           | Some v \<Rightarrow>
               if fr_status f = ''under_review''
                 \<or> set withdrawn \<inter> set (fv_accepted_evidence_ids v) = {}
               then (c, db4)
               else (case mark_fact_under_review e c ''accepted_evidence_withdrawn'' db4 of
                   (None, db5) \<Rightarrow> (c, db5)
                 | (Some f', db5) \<Rightarrow>
                     (c, announce e iid rid ''fact_record.updated'' ''fact'' (fr_id f')
                        (fr_current_revision f')
                        (JObj [(''fact_record_id'', JStr (fr_id f')), (''status'', JStr ''under_review''),
                               (''reason'', JStr ''accepted_evidence_withdrawn'')])
                        (record_audit e actr (Some iid) ''fact_record.under_review'' ''fact''
                           (Some (fr_id f')) rid db5)))))"

definition case_settled :: "conflict_case \<Rightarrow> bool" where
  "case_settled c \<longleftrightarrow> cc_status c = ''resolved'' \<or> cc_status c = ''closed''"

text \<open>A fragment is still in dispute while current evidence of an unsettled case cites it.\<close>

definition actively_cited :: "'a core_db_scheme \<Rightarrow> fragment \<Rightarrow> bool" where
  "actively_cited db f \<longleftrightarrow>
     list_ex (\<lambda>v. cites f v \<and> list_ex (\<lambda>c. cc_id c = ce_conflict_id v \<and> \<not> case_settled c) (db_cases db))
       (db_evidence db)"

definition release_fragment ::
    "env \<Rightarrow> fragment \<Rightarrow> 'a core_db_scheme \<Rightarrow> api_error + 'a core_db_scheme" where
  "release_fragment e f db =
     (if \<not> actively_cited db f \<and> fg_status f = ''conflict''
      then (let f' = f\<lparr>fg_status := ''normal'', fg_revision := fg_revision f + 1\<rparr>
            in upsert_fragment_map_feature e f' (put_fragment f' db))
      else Inr db)"

definition auto_resolved :: "env \<Rightarrow> bool \<Rightarrow> conflict_case \<Rightarrow> conflict_case" where
  "auto_resolved e withdrawn c = c\<lparr>cc_status := ''resolved'', cc_resolved_at := Some (now e),
     cc_resolved_by := None,
     cc_resolution := Some (JObj [(''reason'', JStr ''insufficient_current_conflicting_sources''),
                                  (''automatic'', JBool True)]),
     cc_revision := (if withdrawn then cc_revision c else cc_revision c + 1)\<rparr>"

definition auto_resolve_case ::
    "env \<Rightarrow> ident \<Rightarrow> actor option \<Rightarrow> string option \<Rightarrow> bool \<Rightarrow> conflict_case
      \<Rightarrow> 'a core_db_scheme \<Rightarrow> api_error + 'a core_db_scheme" where
  "auto_resolve_case e iid actr rid withdrawn c0 db0 =
     (let c = auto_resolved e withdrawn c0;
          db1 = put_case c db0;
          db2 = (if withdrawn then db1
                 else mark_analyses_stale e c ''current_conflicting_evidence_withdrawn'' db1);
          db3 = hide_conflict_map_feature c (flush db2);
          sources = map ce_source_id (filter (\<lambda>v. ce_conflict_id v = cc_id c \<and> ce_kind v = ''fragment'')
                      (db_evidence db3)) in
      and_then (each (release_fragment e) (filter (\<lambda>f. fg_id f \<in> set sources) (db_fragments db3)) db3)
        (\<lambda>db4. Inr (announce e iid rid ''conflict.resolved'' ''conflict'' (cc_id c) (cc_revision c)
            (JObj [(''conflict_id'', JStr (cc_id c)),
                   (''reason'', JStr ''insufficient_current_conflicting_sources'')])
            (record_audit e actr (Some iid) ''conflict.auto_resolved'' ''conflict'' (Some (cc_id c)) rid db4))))"

definition reconcile_case ::
    "env \<Rightarrow> ident \<Rightarrow> actor option \<Rightarrow> string option \<Rightarrow> (ident \<times> ident list) list
      \<Rightarrow> (ident \<times> int) list \<Rightarrow> ident \<Rightarrow> 'a core_db_scheme \<Rightarrow> api_error + 'a core_db_scheme" where
  "reconcile_case e iid actr rid withdrawn_by revisions cid db0 =
     (case get_case_row db0 cid of
        None \<Rightarrow> Inr db0
      | Some c0 \<Rightarrow>
          (let withdrawn = (case map_of withdrawn_by cid of None \<Rightarrow> [] | Some ids \<Rightarrow> ids);
               previous = (case map_of revisions cid of None \<Rightarrow> cc_revision c0 | Some n \<Rightarrow> n);
               (c, db1) = (if withdrawn \<noteq> []
                 then withdraw_from_case e iid actr rid withdrawn previous c0 db0 else (c0, db0));
               current = current_evidence db1 cid; db2 = flush db1 in
           if list_ex (\<lambda>v. ce_kind v \<noteq> ''fragment'') current
             \<or> has_cross_source_contradiction current
           then upsert_conflict_map_feature e c db2
           else if case_settled c then Inr (hide_conflict_map_feature c db2)
           else auto_resolve_case e iid actr rid (withdrawn \<noteq> []) c db2))"

text \<open>\<open>seen\<close>: every case once, in the order of its first mention.\<close>

fun first_mentions :: "ident list \<Rightarrow> ident list" where
  "first_mentions [] = []"
| "first_mentions (x # xs) = x # first_mentions (filter (\<lambda>y. y \<noteq> x) xs)"

definition reconcile_conflicts ::
    "env \<Rightarrow> ident \<Rightarrow> actor option \<Rightarrow> string option \<Rightarrow> (ident \<times> ident list) list
      \<Rightarrow> (ident \<times> int) list \<Rightarrow> ident list \<Rightarrow> 'a core_db_scheme \<Rightarrow> api_error + 'a core_db_scheme" where
  "reconcile_conflicts e iid actr rid withdrawn_by revisions cids =
     each (reconcile_case e iid actr rid withdrawn_by revisions) (first_mentions cids)"

section \<open>Blind spots\<close>

definition concrete :: "fragment \<Rightarrow> bool" where
  "concrete f \<longleftrightarrow> fg_claim_value f \<noteq> None \<and> fg_claim_value f \<noteq> Some ''unknown''"

definition resolve_blind_spot ::
    "env \<Rightarrow> ident \<Rightarrow> actor option \<Rightarrow> string option \<Rightarrow> fragment \<Rightarrow> bool \<Rightarrow> blind_spot
      \<Rightarrow> 'a core_db_scheme \<Rightarrow> api_error + 'a core_db_scheme" where
  "resolve_blind_spot e iid actr rid f conflicting b0 db =
     (let b = b0\<lparr>bs_status := ''resolved'',
            bs_resolution_value := (if conflicting then Some ''conflicting_evidence''
              else fg_claim_value f),
            bs_scope_data := Some (json_set (scope_of b0) ''resolution_fragment_id'' (JStr (fg_id f))),
            bs_revision := bs_revision b0 + 1, bs_updated_at := now e\<rparr> in
      and_then (upsert_blind_spot_map_feature e b (flush (put_blind_spot b db)))
        (\<lambda>db1. Inr (announce e iid rid ''blind_spot.resolved'' ''blind_spot'' (bs_id b) (bs_revision b)
            (blind_spot_data b)
            (record_audit e actr (Some iid) ''blind_spot.resolved'' ''blind_spot'' (Some (bs_id b)) rid db1))))"

definition resolve_automatic_blind_spots ::
    "'k observing_scheme \<Rightarrow> env \<Rightarrow> ident \<Rightarrow> actor option \<Rightarrow> string option \<Rightarrow> fragment \<Rightarrow> bool
      \<Rightarrow> 'a core_db_scheme \<Rightarrow> api_error + 'a core_db_scheme" where
  "resolve_automatic_blind_spots K e iid actr rid f conflicting db =
     (case or_else (fg_claim_key f) None of
        None \<Rightarrow> Inr db
      | Some key \<Rightarrow>
          if \<not> concrete f then Inr db
          else each (\<lambda>b d. and_then (and_also (is_gap b) (same_location K (fragment_place f) (blind_place b)))
                   (\<lambda>here. if here then resolve_blind_spot e iid actr rid f conflicting b d else Inr d))
                 (filter (\<lambda>b. bs_incident_id b = iid \<and> bs_claim_key b = key
                    \<and> bs_status b \<in> set [''open'', ''reopened'']) (db_blind_spots db)) (flush db))"

definition report_fragment_is_active :: "'a core_db_scheme \<Rightarrow> fragment \<Rightarrow> bool" where
  "report_fragment_is_active db f \<longleftrightarrow>
     fg_status f \<in> set [''normal'', ''conflict'', ''resolved'']
     \<and> (fg_source_type f \<noteq> ''resident_report''
        \<or> (case find (\<lambda>r. rp_id r = (case fg_source_ref_id f of None \<Rightarrow> [] | Some i \<Rightarrow> i)) (db_reports db) of
             None \<Rightarrow> False | Some r \<Rightarrow> rp_deleted_at r = None \<and> rp_status r \<noteq> ''invalid''))"

text \<open>Write a blind spot back and show it.\<close>

definition keep_blind_spot ::
    "env \<Rightarrow> blind_spot \<Rightarrow> 'a core_db_scheme \<Rightarrow> api_error + 'a core_db_scheme" where
  "keep_blind_spot e b db =
     (let b' = b\<lparr>bs_revision := bs_revision b + 1, bs_updated_at := now e\<rparr>
      in upsert_blind_spot_map_feature e b' (flush (put_blind_spot b' db)))"

definition scoped :: "blind_spot \<Rightarrow> string \<Rightarrow> ident \<Rightarrow> blind_spot" where
  "scoped b k i = b\<lparr>bs_scope_data := Some (json_set (scope_of b) k (JStr i))\<rparr>"

text \<open>
  The two roles of a fragment for a blind spot, and the branches for each: \<open>Done\<close> is the
  code's \<open>continue\<close> after a change, \<open>Further\<close> falls through to what follows.
\<close>

definition is_origin :: "fragment \<Rightarrow> blind_spot \<Rightarrow> bool" where
  "is_origin f b \<longleftrightarrow> jget (scope_of b) ''origin_fragment_id'' = JStr (fg_id f)"

definition is_resolver :: "fragment \<Rightarrow> blind_spot \<Rightarrow> bool" where
  "is_resolver f b \<longleftrightarrow> jget (scope_of b) ''resolution_fragment_id'' = JStr (fg_id f)"

datatype 'd step_result = Done 'd | Further

definition active_nearby ::
    "'k observing_scheme \<Rightarrow> ident \<Rightarrow> fragment \<Rightarrow> blind_spot \<Rightarrow> 'a core_db_scheme
      \<Rightarrow> api_error + fragment list" where
  "active_nearby K iid f b db =
     filter_res (\<lambda>g. and_also (report_fragment_is_active db g)
         (same_location K (blind_place b) (fragment_place g)))
       (filter (\<lambda>g. fg_incident_id g = iid \<and> fg_id g \<noteq> fg_id f
          \<and> fg_claim_key g = Some (bs_claim_key b)) (db_fragments db))"

definition origin_of :: "blind_spot \<Rightarrow> 'a core_db_scheme \<Rightarrow> fragment option" where
  "origin_of b db = (case jget (scope_of b) ''origin_fragment_id'' of
     JStr i \<Rightarrow> get_fragment db i | _ \<Rightarrow> get_fragment db [])"

definition lose_resolver ::
    "env \<Rightarrow> ident \<Rightarrow> string option \<Rightarrow> string \<Rightarrow> fragment list \<Rightarrow> blind_spot
      \<Rightarrow> 'a core_db_scheme \<Rightarrow> api_error + 'a core_db_scheme step_result" where
  "lose_resolver e iid rid reason near b db =
     (case find concrete near of
        Some g \<Rightarrow> map_sum id Done (keep_blind_spot e
          ((scoped b ''resolution_fragment_id'' (fg_id g))\<lparr>bs_resolution_value := fg_claim_value g\<rparr>) db)
      | None \<Rightarrow>
          (case origin_of b db of
             None \<Rightarrow> Inr Further
           | Some g \<Rightarrow>
               if fg_claim_value g = Some ''unknown'' \<and> report_fragment_is_active db g
               then and_then (keep_blind_spot e
                   (b\<lparr>bs_status := ''reopened'', bs_resolution_value := None,
                      bs_scope_data := Some (json_without (scope_of b) ''resolution_fragment_id'')\<rparr>) db)
                 (\<lambda>d. Inr (Done (announce e iid rid ''blind_spot.reopened'' ''blind_spot'' (bs_id b)
                     (bs_revision b + 1)
                     (JObj [(''blind_spot_id'', JStr (bs_id b)), (''reason'', JStr reason)]) d)))
               else Inr Further))"

definition close_blind_spot ::
    "env \<Rightarrow> ident \<Rightarrow> actor option \<Rightarrow> string option \<Rightarrow> string \<Rightarrow> blind_spot
      \<Rightarrow> 'a core_db_scheme \<Rightarrow> 'a core_db_scheme" where
  "close_blind_spot e iid actr rid reason b0 db =
     (let b = b0\<lparr>bs_status := ''resolved'', bs_resolution_value := Some reason,
            bs_revision := bs_revision b0 + 1, bs_updated_at := now e\<rparr> in
      announce e iid rid ''blind_spot.resolved'' ''blind_spot'' (bs_id b) (bs_revision b)
        (JObj [(''blind_spot_id'', JStr (bs_id b)), (''reason'', JStr reason)])
        (record_audit e actr (Some iid) ''blind_spot.auto_resolved'' ''blind_spot'' (Some (bs_id b)) rid
          (hide_blind_spot_map_feature b (flush (put_blind_spot b db)))))"

definition lose_origin ::
    "'k observing_scheme \<Rightarrow> env \<Rightarrow> ident \<Rightarrow> actor option \<Rightarrow> string option \<Rightarrow> string \<Rightarrow> fragment
      \<Rightarrow> fragment list \<Rightarrow> blind_spot \<Rightarrow> 'a core_db_scheme \<Rightarrow> api_error + 'a core_db_scheme" where
  "lose_origin K e iid actr rid reason f near b db =
     (if \<not> is_origin f b \<or> bs_status b \<notin> set [''open'', ''reopened''] then Inr db
      else and_then (and_also (fg_claim_key f = Some (bs_claim_key b)
               \<and> fg_claim_value f = Some ''unknown'' \<and> report_fragment_is_active db f)
             (same_location K (blind_place b) (fragment_place f)))
        (\<lambda>still. if still then Inr db
          else if fg_claim_key f = Some (bs_claim_key b) \<and> concrete f \<and> report_fragment_is_active db f
          then keep_blind_spot e ((scoped b ''resolution_fragment_id'' (fg_id f))
                 \<lparr>bs_status := ''resolved'', bs_resolution_value := fg_claim_value f\<rparr>) db
          else case find (\<lambda>g. fg_claim_value g = Some ''unknown'') near of
            Some g \<Rightarrow> keep_blind_spot e (scoped b ''origin_fragment_id'' (fg_id g)) db
          | None \<Rightarrow> Inr (close_blind_spot e iid actr rid reason b db)))"

definition deactivate_blind_spot ::
    "'k observing_scheme \<Rightarrow> env \<Rightarrow> ident \<Rightarrow> actor option \<Rightarrow> string option \<Rightarrow> string \<Rightarrow> fragment
      \<Rightarrow> blind_spot \<Rightarrow> 'a core_db_scheme \<Rightarrow> api_error + 'a core_db_scheme" where
  "deactivate_blind_spot K e iid actr rid reason f b db =
     (if \<not> is_gap b \<or> (\<not> is_origin f b \<and> \<not> is_resolver f b) then Inr db
      else and_then (and_also (is_resolver f b \<and> bs_status b = ''resolved''
               \<and> fg_claim_key f = Some (bs_claim_key b) \<and> fg_claim_value f = bs_resolution_value b
               \<and> report_fragment_is_active db f)
             (same_location K (blind_place b) (fragment_place f)))
        (\<lambda>equivalent. if equivalent then Inr db
          else and_then (active_nearby K iid f b db)
            (\<lambda>near. and_then (if is_resolver f b \<and> bs_status b = ''resolved''
                  then lose_resolver e iid rid reason near b (flush db) else Inr Further)
              (\<lambda>out. case out of
                 Done d \<Rightarrow> Inr d
               | Further \<Rightarrow> lose_origin K e iid actr rid reason f near b (flush db)))))"

definition deactivate_automatic_blind_spots ::
    "'k observing_scheme \<Rightarrow> env \<Rightarrow> ident \<Rightarrow> actor option \<Rightarrow> string option \<Rightarrow> string \<Rightarrow> fragment
      \<Rightarrow> 'a core_db_scheme \<Rightarrow> api_error + 'a core_db_scheme" where
  "deactivate_automatic_blind_spots K e iid actr rid reason f db =
     each (deactivate_blind_spot K e iid actr rid reason f)
       (filter (\<lambda>b. bs_incident_id b = iid \<and> bs_status b \<in> set [''open'', ''reopened'', ''resolved''])
          (db_blind_spots db)) (flush db)"

section \<open>Looking for a blind spot\<close>

definition road_gap_title :: "utext \<Rightarrow> utext" where
  "road_gap_title s = s @ [32, 36947, 36335, 36890, 34892, 20449, 24687, 30450, 21306]"

definition new_blind_spot ::
    "'k observing_scheme \<Rightarrow> env \<Rightarrow> nat \<Rightarrow> ident \<Rightarrow> fragment \<Rightarrow> report \<Rightarrow> int \<Rightarrow> time \<Rightarrow> blind_spot" where
  "new_blind_spot K e k iid f r grace due_t =
     \<lparr>bs_id = new_id e k, bs_incident_id = iid,
      bs_claim_key = (case fg_claim_key f of None \<Rightarrow> [] | Some key \<Rightarrow> key),
      bs_title = road_gap_title (fg_location_text f), bs_location_text = fg_location_text f,
      bs_latitude = fg_latitude f, bs_longitude = fg_longitude f,
      bs_coordinate_system = fg_coordinate_system f,
      bs_scope_type = (if fg_latitude f \<noteq> None then ''radius'' else ''incident''),
      bs_scope_data = Some (JObj [(''source'', JStr ''resident_report_gap''),
        (''origin_fragment_id'', JStr (fg_id f)), (''grace_minutes'', JInt grace),
        (''due_at'', JInt due_t), (''radius_m'', JNum (oc_radius K))]),
      bs_severity = (if rp_is_urgent r \<or> rp_priority r = ''high'' then ''high'' else ''medium''),
      bs_route_impact_count = 0, bs_min_valid_answers = oc_min_answers K, bs_status = ''open'',
      bs_resolution_value = None, bs_revision = 1, bs_created_at = now e, bs_updated_at = now e\<rparr>"

definition detectable :: "incident \<Rightarrow> fragment \<Rightarrow> int \<Rightarrow> bool" where
  "detectable inc f revision \<longleftrightarrow> inc_status inc = ''active'' \<and> fg_incident_id f = inc_id inc
     \<and> fg_source_type f = ''resident_report'' \<and> fg_revision f = revision
     \<and> or_else (fg_claim_key f) None \<noteq> None \<and> fg_claim_value f = Some ''unknown''
     \<and> fg_status f \<in> set [''normal'', ''conflict'']"

definition find_report :: "'a core_db_scheme \<Rightarrow> ident \<Rightarrow> report option" where
  "find_report db i = find (\<lambda>r. rp_id r = i) (db_reports db)"

text \<open>Some active fragment, received no earlier, says something concrete about the same place.\<close>

definition answered ::
    "'k observing_scheme \<Rightarrow> fragment \<Rightarrow> 'a core_db_scheme \<Rightarrow> api_error + fragment option" where
  "answered K f db =
     find_res (\<lambda>g. and_also (report_fragment_is_active db g)
         (same_location K (fragment_place f) (fragment_place g)))
       (filter (\<lambda>g. fg_incident_id g = fg_incident_id f \<and> fg_id g \<noteq> fg_id f
          \<and> fg_claim_key g = fg_claim_key f \<and> concrete g
          \<and> fg_status g \<in> set [''normal'', ''conflict'', ''resolved'']
          \<and> fg_received_at f \<le> fg_received_at g) (db_fragments db))"

definition publish_blind_spot ::
    "env \<Rightarrow> ident \<Rightarrow> string \<Rightarrow> blind_spot \<Rightarrow> 'a core_db_scheme
      \<Rightarrow> api_error + blind_spot option \<times> 'a core_db_scheme" where
  "publish_blind_spot e iid event_type b db =
     and_then (upsert_blind_spot_map_feature e b (flush db))
       (\<lambda>d. Inr (Some b, announce e iid None event_type ''blind_spot'' (bs_id b) (bs_revision b)
          (blind_spot_data b)
          (record_audit e None (Some iid) event_type ''blind_spot'' (Some (bs_id b)) None d)))"

definition open_blind_spot ::
    "'k observing_scheme \<Rightarrow> env \<Rightarrow> ident \<Rightarrow> fragment \<Rightarrow> report \<Rightarrow> int \<Rightarrow> time \<Rightarrow> 'a core_db_scheme
      \<Rightarrow> api_error + blind_spot option \<times> 'a core_db_scheme" where
  "open_blind_spot K e iid f r grace due_t db =
     and_then (find_res (\<lambda>b. same_location K (fragment_place f) (blind_place b))
         (filter (\<lambda>b. bs_incident_id b = iid \<and> Some (bs_claim_key b) = fg_claim_key f) (db_blind_spots db)))
       (\<lambda>hit. case hit of
          Some b \<Rightarrow>
            if \<not> is_gap b \<or> bs_status b = ''open'' \<or> bs_status b = ''reopened'' then Inr (None, db)
            else
              (let b' = b\<lparr>bs_status := ''reopened'', bs_resolution_value := None,
                     bs_scope_data := Some (json_set (json_set (json_set (scope_of b)
                        ''origin_fragment_id'' (JStr (fg_id f))) ''grace_minutes'' (JInt grace))
                        ''due_at'' (JInt due_t)),
                     bs_revision := bs_revision b + 1, bs_updated_at := now e\<rparr>
               in publish_blind_spot e iid ''blind_spot.reopened'' b' (put_blind_spot b' db))
        | None \<Rightarrow>
            (let b = new_blind_spot K e (id_count db) iid f r grace due_t
             in publish_blind_spot e iid ''blind_spot.created'' b
                  (db\<lparr>db_blind_spots := db_blind_spots db @ [b], id_count := Suc (id_count db)\<rparr>)))"

definition run_report_blind_spot_detection ::
    "'k observing_scheme \<Rightarrow> env \<Rightarrow> ident \<Rightarrow> ident \<Rightarrow> int \<Rightarrow> time option \<Rightarrow> int option
      \<Rightarrow> 'a core_db_scheme \<Rightarrow> api_error + blind_spot option \<times> 'a core_db_scheme" where
  "run_report_blind_spot_detection K e iid fid revision due_at grace db0 =
     (let db = flush db0 in
      case (get_incident_by_id db iid, get_fragment db fid) of
        (Some inc, Some f) \<Rightarrow>
          if \<not> detectable inc f revision then Inr (None, db)
          else (case find_report db (case fg_source_ref_id f of None \<Rightarrow> [] | Some i \<Rightarrow> i) of
              None \<Rightarrow> Inr (None, db)
            | Some r \<Rightarrow>
                if rp_deleted_at r \<noteq> None \<or> rp_status r = ''invalid'' then Inr (None, db)
                else
                  (let minutes_left = (case grace of None \<Rightarrow> grace_minutes K inc (Some f) | Some n \<Rightarrow> n);
                       due_t = (case due_at of
                         None \<Rightarrow> fg_received_at f + minutes minutes_left | Some t \<Rightarrow> t) in
                   if now e < due_t then Inr (None, db)
                   else and_then (answered K f db)
                     (\<lambda>hit. if hit \<noteq> None then Inr (None, db)
                        else open_blind_spot K e iid f r minutes_left due_t db)))
      | _ \<Rightarrow> Inr (None, db))"

section \<open>The two operations of the report handlers\<close>

definition refresh_fragment :: "'a core_db_scheme \<Rightarrow> fragment \<Rightarrow> fragment" where
  "refresh_fragment db f = (case get_fragment db (fg_id f) of None \<Rightarrow> f | Some g \<Rightarrow> g)"

definition show_conflict ::
    "env \<Rightarrow> ident \<Rightarrow> string option \<Rightarrow> ident list \<Rightarrow> conflict_case \<Rightarrow> bool \<Rightarrow> 'a core_db_scheme
      \<Rightarrow> api_error + 'a core_db_scheme" where
  "show_conflict e iid rid withdrawn_cases c opened db0 =
     and_then (upsert_conflict_map_feature e c (flush db0))
       (\<lambda>db. and_then (each (upsert_fragment_map_feature e)
            (filter (\<lambda>f. list_ex (\<lambda>v. ce_conflict_id v = cc_id c \<and> cites f v) (db_evidence db))
               (db_fragments db)) db)
         (\<lambda>db1. Inr (if opened \<or> cc_id c \<notin> set withdrawn_cases
            then announce e iid rid (if opened then ''conflict.opened'' else ''conflict.updated'')
              ''conflict'' (cc_id c) (cc_revision c)
              (JObj [(''conflict_id'', JStr (cc_id c)), (''fact_key'', JStr (cc_fact_key c)),
                     (''source'', JStr ''resident_reports'')]) db1
            else db1)))"

text \<open>The jobs of an unknown claim, or at once when the text itself asks the question.\<close>

definition schedule_detection ::
    "'k observing_scheme \<Rightarrow> env \<Rightarrow> incident \<Rightarrow> fragment \<Rightarrow> 'a full_db_scheme
      \<Rightarrow> api_error + 'a full_db_scheme" where
  "schedule_detection K e inc f db =
     (if fg_claim_value f = Some ''unknown'' then
        (let db1 = cancel_blind_spot_jobs e f (Some (fg_revision f)) db in
         if is_explicitly_uncertain K f
         then map_sum id snd (run_report_blind_spot_detection K e (inc_id inc) (fg_id f)
                (fg_revision f) (Some (fg_received_at f)) (Some 0) db1)
         else Inr (ensure_blind_spot_job K e inc f db1))
      else Inr (cancel_blind_spot_jobs e f None db))"

definition observe_change ::
    "'k observing_scheme \<Rightarrow> env \<Rightarrow> ident \<Rightarrow> actor option \<Rightarrow> string option \<Rightarrow> bool \<Rightarrow> fragment
      \<Rightarrow> conflict_case list \<Rightarrow> (ident \<times> ident list) list \<Rightarrow> 'a full_db_scheme
      \<Rightarrow> api_error + 'a full_db_scheme" where
  "observe_change K e iid actr rid created f0 cases withdrawn_by db0 =
     and_then (detect_structured_fragment_conflict (detection.truncate K) e f0 db0)
       (\<lambda>(hit, db1). let f = refresh_fragment db1 f0;
            event = (if created then ''fragment.created'' else ''fragment.updated'') in
          and_then (upsert_fragment_map_feature e f (flush db1))
        (\<lambda>db2. let db3 = announce e iid rid event ''fragment'' (fg_id f) (fg_revision f)
                 (fragment_data f)
                 (record_audit e actr (Some iid) event ''fragment'' (Some (fg_id f)) rid db2) in
          and_then (case hit of
                None \<Rightarrow> Inr db3
              | Some (c, opened) \<Rightarrow> show_conflict e iid rid (map fst withdrawn_by) c opened db3)
        (\<lambda>db4. and_then (reconcile_conflicts e iid actr rid withdrawn_by
                 (map (\<lambda>c. (cc_id c, cc_revision c)) cases)
                 (map cc_id cases @ (case hit of None \<Rightarrow> [] | Some (c, _) \<Rightarrow> [cc_id c])) db4)
           (\<lambda>db5. resolve_automatic_blind_spots K e iid actr rid (refresh_fragment db5 f)
                 (hit \<noteq> None) db5))))"

definition process_report_observation ::
    "'k observing_scheme \<Rightarrow> env \<Rightarrow> incident \<Rightarrow> report \<Rightarrow> actor option \<Rightarrow> string option
      \<Rightarrow> 'a full_db_scheme \<Rightarrow> api_error + 'a full_db_scheme" where
  "process_report_observation K e inc r actr rid db0 =
     (let ((f, created, changed), db1) = upsert_report_fragment K e r db0;
          iid = inc_id inc;
          ((cases, withdrawn_by), db2) = (if changed \<and> \<not> created
            then invalidate_fragment_evidence f db1 else (([], []), db1)) in
      and_then (if changed \<and> \<not> created
          then deactivate_automatic_blind_spots K e iid actr rid ''source_report_updated'' f db2
          else Inr db2)
        (\<lambda>db3. and_then (schedule_detection K e inc f db3)
          (\<lambda>db4. if \<not> changed then Inr db4
             else observe_change K e iid actr rid created f cases withdrawn_by db4)))"

definition deactivate_report_observation ::
    "'k observing_scheme \<Rightarrow> env \<Rightarrow> incident \<Rightarrow> report \<Rightarrow> actor option \<Rightarrow> string option \<Rightarrow> string
      \<Rightarrow> 'a full_db_scheme \<Rightarrow> api_error + 'a full_db_scheme" where
  "deactivate_report_observation K e inc r actr rid reason db0 =
     (let db = flush db0; iid = inc_id inc in
      case find_report_fragment db iid (rp_id r) of
        None \<Rightarrow> Inr db
      | Some f0 \<Rightarrow>
          (let ((cases, withdrawn_by), db1) = invalidate_fragment_evidence f0 db;
               db2 = cancel_blind_spot_jobs e f0 None db1;
               f = (if fg_status f0 = ''withdrawn'' then f0
                    else f0\<lparr>fg_status := ''withdrawn'', fg_revision := fg_revision f0 + 1\<rparr>) in
           and_then (upsert_fragment_map_feature e f (flush (put_fragment f db2)))
             (\<lambda>db3. and_then (deactivate_automatic_blind_spots K e iid actr rid reason f db3)
               (\<lambda>db4. and_then (reconcile_conflicts e iid actr rid withdrawn_by
                      (map (\<lambda>c. (cc_id c, cc_revision c)) cases) (map cc_id cases) db4)
                 (\<lambda>db5. let g = refresh_fragment db5 f in
                    Inr (announce e iid rid ''fragment.withdrawn'' ''fragment'' (fg_id g) (fg_revision g)
                      (JObj [(''fragment_id'', JStr (fg_id g)), (''reason'', JStr reason)])
                      (record_audit e actr (Some iid) ''fragment.withdrawn'' ''fragment'' (Some (fg_id g))
                         rid db5)))))))"

end
