(* ===== verification/Attachments.thy ===== *)
theory Attachments
  imports Store "HOL-Library.Char_ord" "HOL-Library.List_Lexorder" "HOL-Library.Product_Lexorder"
begin

text \<open>
  The attachments of reports: the links to their files (\<open>services/attachments.py\<close> and
  \<open>sign_download_url\<close> of \<open>services/qiniu.py\<close>), what a client is told about them, and their
  binding to reports (\<open>services/reports.py\<close>).

  \<open>ls_hmac\<close> is the hexadecimal HMAC-SHA256 under \<open>upload_signing_secret\<close>, \<open>ls_hmac_sha1\<close> the
  URL-safe Base64 of the HMAC-SHA1 under \<open>qiniu_secret_key\<close> (\<open>_hmac_sha1\<close>).
\<close>

record link_settings =
  ls_hmac :: "string \<Rightarrow> string"
  ls_hmac_sha1 :: "string \<Rightarrow> string"
  ls_access_key :: string
  ls_public_base_url :: string
  ls_api_prefix :: string
  ls_download_minutes :: int

section \<open>Links\<close>

definition local_attachment_signature :: "link_settings \<Rightarrow> ident \<Rightarrow> string \<Rightarrow> string \<Rightarrow> string" where
  "local_attachment_signature ls attachment_id resource expires_at =
     ls_hmac ls (''local-proxy:v1:'' @ attachment_id @ '':'' @ resource @ '':'' @ expires_at)"

text \<open>\<open>s.rstrip("/")\<close>\<close>

definition rstrip_slash :: "string \<Rightarrow> string" where
  "rstrip_slash s = rev (dropWhile (\<lambda>c. c = CHR ''/'') (rev s))"

text \<open>\<open>int(t.timestamp())\<close>; times are after the epoch.\<close>

definition timestamp :: "time \<Rightarrow> int" where "timestamp t = t div 1000000"

definition link_resources :: "string list" where
  "link_resources = [''content'', ''thumbnail'']"

text \<open>None is the \<open>ValueError\<close> for a resource the code never asks for.\<close>

definition sign_local_attachment_url ::
    "link_settings \<Rightarrow> env \<Rightarrow> ident \<Rightarrow> string \<Rightarrow> int option \<Rightarrow> string option" where
  "sign_local_attachment_url ls e attachment_id resource expires_at =
     (if resource \<notin> set link_resources then None
      else
        (let deadline = (case expires_at of
               None \<Rightarrow> timestamp (now e + minutes (ls_download_minutes ls)) | Some d \<Rightarrow> d);
             deadline_text = show_int deadline;
             signature = local_attachment_signature ls attachment_id resource deadline_text
         in Some (rstrip_slash (ls_api_prefix ls) @ ''/uploads/signed/'' @ deadline_text @ ''/''
              @ signature @ ''/'' @ attachment_id @ ''/'' @ resource)))"

text \<open>ASCII decimal digits, at least one and at most twelve; \<open>int(s)\<close>.\<close>

definition ascii_digit :: "char \<Rightarrow> bool" where
  "ascii_digit c \<longleftrightarrow> (let n = (of_char c :: nat) in 48 \<le> n \<and> n \<le> 57)"

definition valid_deadline :: "string \<Rightarrow> bool" where
  "valid_deadline s \<longleftrightarrow> s \<noteq> [] \<and> list_all ascii_digit s \<and> length s \<le> 12"

definition read_nat :: "string \<Rightarrow> nat" where
  "read_nat s = foldl (\<lambda>n c. 10 * n + (of_char c - 48)) 0 s"

definition verify_local_attachment_url ::
    "link_settings \<Rightarrow> env \<Rightarrow> ident \<Rightarrow> string \<Rightarrow> string \<Rightarrow> string \<Rightarrow> bool" where
  "verify_local_attachment_url ls e attachment_id resource expires_at signature =
     (let valid = valid_deadline expires_at;
          signing_deadline = (if valid then expires_at else ''0'');
          expected = local_attachment_signature ls attachment_id resource signing_deadline;
          signature_matches = (signature = expected)
      in if \<not> valid then False
         else signature_matches \<and> timestamp (now e) < int (read_nat expires_at))"

definition sign_download_url :: "link_settings \<Rightarrow> env \<Rightarrow> string \<Rightarrow> int \<Rightarrow> string" where
  "sign_download_url ls e url ttl_seconds =
     (let deadline = timestamp (now e + seconds ttl_seconds);
          separator = (if CHR ''?'' \<in> set url then ''&'' else ''?'');
          to_sign = url @ separator @ ''e='' @ show_int deadline
      in to_sign @ ''&token='' @ ls_access_key ls @ '':'' @ ls_hmac_sha1 ls to_sign)"

section \<open>What a client is told\<close>

text \<open>The truth value of an optional string.\<close>

definition given :: "string option \<Rightarrow> bool" where
  "given s \<longleftrightarrow> or_else s None \<noteq> None"

definition attachment_state :: "attachment \<Rightarrow> string" where
  "attachment_state a =
     (if given (at_rejection_reason a) then ''rejected''
      else if at_metadata_status a = ''ready'' \<and> at_malware_scan_status a = ''clean''
        \<and> (given (at_sanitized_path a) \<or> given (at_object_key a)) then ''ready''
      else if at_uploaded_at a \<noteq> None then ''processing''
      else ''pending'')"

text \<open>The links to the content and to the thumbnail.\<close>

definition attachment_links ::
    "link_settings \<Rightarrow> env \<Rightarrow> attachment \<Rightarrow> string option \<times> string option" where
  "attachment_links ls e a =
     (let ready = (attachment_state a = ''ready'');
          key = (case at_object_key a of None \<Rightarrow> [] | Some k \<Rightarrow> k);
          base = rstrip_slash (ls_public_base_url ls) in
      if at_storage_provider a = ''local_proxy'' then
        (if ready then (sign_local_attachment_url ls e (at_id a) ''content'' None,
                        sign_local_attachment_url ls e (at_id a) ''thumbnail'' None)
         else (None, None))
      else if at_storage_provider a = ''qiniu_kodo'' then
        (if ready \<and> key \<noteq> [] then
           (let ttl = ls_download_minutes ls * 60;
                thumbnail_raw = base @ ''/'' @ key @ (if at_media_type a = ''video''
                  then ''?vframe/jpg/offset/1'' else ''?imageView2/2/w/640/h/640'')
            in (Some (sign_download_url ls e (base @ ''/'' @ key) ttl),
                Some (sign_download_url ls e thumbnail_raw ttl)))
         else (None, None))
      else if ready \<and> key \<noteq> [] then
        (Some (base @ ''/'' @ key @ ''?signature=mock&ttl='' @ show_int (ls_download_minutes ls)),
         Some (base @ ''/'' @ key @ ''.cover.jpg?signature=mock''))
      else (None, None))"

definition serialize_attachment :: "link_settings \<Rightarrow> env \<Rightarrow> attachment \<Rightarrow> json" where
  "serialize_attachment ls e a =
     (let (content_url, thumbnail_url) = attachment_links ls e a in JObj
     [(''attachment_id'', JStr (at_id a)), (''incident_id'', JStr (at_incident_id a)),
      (''report_id'', jopt JStr (at_report_id a)),
      (''directed_answer_id'', jopt JStr (at_directed_answer_id a)),
      (''status'', JStr (attachment_state a)), (''media_type'', JStr (at_media_type a)),
      (''storage_provider'', JStr (at_storage_provider a)),
      (''object_key'', jopt JStr (at_object_key a)), (''mime_type'', jopt JStr (at_mime_type a)),
      (''size_bytes'', JInt (at_size_bytes a)), (''sha256'', jopt JStr (at_sha256 a)),
      (''width'', jopt JInt (at_width a)), (''height'', jopt JInt (at_height a)),
      (''duration_ms'', jopt JInt (at_duration_ms a)),
      (''processing_progress'', JInt (at_processing_progress a)),
      (''duplicate_of_attachment_id'', jopt JStr (at_duplicate_of_attachment_id a)),
      (''source_cluster_id'', jopt JStr (at_source_cluster_id a)),
      (''metadata_status'', JStr (at_metadata_status a)),
      (''malware_scan_status'', JStr (at_malware_scan_status a)),
      (''ocr_status'', JStr ''not_applicable''), (''vision_status'', JStr (at_vision_status a)),
      (''ocr_text'', JNull), (''vision_summary'', shown_vision_summary (at_vision_summary a)),
      (''transcript_status'', jopt JStr (at_transcript_status a)),
      (''transcode_status'', jopt JStr (at_transcode_status a)),
      (''keyframe_status'', jopt JStr (at_keyframe_status a)),
      (''rejection_reason'', jopt JStr (at_rejection_reason a)),
      (''content_url'', jopt JStr content_url), (''thumbnail_url'', jopt JStr thumbnail_url),
      (''created_at'', JInt (at_created_at a)), (''uploaded_at'', jopt JInt (at_uploaded_at a))])"

text \<open>\<open>attachments_by_report(session, ids).get(i, [])\<close> for one of the ids.\<close>

definition attachments_of_report :: "'a core_db_scheme \<Rightarrow> ident \<Rightarrow> attachment list" where
  "attachments_of_report db i =
     sort_key (\<lambda>a. (at_created_at a, at_id a)) (filter (\<lambda>a. at_report_id a = Some i) (db_attachments db))"

section \<open>Binding\<close>

definition attachment_not_ready :: api_error where
  "attachment_not_ready = ApiError 422 ''ATTACHMENT_NOT_READY''"

definition bindable :: "ident \<Rightarrow> ident \<Rightarrow> ident option \<Rightarrow> attachment \<Rightarrow> bool" where
  "bindable incident_id uploader bound a \<longleftrightarrow> at_incident_id a = incident_id
     \<and> at_uploader_device_id a = uploader \<and> (at_report_id a = None \<or> at_report_id a = bound)
     \<and> at_directed_answer_id a = None \<and> at_metadata_status a = ''ready''
     \<and> at_malware_scan_status a \<in> set [''clean'', ''fake_clean'']"

text \<open>
  The rows in the order of the request; the dictionary has one entry per id, so a repeated id
  is refused with the missing ones.
\<close>

definition load_bindable_attachments ::
    "ident \<Rightarrow> ident \<Rightarrow> ident list \<Rightarrow> ident option \<Rightarrow> 'a core_db_scheme
      \<Rightarrow> api_error + attachment list" where
  "load_bindable_attachments incident_id uploader ids bound db =
     (if ids = [] then Inr []
      else
        (let rows = filter (\<lambda>a. at_id a \<in> set ids) (db_attachments db) in
         if length (remdups (map at_id rows)) \<noteq> length ids then Inl attachment_not_ready
         else if \<not> list_all (bindable incident_id uploader bound) rows then Inl attachment_not_ready
         else Inr (List.map_filter (\<lambda>i. find (\<lambda>a. at_id a = i) rows) ids)))"

text \<open>The report object comes back with the new count; its row is written by the caller.\<close>

definition bind_attachments ::
    "report \<Rightarrow> ident list \<Rightarrow> 'a core_db_scheme \<Rightarrow> api_error + report \<times> 'a core_db_scheme" where
  "bind_attachments r ids db =
     (if ids = [] then Inr (r\<lparr>rp_attachment_count := 0\<rparr>, db)
      else case load_bindable_attachments (rp_incident_id r) (rp_reporter_device_id r) ids None db of
        Inl err \<Rightarrow> Inl err
      | Inr as \<Rightarrow> Inr (r\<lparr>rp_attachment_count := int (length as)\<rparr>,
          db\<lparr>db_attachments := modify_where (\<lambda>a. at_id a \<in> set (map at_id as))
               (\<lambda>a. a\<lparr>at_report_id := Some (rp_id r)\<rparr>) (db_attachments db)\<rparr>))"

definition replace_attachments ::
    "report \<Rightarrow> ident list \<Rightarrow> 'a core_db_scheme \<Rightarrow> api_error + report \<times> 'a core_db_scheme" where
  "replace_attachments r ids db =
     bind_attachments r ids (db\<lparr>db_attachments := modify_where
        (\<lambda>a. at_report_id a = Some (rp_id r) \<and> at_incident_id a = rp_incident_id r)
        (\<lambda>a. a\<lparr>at_report_id := None\<rparr>) (db_attachments db)\<rparr>)"

section \<open>Links open exactly one file, for a while\<close>

lemma show_nat_digits: "list_all ascii_digit (show_nat n) \<and> show_nat n \<noteq> []"
proof (induction n rule: show_nat.induct)
  case (1 n)
  have digit: "ascii_digit (char_of (48 + d))" if "d < 10" for d :: nat
    using that by (simp add: ascii_digit_def)
  show ?case
  proof (cases "n < 10")
    case True
    then show ?thesis using digit by (subst (1 2) show_nat.simps) simp
  next
    case False
    then show ?thesis using 1 digit [of "n mod 10"] by (subst (1 2) show_nat.simps) simp
  qed
qed

lemma read_nat_append: "read_nat (s @ [c]) = 10 * read_nat s + (of_char c - 48)"
  by (simp add: read_nat_def)

lemma read_show_nat [simp]: "read_nat (show_nat n) = n"
proof (induction n rule: show_nat.induct)
  case (1 n)
  have val: "(of_char (char_of (48 + d) :: char) :: nat) - 48 = d" if "d < 10" for d
    using that by simp
  show ?case
  proof (cases "n < 10")
    case True
    then show ?thesis using read_nat_append [of "[]" "char_of (48 + n)"] val [of n]
      by (subst show_nat.simps) (simp add: read_nat_def)
  next
    case False
    have "read_nat (show_nat n) = 10 * read_nat (show_nat (n div 10)) + n mod 10"
      using False val [of "n mod 10"] by (subst show_nat.simps) (simp add: read_nat_append)
    then show ?thesis using 1 False by simp
  qed
qed

text \<open>
  A signed link is accepted for the file and the resource it was made for until its deadline,
  and no longer: the deadline in the link is the one that was signed.
\<close>

theorem signed_link_valid_until_deadline:
  assumes "resource \<in> set link_resources" "0 \<le> d" "d < 10 ^ 12"
  shows "\<exists>text signature. sign_local_attachment_url ls e i resource (Some d) = Some
       (rstrip_slash (ls_api_prefix ls) @ ''/uploads/signed/'' @ text @ ''/'' @ signature @ ''/'' @ i
          @ ''/'' @ resource)
     \<and> (\<forall>e'. verify_local_attachment_url ls e' i resource text signature \<longleftrightarrow> timestamp (now e') < d)"
proof -
  have s: "show_int d = show_nat (nat d)" using assms(2) by (simp add: show_int_def)
  have "length (show_nat n) \<le> k" if "n < 10 ^ k" "0 < k" for n k
    using that
  proof (induction n arbitrary: k rule: show_nat.induct)
    case (1 n)
    show ?case
    proof (cases "n < 10")
      case True
      then show ?thesis using 1 by (subst show_nat.simps) simp
    next
      case False
      then have "k \<noteq> 0" "k \<noteq> 1" using 1(2,3) by auto
      then obtain j where j: "k = Suc j" "0 < j" by (cases k) auto
      then have "n div 10 < 10 ^ j" using 1(2) by (simp add: less_mult_imp_div_less mult.commute)
      then show ?thesis using 1(1) [OF False, of j] j False by (subst show_nat.simps) simp
    qed
  qed
  then have "length (show_nat (nat d)) \<le> 12" using assms(2,3) by (simp add: nat_less_iff)
  then have "valid_deadline (show_int d)" using show_nat_digits [of "nat d"] by (simp add: valid_deadline_def s)
  moreover have "int (read_nat (show_int d)) = d" using assms(2) by (simp add: s)
  ultimately show ?thesis using assms(1)
    by (intro exI [of _ "show_int d"] exI [of _ "local_attachment_signature ls i resource (show_int d)"])
      (simp add: sign_local_attachment_url_def verify_local_attachment_url_def Let_def)
qed

text \<open>Cutting a string at its last colon.\<close>

lemma last_colon:
  assumes "a @ '':'' @ x = b @ '':'' @ y" "CHR '':'' \<notin> set x" "CHR '':'' \<notin> set y"
  shows "a = b \<and> x = y"
proof -
  have "rev x @ CHR '':'' # rev a = rev y @ CHR '':'' # rev b"
    using arg_cong [OF assms(1), of rev] by simp
  moreover have "takeWhile (\<lambda>c. c \<noteq> CHR '':'') (rev z @ CHR '':'' # w) = rev z"
    if "CHR '':'' \<notin> set z" for z w :: string
    using that by (subst takeWhile_append2) auto
  ultimately have "rev x = rev y" using assms(2,3) by metis
  then show ?thesis using assms(1) by simp
qed

lemma deadline_no_colon: "valid_deadline s \<Longrightarrow> CHR '':'' \<notin> set s"
  by (auto simp: valid_deadline_def list_all_iff ascii_digit_def Let_def)

text \<open>
  A signature made for one file, resource and deadline is accepted for no other: the signed
  text can be cut in one way only, whatever the identifiers contain.
\<close>

theorem signature_opens_one_file:
  assumes "inj (ls_hmac ls)"
    and "signature = local_attachment_signature ls i resource deadline" "valid_deadline deadline"
    and "resource \<in> set link_resources" "resource' \<in> set link_resources"
    and "verify_local_attachment_url ls e i' resource' deadline' signature"
  shows "(i', resource', deadline') = (i, resource, deadline)"
proof -
  have v: "valid_deadline deadline'" "local_attachment_signature ls i resource deadline
      = local_attachment_signature ls i' resource' deadline'"
    using assms(2,6) by (auto simp: verify_local_attachment_url_def Let_def split: if_splits)
  then have "i @ '':'' @ resource @ '':'' @ deadline = i' @ '':'' @ resource' @ '':'' @ deadline'"
    using assms(1) by (auto simp: local_attachment_signature_def dest: injD)
  then have "(i @ '':'' @ resource) @ '':'' @ deadline = (i' @ '':'' @ resource') @ '':'' @ deadline'" by simp
  from last_colon [OF this] have "i @ '':'' @ resource = i' @ '':'' @ resource'" "deadline = deadline'"
    using deadline_no_colon v(1) assms(3) by simp_all
  moreover from last_colon [OF this(1)] have "i = i' \<and> resource = resource'"
    using assms(4,5) by (auto simp: link_resources_def)
  ultimately show ?thesis by simp
qed

section \<open>Binding takes only what is free\<close>

lemma load_bindable_rows:
  assumes "load_bindable_attachments incident_id uploader ids bound db = Inr as"
    and "distinct (map at_id (db_attachments db))"
  shows "map at_id as = ids \<and> distinct ids
    \<and> set as = {a \<in> set (db_attachments db). at_id a \<in> set ids}
    \<and> (\<forall>a \<in> set as. bindable incident_id uploader bound a)"
proof (cases "ids = []")
  case True
  then show ?thesis using assms(1) by (simp add: load_bindable_attachments_def)
next
  case False
  let ?rows = "filter (\<lambda>a. at_id a \<in> set ids) (db_attachments db)"
  have len: "length (remdups (map at_id ?rows)) = length ids" and ok: "list_all (bindable incident_id uploader bound) ?rows"
    and as: "as = List.map_filter (\<lambda>i. find (\<lambda>a. at_id a = i) ?rows) ids"
    using assms(1) False by (auto simp: load_bindable_attachments_def Let_def split: if_splits)
  have d: "distinct (map at_id ?rows)" using assms(2) by (simp add: distinct_map_filter)
  then have "card (set (map at_id ?rows)) = length ids" using len by (metis distinct_card distinct_remdups_id)
  moreover have sub: "set (map at_id ?rows) \<subseteq> set ids" by auto
  ultimately have "card (set ids) \<ge> length ids" by (metis List.finite_set card_mono)
  then have card: "card (set ids) = length ids" using card_length [of ids] by simp
  then have "distinct ids" by (rule card_distinct)
  have all: "set (map at_id ?rows) = set ids"
    using card_subset_eq [OF _ sub] card \<open>card (set (map at_id ?rows)) = length ids\<close> by simp
  have "\<exists>a \<in> set ?rows. find (\<lambda>x. at_id x = i) ?rows = Some a \<and> at_id a = i" if i: "i \<in> set ids" for i
  proof -
    have "i \<in> set (map at_id ?rows)" using all i by simp
    then have "find (\<lambda>x. at_id x = i) ?rows \<noteq> None" by (auto simp: find_None_iff)
    then obtain a where "find (\<lambda>x. at_id x = i) ?rows = Some a" by blast
    then show ?thesis using find_SomeD [of _ ?rows a] by blast
  qed
  then have hit: "\<And>i. i \<in> set ids \<Longrightarrow> \<exists>a. find (\<lambda>x. at_id x = i) ?rows = Some a \<and> at_id a = i \<and> a \<in> set ?rows"
    by blast
  have map_as: "map at_id (List.map_filter (\<lambda>i. find (\<lambda>a. at_id a = i) ?rows) js) = js
      \<and> set (List.map_filter (\<lambda>i. find (\<lambda>a. at_id a = i) ?rows) js) \<subseteq> set ?rows"
    if "set js \<subseteq> set ids" for js
    using that
  proof (induction js)
    case (Cons j js)
    then obtain a where "find (\<lambda>x. at_id x = j) ?rows = Some a" "at_id a = j" "a \<in> set ?rows" using hit [of j] by auto
    then show ?case using Cons by (simp add: List.map_filter_simps)
  qed (simp add: List.map_filter_simps)
  from map_as [of ids] have m: "map at_id as = ids" "set as \<subseteq> set ?rows" by (simp_all add: as)
  have "set ?rows \<subseteq> set as"
  proof
    fix a assume a: "a \<in> set ?rows"
    then have "at_id a \<in> set (map at_id as)" using m(1) all by auto
    then obtain b where "b \<in> set as" "at_id b = at_id a" by auto
    then show "a \<in> set as" using m(2) d a by (metis (no_types, lifting) distinct_map inj_onD subsetD)
  qed
  then have "set as = set ?rows" using m(2) by blast
  then show ?thesis using m(1) \<open>distinct ids\<close> ok by (auto simp: list_all_iff)
qed

lemma modify_where_picked:
  assumes "\<And>a. a \<in> set xs \<Longrightarrow> \<not> Q a" "\<And>a. Q (f a)"
  shows "{a \<in> set (modify_where C f xs). Q a} = f ` {a \<in> set xs. C a}"
  using assms by (auto simp: set_modify_where)

text \<open>
  Replacing the attachments of a report leaves bound to it exactly those the request names,
  each uploaded by the report's own device for its incident and found clean; no attachment
  of another report or of an answer is taken.
\<close>

theorem replaced_attachments_are_the_named_ones:
  assumes run: "replace_attachments r ids db = Inr (r', db')"
    and key: "distinct (map at_id (db_attachments db))"
    and own: "\<forall>a \<in> set (db_attachments db). at_report_id a = Some (rp_id r) \<longrightarrow> at_incident_id a = rp_incident_id r"
  shows "at_id ` {a \<in> set (db_attachments db'). at_report_id a = Some (rp_id r)} = set ids
    \<and> rp_attachment_count r' = int (length ids)
    \<and> (\<forall>a \<in> set (db_attachments db). at_id a \<in> set ids \<longrightarrow>
         bindable (rp_incident_id r) (rp_reporter_device_id r) (Some (rp_id r)) a)"
proof -
  let ?mine = "\<lambda>a. at_report_id a = Some (rp_id r) \<and> at_incident_id a = rp_incident_id r"
  let ?free = "\<lambda>a. a\<lparr>at_report_id := None\<rparr>"
  let ?db1 = "db\<lparr>db_attachments := modify_where ?mine ?free (db_attachments db)\<rparr>"
  have run1: "bind_attachments r ids ?db1 = Inr (r', db')" using run by (simp add: replace_attachments_def)
  have ids1: "map at_id (db_attachments ?db1) = map at_id (db_attachments db)" by (simp add: map_modify_where)
  then have key1: "distinct (map at_id (db_attachments ?db1))" using key by simp
  have none1: "at_report_id a \<noteq> Some (rp_id r)" if mem: "a \<in> set (db_attachments ?db1)" for a
  proof -
    obtain b where b: "b \<in> set (db_attachments db)" "a = (if ?mine b then ?free b else b)"
      using mem by (auto simp: in_modify_where_iff)
    show ?thesis using b own by (cases "?mine b") auto
  qed
  show ?thesis
  proof (cases "ids = []")
    case True
    then have "db' = ?db1" "r' = r\<lparr>rp_attachment_count := 0\<rparr>" using run1 by (simp_all add: bind_attachments_def)
    then show ?thesis using none1 True by auto
  next
    case False
    then obtain as where load: "load_bindable_attachments (rp_incident_id r) (rp_reporter_device_id r) ids None ?db1 = Inr as"
      and r': "r' = r\<lparr>rp_attachment_count := int (length as)\<rparr>"
      and db': "db_attachments db' = modify_where (\<lambda>a. at_id a \<in> set (map at_id as))
           (\<lambda>a. a\<lparr>at_report_id := Some (rp_id r)\<rparr>) (db_attachments ?db1)"
      using run1 by (auto simp: bind_attachments_def split: sum.splits)
    note l = load_bindable_rows [OF load key1]
    have bound: "at_id ` {a \<in> set (db_attachments db'). at_report_id a = Some (rp_id r)} = set ids"
    proof -
      have "{a \<in> set (db_attachments db'). at_report_id a = Some (rp_id r)}
          = (\<lambda>a. a\<lparr>at_report_id := Some (rp_id r)\<rparr>) ` {a \<in> set (db_attachments ?db1). at_id a \<in> set ids}"
        unfolding db' using modify_where_picked [of "db_attachments ?db1" "\<lambda>a. at_report_id a = Some (rp_id r)"] none1 l
        by simp
      then have "at_id ` {a \<in> set (db_attachments db'). at_report_id a = Some (rp_id r)} = at_id ` set as"
        using l by (simp add: image_image)
      then show ?thesis using l by (metis set_map)
    qed
    have "bindable (rp_incident_id r) (rp_reporter_device_id r) (Some (rp_id r)) a"
      if a: "a \<in> set (db_attachments db)" "at_id a \<in> set ids" for a
    proof -
      let ?a = "if ?mine a then ?free a else a"
      have "?a \<in> set (db_attachments ?db1)" using a(1) by (auto simp: in_modify_where_iff)
      then have "?a \<in> set as" using l a(2) by auto
      then have "bindable (rp_incident_id r) (rp_reporter_device_id r) None ?a" using l by blast
      then show ?thesis by (auto simp: bindable_def split: if_splits)
    qed
    moreover have "length as = length ids" using l by (metis length_map)
    then have "rp_attachment_count r' = int (length ids)" by (simp add: r')
    ultimately show ?thesis using bound by blast
  qed
qed

section \<open>Instances\<close>

definition demo_links :: link_settings where
  "demo_links = \<lparr>ls_hmac = (\<lambda>s. s), ls_hmac_sha1 = (\<lambda>s. s), ls_access_key = ''ak'',
     ls_public_base_url = ''https://cdn/'', ls_api_prefix = ''/api/v1/'', ls_download_minutes = 10\<rparr>"

theorem signed_link_valid_until_deadline_witness:
  "\<exists>text signature. verify_local_attachment_url demo_links (demo_env\<lparr>now := 4000000\<rparr>) ''a'' ''content'' text signature
     \<and> \<not> verify_local_attachment_url demo_links (demo_env\<lparr>now := 5000000\<rparr>) ''a'' ''content'' text signature"
proof -
  obtain t g where "\<forall>e'. verify_local_attachment_url demo_links e' ''a'' ''content'' t g = (timestamp (now e') < 5)"
    using signed_link_valid_until_deadline [of "''content''" 5 demo_links demo_env "''a''"]
    by (auto simp: link_resources_def)
  then show ?thesis by (intro exI [of _ t] exI [of _ g]) (simp add: timestamp_def)
qed

theorem signature_opens_one_file_witness:
  "\<not> verify_local_attachment_url demo_links demo_env ''b'' ''content'' ''5''
       (local_attachment_signature demo_links ''a'' ''content'' ''5'')"
  using signature_opens_one_file [of demo_links _ "''a''" "''content''" "''5''" "''content''" demo_env "''b''" "''5''"]
  by (auto simp: demo_links_def link_resources_def valid_deadline_def ascii_digit_def inj_on_def)

definition demo_attachment :: attachment where
  "demo_attachment = \<lparr>at_id = ''a1'', at_incident_id = ''inc'', at_report_id = None,
     at_directed_answer_id = None, at_uploader_device_id = ''d1'', at_file_name = [],
     at_declared_mime_type = ''image/jpeg'', at_media_type = ''image'', at_client_source = None,
     at_storage_provider = ''local_proxy'', at_bucket = None, at_object_key = None, at_etag = None,
     at_mime_type = Some ''image/jpeg'', at_size_bytes = 1, at_expected_sha256 = ''h'',
     at_sha256 = Some ''h'', at_perceptual_hash = None, at_duplicate_of_attachment_id = None,
     at_source_cluster_id = None, at_original_path = None, at_sanitized_path = Some ''p'',
     at_thumbnail_path = None, at_width = None, at_height = None, at_duration_ms = None,
     at_cover_path = None, at_preview_path = None, at_transcript_status = None,
     at_transcript_text = None, at_transcode_status = None, at_keyframe_status = None,
     at_processing_progress = 100, at_policy_snapshot = None, at_captured_at = None,
     at_exif_data = None, at_metadata_status = ''ready'', at_malware_scan_status = ''clean'',
     at_ocr_status = ''not_applicable'', at_vision_status = ''done'', at_ocr_text = None,
     at_vision_summary = None, at_rejection_reason = None, at_upload_expires_at = 0,
     at_uploaded_at = Some 0, at_created_at = 0\<rparr>"

theorem replaced_attachments_are_the_named_ones_witness:
  "\<exists>r' db'. replace_attachments demo_report [''a1''] (demo_core_db\<lparr>db_attachments := [demo_attachment]\<rparr>) = Inr (r', db')
     \<and> rp_attachment_count r' = 1"
proof -
  let ?db = "demo_core_db\<lparr>db_attachments := [demo_attachment]\<rparr>"
  have "\<exists>r' db'. replace_attachments demo_report [''a1''] ?db = Inr (r', db')"
    by (simp add: replace_attachments_def bind_attachments_def load_bindable_attachments_def Let_def
        demo_attachment_def demo_report_def bindable_def)
  then obtain r' db' where run: "replace_attachments demo_report [''a1''] ?db = Inr (r', db')" by blast
  have "rp_attachment_count r' = int (length [''a1''])"
    using replaced_attachments_are_the_named_ones [OF run] by (simp add: demo_attachment_def)
  then show ?thesis using run by auto
qed

end
