(* ===== verification/Priority.thy ===== *)
theory Priority
  imports Events
begin

text \<open>
  The priority of a report: \<open>domain/priority.py\<close> and \<open>ai_priority_from_refinement\<close> of
  \<open>services/reports.py\<close>.  A JSON number is an \<open>int\<close> or the exact rational value of a finite
  float; the two float constants are written as the exact values Python gives them.
\<close>

datatype priority = Low | Medium | High

section \<open>Effective priority\<close>

definition effective_priority ::
    "string \<Rightarrow> bool \<Rightarrow> priority option \<Rightarrow> priority option \<Rightarrow> priority \<times> string" where
  "effective_priority category is_urgent manual_priority ai_priority =
     (if is_urgent then (High, ''urgent_flag'')
      else case manual_priority of Some m \<Rightarrow> (m, ''manual'')
      | None \<Rightarrow> (case ai_priority of Some a \<Rightarrow> (a, ''ai'')
                | None \<Rightarrow> (Low, ''category_default'')))"

section \<open>The priority an AI refinement suggests\<close>

definition immediate_danger_risk_tags :: "string list" where
  "immediate_danger_risk_tags =
     [''trapped_people'', ''missing_people'', ''injured_people'', ''severe_bleeding'',
      ''unconscious_person'', ''breathing_difficulty'', ''rising_water'', ''rapid_current'',
      ''deep_flooding'', ''building_collapse'', ''landslide'', ''fire'', ''electric_hazard'',
      ''gas_leak'', ''bridge_damage'']"

definition operational_risk_tags :: "string list" where
  "operational_risk_tags =
     [''road_blocked'', ''medical_shortage'', ''drinking_water_shortage'', ''food_shortage'',
      ''unsafe_shelter'', ''communication_outage'']"

definition priority_risk_tags :: "string list" where
  "priority_risk_tags = immediate_danger_risk_tags @ operational_risk_tags"

definition ai_medium_confidence_min :: rat where
  "ai_medium_confidence_min = 3 / 4"

definition ai_high_confidence_min :: rat where
  "ai_high_confidence_min = 7656119366529843 / 9007199254740992"

text \<open>\<open>isinstance(c, (int, float)) and not isinstance(c, bool)\<close>, with the value.\<close>

fun number_of :: "json \<Rightarrow> rat option" where
  "number_of (JInt i) = Some (of_int i)"
| "number_of (JNum q) = Some q"
| "number_of _ = None"

text \<open>A list of strings, or None when it is not a list or some element is not a string.\<close>

fun string_of :: "json \<Rightarrow> string option" where
  "string_of (JStr s) = Some s"
| "string_of _ = None"

fun strings_of :: "json \<Rightarrow> string list option" where
  "strings_of (JArr xs) =
     (if list_all (\<lambda>x. string_of x \<noteq> None) xs then Some (map (\<lambda>x. the (string_of x)) xs)
      else None)"
| "strings_of _ = None"

definition ai_priority_of_output :: "json \<Rightarrow> priority" where
  "ai_priority_of_output out =
     (case number_of (jget out ''confidence'') of
        None \<Rightarrow> Low
      | Some confidence \<Rightarrow>
          if confidence < ai_medium_confidence_min then Low
          else (case strings_of (jget out ''detected_risk_tags'') of
             None \<Rightarrow> Low
           | Some raw_risk_tags \<Rightarrow>
               let risk_tags = filter (\<lambda>t. t \<in> set priority_risk_tags) raw_risk_tags in
               if risk_tags = [] then Low
               else if jget out ''suggest_urgent'' = JBool True
                    \<and> confidence \<ge> ai_high_confidence_min
                    \<and> (\<exists>t \<in> set risk_tags. t \<in> set immediate_danger_risk_tags)
               then High else Medium))"

definition ai_priority_from_refinement :: "ai_analysis option \<Rightarrow> priority option" where
  "ai_priority_from_refinement analysis =
     (case analysis of None \<Rightarrow> None
      | Some a \<Rightarrow> (case an_output a of None \<Rightarrow> None
                  | Some out \<Rightarrow> Some (ai_priority_of_output out)))"

text \<open>The priority a new report gets in \<open>create_report\<close>: no manual priority yet.\<close>

definition initial_priority :: "string \<Rightarrow> bool \<Rightarrow> ai_analysis option \<Rightarrow> priority \<times> string" where
  "initial_priority category is_urgent refinement =
     effective_priority category is_urgent None (ai_priority_from_refinement refinement)"

section \<open>Lemmas\<close>

lemma effective_priority_high_iff:
  "fst (effective_priority c u m a) = High \<longleftrightarrow>
     u \<or> m = Some High \<or> (m = None \<and> a = Some High)"
  by (auto simp: effective_priority_def split: option.splits)

lemma ai_priority_high_iff:
  "ai_priority_of_output out = High \<longleftrightarrow>
     (\<exists>c tags. number_of (jget out ''confidence'') = Some c \<and> ai_high_confidence_min \<le> c
        \<and> strings_of (jget out ''detected_risk_tags'') = Some tags
        \<and> jget out ''suggest_urgent'' = JBool True
        \<and> set tags \<inter> set immediate_danger_risk_tags \<noteq> {})"
proof -
  have le: "\<not> c < ai_medium_confidence_min" if "ai_high_confidence_min \<le> c" for c
    using that by (simp add: ai_high_confidence_min_def ai_medium_confidence_min_def)
  have sub: "t \<in> set priority_risk_tags" if "t \<in> set immediate_danger_risk_tags" for t
    using that by (simp add: priority_risk_tags_def)
  show ?thesis
    by (auto simp: ai_priority_of_output_def Let_def le filter_empty_conv dest: sub
        split: option.splits if_splits)
qed

lemma ai_priority_low_iff:
  "ai_priority_of_output out = Low \<longleftrightarrow>
     (\<forall>c tags. number_of (jget out ''confidence'') = Some c \<and> ai_medium_confidence_min \<le> c
        \<and> strings_of (jget out ''detected_risk_tags'') = Some tags
        \<longrightarrow> set tags \<inter> set priority_risk_tags = {})"
  by (auto simp: ai_priority_of_output_def Let_def filter_empty_conv
      split: option.splits if_splits)

section \<open>Properties\<close>

text \<open>
  A new report is high priority exactly when the resident set the urgent flag or the
  linked refinement says so with confidence at least 0.85, an explicit \<open>suggest_urgent\<close> and
  a tag of immediate danger; the category of the report never decides it, and the urgent
  flag is recorded as the reason whenever it is set.
\<close>

theorem high_priority_needs_evidence:
  "(fst (initial_priority category urgent refinement) = High \<longleftrightarrow>
     urgent \<or> (\<exists>a out c tags. refinement = Some a \<and> an_output a = Some out
        \<and> number_of (jget out ''confidence'') = Some c \<and> ai_high_confidence_min \<le> c
        \<and> strings_of (jget out ''detected_risk_tags'') = Some tags
        \<and> jget out ''suggest_urgent'' = JBool True
        \<and> set tags \<inter> set immediate_danger_risk_tags \<noteq> {}))
   \<and> (snd (initial_priority category urgent refinement) = ''urgent_flag'' \<longleftrightarrow> urgent)
   \<and> initial_priority category urgent refinement = initial_priority category' urgent refinement"
proof (intro conjI)
  show "(fst (initial_priority category urgent refinement) = High) =
     (urgent \<or> (\<exists>a out c tags. refinement = Some a \<and> an_output a = Some out
        \<and> number_of (jget out ''confidence'') = Some c \<and> ai_high_confidence_min \<le> c
        \<and> strings_of (jget out ''detected_risk_tags'') = Some tags
        \<and> jget out ''suggest_urgent'' = JBool True
        \<and> set tags \<inter> set immediate_danger_risk_tags \<noteq> {}))"
    by (auto simp: initial_priority_def effective_priority_high_iff
        ai_priority_from_refinement_def ai_priority_high_iff split: option.splits)
qed (auto simp: initial_priority_def effective_priority_def split: option.splits)

end
