(* ===== verification/Reports.thy ===== *)
theory Reports
  imports Observations Attachments Priority
begin

text \<open>
  Resident reports (\<open>services/reports.py\<close>, \<open>routers/reports.py\<close>): access, what is stored of a
  report and shown of it, its place and its map feature, the AI refinement it may rest on, and
  the handlers that create, patch, delete it and move its status and priority.

  A handler returns an error or its response with the database it commits; an error leaves
  the database as it was (\<open>_write_transaction\<close> rolls back).  The report object of the session
  is a record that is written to its row (\<open>put_report\<close>) before anything reads the table.  A
  datetime in JSON is its number.

  Parameters: \<open>rs_real\<close> prints a computed coordinate, \<open>rs_digest\<close> is \<open>request_hash\<close> of the
  dumped body, \<open>rs_sha_json\<close> is \<open>sha256_text(canonical_json(v))\<close>, \<open>rs_cursor\<close> and
  \<open>rs_read_cursor\<close> are the text of a cursor (JSON in URL-safe Base64) and its reading, None for
  the exceptions the code turns into \<open>INVALID_CURSOR\<close>.
\<close>

section \<open>Settings and requests\<close>

record report_location =
  lc_text :: utext
  lc_latitude :: "rat option"
  lc_longitude :: "rat option"
  lc_accuracy_m :: "rat option"
  lc_source :: string
  lc_provider :: "string option"
  lc_coordinate_system :: "string option"
  lc_observed_at :: "time option"

record report_create =
  rn_category :: string
  rn_reporter :: reporter_input
  rn_content_original :: utext
  rn_content_display :: "utext option"
  rn_location :: report_location
  rn_is_urgent :: bool
  rn_ai_refinement_id :: "ident option"
  rn_attachment_ids :: "ident list"

text \<open>None is a field that is not in \<open>model_fields_set\<close>, \<open>Some None\<close> one set to null.\<close>

record report_patch =
  pt_revision :: int
  pt_reporter :: "reporter_patch option option"
  pt_category :: "string option option"
  pt_content_original :: "utext option option"
  pt_content_display :: "utext option option"
  pt_location :: "report_location option option"
  pt_is_urgent :: "bool option option"
  pt_ai_refinement_id :: "ident option option"
  pt_attachment_ids :: "ident list option option"

record report_delete =
  dq_revision :: int

record report_status_patch =
  sq_status :: string
  sq_revision :: int
  sq_note :: "utext option"

record report_priority_patch =
  pq_priority :: "priority option"
  pq_revision :: int
  pq_note :: "utext option"

record report_settings =
  rs_observing :: observing
  rs_push :: push_settings
  rs_vault :: vault
  rs_vault_settings :: vault_settings
  rs_links :: link_settings
  rs_future_tolerance_minutes :: int
  rs_idempotency_window :: int
  rs_digest :: "report_create \<Rightarrow> string"
  rs_sha_json :: "json \<Rightarrow> string"
  rs_real :: "real \<Rightarrow> json"
  rs_cursor :: "time \<times> ident \<Rightarrow> string"
  rs_read_cursor :: "string \<Rightarrow> (time \<times> ident) option"

text \<open>What a request brings along: its clock and ids, the actor, the header, its id.\<close>

record call =
  rc_env :: env
  rc_actor :: actor
  rc_header :: "string option"
  rc_request_id :: "string option"

section \<open>Access\<close>

definition get_incident :: "'a ev_db_scheme \<Rightarrow> string \<Rightarrow> api_error + incident" where
  "get_incident db name =
     (case find (\<lambda>i. inc_id i = name \<or> inc_alias i = Some name) (db_incidents db) of
        None \<Rightarrow> Inl not_found | Some i \<Rightarrow> Inr i)"

definition assert_incident_access :: "actor \<Rightarrow> incident \<Rightarrow> string option \<Rightarrow> api_error + unit" where
  "assert_incident_access a inc header =
     (if header \<noteq> None \<and> header \<notin> {Some (inc_id inc), inc_alias inc}
      then Inl (ApiError 403 ''INCIDENT_CONTEXT_MISMATCH'')
      else if inc_id inc \<notin> set (ac_incident_ids a)
      then Inl (ApiError 403 ''INCIDENT_ACCESS_DENIED'')
      else Inr ())"

definition assert_report_access :: "actor \<Rightarrow> report \<Rightarrow> bool \<Rightarrow> api_error + unit" where
  "assert_report_access a r write =
     (if rp_incident_id r \<notin> set (ac_incident_ids a)
      then Inl (ApiError 403 ''INCIDENT_ACCESS_DENIED'')
      else if is_resident a \<and> rp_reporter_device_id r \<noteq> ac_subject_id a
      then Inl (ApiError 403 ''REPORT_OWNERSHIP_REQUIRED'')
      else if write \<and> ac_subject_type a = Account \<and> ac_role a \<notin> {''operator'', ''admin''}
      then Inl (ApiError 403 ''FORBIDDEN'')
      else Inr ())"

definition get_report :: "'a core_db_scheme \<Rightarrow> ident \<Rightarrow> api_error + report" where
  "get_report db i =
     (case find_report db i of
        None \<Rightarrow> Inl not_found
      | Some r \<Rightarrow> if rp_deleted_at r \<noteq> None then Inl not_found else Inr r)"

definition put_report :: "report \<Rightarrow> 'a core_db_scheme \<Rightarrow> 'a core_db_scheme" where
  "put_report r db = db\<lparr>db_reports := modify_where (\<lambda>x. rp_id x = rp_id r) (\<lambda>_. r) (db_reports db)\<rparr>"

definition incident_for_report :: "'a core_db_scheme \<Rightarrow> report \<Rightarrow> api_error + incident" where
  "incident_for_report db r =
     (case get_incident_by_id db (rp_incident_id r) of None \<Rightarrow> Inl not_found | Some i \<Rightarrow> Inr i)"

definition contact_for_report :: "'a full_db_scheme \<Rightarrow> report \<Rightarrow> reporter_contact option" where
  "contact_for_report db r =
     (case or_else (rp_reporter_contact_id r) None of
        None \<Rightarrow> None | Some i \<Rightarrow> find (\<lambda>c. ct_id c = i) (db_contacts db))"

section \<open>What is stored and shown\<close>

definition point :: "(real \<Rightarrow> json) \<Rightarrow> real option \<Rightarrow> real option \<Rightarrow> json" where
  "point pr lat lon = JObj [(''latitude'', jopt pr lat), (''longitude'', jopt pr lon)]"

definition report_state :: "(real \<Rightarrow> json) \<Rightarrow> report \<Rightarrow> json" where
  "report_state pr r = JObj
     [(''id'', JStr (rp_id r)), (''incident_id'', JStr (rp_incident_id r)),
      (''reporter_device_id'', JStr (rp_reporter_device_id r)),
      (''reporter_contact_id'', jopt JStr (rp_reporter_contact_id r)),
      (''category'', JStr (rp_category r)), (''content_original'', JText (rp_content_original r)),
      (''content_display'', JText (rp_content_display r)),
      (''location_text'', JText (rp_location_text r)),
      (''location'', JObj
        [(''latitude'', jopt JNum (rp_latitude r)), (''longitude'', jopt JNum (rp_longitude r)),
         (''accuracy_m'', jopt JNum (rp_location_accuracy_m r)),
         (''source'', JStr (rp_location_source r)),
         (''provider'', jopt JStr (rp_location_provider r)),
         (''coordinate_system'', jopt JStr (rp_coordinate_system r)),
         (''observed_at'', jopt JInt (rp_location_observed_at r)),
         (''wgs84'', point pr (rp_wgs84_latitude r) (rp_wgs84_longitude r)),
         (''gcj02'', point pr (rp_gcj02_latitude r) (rp_gcj02_longitude r)),
         (''algorithm_version'', jopt JStr (rp_algorithm_version r))]),
      (''is_urgent'', JBool (rp_is_urgent r)), (''priority'', JStr (rp_priority r)),
      (''priority_source'', JStr (rp_priority_source r)),
      (''manual_priority'', jopt JStr (rp_manual_priority r)),
      (''status'', JStr (rp_status r)), (''is_directed_answer'', JBool (rp_is_directed_answer r)),
      (''ai_refinement_id'', jopt JStr (rp_ai_refinement_id r)),
      (''attachment_count'', JInt (rp_attachment_count r)), (''revision'', JInt (rp_revision r)),
      (''created_at'', JInt (rp_created_at r)), (''updated_at'', JInt (rp_updated_at r))]"

definition masked_json :: "masked_view option \<Rightarrow> json" where
  "masked_json v = jopt (\<lambda>m. JObj
     [(''full_name_masked'', JText (mv_full_name_masked m)),
      (''mobile_masked'', JText (mv_mobile_masked m)),
      (''has_national_id'', JBool (mv_has_national_id m)),
      (''emergency_contact'', jopt (\<lambda>c. JObj
         [(''name_masked'', jopt JText (me_name_masked c)),
          (''mobile_masked'', jopt JText (me_mobile_masked c)),
          (''relation_masked'', jopt JText (me_relation_masked c))]) (mv_emergency m)),
      (''has_rescue_notes'', JBool (mv_has_rescue_notes m))]) v"

definition plain_emergency :: "plain_view \<Rightarrow> json" where
  "plain_emergency p = jopt (\<lambda>c. JObj
     [(''name'', jopt JText (em_name c)), (''mobile'', jopt JText (em_mobile c)),
      (''relation'', jopt JText (em_relation c))]) (add_emergency (pv_additional p))"

definition plain_json :: "plain_view \<Rightarrow> json" where
  "plain_json p = JObj
     [(''full_name'', JText (pv_full_name p)), (''mobile'', JText (pv_mobile p)),
      (''additional_info'', JObj
        [(''national_id'', jopt JText (add_national_id (pv_additional p))),
         (''emergency_contact'', plain_emergency p),
         (''rescue_notes'', jopt JText (add_rescue_notes (pv_additional p)))])]"

text \<open>Without an actor (the events), the source and the manual priority stay out.\<close>

definition serialize_report ::
    "report_settings \<Rightarrow> env \<Rightarrow> report \<Rightarrow> actor option \<Rightarrow> reporter_contact option
      \<Rightarrow> attachment list \<Rightarrow> json" where
  "serialize_report S e r actr contact as =
     (let kept = json_without (json_without (json_without (report_state (rs_real S) r)
            ''reporter_device_id'') ''reporter_contact_id'') ''manual_priority'';
          shown = json_set (json_set (json_set kept
            ''reporter'' (masked_json (serialize_contact_masked contact)))
            ''attachment_ids'' (JArr (map (\<lambda>a. JStr (at_id a)) as)))
            ''attachments'' (JArr (map (serialize_attachment (rs_links S) e) as)) in
      case actr of
        None \<Rightarrow> shown
      | Some a \<Rightarrow> if is_resident a then shown
          else json_set (json_set shown
            ''source'' (JObj [(''type'', JStr ''anonymous_device''),
                              (''device_id'', JStr (rp_reporter_device_id r))]))
            ''manual_priority'' (jopt JStr (rp_manual_priority r)))"

text \<open>What the event of a report carries.\<close>

definition report_payload :: "report_settings \<Rightarrow> env \<Rightarrow> report \<Rightarrow> 'a full_db_scheme \<Rightarrow> json" where
  "report_payload S e r db =
     serialize_report S e r None (contact_for_report db r) (attachments_of_report db (rp_id r))"

text \<open>\<open>success(data, request)\<close>\<close>

definition success :: "json \<Rightarrow> string option \<Rightarrow> (string \<times> json) list \<Rightarrow> json" where
  "success data rid extra =
     JObj [(''data'', data), (''meta'', JObj ((''request_id'', jopt JStr rid) # extra))]"

section \<open>Place and map feature\<close>

definition algorithm_version :: string where "algorithm_version = ''gcj02-v1''"

text \<open>The schema guarantees the system of a located place; the \<open>assert\<close> would be a 500.\<close>

definition apply_location ::
    "report_settings \<Rightarrow> env \<Rightarrow> report_location \<Rightarrow> report \<Rightarrow> api_error + report" where
  "apply_location S e l r0 =
     (if (case lc_observed_at l of None \<Rightarrow> False
          | Some t \<Rightarrow> now e + minutes (rs_future_tolerance_minutes S) < t)
      then Inl (ApiError 422 ''LOCATION_OBSERVED_AT_IN_FUTURE'')
      else
        (let r = r0\<lparr>rp_location_text := lc_text l, rp_location_accuracy_m := lc_accuracy_m l,
               rp_location_source := lc_source l, rp_location_provider := lc_provider l,
               rp_location_observed_at := lc_observed_at l\<rparr> in
         case (lc_latitude l, lc_longitude l) of
           (Some lat, Some lon) \<Rightarrow>
             (case lc_coordinate_system l of
                None \<Rightarrow> Inl internal_error
              | Some sys \<Rightarrow>
                  map_sum id (\<lambda>p. r\<lparr>rp_latitude := Some lat, rp_longitude := Some lon,
                      rp_coordinate_system := Some (pos_coordinate_system p),
                      rp_wgs84_latitude := Some (pos_wgs84_latitude p),
                      rp_wgs84_longitude := Some (pos_wgs84_longitude p),
                      rp_gcj02_latitude := Some (pos_gcj02_latitude p),
                      rp_gcj02_longitude := Some (pos_gcj02_longitude p),
                      rp_algorithm_version := Some algorithm_version\<rparr>)
                    (normalize_position (of_rat lat) (of_rat lon) sys))
         | _ \<Rightarrow> Inr (r\<lparr>rp_latitude := None, rp_longitude := None, rp_coordinate_system := None,
               rp_wgs84_latitude := None, rp_wgs84_longitude := None,
               rp_gcj02_latitude := None, rp_gcj02_longitude := None,
               rp_algorithm_version := None\<rparr>)))"

definition has_position :: "report \<Rightarrow> bool" where
  "has_position r \<longleftrightarrow> rp_wgs84_latitude r \<noteq> None \<and> rp_wgs84_longitude r \<noteq> None
     \<and> rp_gcj02_latitude r \<noteq> None \<and> rp_gcj02_longitude r \<noteq> None"

definition write_report_feature :: "report \<Rightarrow> map_feature \<Rightarrow> map_feature" where
  "write_report_feature r f =
     f\<lparr>mf_title := rp_location_text r, mf_status := rp_status r, mf_severity := rp_priority r,
       mf_latitude_wgs84 := rp_wgs84_latitude r, mf_longitude_wgs84 := rp_wgs84_longitude r,
       mf_latitude_gcj02 := rp_gcj02_latitude r, mf_longitude_gcj02 := rp_gcj02_longitude r,
       mf_revision := rp_revision r,
       mf_is_deleted := (\<not> has_position r \<or> rp_deleted_at r \<noteq> None),
       mf_public_data := JObj [(''category'', JStr (rp_category r)),
         (''is_urgent'', JBool (rp_is_urgent r)), (''priority'', JStr (rp_priority r)),
         (''location_text'', JText (rp_location_text r))],
       mf_private_data := JObj [(''owner_device_id'', JStr (rp_reporter_device_id r))]\<rparr>"

definition new_report_feature :: "ident \<Rightarrow> report \<Rightarrow> map_feature" where
  "new_report_feature i r = write_report_feature r
     \<lparr>mf_id = i, mf_incident_id = rp_incident_id r, mf_kind = ''report'', mf_source_ref = rp_id r,
      mf_title = rp_location_text r, mf_status = rp_status r, mf_severity = rp_priority r,
      mf_latitude_wgs84 = None, mf_longitude_wgs84 = None, mf_latitude_gcj02 = None,
      mf_longitude_gcj02 = None, mf_revision = 1, mf_is_deleted = False, mf_public_data = JObj [],
      mf_private_data = JObj []\<rparr>"

definition upsert_report_map_feature :: "env \<Rightarrow> report \<Rightarrow> 'a core_db_scheme \<Rightarrow> 'a core_db_scheme" where
  "upsert_report_map_feature e r db0 =
     (let db = flush db0 in
      case find_feature db (rp_incident_id r) ''report'' (rp_id r) of
        None \<Rightarrow>
          if \<not> has_position r then db
          else db\<lparr>db_features := db_features db @ [new_report_feature (new_id e (id_count db)) r],
                  id_count := Suc (id_count db)\<rparr>
      | Some f \<Rightarrow> db\<lparr>db_features := modify_where (\<lambda>x. mf_id x = mf_id f) (write_report_feature r)
            (db_features db)\<rparr>)"

section \<open>The AI refinement a report rests on\<close>

definition refinement_invalid :: api_error where
  "refinement_invalid = ApiError 422 ''AI_REFINEMENT_INVALID''"

definition has_key :: "json \<Rightarrow> string \<Rightarrow> bool" where
  "has_key j k = (case j of JObj kvs \<Rightarrow> k \<in> set (map fst kvs) | _ \<Rightarrow> False)"

text \<open>\<open>analysis.context_package or analysis.input_snapshot\<close>\<close>

definition refinement_context :: "ai_analysis \<Rightarrow> json" where
  "refinement_context a =
     (case an_context_package a of
        Some c \<Rightarrow> if truthy c then c else an_input_snapshot a | None \<Rightarrow> an_input_snapshot a)"

definition legacy_text_refinement :: "ai_analysis \<Rightarrow> ident list \<Rightarrow> bool" where
  "legacy_text_refinement a attachment_ids \<longleftrightarrow>
     (let ctx = refinement_context a; request = jget ctx ''request_context'' in
      an_prompt_version a = ''cm-report-refinement-v1.0.0'' \<and> an_context_sha256 a = None
      \<and> an_context_package a = None \<and> attachment_ids = [] \<and> \<not> has_key ctx ''attachments''
      \<and> is_dict request \<and> \<not> has_key request ''report_id'' \<and> \<not> has_key request ''report_revision'')"

definition attachment_facts :: "attachment \<Rightarrow> json list" where
  "attachment_facts a = [JStr (at_id a), JStr (at_media_type a), jopt JStr (at_sha256 a),
     jopt JStr (at_etag a), JInt (at_size_bytes a)]"

definition context_facts :: "json \<Rightarrow> json list" where
  "context_facts j = map (jget j) [''attachment_id'', ''media_type'', ''sha256'', ''storage_etag'', ''size_bytes'']"

text \<open>
  \<open>str(item["attachment_id"])\<close>: an id that is neither a string nor missing equals no id of an
  attachment, wherever it is sorted.
\<close>

definition id_text :: "json \<Rightarrow> string" where
  "id_text j = (case j of JStr s \<Rightarrow> s | JNull \<Rightarrow> ''None'' | JInt i \<Rightarrow> show_int i | _ \<Rightarrow> [])"

definition json_items :: "json \<Rightarrow> json list" where
  "json_items j = (case j of JArr xs \<Rightarrow> xs | _ \<Rightarrow> [])"

definition unhashable :: "json \<Rightarrow> bool" where
  "unhashable j = (case j of JArr _ \<Rightarrow> True | JObj _ \<Rightarrow> True | _ \<Rightarrow> False)"

record refinement_query =
  rf_incident_id :: ident
  rf_category :: string
  rf_content :: utext
  rf_location_text :: utext
  rf_attachment_ids :: "ident list"
  rf_report_id :: "ident option"
  rf_report_revision :: "int option"
  rf_bound_report_id :: "ident option"
  rf_use_stored :: bool

text \<open>The last test: the analysis was made for exactly this text, place, attachments and revision.\<close>

definition check_refinement_context ::
    "refinement_query \<Rightarrow> attachment list \<Rightarrow> ai_analysis \<Rightarrow> api_error + ai_analysis" where
  "check_refinement_context q as a =
     (let ctx = refinement_context a;
          expected = map attachment_facts (sort_key at_id as);
          actual = map context_facts (sort_key (\<lambda>i. id_text (jget i ''attachment_id''))
            (filter is_dict (json_items (jget ctx ''attachments''))));
          report = jget ctx ''report''; request = jget ctx ''request_context'';
          context_id = jget request ''report_id''; context_revision = jget request ''report_revision'';
          report_id = (if rf_use_stored q
            then (case context_id of JStr s \<Rightarrow> Some s | _ \<Rightarrow> None) else rf_report_id q);
          report_revision = (if rf_use_stored q
            then (case context_revision of JInt n \<Rightarrow> Some n | _ \<Rightarrow> None) else rf_report_revision q);
          refined = (case an_output a of Some out \<Rightarrow> jget out ''refined_content'' | None \<Rightarrow> JNull);
          mismatch = Inl (ApiError 422 ''AI_REFINEMENT_CONTEXT_MISMATCH'') in
      if \<not> is_dict report \<or> \<not> is_dict request then Inl refinement_invalid
      else if jget report ''category'' \<noteq> JStr (rf_category q) then mismatch
      else if unhashable (jget report ''content'') \<or> unhashable refined then Inl internal_error
      else if JText (rf_content q) \<notin> {jget report ''content'', refined}
        \<or> jget report ''location_text'' \<noteq> JText (rf_location_text q)
        \<or> actual \<noteq> expected \<or> context_id \<noteq> jopt JStr report_id
        \<or> context_revision \<noteq> jopt JInt report_revision
      then mismatch
      else Inr a)"

definition validate_report_refinement ::
    "report_settings \<Rightarrow> actor \<Rightarrow> ident option \<Rightarrow> refinement_query \<Rightarrow> 'a core_db_scheme
      \<Rightarrow> api_error + ai_analysis option" where
  "validate_report_refinement S actr analysis_id q db =
     (case analysis_id of
        None \<Rightarrow> Inr None
      | Some i \<Rightarrow>
          (case find (\<lambda>a. an_id a = i) (db_analyses db) of
             None \<Rightarrow> Inl refinement_invalid
           | Some a \<Rightarrow>
               if an_analysis_type a \<noteq> ''report_refinement'' \<or> an_incident_id a \<noteq> rf_incident_id q
                 \<or> an_status a \<noteq> ''succeeded'' \<or> an_is_stale a
               then Inl refinement_invalid
               else if is_resident actr \<and> an_created_by_id a \<noteq> Some (ac_subject_id actr)
               then Inl (ApiError 403 ''AI_REFINEMENT_ACCESS_DENIED'')
               else if \<not> legacy_text_refinement a (rf_attachment_ids q)
                 \<and> an_context_sha256 a \<noteq> Some (rs_sha_json S (refinement_context a))
               then Inl refinement_invalid
               else and_then (load_bindable_attachments (rf_incident_id q) (ac_subject_id actr)
                   (rf_attachment_ids q)
                   (case rf_bound_report_id q of Some b \<Rightarrow> Some b | None \<Rightarrow> rf_report_id q) db)
                 (\<lambda>as. map_sum id Some (check_refinement_context q as a))))"

section \<open>Priorities as text\<close>

definition priority_name :: "priority \<Rightarrow> string" where
  "priority_name p = (case p of Low \<Rightarrow> ''low'' | Medium \<Rightarrow> ''medium'' | High \<Rightarrow> ''high'')"

text \<open>The column holds one of the three names.\<close>

definition priority_named :: "string \<Rightarrow> priority option" where
  "priority_named s = map_of [(''low'', Low), (''medium'', Medium), (''high'', High)] s"

text \<open>The priority of a report and its source, written into it.\<close>

definition prioritized :: "ai_analysis option \<Rightarrow> report \<Rightarrow> report" where
  "prioritized refinement r =
     (let (p, source) = effective_priority (rp_category r) (rp_is_urgent r)
            (Option.bind (rp_manual_priority r) priority_named)
            (ai_priority_from_refinement refinement)
      in r\<lparr>rp_priority := priority_name p, rp_priority_source := source\<rparr>)"

definition report_revision_row ::
    "report_settings \<Rightarrow> env \<Rightarrow> nat \<Rightarrow> actor \<Rightarrow> utext \<Rightarrow> json \<Rightarrow> report \<Rightarrow> report_revision" where
  "report_revision_row S e k actr reason snapshot r =
     \<lparr>rr_id = new_id e k, rr_report_id = rp_id r, rr_revision = rp_revision r,
      rr_snapshot = snapshot, rr_changed_by_type = subject_name (ac_subject_type actr),
      rr_changed_by_id = Some (ac_subject_id actr), rr_change_reason = Some reason,
      rr_created_at = now e\<rparr>"

definition add_revision ::
    "report_settings \<Rightarrow> env \<Rightarrow> actor \<Rightarrow> utext \<Rightarrow> json \<Rightarrow> report \<Rightarrow> 'a core_db_scheme \<Rightarrow> 'a core_db_scheme" where
  "add_revision S e actr reason snapshot r db =
     db\<lparr>db_report_revisions := db_report_revisions db
          @ [report_revision_row S e (id_count db) actr reason snapshot r],
        id_count := Suc (id_count db)\<rparr>"

section \<open>Events and notices of a report\<close>

text \<open>The event goes to the owner of the report and to the operators; its id names the notice.\<close>

definition emit_report_event ::
    "env \<Rightarrow> incident \<Rightarrow> string \<Rightarrow> report \<Rightarrow> json \<Rightarrow> 'a ev_db_scheme \<Rightarrow> 'a ev_db_scheme" where
  "emit_report_event e inc event_type r payload db =
     snd (emit_event e (inc_id inc)
       ((simple_emission event_type ''report'' (rp_id r) (rp_revision r) payload ''owner'')
          \<lparr>em_owner_device_id := Some (rp_reporter_device_id r)\<rparr>) db)"

definition report_notice :: "ident \<Rightarrow> string \<Rightarrow> incident \<Rightarrow> report \<Rightarrow> utext \<Rightarrow> utext \<Rightarrow> notice" where
  "report_notice event_id event_type inc r title body =
     \<lparr>nc_business_event_id = event_id, nc_event_type = event_type, nc_priority = rp_priority r,
      nc_resource_type = ''report'', nc_resource_id = Some (rp_id r),
      nc_resource_revision = Some (rp_revision r),
      nc_deep_link = Some (''crisismosaic://incidents/'' @ inc_id inc @ ''/reports/'' @ rp_id r),
      nc_title = codes ''Crisis Mosaic '' @ title, nc_body = body\<rparr>"

definition created_title :: utext where "created_title = [32039, 24613, 25552, 37266]"
definition created_body :: utext where
  "created_body = [25910, 21040, 19968, 26465, 26032, 30340, 39640, 20248, 20808, 32423, 29616, 22330,
     19978, 25253, 65292, 35831, 25171, 24320, 24212, 29992, 26597, 30475, 12290]"
definition status_title :: utext where "status_title = [19978, 25253, 29366, 24577, 26356, 26032]"
definition status_body :: utext where
  "status_body = [19968, 26465, 29616, 22330, 19978, 25253, 29366, 24577, 24050, 26356, 26032, 65292,
     35831, 25171, 24320, 24212, 29992, 26597, 30475, 12290]"
definition priority_title :: utext where "priority_title = [20248, 20808, 32423, 26356, 26032]"
definition priority_body :: utext where
  "priority_body = [19968, 26465, 29616, 22330, 19978, 25253, 20248, 20808, 32423, 24050, 26356, 26032,
     65292, 35831, 25171, 24320, 24212, 29992, 26597, 30475, 12290]"

definition notify_operators ::
    "report_settings \<Rightarrow> env \<Rightarrow> incident \<Rightarrow> notice \<Rightarrow> 'a push_db_scheme \<Rightarrow> 'a push_db_scheme" where
  "notify_operators S e inc n db = snd (enqueue_operator_notifications (rs_push S) e (inc_id inc) n db)"

definition report_response ::
    "report_settings \<Rightarrow> call \<Rightarrow> report \<Rightarrow> 'a full_db_scheme \<Rightarrow> json" where
  "report_response S c r db =
     success (serialize_report S (rc_env c) r (Some (rc_actor c)) (contact_for_report db r)
       (attachments_of_report db (rp_id r))) (rc_request_id c) []"

section \<open>Creating\<close>

definition resident_required :: api_error where
  "resident_required = ApiError 403 ''RESIDENT_REQUIRED''"

text \<open>The ids left for a row the contact service makes.\<close>

definition shifted :: "env \<Rightarrow> nat \<Rightarrow> env" where
  "shifted e k = e\<lparr>new_id := (\<lambda>n. new_id e (k + n))\<rparr>"

definition new_report ::
    "env \<Rightarrow> nat \<Rightarrow> incident \<Rightarrow> actor \<Rightarrow> report_create \<Rightarrow> ident \<Rightarrow> report" where
  "new_report e k inc a p contact_id =
     \<lparr>rp_id = new_id e k, rp_incident_id = inc_id inc, rp_reporter_device_id = ac_subject_id a,
      rp_reporter_contact_id = Some contact_id, rp_category = rn_category p,
      rp_content_original = rn_content_original p,
      rp_content_display = (case rn_content_display p of
          Some d \<Rightarrow> if d = [] then rn_content_original p else d | None \<Rightarrow> rn_content_original p),
      rp_location_text = lc_text (rn_location p), rp_latitude = None, rp_longitude = None,
      rp_wgs84_latitude = None, rp_wgs84_longitude = None, rp_gcj02_latitude = None,
      rp_gcj02_longitude = None, rp_location_accuracy_m = None, rp_location_source = ''manual'',
      rp_coordinate_system = None, rp_location_provider = None, rp_location_observed_at = None,
      rp_algorithm_version = None, rp_is_urgent = rn_is_urgent p, rp_priority = ''medium'',
      rp_priority_source = ''category_default'', rp_manual_priority = None, rp_status = ''new'',
      rp_is_directed_answer = False, rp_directed_answer_id = None,
      rp_ai_refinement_id = rn_ai_refinement_id p, rp_attachment_count = 0, rp_revision = 1,
      rp_deleted_at = None, rp_created_at = now e, rp_updated_at = now e\<rparr>"

definition create_query :: "incident \<Rightarrow> report_create \<Rightarrow> refinement_query" where
  "create_query inc p =
     \<lparr>rf_incident_id = inc_id inc, rf_category = rn_category p, rf_content = rn_content_original p,
      rf_location_text = lc_text (rn_location p), rf_attachment_ids = rn_attachment_ids p,
      rf_report_id = None, rf_report_revision = None, rf_bound_report_id = None, rf_use_stored = False\<rparr>"

definition create_report ::
    "report_settings \<Rightarrow> env \<Rightarrow> incident \<Rightarrow> actor \<Rightarrow> report_create \<Rightarrow> 'a full_db_scheme
      \<Rightarrow> api_error + report \<times> 'a full_db_scheme" where
  "create_report S e inc a p db0 =
     (if \<not> is_resident a then Inl resident_required
      else and_then (validate_report_refinement S a (rn_ai_refinement_id p) (create_query inc p) (flush db0))
        (\<lambda>refinement. let db = flush db0 in
          and_then (create_reporter_contact (rs_vault S) (rs_vault_settings S) (shifted e (id_count db))
              inc (ac_subject_id a) (rn_reporter p))
        (\<lambda>contact. let db1 = db\<lparr>db_contacts := db_contacts db @ [contact], id_count := Suc (id_count db)\<rparr> in
          and_then (apply_location S e (rn_location p)
              (prioritized refinement (new_report e (id_count db1) inc a p (ct_id contact))))
        (\<lambda>r0. let db2 = db1\<lparr>db_reports := db_reports db1 @ [r0], id_count := Suc (id_count db1)\<rparr> in
          and_then (bind_attachments r0 (rn_attachment_ids p) db2)
        (\<lambda>(r, db3). Inr (r, upsert_report_map_feature e r
            (add_revision S e a (codes ''created'') (report_state (rs_real S) r) r (put_report r db3))))))))"

definition report_created ::
    "report_settings \<Rightarrow> call \<Rightarrow> incident \<Rightarrow> ident \<Rightarrow> report \<Rightarrow> 'a full_db_scheme
      \<Rightarrow> api_error + json \<times> 'a full_db_scheme" where
  "report_created S c inc reservation r db1 =
     (let e = rc_env c; a = rc_actor c;
          db2 = record_audit e (Some a) (Some (inc_id inc)) ''report.created'' ''report''
                  (Some (rp_id r)) (rc_request_id c) db1;
          event_id = new_id e (id_count db2);
          db3 = emit_report_event e inc ''report.created'' r (report_payload S e r db2) db2 in
      and_then (process_report_observation (rs_observing S) e inc r (Some a) (rc_request_id c) db3)
        (\<lambda>db4. let response = report_response S c r db2;
             db5 = notify_operators S e inc (report_notice event_id
                (if rp_is_urgent r then ''urgent_report.created'' else ''report.created'') inc r
                created_title created_body) db4
           in Inr (response, db5\<lparr>db_idempotency :=
                finish_reservation reservation 201 response (db_idempotency db5)\<rparr>)))"

definition post_report ::
    "report_settings \<Rightarrow> call \<Rightarrow> string \<Rightarrow> report_create \<Rightarrow> string \<Rightarrow> 'a full_db_scheme
      \<Rightarrow> api_error + json \<times> 'a full_db_scheme" where
  "post_report S c incident_name p key db =
     and_then (get_incident db incident_name)
      (\<lambda>inc. and_then (assert_incident_access (rc_actor c) inc (rc_header c))
      (\<lambda>_. case replay_or_reserve (rs_idempotency_window S) (now (rc_env c))
              (new_id (rc_env c) (id_count db)) (rc_actor c)
              (''POST:/incidents/'' @ inc_id inc @ ''/reports'') key (rs_digest S p) (db_idempotency db) of
          (Inl err, _) \<Rightarrow> Inl err
        | (Inr (Inr body), _) \<Rightarrow> Inr (body, db)
        | (Inr (Inl reservation), rows) \<Rightarrow>
            and_then (create_report S (rc_env c) inc (rc_actor c) p
                (db\<lparr>db_idempotency := rows, id_count := Suc (id_count db)\<rparr>))
              (\<lambda>(r, db1). report_created S c inc reservation r db1)))"

section \<open>What every change of a report shares\<close>

text \<open>
  The guards: the report, access, its incident, the header, the revision the client has seen.
\<close>

definition revision_conflict :: api_error where
  "revision_conflict = ApiError 409 ''REVISION_CONFLICT''"

definition open_report :: "call \<Rightarrow> ident \<Rightarrow> int \<Rightarrow> 'a full_db_scheme \<Rightarrow> api_error + report \<times> incident" where
  "open_report c i revision db =
     and_then (get_report db i) (\<lambda>r. and_then (assert_report_access (rc_actor c) r True)
      (\<lambda>_. and_then (incident_for_report db r) (\<lambda>inc.
        and_then (assert_incident_access (rc_actor c) inc (rc_header c))
      (\<lambda>_. if rp_revision r \<noteq> revision then Inl revision_conflict else Inr (r, inc)))))"

definition advanced :: "env \<Rightarrow> report \<Rightarrow> report" where
  "advanced e r = r\<lparr>rp_revision := rp_revision r + 1, rp_updated_at := now e\<rparr>"

text \<open>\<open>payload.note or "..."\<close>\<close>

definition reason_or :: "utext option \<Rightarrow> string \<Rightarrow> utext" where
  "reason_or note d = (case note of Some n \<Rightarrow> if n = [] then codes d else n | None \<Rightarrow> codes d)"

text \<open>History, map feature, audit and event of a report that was written to its row.\<close>

definition log_change ::
    "report_settings \<Rightarrow> call \<Rightarrow> incident \<Rightarrow> utext \<Rightarrow> string \<Rightarrow> report \<Rightarrow> 'a full_db_scheme
      \<Rightarrow> 'a full_db_scheme" where
  "log_change S c inc reason action r db =
     record_audit (rc_env c) (Some (rc_actor c)) (Some (inc_id inc)) action ''report'' (Some (rp_id r))
       (rc_request_id c) (upsert_report_map_feature (rc_env c) r
         (add_revision S (rc_env c) (rc_actor c) reason (report_state (rs_real S) r) r db))"

definition announce_change ::
    "report_settings \<Rightarrow> call \<Rightarrow> incident \<Rightarrow> string \<Rightarrow> report \<Rightarrow> 'a full_db_scheme \<Rightarrow> 'a full_db_scheme" where
  "announce_change S c inc event_type r db =
     emit_report_event (rc_env c) inc event_type r (report_payload S (rc_env c) r (flush db)) (flush db)"

text \<open>A change the operators are told of: the notice is named by the event.\<close>

definition announce_and_notify ::
    "report_settings \<Rightarrow> call \<Rightarrow> incident \<Rightarrow> string \<Rightarrow> utext \<Rightarrow> utext \<Rightarrow> report \<Rightarrow> 'a full_db_scheme
      \<Rightarrow> json \<times> 'a full_db_scheme" where
  "announce_and_notify S c inc event_type title body r db =
     (let event_id = new_id (rc_env c) (id_count db);
          db' = notify_operators S (rc_env c) inc (report_notice event_id event_type inc r title body)
                  (announce_change S c inc event_type r db)
      in (report_response S c r db', db'))"

section \<open>Patching\<close>

definition patch_is_empty :: "report_patch \<Rightarrow> bool" where
  "patch_is_empty p \<longleftrightarrow> pt_reporter p = None \<and> pt_category p = None \<and> pt_content_original p = None
     \<and> pt_content_display p = None \<and> pt_location p = None \<and> pt_is_urgent p = None
     \<and> pt_ai_refinement_id p = None \<and> pt_attachment_ids p = None"

definition patch_nulls :: "report_patch \<Rightarrow> bool" where
  "patch_nulls p \<longleftrightarrow> pt_category p = Some None \<or> pt_content_original p = Some None
     \<or> pt_content_display p = Some None \<or> pt_location p = Some None \<or> pt_is_urgent p = Some None"

text \<open>A field that was sent with a value, or what the report has.\<close>

definition sent :: "'x option option \<Rightarrow> 'x \<Rightarrow> 'x" where
  "sent f old = (case f of Some (Some x) \<Rightarrow> x | _ \<Rightarrow> old)"

text \<open>Fields of the refinement's context; fields of the observation.\<close>

definition touches_context :: "report_patch \<Rightarrow> bool" where
  "touches_context p \<longleftrightarrow> pt_category p \<noteq> None \<or> pt_content_original p \<noteq> None
     \<or> pt_location p \<noteq> None \<or> pt_attachment_ids p \<noteq> None"

definition touches_observation :: "report_patch \<Rightarrow> bool" where
  "touches_observation p \<longleftrightarrow> pt_category p \<noteq> None \<or> pt_content_original p \<noteq> None
     \<or> pt_content_display p \<noteq> None \<or> pt_location p \<noteq> None"

definition patched_fields ::
    "report_settings \<Rightarrow> env \<Rightarrow> report_patch \<Rightarrow> report \<Rightarrow> api_error + report" where
  "patched_fields S e p r0 =
     (let r1 = r0\<lparr>rp_category := sent (pt_category p) (rp_category r0),
            rp_content_original := sent (pt_content_original p) (rp_content_original r0),
            rp_content_display := sent (pt_content_display p) (rp_content_display r0)\<rparr> in
      and_then (case pt_location p of Some (Some l) \<Rightarrow> apply_location S e l r1 | _ \<Rightarrow> Inr r1)
        (\<lambda>r2. Inr (r2\<lparr>rp_is_urgent := sent (pt_is_urgent p) (rp_is_urgent r2),
            rp_ai_refinement_id := (case pt_ai_refinement_id p of
                Some i \<Rightarrow> i
              | None \<Rightarrow> if touches_context p then None else rp_ai_refinement_id r2)\<rparr>)))"

text \<open>A new snapshot of the contact replaces the old one in the report.\<close>

definition patched_contact ::
    "report_settings \<Rightarrow> env \<Rightarrow> incident \<Rightarrow> report_patch \<Rightarrow> report \<Rightarrow> 'a full_db_scheme
      \<Rightarrow> api_error + report \<times> 'a full_db_scheme" where
  "patched_contact S e inc p r db =
     (case pt_reporter p of
        None \<Rightarrow> Inr (r, db)
      | Some None \<Rightarrow> Inl (ApiError 422 ''REPORTER_CONTACT_REQUIRED'')
      | Some (Some patch) \<Rightarrow>
          (case contact_for_report db r of
             None \<Rightarrow> Inl (ApiError 409 ''REPORTER_CONTACT_MISSING'')
           | Some previous \<Rightarrow>
               and_then (update_reporter_contact (rs_vault S) (rs_vault_settings S)
                   (shifted e (id_count db)) inc previous patch)
                 (\<lambda>next_contact. Inr (r\<lparr>rp_reporter_contact_id := Some (ct_id next_contact)\<rparr>,
                    (flush db)\<lparr>db_contacts := db_contacts db @ [next_contact],
                      id_count := Suc (id_count db)\<rparr>))))"

definition patched_attachments ::
    "report_patch \<Rightarrow> report \<Rightarrow> 'a full_db_scheme \<Rightarrow> api_error + report \<times> 'a full_db_scheme" where
  "patched_attachments p r db =
     (case pt_attachment_ids p of
        None \<Rightarrow> Inr (r, db)
      | Some None \<Rightarrow> Inl (ApiError 422 ''FIELD_NOT_NULLABLE'')
      | Some (Some ids) \<Rightarrow> replace_attachments r ids (flush db))"

definition attachment_ids_of :: "'a core_db_scheme \<Rightarrow> report \<Rightarrow> ident list" where
  "attachment_ids_of db r =
     sort (map at_id (filter (\<lambda>a. at_report_id a = Some (rp_id r)) (db_attachments db)))"

definition patch_query :: "incident \<Rightarrow> report_patch \<Rightarrow> report \<Rightarrow> 'a core_db_scheme \<Rightarrow> refinement_query" where
  "patch_query inc p r db =
     (let reuse = (rp_ai_refinement_id r \<noteq> None \<and> pt_ai_refinement_id p = None \<and> \<not> touches_context p) in
      \<lparr>rf_incident_id = inc_id inc, rf_category = rp_category r, rf_content = rp_content_original r,
       rf_location_text = rp_location_text r, rf_attachment_ids = attachment_ids_of db r,
       rf_report_id = Some (rp_id r), rf_report_revision = Some (pt_revision p),
       rf_bound_report_id = (if reuse then Some (rp_id r) else None), rf_use_stored = reuse\<rparr>)"

definition patch_report ::
    "report_settings \<Rightarrow> call \<Rightarrow> ident \<Rightarrow> report_patch \<Rightarrow> 'a full_db_scheme
      \<Rightarrow> api_error + json \<times> 'a full_db_scheme" where
  "patch_report S c i p db0 =
     (let e = rc_env c; a = rc_actor c in
      if \<not> is_resident a then Inl resident_required
      else and_then (open_report c i (pt_revision p) db0)
       (\<lambda>(r0, inc).
        if patch_is_empty p then Inl (ApiError 422 ''NO_CHANGES'')
        else if patch_nulls p then Inl (ApiError 422 ''FIELD_NOT_NULLABLE'')
        else and_then (patched_fields S e p r0)
         (\<lambda>r1. and_then (patched_contact S e inc p r1 db0)
         (\<lambda>(r2, db1). and_then (patched_attachments p r2 db1)
         (\<lambda>(r3, db2). and_then (validate_report_refinement S a (rp_ai_refinement_id r3)
               (patch_query inc p r3 db2) (flush db2))
         (\<lambda>refinement. let r = advanced e (prioritized refinement r3);
               db3 = announce_change S c inc ''report.updated'' r
                 (log_change S c inc (codes ''resident_update'') ''report.updated'' r
                   (put_report r (flush db2))) in
            and_then (if touches_observation p
                then process_report_observation (rs_observing S) e inc r (Some a) (rc_request_id c) db3
                else Inr db3)
              (\<lambda>db4. Inr (report_response S c r db4, db4))))))))"

section \<open>Deleting\<close>

definition tombstone :: "env \<Rightarrow> report \<Rightarrow> json" where
  "tombstone e r = JObj [(''report_id'', JStr (rp_id r)), (''revision'', JInt (rp_revision r)),
     (''deleted_at'', JInt (now e))]"

text \<open>What the history keeps of a report: a deleted one with the time of its deletion.\<close>

definition history_state :: "report_settings \<Rightarrow> report \<Rightarrow> json" where
  "history_state S r =
     (case rp_deleted_at r of
        None \<Rightarrow> report_state (rs_real S) r
      | Some t \<Rightarrow> json_set (report_state (rs_real S) r) ''deleted_at'' (JInt t))"

definition delete_report ::
    "report_settings \<Rightarrow> call \<Rightarrow> ident \<Rightarrow> report_delete \<Rightarrow> 'a full_db_scheme
      \<Rightarrow> api_error + json \<times> 'a full_db_scheme" where
  "delete_report S c i p db0 =
     (let e = rc_env c; a = rc_actor c in
      if \<not> is_resident a then Inl resident_required
      else and_then (get_report db0 i) (\<lambda>r0. and_then (assert_report_access a r0 True)
       (\<lambda>_. if rp_is_directed_answer r0 then Inl not_found
        else and_then (incident_for_report db0 r0) (\<lambda>inc. and_then (assert_incident_access a inc (rc_header c))
       (\<lambda>_. if rp_revision r0 \<noteq> dq_revision p then Inl revision_conflict
        else
         (let r = (advanced e r0)\<lparr>rp_deleted_at := Some (now e)\<rparr> in
          and_then (deactivate_report_observation (rs_observing S) e inc r (Some a) (rc_request_id c)
              ''source_report_deleted'' (put_report r db0))
            (\<lambda>db1. Inr (success (tombstone e r) (rc_request_id c) [],
               emit_report_event e inc ''report.deleted'' r (tombstone e r)
                (record_audit e (Some a) (Some (inc_id inc)) ''report.deleted'' ''report''
                  (Some (rp_id r)) (rc_request_id c)
                 (upsert_report_map_feature e r
                  (add_revision S e a (codes ''resident_deleted'') (history_state S r) r db1)))))))))))"

section \<open>Status\<close>

definition allowed_status_transitions :: "(string \<times> string list) list" where
  "allowed_status_transitions =
     [(''new'', [''acknowledged'', ''invalid'']), (''acknowledged'', [''in_progress'', ''invalid'']),
      (''in_progress'', [''resolved'', ''invalid'']), (''resolved'', []),
      (''invalid'', [''acknowledged''])]"

definition status_after :: "string \<Rightarrow> string list" where
  "status_after s = (case map_of allowed_status_transitions s of None \<Rightarrow> [] | Some ts \<Rightarrow> ts)"

definition operator_required :: "actor \<Rightarrow> bool" where
  "operator_required a \<longleftrightarrow> ac_role a \<notin> {''operator'', ''admin''}"

text \<open>What a change of status does to the observation of the report.\<close>

definition follow_status ::
    "report_settings \<Rightarrow> call \<Rightarrow> incident \<Rightarrow> string \<Rightarrow> report \<Rightarrow> 'a full_db_scheme
      \<Rightarrow> api_error + 'a full_db_scheme" where
  "follow_status S c inc previous r db =
     (if rp_status r = ''invalid''
      then deactivate_report_observation (rs_observing S) (rc_env c) inc r (Some (rc_actor c))
             (rc_request_id c) ''source_report_invalid'' db
      else if previous = ''invalid''
      then process_report_observation (rs_observing S) (rc_env c) inc r (Some (rc_actor c))
             (rc_request_id c) db
      else Inr db)"

definition patch_report_status ::
    "report_settings \<Rightarrow> call \<Rightarrow> ident \<Rightarrow> report_status_patch \<Rightarrow> 'a full_db_scheme
      \<Rightarrow> api_error + json \<times> 'a full_db_scheme" where
  "patch_report_status S c i p db0 =
     (let e = rc_env c; a = rc_actor c in
      if operator_required a then Inl (ApiError 403 ''FORBIDDEN'')
      else and_then (open_report c i (sq_revision p) db0)
       (\<lambda>(r0, inc).
        if sq_status p = rp_status r0 then Inl (ApiError 422 ''NO_CHANGES'')
        else if rp_status r0 = ''invalid'' \<and> sq_status p = ''acknowledged'' \<and> ac_role a \<noteq> ''admin''
        then Inl (ApiError 403 ''ADMIN_REQUIRED'')
        else if sq_status p \<notin> set (status_after (rp_status r0))
        then Inl (ApiError 409 ''INVALID_STATUS_TRANSITION'')
        else
         (let r = (advanced e r0)\<lparr>rp_status := sq_status p\<rparr> in
          and_then (follow_status S c inc (rp_status r0) r (put_report r db0))
            (\<lambda>db1. Inr (announce_and_notify S c inc ''report.status_changed'' status_title status_body r
               (log_change S c inc (reason_or (sq_note p) ''status_update'') ''report.status_updated'' r db1))))))"

section \<open>Priority\<close>

definition priority_query :: "incident \<Rightarrow> report \<Rightarrow> 'a core_db_scheme \<Rightarrow> refinement_query" where
  "priority_query inc r db =
     \<lparr>rf_incident_id = inc_id inc, rf_category = rp_category r, rf_content = rp_content_original r,
      rf_location_text = rp_location_text r, rf_attachment_ids = attachment_ids_of db r,
      rf_report_id = None, rf_report_revision = None, rf_bound_report_id = Some (rp_id r),
      rf_use_stored = True\<rparr>"

definition patch_report_priority ::
    "report_settings \<Rightarrow> call \<Rightarrow> ident \<Rightarrow> report_priority_patch \<Rightarrow> 'a full_db_scheme
      \<Rightarrow> api_error + json \<times> 'a full_db_scheme" where
  "patch_report_priority S c i p db0 =
     (let e = rc_env c; a = rc_actor c in
      if operator_required a then Inl (ApiError 403 ''FORBIDDEN'')
      else and_then (open_report c i (pq_revision p) db0)
       (\<lambda>(r0, inc).
        if rp_is_urgent r0 \<and> pq_priority p \<noteq> None \<and> pq_priority p \<noteq> Some High
        then Inl (ApiError 422 ''URGENT_PRIORITY_CANNOT_BE_DOWNGRADED'')
        else
         (let r1 = r0\<lparr>rp_manual_priority := map_option priority_name (pq_priority p)\<rparr> in
          and_then (validate_report_refinement S a (rp_ai_refinement_id r1)
              (priority_query inc r1 db0) (flush db0))
            (\<lambda>refinement. let r = advanced e (prioritized refinement r1) in
              Inr (announce_and_notify S c inc ''report.priority_updated'' priority_title priority_body r
               (log_change S c inc (reason_or (pq_note p) ''manual_priority'') ''report.priority_updated'' r
                 (put_report r (flush db0))))))))"

end
