(* ===== verification/ObservationLaws.thy ===== *)
theory ObservationLaws
  imports Observations
begin

text \<open>
  What the operations of \<open>services/report_observations.py\<close> keep, and what they establish: the
  tables each one leaves alone, the state of a conflict case once its evidence was looked at
  again, and the state of a report's observation once it was withdrawn.
\<close>

section \<open>What each operation leaves alone\<close>

text \<open>The tables of the report, and with them the evidence, the fragments and the jobs.\<close>

definition report_part ::
    "'a full_db_scheme \<Rightarrow> report list \<times> report_revision list \<times> attachment list
      \<times> reporter_contact list \<times> idem_row list" where
  "report_part db = (db_reports db, db_report_revisions db, db_attachments db, db_contacts db,
     db_idempotency db)"

definition base_part ::
    "'a full_db_scheme \<Rightarrow> fragment list \<times> evidence list \<times> job list
      \<times> (report list \<times> report_revision list \<times> attachment list \<times> reporter_contact list
        \<times> idem_row list)" where
  "base_part db = (db_fragments db, db_evidence db, db_jobs db, report_part db)"

definition observed_part where
  "observed_part db = (base_part db, db_cases db, db_blind_spots db)"

lemma emit_frame [simp]: "observed_part (snd (emit_event e i em db)) = observed_part db"
  by (simp add: observed_part_def base_part_def report_part_def emit_event_def store_emit_def
      split: option.splits)

lemma observed_frames [simp]:
  "observed_part (flush db) = observed_part db"
  "observed_part (record_audit e a ai ac rty rid2 rq db) = observed_part db"
  "observed_part (announce e i rid et rt res rv pl db) = observed_part db"
  "observed_part (mark_analyses_stale e c rs db) = observed_part db"
  "observed_part (hide_map_feature i k rf rv st db) = observed_part db"
  "observed_part (hide_conflict_map_feature c db) = observed_part db"
  "observed_part (hide_blind_spot_map_feature b db) = observed_part db"
  by (simp_all add: announce_def, simp_all add: observed_part_def base_part_def report_part_def
      flush_def record_audit_def mark_analyses_stale_def hide_conflict_map_feature_def
      hide_blind_spot_map_feature_def hide_map_feature_def split: option.splits)

lemma review_frame [simp]: "observed_part (snd (mark_fact_under_review e c rs db)) = observed_part db"
  by (simp add: observed_part_def base_part_def report_part_def flush_def mark_fact_under_review_def
      publish_version_def Let_def split: option.splits)

lemma upsert_frame: "upsert_map_feature e s db = Inr db' \<Longrightarrow> observed_part db' = observed_part db"
  by (auto simp: observed_part_def base_part_def report_part_def upsert_map_feature_def
      split: sum.splits option.splits)

lemma upserts_frame:
  "upsert_fragment_map_feature e f db = Inr db' \<Longrightarrow> observed_part db' = observed_part db"
  "upsert_conflict_map_feature e c db = Inr db' \<Longrightarrow> observed_part db' = observed_part db"
  "upsert_blind_spot_map_feature e b db = Inr db' \<Longrightarrow> observed_part db' = observed_part db"
  by (auto simp: upsert_fragment_map_feature_def upsert_conflict_map_feature_def
      upsert_blind_spot_map_feature_def Let_def dest: upsert_frame split: if_splits)

lemma observed_parts:
  assumes "observed_part db' = observed_part db"
  shows "base_part db' = base_part db" "db_cases db' = db_cases db"
    "db_blind_spots db' = db_blind_spots db" "report_part db' = report_part db"
    "db_fragments db' = db_fragments db" "db_evidence db' = db_evidence db" "db_jobs db' = db_jobs db"
  using assms by (simp_all add: observed_part_def base_part_def)

lemma put_frames [simp]:
  "base_part (put_case c db) = base_part db" "db_blind_spots (put_case c db) = db_blind_spots db"
  "base_part (put_blind_spot b db) = base_part db" "db_cases (put_blind_spot b db) = db_cases db"
  "report_part (put_fragment f db) = report_part db" "db_cases (put_fragment f db) = db_cases db"
  "db_evidence (put_fragment f db) = db_evidence db" "db_jobs (put_fragment f db) = db_jobs db"
  "db_blind_spots (put_fragment f db) = db_blind_spots db"
  by (simp_all add: base_part_def report_part_def put_case_def put_blind_spot_def put_fragment_def)

lemma and_then_Inr: "and_then m f = Inr y \<longleftrightarrow> (\<exists>x. m = Inr x \<and> f x = Inr y)"
  by (cases m) (simp_all add: and_then_def)

lemma and_then_InrE:
  assumes "and_then m f = Inr y" obtains x where "m = Inr x" "f x = Inr y"
  using assms by (auto simp: and_then_Inr)

lemma each_kept:
  assumes "each f xs s = Inr t" "\<And>x s t. x \<in> set xs \<Longrightarrow> f x s = Inr t \<Longrightarrow> P s \<Longrightarrow> P t" "P s"
  shows "P t"
  using assms
proof (induction xs arbitrary: s)
  case Nil
  then show ?case by simp
next
  case (Cons x xs)
  then obtain s' where s': "f x s = Inr s'" "each f xs s' = Inr t" by (auto simp: and_then_Inr)
  have "P s'" using Cons.prems(2) [of x s s'] s'(1) Cons.prems(3) by simp
  show ?case
  proof (rule Cons.IH [OF s'(2) _ \<open>P s'\<close>])
    fix y u v assume "y \<in> set xs" "f y u = Inr v" "P u"
    then show "P v" using Cons.prems(2) [of y u v] by simp
  qed
qed

text \<open>\<open>each\<close> keeps a projection its body keeps.\<close>

lemma each_frame:
  assumes "each f xs s = Inr t" "\<And>x s t. f x s = Inr t \<Longrightarrow> g t = g s" shows "g t = g s"
  by (rule each_kept [OF assms(1), of "\<lambda>u. g u = g s"]) (use assms(2) in simp_all)

section \<open>Blind spots leave the rest alone\<close>

definition case_part where
  "case_part db = (base_part db, db_cases db)"

lemma case_part_of: "observed_part db' = observed_part db \<Longrightarrow> case_part db' = case_part db"
  by (simp add: observed_part_def case_part_def)

lemma case_part_frames [simp]:
  "case_part (flush db) = case_part db"
  "case_part (put_blind_spot b db) = case_part db"
  "case_part (announce e i rid et rt res rv pl db) = case_part db"
  "case_part (record_audit e a ai ac rty rid2 rq db) = case_part db"
  "case_part (hide_blind_spot_map_feature b db) = case_part db"
proof -
  show "case_part (put_blind_spot b db) = case_part db" by (simp add: case_part_def)
qed (rule case_part_of; simp)+

lemma keep_blind_spot_frame: "keep_blind_spot e b db = Inr db' \<Longrightarrow> case_part db' = case_part db"
  unfolding keep_blind_spot_def Let_def by (drule upserts_frame(3), drule case_part_of) simp

lemma resolve_blind_spot_frame:
  "resolve_blind_spot e i a rid f c b db = Inr db' \<Longrightarrow> case_part db' = case_part db"
  unfolding resolve_blind_spot_def Let_def and_then_Inr
  by (auto dest!: upserts_frame(3) case_part_of)

lemma resolve_automatic_frame:
  "resolve_automatic_blind_spots K e i a rid f c db = Inr db' \<Longrightarrow> case_part db' = case_part db"
  unfolding resolve_automatic_blind_spots_def
  by (auto simp: and_then_Inr split: option.splits if_splits
      dest!: each_frame [where g = case_part] intro: resolve_blind_spot_frame)

lemma lose_resolver_frame:
  "lose_resolver e i rid rs near b db = Inr (Done db') \<Longrightarrow> case_part db' = case_part db"
  unfolding lose_resolver_def
  by (auto simp: and_then_Inr map_sum_Inr split: option.splits if_splits
      dest!: keep_blind_spot_frame)

lemma lose_origin_frame:
  "lose_origin K e i a rid rs f near b db = Inr db' \<Longrightarrow> case_part db' = case_part db"
  unfolding lose_origin_def close_blind_spot_def Let_def
  by (auto simp: and_then_Inr split: option.splits if_splits dest!: keep_blind_spot_frame)

lemma deactivate_blind_spot_frame:
  assumes "deactivate_blind_spot K e i a rid rs f b db = Inr db'"
  shows "case_part db' = case_part db"
proof (cases "\<not> is_gap b \<or> (\<not> is_origin f b \<and> \<not> is_resolver f b)")
  case True
  then show ?thesis using assms by (simp add: deactivate_blind_spot_def)
next
  case False
  then obtain eq where eq: "(if eq then Inr db else and_then (active_nearby K i f b db)
      (\<lambda>near. and_then (if is_resolver f b \<and> bs_status b = ''resolved''
            then lose_resolver e i rid rs near b (flush db) else Inr Further)
        (\<lambda>out. case out of Done d \<Rightarrow> Inr d
          | Further \<Rightarrow> lose_origin K e i a rid rs f near b (flush db)))) = Inr db'"
    using assms unfolding deactivate_blind_spot_def if_not_P [OF False]
    by (elim and_then_InrE) (rule that)
  show ?thesis
  proof (cases eq)
    case True
    then show ?thesis using eq by simp
  next
    case False
    then obtain near out where "(if is_resolver f b \<and> bs_status b = ''resolved''
        then lose_resolver e i rid rs near b (flush db) else Inr Further) = Inr out"
      "(case out of Done d \<Rightarrow> Inr d
          | Further \<Rightarrow> lose_origin K e i a rid rs f near b (flush db)) = Inr db'"
      using eq by (auto simp: and_then_Inr)
    then show ?thesis
      by (cases out) (auto dest!: lose_resolver_frame lose_origin_frame split: if_splits)
  qed
qed

lemma deactivate_blind_spots_frame:
  "deactivate_automatic_blind_spots K e i a rid rs f db = Inr db' \<Longrightarrow> case_part db' = case_part db"
  unfolding deactivate_automatic_blind_spots_def
  by (drule each_frame [where g = case_part]) (auto intro: deactivate_blind_spot_frame)

lemma open_blind_spot_frame:
  "open_blind_spot K e i f r g d db = Inr (res, db') \<Longrightarrow> case_part db' = case_part db"
proof -
  have pub: "publish_blind_spot e i t b u = Inr (x, v) \<Longrightarrow> case_part v = case_part u" for t b u x v
    unfolding publish_blind_spot_def and_then_Inr by (auto dest!: upserts_frame(3) case_part_of)
  assume "open_blind_spot K e i f r g d db = Inr (res, db')"
  then show ?thesis unfolding open_blind_spot_def Let_def
    by (auto simp: and_then_Inr split: option.splits if_splits dest!: pub)
      (auto simp: case_part_def base_part_def report_part_def)
qed

lemma detection_run_frame:
  "run_report_blind_spot_detection K e i fid n d g db = Inr (res, db') \<Longrightarrow>
   case_part db' = case_part db"
  unfolding run_report_blind_spot_detection_def Let_def
  by (auto simp: and_then_Inr split: option.splits if_splits dest!: open_blind_spot_frame)

section \<open>Cases left without ground\<close>

text \<open>
  What keeps a case open: current evidence of another kind, or two sources whose current
  fragments contradict each other.
\<close>

definition grounded :: "'a core_db_scheme \<Rightarrow> ident \<Rightarrow> bool" where
  "grounded db cid \<longleftrightarrow> list_ex (\<lambda>v. ce_kind v \<noteq> ''fragment'') (current_evidence db cid)
     \<or> has_cross_source_contradiction (current_evidence db cid)"

lemma grounded_cong: "db_evidence db' = db_evidence db \<Longrightarrow> grounded db' cid = grounded db cid"
  by (simp add: grounded_def current_evidence_def)

definition settled_or_grounded :: "'a core_db_scheme \<Rightarrow> ident \<Rightarrow> bool" where
  "settled_or_grounded db cid \<longleftrightarrow>
     (case get_case_row db cid of None \<Rightarrow> True | Some c \<Rightarrow> case_settled c \<or> grounded db cid)"

lemma get_put_case:
  "get_case_row (put_case c db) cid =
     (if cid = cc_id c then map_option (\<lambda>_. c) (get_case_row db cid) else get_case_row db cid)"
proof -
  have "find (\<lambda>x. cc_id x = cid) (modify_where (\<lambda>x. cc_id x = cc_id c) (\<lambda>_. c) cs) =
      (if cid = cc_id c then map_option (\<lambda>_. c) (find (\<lambda>x. cc_id x = cid) cs)
       else find (\<lambda>x. cc_id x = cid) cs)" for cs
    by (induction cs) auto
  then show ?thesis by (simp add: get_case_row_def put_case_def)
qed

lemma get_case_row_id: "get_case_row db cid = Some c \<Longrightarrow> cc_id c = cid"
  by (auto simp: get_case_row_def dest: find_SomeD)

text \<open>\<open>withdraw_from_case\<close> changes the one case and no evidence.\<close>

lemma withdraw_from_case_frame:
  assumes "withdraw_from_case e i a rid ids n c0 db = (c, db')"
  shows "cc_id c = cc_id c0 \<and> cc_status c = cc_status c0 \<and> base_part db' = base_part db
    \<and> db_cases db' = db_cases (put_case c db) \<and> db_blind_spots db' = db_blind_spots db"
proof -
  let ?c = "if cc_revision c0 = n then c0\<lparr>cc_revision := cc_revision c0 + 1\<rparr> else c0"
  have "c = ?c \<and> observed_part db' = observed_part (put_case ?c db)"
    using assms unfolding withdraw_from_case_def Let_def
    by (auto split: option.splits if_splits prod.splits
        dest!: arg_cong [of "mark_fact_under_review _ _ _ _" _ "\<lambda>p. observed_part (snd p)"])
  then show ?thesis by (auto simp: observed_part_def)
qed

text \<open>Everything but the fragments, and everything but the fragments and the cases.\<close>

definition rest_part where
  "rest_part db = (db_evidence db, db_jobs db, report_part db, db_blind_spots db)"

lemma rest_part_of:
  "observed_part db' = observed_part db \<Longrightarrow> rest_part db' = rest_part db"
  by (simp add: observed_part_def base_part_def rest_part_def)

lemma rest_frames [simp]:
  "rest_part (put_fragment f db) = rest_part db" "rest_part (put_case c db) = rest_part db"
  by (simp_all add: rest_part_def put_case_def put_fragment_def report_part_def)

definition all_withdrawn :: "ident \<Rightarrow> 'a core_db_scheme \<Rightarrow> bool" where
  "all_withdrawn fid db \<longleftrightarrow>
     list_all (\<lambda>f. fg_id f = fid \<longrightarrow> fg_status f = ''withdrawn'') (db_fragments db)"

lemma all_withdrawn_cong: "db_fragments db' = db_fragments db \<Longrightarrow> all_withdrawn fid db' = all_withdrawn fid db"
  by (simp add: all_withdrawn_def)

lemma all_withdrawn_put:
  "all_withdrawn fid db \<Longrightarrow> fg_id f \<noteq> fid \<Longrightarrow> all_withdrawn fid (put_fragment f db)"
  by (auto simp: all_withdrawn_def put_fragment_def list_all_iff in_modify_where_iff split: if_splits)

lemma release_fragment_frame:
  assumes "release_fragment e f db = Inr db'"
  shows "rest_part db' = rest_part db \<and> db_cases db' = db_cases db
    \<and> (all_withdrawn fid db \<longrightarrow> (fg_id f = fid \<longrightarrow> fg_status f = ''withdrawn'') \<longrightarrow> all_withdrawn fid db')"
proof (cases "\<not> actively_cited db f \<and> fg_status f = ''conflict''")
  case False
  have "db' = db" using assms unfolding release_fragment_def if_not_P [OF False] by simp
  then show ?thesis by simp
next
  case True
  let ?f = "f\<lparr>fg_status := ''normal'', fg_revision := fg_revision f + 1\<rparr>"
  have o: "observed_part db' = observed_part (put_fragment ?f db)"
    using assms True by (simp add: release_fragment_def Let_def upserts_frame(1))
  then have "rest_part db' = rest_part db" "db_cases db' = db_cases db"
    using rest_part_of [OF o] observed_parts [OF o] by simp_all
  moreover have "all_withdrawn fid db'"
    if "all_withdrawn fid db" "fg_id f = fid \<longrightarrow> fg_status f = ''withdrawn''"
    using all_withdrawn_cong [OF observed_parts(5) [OF o]] all_withdrawn_put [of fid db ?f] that True by auto
  ultimately show ?thesis by blast
qed

lemma release_all_frame:
  assumes "each (release_fragment e) fs db = Inr db'"
  shows "rest_part db' = rest_part db \<and> db_cases db' = db_cases db"
  using each_frame [OF assms, of rest_part] each_frame [OF assms, of db_cases] release_fragment_frame by blast

lemma release_all_withdrawn:
  fixes db db' :: "'a full_db_scheme"
  assumes "each (release_fragment e) (filter P (db_fragments db)) db = Inr db'" "all_withdrawn fid db"
  shows "all_withdrawn fid db'"
proof (rule each_kept [where P = "all_withdrawn fid", OF assms(1) _ assms(2)])
  fix f and u v :: "'a full_db_scheme"
  assume "f \<in> set (filter P (db_fragments db))" "release_fragment e f u = Inr v" "all_withdrawn fid u"
  moreover from this(1) have "fg_id f = fid \<longrightarrow> fg_status f = ''withdrawn''"
    using assms(2) by (auto simp: all_withdrawn_def list_all_iff)
  ultimately show "all_withdrawn fid v" using release_fragment_frame by blast
qed

lemma auto_resolve_case_frame:
  assumes "auto_resolve_case e i a rid w c0 db = Inr db'"
  shows "rest_part db' = rest_part db \<and> db_cases db' = db_cases (put_case (auto_resolved e w c0) db)
    \<and> (all_withdrawn fid db \<longrightarrow> all_withdrawn fid db')"
proof -
  let ?c = "auto_resolved e w c0"
  let ?db2 = "if w then put_case ?c db
     else mark_analyses_stale e ?c ''current_conflicting_evidence_withdrawn'' (put_case ?c db)"
  let ?db3 = "hide_conflict_map_feature ?c (flush ?db2)"
  have o3: "observed_part ?db3 = observed_part (put_case ?c db)" by simp
  obtain P db4 where r: "each (release_fragment e) (filter P (db_fragments ?db3)) ?db3 = Inr db4"
    and o: "observed_part db' = observed_part db4"
    using assms unfolding auto_resolve_case_def Let_def by (elim and_then_InrE) fastforce
  have p: "db_fragments (put_case ?c db) = db_fragments db" by (simp add: put_case_def)
  have "all_withdrawn fid db'" if "all_withdrawn fid db"
    using that release_all_withdrawn [OF r, of fid] all_withdrawn_cong [OF observed_parts(5) [OF o], of fid]
      all_withdrawn_cong [OF observed_parts(5) [OF o3], of fid] all_withdrawn_cong [OF p, of fid] by blast
  moreover have "rest_part db' = rest_part db"
    using rest_part_of [OF o] release_all_frame [OF r] rest_part_of [OF o3] by simp
  moreover have "db_cases db' = db_cases (put_case ?c db)"
    using observed_parts(2) [OF o] release_all_frame [OF r] observed_parts(2) [OF o3] by simp
  ultimately show ?thesis by blast
qed

lemma get_case_cong: "db_cases db' = db_cases db \<Longrightarrow> get_case_row db' i = get_case_row db i"
  by (simp add: get_case_row_def)

text \<open>
  One case: evidence, jobs and reports stay, other cases stay, and this one ends settled or
  grounded.
\<close>

lemma reconcile_case_effect:
  assumes "reconcile_case e i a rid wb rv cid db = Inr db'"
  shows "rest_part db' = rest_part db \<and> (all_withdrawn fid db \<longrightarrow> all_withdrawn fid db')
    \<and> settled_or_grounded db' cid
    \<and> (\<forall>j. j \<noteq> cid \<longrightarrow> get_case_row db' j = get_case_row db j)"
proof (cases "get_case_row db cid")
  case None
  then show ?thesis using assms by (simp add: reconcile_case_def settled_or_grounded_def)
next
  case (Some c0)
  let ?w = "case map_of wb cid of None \<Rightarrow> [] | Some ids \<Rightarrow> ids"
  let ?n = "case map_of rv cid of None \<Rightarrow> cc_revision c0 | Some n \<Rightarrow> n"
  obtain c db1 where w: "(if ?w \<noteq> [] then withdraw_from_case e i a rid ?w ?n c0 db else (c0, db)) = (c, db1)"
    by fastforce
  have id0: "cc_id c0 = cid" using Some get_case_row_id by blast
  have wf: "cc_id c = cid" "base_part db1 = base_part db" "db_blind_spots db1 = db_blind_spots db"
    "get_case_row db1 cid = Some c" "\<And>j. j \<noteq> cid \<Longrightarrow> get_case_row db1 j = get_case_row db j"
  proof -
    have *: "cc_id c = cid \<and> base_part db1 = base_part db \<and> db_blind_spots db1 = db_blind_spots db
        \<and> get_case_row db1 cid = Some c \<and> (\<forall>j. j \<noteq> cid \<longrightarrow> get_case_row db1 j = get_case_row db j)"
    proof (cases "?w = []")
      case True
      then show ?thesis using w Some id0 by simp
    next
      case False
      then have "withdraw_from_case e i a rid ?w ?n c0 db = (c, db1)" using w by simp
      from withdraw_from_case_frame [OF this] id0
      have f: "cc_id c = cid" "base_part db1 = base_part db" "db_blind_spots db1 = db_blind_spots db"
        "db_cases db1 = db_cases (put_case c db)" by simp_all
      then have "get_case_row db1 j = get_case_row (put_case c db) j" for j by (rule_tac get_case_cong)
      then show ?thesis using f Some by (simp add: get_put_case)
    qed
    show "cc_id c = cid" "base_part db1 = base_part db" "db_blind_spots db1 = db_blind_spots db"
      "get_case_row db1 cid = Some c" "\<And>j. j \<noteq> cid \<Longrightarrow> get_case_row db1 j = get_case_row db j"
      using * by blast+
  qed
  have r1: "rest_part db1 = rest_part db" and w1: "all_withdrawn fid db1 = all_withdrawn fid db"
    using wf(2,3) by (simp_all add: base_part_def rest_part_def all_withdrawn_def)
  let ?db2 = "flush db1"
  have run: "(if list_ex (\<lambda>v. ce_kind v \<noteq> ''fragment'') (current_evidence db1 cid)
        \<or> has_cross_source_contradiction (current_evidence db1 cid)
      then upsert_conflict_map_feature e c ?db2
      else if case_settled c then Inr (hide_conflict_map_feature c ?db2)
      else auto_resolve_case e i a rid (?w \<noteq> []) c ?db2) = Inr db'"
    using assms w Some by (simp add: reconcile_case_def Let_def)
  show ?thesis
  proof (cases "grounded db1 cid \<or> case_settled c")
    case True
    then have o: "observed_part db' = observed_part db1"
      using run unfolding grounded_def by (auto split: if_splits dest!: upserts_frame(2))
    have "settled_or_grounded db' cid"
      using True wf(4) get_case_cong [OF observed_parts(2) [OF o]] grounded_cong [OF observed_parts(6) [OF o]]
      by (auto simp add: settled_or_grounded_def)
    then show ?thesis
      using rest_part_of [OF o] r1 all_withdrawn_cong [OF observed_parts(5) [OF o]] w1
        get_case_cong [OF observed_parts(2) [OF o]] wf(5) by metis
  next
    case False
    then have "auto_resolve_case e i a rid (?w \<noteq> []) c ?db2 = Inr db'"
      using run unfolding grounded_def by simp
    note f = auto_resolve_case_frame [OF this, of fid]
    let ?c = "auto_resolved e (?w \<noteq> []) c"
    have "observed_part ?db2 = observed_part db1" by simp
    note o2 = observed_parts [OF this] and o2r = rest_part_of [OF this]
    have id: "cc_id ?c = cid" "case_settled ?c" using wf(1) by (simp_all add: auto_resolved_def case_settled_def)
    have "get_case_row db' j = get_case_row (put_case ?c ?db2) j" for j
      by (rule get_case_cong) (use f in simp)
    then have g: "get_case_row db' j = (if j = cid then Some ?c else get_case_row db j)" for j
      using get_case_cong [OF o2(2), of j] wf(4) wf(5) [of j] id(1) by (auto simp: get_put_case)
    then show ?thesis using f o2r r1 w1 all_withdrawn_cong [OF o2(5)] id(2)
      by (simp add: settled_or_grounded_def)
  qed
qed

lemma first_mentions_set [simp]: "set (first_mentions xs) = set xs"
  by (induction xs rule: first_mentions.induct) auto

lemma settled_or_grounded_cong:
  "get_case_row db' cid = get_case_row db cid \<Longrightarrow> rest_part db' = rest_part db \<Longrightarrow>
   settled_or_grounded db' cid = settled_or_grounded db cid"
  using grounded_cong [of db' db cid] by (simp add: settled_or_grounded_def rest_part_def split: option.split)

lemma reconcile_each:
  assumes "each (reconcile_case e i a rid wb rv) cids db = Inr db'"
  shows "rest_part db' = rest_part db \<and> (all_withdrawn fid db \<longrightarrow> all_withdrawn fid db')
    \<and> (\<forall>cid. cid \<in> set cids \<or> settled_or_grounded db cid \<longrightarrow> settled_or_grounded db' cid)"
  using assms
proof (induction cids arbitrary: db)
  case Nil
  then show ?case by simp
next
  case (Cons c cids)
  then obtain db1 where run: "reconcile_case e i a rid wb rv c db = Inr db1"
    "each (reconcile_case e i a rid wb rv) cids db1 = Inr db'" by (auto simp: and_then_Inr)
  note s = reconcile_case_effect [OF run(1), of fid] and t = Cons.IH [OF run(2)]
  have here: "settled_or_grounded db1 cid" if "cid = c \<or> settled_or_grounded db cid" for cid
  proof (cases "cid = c")
    case True
    then show ?thesis using s by simp
  next
    case False
    then have "get_case_row db1 cid = get_case_row db cid" "rest_part db1 = rest_part db" using s by simp_all
    from settled_or_grounded_cong [OF this] show ?thesis using that False by simp
  qed
  have "rest_part db' = rest_part db" using s t by simp
  moreover have "all_withdrawn fid db \<longrightarrow> all_withdrawn fid db'" using s t by simp
  moreover have "settled_or_grounded db' cid" if "cid \<in> set (c # cids) \<or> settled_or_grounded db cid" for cid
    using t here [of cid] that by auto
  ultimately show ?case by simp
qed

lemma report_part_of_rest: "rest_part db' = rest_part db \<Longrightarrow> report_part db' = report_part db"
  by (simp add: rest_part_def)

lemma report_part_of_case: "case_part db' = case_part db \<Longrightarrow> report_part db' = report_part db"
  by (simp add: case_part_def base_part_def)

text \<open>
  C20. Whatever evidence was withdrawn, every conflict case the reconciliation is asked about ends
  settled, or still has the ground it needs: evidence that is not a fragment, or two sources
  that contradict each other.
\<close>

theorem reconciled_cases_settled_or_grounded:
  fixes db db' :: "'a full_db_scheme"
  assumes "reconcile_conflicts e iid actr rid withdrawn_by revisions cids db = Inr db'"
    "cid \<in> set cids"
  shows "settled_or_grounded db' cid"
  using reconcile_each [OF assms(1) [unfolded reconcile_conflicts_def]] assms(2) by simp

section \<open>The withdrawn observation\<close>

definition uncited :: "ident \<Rightarrow> 'a core_db_scheme \<Rightarrow> bool" where
  "uncited fid db \<longleftrightarrow>
     list_all (\<lambda>v. \<not> (ce_kind v = ''fragment'' \<and> ce_source_id v = fid \<and> ce_is_current v)) (db_evidence db)"

definition undetected :: "ident \<Rightarrow> 'a full_db_scheme \<Rightarrow> bool" where
  "undetected fid db \<longleftrightarrow>
     list_all (\<lambda>j. \<not> (jb_type j = ''blind_spot.detect''
        \<and> jget (jb_payload j) ''fragment_id'' = JStr fid
        \<and> jb_status j \<in> set [''queued'', ''retry'', ''running''])) (db_jobs db)"

lemma list_all_modify_where:
  "list_all Q (modify_where P g rs) = list_all (\<lambda>r. Q (if P r then g r else r)) rs"
  by (induction rs) simp_all

lemma uncited_cong: "db_evidence db' = db_evidence db \<Longrightarrow> uncited fid db' = uncited fid db"
  by (simp add: uncited_def)

lemma undetected_cong: "db_jobs db' = db_jobs db \<Longrightarrow> undetected fid db' = undetected fid db"
  by (simp add: undetected_def)

lemma flush_tables [simp]:
  fixes db :: "'a full_db_scheme"
  shows "db_evidence (flush db) = db_evidence db" "db_jobs (flush db) = db_jobs db"
    "db_fragments (flush db) = db_fragments db" "db_cases (flush db) = db_cases db"
    "db_blind_spots (flush db) = db_blind_spots db" "report_part (flush db) = report_part db"
  using observed_parts [of "flush db" db] by simp_all

lemma invalidate_frame:
  fixes db :: "'a full_db_scheme"
  assumes "invalidate_fragment_evidence f db = ((cases, wb), db')"
  shows "uncited (fg_id f) db' \<and> db_fragments db' = db_fragments db \<and> db_jobs db' = db_jobs db
    \<and> db_cases db' = db_cases db \<and> db_blind_spots db' = db_blind_spots db
    \<and> report_part db' = report_part db
    \<and> cases = filter (\<lambda>c. \<exists>v\<in>set (db_evidence db). cites f v \<and> ce_conflict_id v = cc_id c) (db_cases db)"
proof -
  have d: "db' = (flush db)\<lparr>db_evidence := modify_where (cites f) (\<lambda>v. v\<lparr>ce_is_current := False\<rparr>) (db_evidence db)\<rparr>"
    and c: "cases = filter (\<lambda>c. cc_id c \<in> ce_conflict_id ` set (filter (cites f) (db_evidence db))) (db_cases db)"
    using assms by (simp_all add: invalidate_fragment_evidence_def Let_def)
  have "uncited (fg_id f) db'"
    unfolding d uncited_def by (simp add: list_all_modify_where cites_def) (simp add: list_all_iff)
  moreover have "report_part db' = report_part db"
    using flush_tables(6) [of db] by (simp add: d report_part_def)
  moreover have "cases = filter (\<lambda>c. \<exists>v\<in>set (db_evidence db). cites f v \<and> ce_conflict_id v = cc_id c) (db_cases db)"
    unfolding c by (rule filter_cong) force+
  ultimately show ?thesis by (simp add: d)
qed

lemma cancel_frame:
  fixes db :: "'a full_db_scheme"
  shows "db_fragments (cancel_blind_spot_jobs e f n db) = db_fragments db"
    "db_evidence (cancel_blind_spot_jobs e f n db) = db_evidence db"
    "db_cases (cancel_blind_spot_jobs e f n db) = db_cases db"
    "db_blind_spots (cancel_blind_spot_jobs e f n db) = db_blind_spots db"
    "report_part (cancel_blind_spot_jobs e f n db) = report_part db"
  using flush_tables [of db] by (simp_all add: cancel_blind_spot_jobs_def report_part_def)

lemma cancel_undetected: "undetected (fg_id f) (cancel_blind_spot_jobs e f None db)"
  unfolding undetected_def cancel_blind_spot_jobs_def
  by (simp add: list_all_modify_where cancel_row_def detects_def) (auto simp: list_all_iff)

text \<open>What the withdrawal of a report's observation does, as one lemma for the theorems below.\<close>

lemma deactivated_effect:
  fixes db db' :: "'a full_db_scheme"
  assumes run: "deactivate_report_observation K e inc r actr rid reason db = Inr db'"
    and f: "find_report_fragment db (inc_id inc) (rp_id r) = Some f"
  shows "all_withdrawn (fg_id f) db' \<and> uncited (fg_id f) db' \<and> undetected (fg_id f) db'
    \<and> report_part db' = report_part db
    \<and> (\<forall>v\<in>set (db_evidence db). cites f v \<longrightarrow> settled_or_grounded db' (ce_conflict_id v))"
proof -
  have f0: "find_report_fragment (flush db) (inc_id inc) (rp_id r) = Some f"
    using f by (simp add: find_report_fragment_def)
  obtain cases wb db1 where inv: "invalidate_fragment_evidence f (flush db) = ((cases, wb), db1)"
    by (metis prod.exhaust)
  let ?f = "if fg_status f = ''withdrawn'' then f
    else f\<lparr>fg_status := ''withdrawn'', fg_revision := fg_revision f + 1\<rparr>"
  let ?db2 = "cancel_blind_spot_jobs e f None db1"
  obtain db3 db4 db5 where
    up: "upsert_fragment_map_feature e ?f (flush (put_fragment ?f ?db2)) = Inr db3" and
    blind: "deactivate_automatic_blind_spots K e (inc_id inc) actr rid reason ?f db3 = Inr db4" and
    rec: "reconcile_conflicts e (inc_id inc) actr rid wb (map (\<lambda>c. (cc_id c, cc_revision c)) cases)
        (map cc_id cases) db4 = Inr db5" and
    last: "observed_part db' = observed_part db5"
    using run unfolding deactivate_report_observation_def Let_def f0 inv option.case prod.case
    by (elim and_then_InrE) fastforce
  note i = invalidate_frame [OF inv] and r = reconcile_each [OF rec [unfolded reconcile_conflicts_def], of "fg_id f"]
  note c = deactivate_blind_spots_frame [OF blind, unfolded case_part_def base_part_def]
  have u: "observed_part db3 = observed_part (put_fragment ?f ?db2)" using upserts_frame(1) [OF up] by simp
  have "all_withdrawn (fg_id f) (put_fragment ?f ?db2)"
    by (simp add: all_withdrawn_def put_fragment_def list_all_modify_where) (simp add: list_all_iff)
  then have w4: "all_withdrawn (fg_id f) db4"
    using all_withdrawn_cong [of db4 db3 "fg_id f"] all_withdrawn_cong [OF observed_parts(5) [OF u]] c by simp
  have parts4: "db_evidence db4 = db_evidence db1" "db_jobs db4 = db_jobs ?db2"
    "report_part db4 = report_part db" "db_cases db4 = db_cases db"
    using c observed_parts [OF u] cancel_frame [of e f None db1] i by simp_all
  have "uncited (fg_id f) db5" "undetected (fg_id f) db5" "report_part db5 = report_part db"
    using i r parts4 cancel_undetected [of f e db1] uncited_cong [of db5 db1 "fg_id f"]
      undetected_cong [of db5 ?db2 "fg_id f"] by (simp_all add: rest_part_def)
  moreover have "all_withdrawn (fg_id f) db5" using r w4 by blast
  moreover have "settled_or_grounded db5 (ce_conflict_id v)" if v: "v \<in> set (db_evidence db)" "cites f v" for v
  proof (cases "\<exists>x\<in>set (db_cases db). cc_id x = ce_conflict_id v")
    case True
    then obtain x where "x \<in> set (db_cases db)" "cc_id x = ce_conflict_id v" by blast
    then have "x \<in> set cases" "ce_conflict_id v = cc_id x" using i v by auto
    then have "ce_conflict_id v \<in> set (map cc_id cases)" by simp
    then show ?thesis using r by simp
  next
    case False
    then have "settled_or_grounded db4 (ce_conflict_id v)"
      using parts4(4) find_None_iff [of "\<lambda>c. cc_id c = ce_conflict_id v" "db_cases db4"]
      by (simp add: settled_or_grounded_def get_case_row_def)
    then show ?thesis using r by blast
  qed
  moreover have "settled_or_grounded db' cid = settled_or_grounded db5 cid" for cid
    using settled_or_grounded_cong [OF get_case_cong [OF observed_parts(2) [OF last]] rest_part_of [OF last]] .
  ultimately show ?thesis
    using all_withdrawn_cong [OF observed_parts(5) [OF last]] uncited_cong [OF observed_parts(6) [OF last]]
      undetected_cong [OF observed_parts(7) [OF last]] observed_parts(4) [OF last] by simp
qed

text \<open>What a withdrawn report still stands for: no fragment, no evidence, no job.\<close>

definition stands_for_nothing :: "ident \<Rightarrow> 'a full_db_scheme \<Rightarrow> bool" where
  "stands_for_nothing fid db \<longleftrightarrow> all_withdrawn fid db \<and> uncited fid db \<and> undetected fid db"

text \<open>
  Once a deleted or invalidated report's observation is withdrawn, its fragment has the status
  \<open>withdrawn\<close>, no current evidence of any case cites it, and no queued, retrying or running job
  looks for a blind spot on its account.
\<close>

theorem withdrawn_report_stands_for_nothing:
  fixes db db' :: "'a full_db_scheme"
  assumes "deactivate_report_observation K e inc r actr rid reason db = Inr db'"
    "find_report_fragment db (inc_id inc) (rp_id r) = Some f"
  shows "stands_for_nothing (fg_id f) db'"
  using deactivated_effect [OF assms] by (simp add: stands_for_nothing_def)

text \<open>
  Every conflict case that cited the withdrawn observation ends settled, or still rests on
  evidence that does not come from fragments, or on two sources that contradict each other.
\<close>

theorem withdrawn_report_settles_its_conflicts:
  fixes db db' :: "'a full_db_scheme"
  assumes "deactivate_report_observation K e inc r actr rid reason db = Inr db'"
    "find_report_fragment db (inc_id inc) (rp_id r) = Some f"
    "v \<in> set (db_evidence db)" "cites f v"
  shows "settled_or_grounded db' (ce_conflict_id v)"
  using deactivated_effect [OF assms(1,2)] assms(3,4) by blast

section \<open>Withdrawals that return\<close>

lemma each_returns:
  "(\<And>x s. x \<in> set xs \<Longrightarrow> \<exists>t. f x s = Inr t) \<Longrightarrow> \<exists>t. each f xs s = Inr t"
proof (induction xs arbitrary: s)
  case (Cons x xs)
  then obtain s' where "f x s = Inr s'" by (metis list.set_intros(1))
  moreover have "\<exists>t. each f xs s' = Inr t" using Cons by simp
  ultimately show ?case by (simp add: and_then_def)
qed simp

definition resident :: "fragment \<Rightarrow> bool" where
  "resident f \<longleftrightarrow> fg_source_type f = ''resident_report''"

lemma release_fragment_returns: "resident f \<Longrightarrow> \<exists>db'. release_fragment e f db = Inr db'"
  by (simp add: release_fragment_def upsert_fragment_map_feature_def resident_def Let_def)

text \<open>A case whose fragments all come from residents' reports can be settled.\<close>

lemma auto_resolve_case_returns:
  fixes db :: "'a full_db_scheme"
  assumes "list_all resident (db_fragments db)"
  shows "\<exists>db'. auto_resolve_case e i a rid w c db = Inr db'"
proof -
  let ?c = "auto_resolved e w c"
  let ?db3 = "hide_conflict_map_feature ?c (flush (if w then put_case ?c db
     else mark_analyses_stale e ?c ''current_conflicting_evidence_withdrawn'' (put_case ?c db)))"
  have "observed_part ?db3 = observed_part (put_case ?c db)" by simp
  from observed_parts(5) [OF this] have d: "db_fragments ?db3 = db_fragments db" by (simp add: put_case_def)
  have "\<exists>t. each (release_fragment e) (filter P (db_fragments ?db3)) ?db3 = Inr t" for P
    by (rule each_returns, rule release_fragment_returns) (use assms d in \<open>auto simp: list_all_iff\<close>)
  then show ?thesis unfolding auto_resolve_case_def Let_def and_then_def
    by (metis (no_types, lifting) sum.case(2))
qed

lemma reconcile_case_returns:
  fixes db :: "'a full_db_scheme"
  assumes "list_all resident (db_fragments db)" "\<not> grounded db cid"
  shows "\<exists>db'. reconcile_case e i a rid wb rv cid db = Inr db'"
proof (cases "get_case_row db cid")
  case None
  then show ?thesis by (simp add: reconcile_case_def)
next
  case (Some c0)
  let ?w = "case map_of wb cid of None \<Rightarrow> [] | Some ids \<Rightarrow> ids"
  let ?n = "case map_of rv cid of None \<Rightarrow> cc_revision c0 | Some n \<Rightarrow> n"
  obtain c db1 where w: "(if ?w \<noteq> [] then withdraw_from_case e i a rid ?w ?n c0 db else (c0, db)) = (c, db1)"
    by fastforce
  have "base_part db1 = base_part db"
    using w withdraw_from_case_frame [of e i a rid ?w ?n c0 db c db1] by (cases "?w = []") simp_all
  then have "\<not> grounded db1 cid" "list_all resident (db_fragments (flush db1))"
    using assms grounded_cong [of db1 db cid] by (simp_all add: base_part_def)
  then show ?thesis using w Some auto_resolve_case_returns [of "flush db1" e i a rid _ c]
    by (simp add: reconcile_case_def Let_def grounded_def)
qed

definition demo_disputed :: conflict_case where
  "demo_disputed = \<lparr>cc_id = ''c'', cc_incident_id = ''inc'', cc_alias = None, cc_fact_key = ''k'',
     cc_title = [], cc_topic = ''road'', cc_location_text = [], cc_latitude = None,
     cc_longitude = None, cc_coordinate_system = None, cc_status = ''open'', cc_severity = ''high'',
     cc_detected_at = 0, cc_resolved_at = None, cc_resolution = None, cc_resolved_by = None,
     cc_revision = 1, cc_created_at = 0\<rparr>"

definition demo_citation :: evidence where
  "demo_citation = \<lparr>ce_id = ''e'', ce_conflict_id = ''c'', ce_kind = ''fragment'', ce_source_id = ''f1'',
     ce_source_revision = 1, ce_source_cluster_id = None, ce_snapshot = JNull,
     ce_snapshot_sha256 = [], ce_is_current = True, ce_added_at = 0\<rparr>"

definition demo_dispute :: full_db where
  "demo_dispute = (demo_full_db demo_incident [demo_report] [] [])\<lparr>db_fragments := [demo_fragment],
     db_cases := [demo_disputed], db_evidence := [demo_citation]\<rparr>"

lemma demo_deactivation:
  "\<exists>db'. deactivate_report_observation demo_observing demo_env demo_incident demo_report None None
     ''report_deleted'' demo_dispute = Inr db'"
  "find_report_fragment demo_dispute (inc_id demo_incident) (rp_id demo_report) = Some demo_fragment"
  "demo_citation \<in> set (db_evidence demo_dispute)" "cites demo_fragment demo_citation"
proof -
  note demo = demo_dispute_def demo_full_db_def demo_incident_def demo_report_def demo_fragment_def
    demo_citation_def demo_disputed_def
  show "find_report_fragment demo_dispute (inc_id demo_incident) (rp_id demo_report) = Some demo_fragment"
    "demo_citation \<in> set (db_evidence demo_dispute)" "cites demo_fragment demo_citation"
    by (simp_all add: find_report_fragment_def demo cites_def)
  show "\<exists>db'. deactivate_report_observation demo_observing demo_env demo_incident demo_report None None
     ''report_deleted'' demo_dispute = Inr db'"
  proof -
    let ?f = "demo_fragment\<lparr>fg_status := ''withdrawn'', fg_revision := 3\<rparr>"
    let ?db2 = "demo_dispute\<lparr>db_evidence := [demo_citation\<lparr>ce_is_current := False\<rparr>], db_fragments := [?f]\<rparr>"
    have quiet: "flush demo_dispute = demo_dispute" "flush ?db2 = ?db2"
      by (simp_all add: flush_def demo_dispute_def demo_full_db_def)
    have "invalidate_fragment_evidence demo_fragment demo_dispute = (([demo_disputed], [(''c'', [''e''])]),
        demo_dispute\<lparr>db_evidence := [demo_citation\<lparr>ce_is_current := False\<rparr>]\<rparr>)"
      unfolding invalidate_fragment_evidence_def quiet by (simp add: demo cites_def)
    moreover have "flush (put_fragment ?f (cancel_blind_spot_jobs demo_env demo_fragment None
        (demo_dispute\<lparr>db_evidence := [demo_citation\<lparr>ce_is_current := False\<rparr>]\<rparr>))) = ?db2"
      by (simp add: flush_def put_fragment_def cancel_blind_spot_jobs_def demo)
    moreover have "upsert_fragment_map_feature demo_env ?f ?db2 = Inr ?db2"
      by (simp add: upsert_fragment_map_feature_def hide_map_feature_def find_feature_def demo)
    moreover have "deactivate_automatic_blind_spots demo_observing demo_env ''inc'' None None
        ''report_deleted'' ?f ?db2 = Inr ?db2"
      unfolding deactivate_automatic_blind_spots_def quiet by (simp add: demo)
    moreover obtain db5 where "reconcile_case demo_env ''inc'' None None [(''c'', [''e''])] [(''c'', 1)]
        ''c'' ?db2 = Inr db5"
      using reconcile_case_returns [of ?db2 "''c''" demo_env "''inc''" None None "[(''c'', [''e''])]" "[(''c'', 1)]"]
      by (auto simp: demo resident_def grounded_def current_evidence_def)
    moreover have "find_report_fragment demo_dispute ''inc'' ''r1'' = Some demo_fragment"
      "inc_id demo_incident = ''inc''" "rp_id demo_report = ''r1''"
      "fg_status demo_fragment = ''normal''" "fg_revision demo_fragment + 1 = 3"
      "cc_id demo_disputed = ''c''" "cc_revision demo_disputed = 1"
      by (simp_all add: demo find_report_fragment_def)
    ultimately show ?thesis
      by (simp add: deactivate_report_observation_def quiet and_then_def reconcile_conflicts_def Let_def)
  qed
qed

theorem withdrawn_report_stands_for_nothing_witness:
  "\<exists>db'. deactivate_report_observation demo_observing demo_env demo_incident demo_report None None
     ''report_deleted'' demo_dispute = Inr db' \<and> stands_for_nothing (fg_id demo_fragment) db'"
  using demo_deactivation(1) withdrawn_report_stands_for_nothing [OF _ demo_deactivation(2)] by blast

theorem withdrawn_report_settles_its_conflicts_witness:
  "\<exists>db'. deactivate_report_observation demo_observing demo_env demo_incident demo_report None None
     ''report_deleted'' demo_dispute = Inr db' \<and> settled_or_grounded db' ''c''"
  using demo_deactivation(1) withdrawn_report_settles_its_conflicts [OF _ demo_deactivation(2,3,4)]
  by (auto simp: demo_citation_def)

theorem reconciled_cases_settled_or_grounded_witness:
  "\<exists>db'. reconcile_conflicts demo_env ''inc'' None None [] [] [''c'']
     (demo_dispute\<lparr>db_evidence := []\<rparr>) = Inr db' \<and> settled_or_grounded db' ''c''"
proof -
  obtain db' where "reconcile_case demo_env ''inc'' None None [] [] ''c'' (demo_dispute\<lparr>db_evidence := []\<rparr>) = Inr db'"
    using reconcile_case_returns [of "demo_dispute\<lparr>db_evidence := []\<rparr>" "''c''" demo_env "''inc''" None None "[]" "[]"]
    by (auto simp: demo_dispute_def demo_full_db_def demo_fragment_def resident_def grounded_def current_evidence_def)
  then have "reconcile_conflicts demo_env ''inc'' None None [] [] [''c''] (demo_dispute\<lparr>db_evidence := []\<rparr>) = Inr db'"
    by (simp add: reconcile_conflicts_def and_then_def)
  then show ?thesis using reconciled_cases_settled_or_grounded [of demo_env "''inc''" None None "[]" "[]" "[''c'']"] by auto
qed

section \<open>What an observation says\<close>

text \<open>
  A fragment apart from its standing (status and revision): what it says and about what. After
  the upsert, nothing in the processing of a report changes what any fragment says, nor the
  tables of the reports.
\<close>

definition says :: "fragment \<Rightarrow> fragment" where
  "says f = f\<lparr>fg_status := [], fg_revision := 0\<rparr>"

definition said_part where
  "said_part db = (map says (db_fragments db), report_part db)"

definition fragment_ids :: "'a core_db_scheme \<Rightarrow> ident list" where
  "fragment_ids db = map fg_id (db_fragments db)"

lemma said_of_base: "base_part db' = base_part db \<Longrightarrow> said_part db' = said_part db"
  by (simp add: base_part_def said_part_def)

lemma said_of_observed: "observed_part db' = observed_part db \<Longrightarrow> said_part db' = said_part db"
  by (rule said_of_base) (simp add: observed_part_def)

lemma said_of_case: "case_part db' = case_part db \<Longrightarrow> said_part db' = said_part db"
  by (rule said_of_base) (simp add: case_part_def)

lemma said_frames [simp]:
  "said_part (flush db) = said_part db" "said_part (put_case c db) = said_part db"
  "said_part (announce e i rid et rt res rv pl db) = said_part db"
  "said_part (record_audit e a ai ac rty rid2 rq db) = said_part db"
  "said_part (mark_analyses_stale e c rs db) = said_part db"
  "said_part (hide_conflict_map_feature c db) = said_part db"
proof -
  show "said_part (put_case c db) = said_part db" by (rule said_of_base) simp
qed (rule said_of_observed, simp)+

lemma said_ids: "said_part db' = said_part db \<Longrightarrow> fragment_ids db' = fragment_ids db"
  by (drule arg_cong [of _ _ "\<lambda>p. map fg_id (fst p)"]) (simp add: said_part_def fragment_ids_def says_def comp_def)

text \<open>Writing back a row that says what the stored one says.\<close>

lemma said_put_fragment:
  fixes db :: "'a full_db_scheme"
  assumes "distinct (fragment_ids db)" "says f \<in> says ` set (db_fragments db)"
  shows "said_part (put_fragment f db) = said_part db"
proof -
  obtain g where g: "g \<in> set (db_fragments db)" "says f = says g" using assms(2) by blast
  have same_id: "fg_id f = fg_id g" using arg_cong [OF g(2), of fg_id] by (simp add: says_def)
  have "says (if fg_id x = fg_id f then f else x) = says x" if "x \<in> set (db_fragments db)" for x
    using that g same_id assms(1) by (auto simp: fragment_ids_def distinct_map dest: inj_onD)
  then show ?thesis
    by (simp add: said_part_def put_fragment_def modify_where_def report_part_def)
qed

lemma release_fragment_said:
  fixes db :: "'a full_db_scheme"
  assumes "release_fragment e f db = Inr db'" "distinct (fragment_ids db)"
    "says f \<in> says ` set (db_fragments db)"
  shows "said_part db' = said_part db"
proof (cases "\<not> actively_cited db f \<and> fg_status f = ''conflict''")
  case False
  have "db' = db" using assms(1) unfolding release_fragment_def if_not_P [OF False] by simp
  then show ?thesis by simp
next
  case True
  let ?f = "f\<lparr>fg_status := ''normal'', fg_revision := fg_revision f + 1\<rparr>"
  have "observed_part db' = observed_part (put_fragment ?f db)"
    using assms(1) True by (simp add: release_fragment_def Let_def upserts_frame(1))
  moreover have "says ?f = says f" by (simp add: says_def)
  ultimately show ?thesis using said_of_observed said_put_fragment [OF assms(2), of ?f] assms(3) by metis
qed

lemma release_all_said:
  fixes db db' :: "'a full_db_scheme"
  assumes "each (release_fragment e) (filter P (db_fragments db)) db = Inr db'" "distinct (fragment_ids db)"
  shows "said_part db' = said_part db"
proof (rule each_kept [where P = "\<lambda>u. said_part u = said_part db", OF assms(1)])
  fix f and u v :: "'a full_db_scheme"
  assume a: "f \<in> set (filter P (db_fragments db))" "release_fragment e f u = Inr v" "said_part u = said_part db"
  from a(3) have "map says (db_fragments u) = map says (db_fragments db)" by (simp add: said_part_def)
  then have "says ` set (db_fragments u) = says ` set (db_fragments db)" by (metis set_map)
  then show "said_part v = said_part db"
    using release_fragment_said [OF a(2)] said_ids [OF a(3)] assms(2) a(1,3) by simp
qed simp

lemma auto_resolve_case_said:
  fixes db db' :: "'a full_db_scheme"
  assumes "auto_resolve_case e i a rid w c db = Inr db'" "distinct (fragment_ids db)"
  shows "said_part db' = said_part db"
proof -
  let ?c = "auto_resolved e w c"
  let ?db3 = "hide_conflict_map_feature ?c (flush (if w then put_case ?c db
     else mark_analyses_stale e ?c ''current_conflicting_evidence_withdrawn'' (put_case ?c db)))"
  have d: "said_part ?db3 = said_part db" by simp
  obtain P db4 where r: "each (release_fragment e) (filter P (db_fragments ?db3)) ?db3 = Inr db4"
    and o: "observed_part db' = observed_part db4"
    using assms(1) unfolding auto_resolve_case_def Let_def by (elim and_then_InrE) fastforce
  show ?thesis using release_all_said [OF r] said_ids [OF d] assms(2) said_of_observed [OF o] d by simp
qed

lemma reconcile_case_said:
  fixes db db' :: "'a full_db_scheme"
  assumes "reconcile_case e i a rid wb rv cid db = Inr db'" "distinct (fragment_ids db)"
  shows "said_part db' = said_part db"
proof (cases "get_case_row db cid")
  case None
  then show ?thesis using assms by (simp add: reconcile_case_def)
next
  case (Some c0)
  let ?w = "case map_of wb cid of None \<Rightarrow> [] | Some ids \<Rightarrow> ids"
  let ?n = "case map_of rv cid of None \<Rightarrow> cc_revision c0 | Some n \<Rightarrow> n"
  obtain c db1 where w: "(if ?w \<noteq> [] then withdraw_from_case e i a rid ?w ?n c0 db else (c0, db)) = (c, db1)"
    by fastforce
  have "base_part db1 = base_part db"
    using w withdraw_from_case_frame [of e i a rid ?w ?n c0 db c db1] by (cases "?w = []") simp_all
  from said_of_base [OF this] have d: "said_part (flush db1) = said_part db" by simp
  have run: "(if list_ex (\<lambda>v. ce_kind v \<noteq> ''fragment'') (current_evidence db1 cid)
        \<or> has_cross_source_contradiction (current_evidence db1 cid)
      then upsert_conflict_map_feature e c (flush db1)
      else if case_settled c then Inr (hide_conflict_map_feature c (flush db1))
      else auto_resolve_case e i a rid (?w \<noteq> []) c (flush db1)) = Inr db'"
    using assms(1) w Some by (simp add: reconcile_case_def Let_def)
  have three: "A = Inr t \<or> t = B \<or> C = Inr t" if "(if P then A else if Q then Inr B else C) = Inr t"
    for P Q and A C :: "'e + 's" and B t
    using that by (auto split: if_splits)
  from three [OF run] consider "upsert_conflict_map_feature e c (flush db1) = Inr db'"
    | "db' = hide_conflict_map_feature c (flush db1)"
    | "auto_resolve_case e i a rid (?w \<noteq> []) c (flush db1) = Inr db'" by blast
  then show ?thesis
  proof cases
    case 1
    then show ?thesis using d said_of_observed [OF upserts_frame(2) [OF 1]] by simp
  next
    case 2
    then show ?thesis using d by simp
  next
    case 3
    then show ?thesis using d auto_resolve_case_said [OF 3] said_ids [OF d] assms(2) by simp
  qed
qed

lemma reconcile_conflicts_said:
  fixes db db' :: "'a full_db_scheme"
  assumes "reconcile_conflicts e i a rid wb rv cids db = Inr db'" "distinct (fragment_ids db)"
  shows "said_part db' = said_part db"
proof (rule each_kept [where P = "\<lambda>u. said_part u = said_part db",
      OF assms(1) [unfolded reconcile_conflicts_def]])
  fix c and u v :: "'a full_db_scheme"
  assume a: "reconcile_case e i a rid wb rv c u = Inr v" "said_part u = said_part db"
  show "said_part v = said_part db"
    using reconcile_case_said [OF a(1)] said_ids [OF a(2)] assms(2) a(2) by simp
qed simp

text \<open>Structured detection marks fragments and adds evidence.\<close>

lemma add_evidence_said:
  fixes db db' :: "'a full_db_scheme"
  shows "add_evidence sha e c rs db = Inr (is, db') \<Longrightarrow> said_part db' = said_part db"
proof (induction rs arbitrary: db "is")
  case Nil
  then have "db' = flush db" by simp
  then show ?case by simp
next
  case (Cons r rs)
  then obtain i db1 is' where a: "add_one_evidence sha e c r db = Inr (i, db1)"
      "add_evidence sha e c rs db1 = Inr (is', db')"
    by (auto split: sum.splits prod.splits)
  have "said_part db1 = said_part db"
    using a(1) by (auto simp: add_one_evidence_def said_part_def report_part_def split: sum.splits option.splits prod.splits)
  then show ?case using Cons.IH [OF a(2)] by simp
qed

lemma mark_conflicting_said [simp]:
  fixes db :: "'a full_db_scheme"
  shows "said_part (mark_conflicting fs db) = said_part db"
proof -
  have "map says (modify_where P (\<lambda>f. f\<lparr>fg_status := s\<rparr>) rs) = map says rs" for P s rs
    by (rule map_modify_where) (simp add: says_def)
  then show ?thesis by (simp add: mark_conflicting_def said_part_def report_part_def)
qed

lemma detect_said:
  fixes db db' :: "'a full_db_scheme"
  assumes "detect_structured_fragment_conflict D e f db = Inr (hit, db')"
  shows "said_part db' = said_part db"
proof -
  have enter: "said_part u = said_part s" if "enter_case e q x s = (c, b, u)" for q x c b and s u :: "'a full_db_scheme"
  proof -
    have "said_part (snd (mark_fact_under_review e c' r t)) = said_part t" for c' r and t :: "'a full_db_scheme"
      by (rule said_of_observed) simp
    moreover have "said_part ((flush s)\<lparr>db_cases := cs, id_count := n\<rparr>) = said_part s" for cs n
      using said_frames(1) [of s] by (simp add: said_part_def report_part_def)
    ultimately show ?thesis using that by (auto simp: enter_case_def Let_def split: option.splits if_splits)
  qed
  have join: "said_part u = said_part s" if "join_case D e fs c b s = Inr (c', u)" for fs c b c' and s u :: "'a full_db_scheme"
    using that unfolding join_case_def
    by (auto simp: Let_def split: sum.splits prod.splits if_splits dest!: add_evidence_said)
  have "said_part u = said_part s"
    if "find_or_open_structured_conflict D e q fs s = Inr (r, u)" for q fs r and s u :: "'a full_db_scheme"
    using that unfolding find_or_open_structured_conflict_def Let_def
    by (auto split: sum.splits prod.splits dest!: enter join)
  then show ?thesis using assms unfolding detect_structured_fragment_conflict_def
    by (auto split: option.splits if_splits sum.splits)
qed

lemma show_conflict_said:
  "show_conflict e i rid wc c b db = Inr db' \<Longrightarrow> said_part db' = said_part db"
proof -
  assume "show_conflict e i rid wc c b db = Inr db'"
  then obtain db1 P db2 where s: "upsert_conflict_map_feature e c (flush db) = Inr db1"
    "each (upsert_fragment_map_feature e) (filter P (db_fragments db1)) db1 = Inr db2"
    "observed_part db' = observed_part db2"
    unfolding show_conflict_def by (elim and_then_InrE) (auto split: if_splits)
  have "observed_part db2 = observed_part db1"
    by (rule each_frame [OF s(2)]) (rule upserts_frame(1))
  then show ?thesis using s(3) upserts_frame(2) [OF s(1)] said_of_observed [of db' db] by simp
qed

lemma schedule_detection_said:
  fixes db db' :: "'a full_db_scheme"
  assumes "schedule_detection K e inc f db = Inr db'"
  shows "said_part db' = said_part db"
proof -
  have c: "said_part (cancel_blind_spot_jobs e f n db) = said_part db" for n
    by (simp add: said_part_def cancel_frame)
  have j: "said_part (ensure_blind_spot_job K e inc f u) = said_part u"
    for u :: "'a full_db_scheme"
    using flush_tables [of u] by (simp add: ensure_blind_spot_job_def said_part_def report_part_def Let_def)
  show ?thesis using assms c j unfolding schedule_detection_def Let_def
    by (auto simp: map_sum_Inr split: if_splits dest!: detection_run_frame said_of_case)
qed

text \<open>The event of the fragment, between its feature and the conflict.\<close>

definition observed where
  "observed e i a rid created f db =
     (let event = (if created then ''fragment.created'' else ''fragment.updated'') in
      announce e i rid event ''fragment'' (fg_id f) (fg_revision f) (fragment_data f)
        (record_audit e a (Some i) event ''fragment'' (Some (fg_id f)) rid db))"

lemma observe_change_steps:
  fixes db db' :: "'a full_db_scheme"
  assumes "observe_change K e i a rid created f cases wb db = Inr db'"
  obtains hit db1 db2 db4 db5 g rv cids h k where
    "detect_structured_fragment_conflict (detection.truncate K) e f db = Inr (hit, db1)"
    "upsert_fragment_map_feature e g (flush db1) = Inr db2"
    "said_part db4 = said_part db2"
    "reconcile_conflicts e i a rid wb rv cids db4 = Inr db5"
    "resolve_automatic_blind_spots K e i a rid h k db5 = Inr db'"
proof -
  obtain hit db1 where det: "detect_structured_fragment_conflict (detection.truncate K) e f db = Inr (hit, db1)" and
    "\<exists>db2. upsert_fragment_map_feature e (refresh_fragment db1 f) (flush db1) = Inr db2 \<and>
      (\<exists>db4. (case hit of
           None \<Rightarrow> Inr (observed e i a rid created (refresh_fragment db1 f) db2)
         | Some (c, opened) \<Rightarrow> show_conflict e i rid (map fst wb) c opened
             (observed e i a rid created (refresh_fragment db1 f) db2)) = Inr db4 \<and>
       (\<exists>db5. reconcile_conflicts e i a rid wb (map (\<lambda>c. (cc_id c, cc_revision c)) cases)
           (map cc_id cases @ (case hit of None \<Rightarrow> [] | Some (c, _) \<Rightarrow> [cc_id c])) db4 = Inr db5 \<and>
         resolve_automatic_blind_spots K e i a rid (refresh_fragment db5 (refresh_fragment db1 f))
           (hit \<noteq> None) db5 = Inr db'))"
    using assms unfolding observe_change_def and_then_Inr split_paired_Ex prod.case Let_def observed_def by blast
  then obtain db2 db4 db5 where
    up: "upsert_fragment_map_feature e (refresh_fragment db1 f) (flush db1) = Inr db2" and
    vis: "(case hit of
           None \<Rightarrow> Inr (observed e i a rid created (refresh_fragment db1 f) db2)
         | Some (c, opened) \<Rightarrow> show_conflict e i rid (map fst wb) c opened
             (observed e i a rid created (refresh_fragment db1 f) db2)) = Inr db4" and
    rec: "\<exists>rv cids. reconcile_conflicts e i a rid wb rv cids db4 = Inr db5" and
    res: "\<exists>h k. resolve_automatic_blind_spots K e i a rid h k db5 = Inr db'"
    by blast
  have "said_part (observed e i a rid created g u) = said_part u" for g and u :: "'a full_db_scheme"
    by (simp add: observed_def Let_def)
  then have shown: "said_part db4 = said_part db2"
    using vis show_conflict_said by (cases hit) fastforce+
  from rec res obtain rv cids h k where "reconcile_conflicts e i a rid wb rv cids db4 = Inr db5"
    "resolve_automatic_blind_spots K e i a rid h k db5 = Inr db'" by blast
  from that [OF det up shown this] show thesis .
qed

lemma observe_change_said:
  fixes db db' :: "'a full_db_scheme"
  assumes "observe_change K e i a rid created f cases wb db = Inr db'" "distinct (fragment_ids db)"
  shows "said_part db' = said_part db"
proof -
  obtain hit db1 db2 db4 db5 g rv cids h k where
    det: "detect_structured_fragment_conflict (detection.truncate K) e f db = Inr (hit, db1)" and
    up: "upsert_fragment_map_feature e g (flush db1) = Inr db2" and
    shown: "said_part db4 = said_part db2" and
    rec: "reconcile_conflicts e i a rid wb rv cids db4 = Inr db5" and
    res: "resolve_automatic_blind_spots K e i a rid h k db5 = Inr db'"
    by (rule observe_change_steps [OF assms(1)])
  have d4: "said_part db4 = said_part db"
    using detect_said [OF det] said_of_observed [OF upserts_frame(1) [OF up]] shown by simp
  have "said_part db5 = said_part db4"
    by (rule reconcile_conflicts_said [OF rec]) (use said_ids [OF d4] assms(2) in simp)
  then show ?thesis using said_of_case [OF resolve_automatic_frame [OF res]] d4 by simp
qed

text \<open>The tables of the reports, whatever the ids of the fragments.\<close>

lemma observe_change_reports:
  fixes db db' :: "'a full_db_scheme"
  assumes "observe_change K e i a rid created f cases wb db = Inr db'"
  shows "report_part db' = report_part db"
proof -
  obtain hit db1 db2 db4 db5 g rv cids h k where
    det: "detect_structured_fragment_conflict (detection.truncate K) e f db = Inr (hit, db1)" and
    up: "upsert_fragment_map_feature e g (flush db1) = Inr db2" and
    shown: "said_part db4 = said_part db2" and
    rec: "reconcile_conflicts e i a rid wb rv cids db4 = Inr db5" and
    res: "resolve_automatic_blind_spots K e i a rid h k db5 = Inr db'"
    by (rule observe_change_steps [OF assms])
  have "report_part db4 = report_part db"
    using detect_said [OF det] observed_parts(4) [OF upserts_frame(1) [OF up]] shown by (simp add: said_part_def)
  moreover have "report_part db5 = report_part db4"
    using reconcile_each [OF rec [unfolded reconcile_conflicts_def]] by (simp add: rest_part_def)
  moreover have "report_part db' = report_part db5"
    using resolve_automatic_frame [OF res] by (simp add: case_part_def base_part_def)
  ultimately show ?thesis by simp
qed

text \<open>The upsert writes what the report says, and keeps the ids apart.\<close>

lemma report_values_says:
  "report_values K r f = f \<Longrightarrow> says g = says f \<Longrightarrow> report_values K r g = g"
  by (cases f, cases g) (simp add: report_values_def says_def Let_def)

lemma report_values_idem:
  "report_values K r (report_values K r f) = report_values K r f"
  "report_values K r f = f \<Longrightarrow> report_values K r (f\<lparr>fg_status := s, fg_revision := n\<rparr>)
     = f\<lparr>fg_status := s, fg_revision := n\<rparr>"
  by (cases f; simp add: report_values_def Let_def)+

lemma report_values_key [simp]:
  "fg_id (report_values K r f) = fg_id f" "fg_incident_id (report_values K r f) = rp_incident_id r"
  "fg_source_type (report_values K r f) = ''resident_report''"
  "fg_source_ref_id (report_values K r f) = Some (rp_id r)"
  by (simp_all add: report_values_def Let_def)

lemma find_says:
  assumes "\<And>x y. says x = says y \<Longrightarrow> P x = P y"
  shows "map says fs = map says gs \<Longrightarrow> map_option says (find P fs) = map_option says (find P gs)"
proof (induction fs arbitrary: gs)
  case (Cons x xs)
  then obtain y ys where gs: "gs = y # ys" "says x = says y" "map says xs = map says ys"
    by (cases gs) auto
  have "P x = P y" by (rule assms [OF gs(2)])
  then show ?case using Cons.IH [OF gs(3)] gs by simp
qed simp

lemma said_find:
  fixes db db' :: "'a full_db_scheme"
  assumes "said_part db' = said_part db" "find_report_fragment db i rid = Some f"
  shows "\<exists>g. find_report_fragment db' i rid = Some g \<and> says g = says f"
proof -
  have same: "says x = says y \<Longrightarrow>
      (fg_incident_id x = i \<and> fg_source_type x = ''resident_report'' \<and> fg_source_ref_id x = Some rid)
    = (fg_incident_id y = i \<and> fg_source_type y = ''resident_report'' \<and> fg_source_ref_id y = Some rid)" for x y
    by (cases x, cases y) (simp add: says_def)
  have "map says (db_fragments db') = map says (db_fragments db)" using assms(1) by (simp add: said_part_def)
  from find_says [OF same this]
  have "map_option says (find_report_fragment db' i rid) = map_option says (find_report_fragment db i rid)"
    unfolding find_report_fragment_def .
  then show ?thesis using assms(2) by (cases "find_report_fragment db' i rid") simp_all
qed

definition fresh_fragment :: "env \<Rightarrow> 'a core_db_scheme \<Rightarrow> bool" where
  "fresh_fragment e db \<longleftrightarrow> distinct (fragment_ids db) \<and> new_id e (id_count db) \<notin> set (fragment_ids db)"

lemma find_put:
  "find P rs = Some old \<Longrightarrow> distinct (map fg_id rs) \<Longrightarrow> fg_id f = fg_id old \<Longrightarrow> P f \<Longrightarrow>
   find P (modify_where (\<lambda>x. fg_id x = fg_id f) (\<lambda>_. f) rs) = Some f"
proof (induction rs)
  case (Cons x xs)
  show ?case
  proof (cases "P x")
    case False
    then have "old \<in> set xs" using Cons.prems(1) by (auto dest: find_SomeD)
    then have "fg_id x \<noteq> fg_id f" using Cons.prems(2,3) by auto
    then show ?thesis using Cons False by simp
  qed (use Cons in auto)
qed simp

lemma upsert_report_fragment_says:
  fixes db db' :: "'a full_db_scheme"
  assumes up: "upsert_report_fragment K e r db = ((f, created, changed), db')" and ok: "fresh_fragment e db"
  shows "find_report_fragment db' (rp_incident_id r) (rp_id r) = Some f \<and> report_values K r f = f
    \<and> distinct (fragment_ids db') \<and> report_part db' = report_part db"
proof (cases "find_report_fragment (flush db) (rp_incident_id r) (rp_id r)")
  case None
  then have f: "f = report_values K r (blank_fragment (new_id e (id_count (flush db))))"
    "db' = (flush db)\<lparr>db_fragments := db_fragments (flush db) @ [f], id_count := Suc (id_count (flush db))\<rparr>"
    using up by (auto simp: upsert_report_fragment_def Let_def)
  have "report_part db' = report_part db" using flush_tables(6) [of db] by (simp add: f(2) report_part_def)
  moreover have "find_report_fragment db' (rp_incident_id r) (rp_id r) = Some f"
    using None by (simp add: f find_report_fragment_def find_append)
  moreover have "distinct (fragment_ids db')"
    using ok by (simp add: f fresh_fragment_def fragment_ids_def blank_fragment_def flush_def)
  ultimately show ?thesis by (simp add: f(1) report_values_idem)
next
  case (Some old)
  let ?new = "report_values K r old"
  have d: "distinct (map fg_id (db_fragments (flush db)))" using ok by (simp add: fresh_fragment_def fragment_ids_def)
  show ?thesis
  proof (cases "?new = old \<and> \<not> fg_status old = ''withdrawn''")
    case True
    have "f = old" "db' = flush db"
      using up unfolding upsert_report_fragment_def Let_def Some option.case if_P [OF True] by simp_all
    then show ?thesis using Some True d by (simp add: fragment_ids_def)
  next
    case False
    let ?s = "if fg_status old = ''withdrawn'' \<or> essence ?new \<noteq> essence old then ''normal'' else fg_status old"
    have f: "f = ?new\<lparr>fg_status := ?s, fg_revision := fg_revision old + 1\<rparr>" "db' = put_fragment f (flush db)"
      using up unfolding upsert_report_fragment_def Let_def Some option.case if_not_P [OF False] prod.inject by blast+
    have "report_values K r f = f" by (simp add: f(1) report_values_idem)
    moreover have "find_report_fragment db' (rp_incident_id r) (rp_id r) = Some f"
      using Some d unfolding find_report_fragment_def f(2) put_fragment_def
      by (simp, intro find_put) (simp_all add: f(1))
    moreover have "fragment_ids db' = map fg_id (db_fragments (flush db))"
      by (simp add: f(2) put_fragment_def fragment_ids_def modify_where_def)
    ultimately show ?thesis using d flush_tables(6) [of db] by (simp add: f(2))
  qed
qed

lemma processed_effect:
  fixes db db' :: "'a full_db_scheme"
  assumes run: "process_report_observation K e inc r actr rid db = Inr db'" and ok: "fresh_fragment e db"
  shows "report_part db' = report_part db
    \<and> (\<exists>f. find_report_fragment db' (rp_incident_id r) (rp_id r) = Some f \<and> report_values K r f = f)"
proof -
  obtain p db1 where "upsert_report_fragment K e r db = (p, db1)" by fastforce
  moreover obtain f created changed where "p = (f, created, changed)" by (cases p)
  ultimately have up: "upsert_report_fragment K e r db = ((f, created, changed), db1)" by simp
  note u = upsert_report_fragment_says [OF up ok]
  obtain cases wb db2 where inv: "(if changed \<and> \<not> created
      then invalidate_fragment_evidence f db1 else (([], []), db1)) = ((cases, wb), db2)"
    by (metis prod.exhaust)
  then have "said_part db2 = said_part db1"
    using invalidate_frame [of f db1] by (auto simp: said_part_def split: if_splits)
  moreover obtain db3 db4 where
    blind: "(if changed \<and> \<not> created
      then deactivate_automatic_blind_spots K e (inc_id inc) actr rid ''source_report_updated'' f db2
      else Inr db2) = Inr db3" and
    sched: "schedule_detection K e inc f db3 = Inr db4" and
    obs: "(if \<not> changed then Inr db4
      else observe_change K e (inc_id inc) actr rid created f cases wb db4) = Inr db'"
    using run unfolding process_report_observation_def Let_def up prod.case inv by (elim and_then_InrE) blast
  moreover have "said_part db3 = said_part db2"
    using blind deactivate_blind_spots_frame said_of_case by (auto split: if_splits) blast
  ultimately have d4: "said_part db4 = said_part db1" using schedule_detection_said [OF sched] by simp
  have d': "said_part db' = said_part db4"
    using obs observe_change_said [of K e "inc_id inc" actr rid created f cases wb db4 db'] said_ids [OF d4] u
    by (auto split: if_splits)
  from d' d4 have s: "said_part db' = said_part db1" by simp
  then obtain g where "find_report_fragment db' (rp_incident_id r) (rp_id r) = Some g" "says g = says f"
    using said_find [OF s] u by blast
  moreover have "report_part db' = report_part db" using s u by (simp add: said_part_def)
  ultimately show ?thesis using report_values_says u by blast
qed

lemma upsert_report_fragment_reports:
  fixes db db' :: "'a full_db_scheme"
  shows "upsert_report_fragment K e r db = (p, db') \<Longrightarrow> report_part db' = report_part db"
  using flush_tables(6) [of db]
  by (auto simp: upsert_report_fragment_def Let_def report_part_def put_fragment_def split: option.splits if_splits)

lemma process_report_part:
  fixes db db' :: "'a full_db_scheme"
  assumes run: "process_report_observation K e inc r actr rid db = Inr db'"
  shows "report_part db' = report_part db"
proof -
  obtain p db1 where "upsert_report_fragment K e r db = (p, db1)" by fastforce
  moreover obtain f created changed where "p = (f, created, changed)" by (cases p)
  ultimately have up: "upsert_report_fragment K e r db = ((f, created, changed), db1)" by simp
  obtain cases wb db2 where inv: "(if changed \<and> \<not> created
      then invalidate_fragment_evidence f db1 else (([], []), db1)) = ((cases, wb), db2)"
    by (metis prod.exhaust)
  then have "report_part db2 = report_part db1"
    using invalidate_frame [of f db1] by (auto split: if_splits)
  moreover obtain db3 db4 where
    blind: "(if changed \<and> \<not> created
      then deactivate_automatic_blind_spots K e (inc_id inc) actr rid ''source_report_updated'' f db2
      else Inr db2) = Inr db3" and
    sched: "schedule_detection K e inc f db3 = Inr db4" and
    obs: "(if \<not> changed then Inr db4
      else observe_change K e (inc_id inc) actr rid created f cases wb db4) = Inr db'"
    using run unfolding process_report_observation_def Let_def up prod.case inv by (elim and_then_InrE) blast
  moreover have "report_part db3 = report_part db2"
    using blind deactivate_blind_spots_frame report_part_of_case by (auto split: if_splits) blast
  moreover have "report_part db4 = report_part db3"
    using schedule_detection_said [OF sched] by (simp add: said_part_def)
  moreover have "report_part db' = report_part db4"
    using obs observe_change_reports by (auto split: if_splits)
  ultimately show ?thesis using upsert_report_fragment_reports [OF up] by simp
qed

lemma deactivate_report_part:
  fixes db db' :: "'a full_db_scheme"
  assumes "deactivate_report_observation K e inc r actr rid reason db = Inr db'"
  shows "report_part db' = report_part db"
proof (cases "find_report_fragment db (inc_id inc) (rp_id r)")
  case None
  then have "db' = flush db"
    using assms by (simp add: deactivate_report_observation_def find_report_fragment_def Let_def)
  then show ?thesis by simp
next
  case (Some f)
  then show ?thesis using deactivated_effect [OF assms] by blast
qed


lemma report_values_text: "fg_description (report_values K r f) = rp_content_display r"
  by (simp add: report_values_def Let_def)

lemma demo_no_claim: "extract_structured_claim demo_observing demo_report = None"
  by (simp add: extract_structured_claim_def demo_report_def)

lemma resolve_automatic_none:
  "db_blind_spots db = [] \<Longrightarrow> \<exists>db'. resolve_automatic_blind_spots K e i a rid f b db = Inr db'"
  by (simp add: resolve_automatic_blind_spots_def flush_def split: option.split)

text \<open>A new fragment that claims nothing only appears.\<close>

lemma observe_unclaimed:
  fixes db :: "'a full_db_scheme"
  assumes "fg_claim_key f = None" "get_fragment db (fg_id f) = Some f" "resident f" "db_blind_spots db = []"
  shows "\<exists>db'. observe_change K e i a rid True f [] [] db = Inr db'"
proof -
  have d: "detect_structured_fragment_conflict (detection.truncate K) e f db = Inr (None, db)"
    using assms(1) by (simp add: detect_structured_fragment_conflict_def or_else_def)
  let ?db2 = "hide_map_feature (fg_incident_id f) ''fragment'' (fg_id f) (fg_revision f) (fg_status f) (flush db)"
  have "observed_part (observed e i a rid True f ?db2) = observed_part db" by (simp add: observed_def Let_def)
  from observed_parts(3) [OF this] have "db_blind_spots (observed e i a rid True f ?db2) = []" using assms(4) by simp
  from resolve_automatic_none [OF this] show ?thesis using assms(2,3)
    by (simp add: observe_change_def d and_then_def Let_def refresh_fragment_def upsert_fragment_map_feature_def
        resident_def reconcile_conflicts_def observed_def)
qed


section \<open>Looking twice\<close>

text \<open>
  The queue delivers a job at least once.  A second run of the detection that opened (or
  reopened) a blind spot finds it open and leaves everything as it is.
\<close>

definition incident_state :: "'a core_db_scheme \<Rightarrow> ident \<Rightarrow> string option" where
  "incident_state db i = map_option inc_status (get_incident_by_id db i)"

lemma incident_state_frames [simp]:
  "incident_state (flush db) i = incident_state db i"
  "incident_state (record_audit e a ai ac rty rid2 rq db) i = incident_state db i"
  "incident_state (announce e j rid et rt res rv pl db) i = incident_state db i"
proof -
  have "map_option inc_status (get_incident_by_id (snd (emit_event e j em u)) i)
      = map_option inc_status (get_incident_by_id u i)" for em and u :: "'a core_db_scheme"
  proof (cases "get_incident_by_id u j")
    case None
    then show ?thesis by (simp add: emit_event_def)
  next
    case (Some inc)
    have "inc_status (er_incident (emit_core e em u inc)) = inc_status inc" by (simp add: emit_core_def Let_def)
    then show ?thesis using get_incident_emit [OF Some] Some by simp
  qed
  then show "incident_state (announce e j rid et rt res rv pl db) i = incident_state db i"
    by (simp add: incident_state_def announce_def)
qed (simp_all add: incident_state_def get_incident_by_id_def flush_def)

lemma upsert_incident_state:
  "upsert_blind_spot_map_feature e b db = Inr db' \<Longrightarrow> incident_state db' i = incident_state db i"
  by (auto simp: upsert_blind_spot_map_feature_def Let_def upsert_map_feature_def incident_state_def
      get_incident_by_id_def split: sum.splits option.splits if_splits)

lemma publish_blind_spot_effect:
  fixes db db' :: "'a full_db_scheme"
  assumes "publish_blind_spot e iid t b db = Inr (res, db')"
  shows "res = Some b \<and> observed_part db' = observed_part db \<and> incident_state db' i = incident_state db i"
proof -
  obtain d where d: "upsert_blind_spot_map_feature e b (flush db) = Inr d" "res = Some b"
    "observed_part db' = observed_part d" "incident_state db' i = incident_state d i"
    using assms by (auto simp: publish_blind_spot_def and_then_Inr)
  then show ?thesis using upserts_frame(3) [OF d(1)] upsert_incident_state [OF d(1)] by simp
qed

lemma find_res_replaced:
  assumes "find_res p (filter Q xs) = Inr (Some b)" "c b" "Q b'" "p b' = Inr True"
  shows "find_res p (filter Q (modify_where c (\<lambda>_. b') xs)) = Inr (Some b')"
  using assms(1)
proof (induction xs)
  case (Cons x xs)
  show ?case
  proof (cases "c x")
    case True
    then show ?thesis using assms(3,4) by (simp add: and_then_def)
  next
    case False
    show ?thesis
    proof (cases "Q x")
      case True
      then obtain t where "p x = Inr t" "t = (x = b) \<or> \<not> t" "if t then x = b else find_res p (filter Q xs) = Inr (Some b)"
        using Cons.prems by (auto simp: and_then_Inr split: if_splits)
      then show ?thesis using Cons.IH True False assms(2) by (auto simp: and_then_def split: if_splits)
    qed (use Cons False in simp)
  qed
qed simp

lemma find_res_appended:
  "find_res p (filter Q xs) = Inr None \<Longrightarrow> Q b \<Longrightarrow> p b = Inr True \<Longrightarrow>
   find_res p (filter Q (xs @ [b])) = Inr (Some b)"
proof (induction xs)
  case (Cons x xs)
  show ?case
  proof (cases "Q x")
    case True
    then obtain t where t: "p x = Inr t" "(if t then Inr (Some x) else find_res p (filter Q xs)) = Inr None"
      using Cons.prems(1) by (auto simp: and_then_Inr)
    then have "\<not> t" "find_res p (filter Q xs) = Inr None" by (auto split: if_splits)
    then show ?thesis using Cons.IH Cons.prems(2,3) True t(1) by (simp add: and_then_def)
  qed (use Cons in simp)
qed (simp add: and_then_def)

lemma find_res_hit: "find_res p (filter Q xs) = Inr (Some x) \<Longrightarrow> p x = Inr True \<and> Q x"
  by (induction xs) (auto simp: and_then_Inr split: if_splits)

definition open_gap :: "blind_spot \<Rightarrow> bool" where
  "open_gap b \<longleftrightarrow> bs_status b = ''open'' \<or> bs_status b = ''reopened''"

lemma open_blind_spot_again:
  fixes db db' :: "'a full_db_scheme"
  assumes run: "open_blind_spot K e iid f r g d db = Inr (Some b, db')"
    and here: "same_location K (fragment_place f) (fragment_place f) = Inr True"
    and key: "fg_claim_key f = Some k"
  shows "open_blind_spot K e' iid f r' g' d' db' = Inr (None, db') \<and> case_part db' = case_part db
    \<and> incident_state db' i = incident_state db i"
proof -
  let ?Q = "\<lambda>b. bs_incident_id b = iid \<and> Some (bs_claim_key b) = fg_claim_key f"
  let ?p = "\<lambda>b. same_location K (fragment_place f) (blind_place b)"
  from run obtain hit where hit: "find_res ?p (filter ?Q (db_blind_spots db)) = Inr hit"
    by (auto simp: open_blind_spot_def and_then_Inr)
  have "find_res ?p (filter ?Q (db_blind_spots db')) = Inr (Some b) \<and> open_gap b
      \<and> case_part db' = case_part db \<and> incident_state db' i = incident_state db i"
  proof (cases hit)
    case None
    let ?b = "new_blind_spot K e (id_count db) iid f r g d"
    let ?u = "db\<lparr>db_blind_spots := db_blind_spots db @ [?b], id_count := Suc (id_count db)\<rparr>"
    have pub: "publish_blind_spot e iid ''blind_spot.created'' ?b ?u = Inr (Some b, db')"
      using run hit None by (simp add: open_blind_spot_def and_then_def Let_def)
    have "blind_place ?b = fragment_place f" by (simp add: new_blind_spot_def blind_place_def fragment_place_def)
    then have "find_res ?p (filter ?Q (db_blind_spots ?u)) = Inr (Some ?b)"
      using find_res_appended [of ?p ?Q "db_blind_spots db" ?b] hit None here key
      by (simp add: new_blind_spot_def)
    moreover have "case_part ?u = case_part db" "incident_state ?u i = incident_state db i"
      by (simp_all add: case_part_def base_part_def report_part_def incident_state_def get_incident_by_id_def)
    moreover note p = publish_blind_spot_effect [OF pub, of i]
    ultimately show ?thesis using observed_parts(3) [of db' ?u] case_part_of [of db' ?u]
      by (simp add: open_gap_def new_blind_spot_def)
  next
    case (Some b0)
    let ?b = "b0\<lparr>bs_status := ''reopened'', bs_resolution_value := None,
      bs_scope_data := Some (json_set (json_set (json_set (scope_of b0)
         ''origin_fragment_id'' (JStr (fg_id f))) ''grace_minutes'' (JInt g)) ''due_at'' (JInt d)),
      bs_revision := bs_revision b0 + 1, bs_updated_at := now e\<rparr>"
    let ?u = "put_blind_spot ?b db"
    have pub: "publish_blind_spot e iid ''blind_spot.reopened'' ?b ?u = Inr (Some b, db')"
      using run hit Some by (simp add: open_blind_spot_def and_then_def Let_def split: if_splits)
    have "?p b0 = Inr True \<and> ?Q b0" by (rule find_res_hit [OF hit [unfolded Some]])
    moreover have "blind_place ?b = blind_place b0" by (simp add: blind_place_def)
    ultimately have "find_res ?p (filter ?Q (db_blind_spots ?u)) = Inr (Some ?b)"
      using find_res_replaced [of ?p ?Q "db_blind_spots db" b0 "\<lambda>x. bs_id x = bs_id b0" ?b] hit Some
      by (simp add: put_blind_spot_def)
    moreover have "case_part ?u = case_part db" "incident_state ?u i = incident_state db i"
      by (simp_all add: put_blind_spot_def incident_state_def get_incident_by_id_def case_part_def base_part_def report_part_def)
    moreover note p = publish_blind_spot_effect [OF pub, of i]
    ultimately show ?thesis using observed_parts(3) [of db' ?u] case_part_of [of db' ?u]
      by (simp add: open_gap_def)
  qed
  then show ?thesis by (auto simp: open_blind_spot_def and_then_def open_gap_def)
qed

lemma open_blind_spot_flush:
  fixes db :: "'a full_db_scheme"
  assumes "open_blind_spot K e iid f r g d db = Inr (None, db)"
  shows "open_blind_spot K e iid f r g d (flush db) = Inr (None, flush db)"
proof -
  have "publish_blind_spot e iid t b u \<noteq> Inr (None, v)" for t b and u v :: "'a full_db_scheme"
    using publish_blind_spot_effect [of e iid t b u None v] by auto
  then show ?thesis using assms unfolding open_blind_spot_def Let_def
    by (auto simp: and_then_Inr and_then_def split: option.splits sum.splits if_splits)
qed

theorem detection_repeated_does_nothing:
  fixes db db' :: "'a full_db_scheme"
  assumes run: "run_report_blind_spot_detection K e iid fid n (Some due_t) (Some g) db = Inr (Some b, db')"
    and f: "get_fragment db fid = Some f"
    and here: "same_location K (fragment_place f) (fragment_place f) = Inr True"
    and later: "now e \<le> now e'"
  shows "run_report_blind_spot_detection K e' iid fid n (Some due_t) (Some g) db' = Inr (None, flush db')"
proof -
  have f0: "get_fragment (flush db) fid = Some f" using f by (simp add: get_fragment_def)
  obtain inc r where inc: "get_incident_by_id (flush db) iid = Some inc" and det: "detectable inc f n"
    and r: "find_report (flush db) (case fg_source_ref_id f of None \<Rightarrow> [] | Some i \<Rightarrow> i) = Some r"
      "\<not> (rp_deleted_at r \<noteq> None \<or> rp_status r = ''invalid'')" and due_e: "\<not> now e < due_t"
    and ans: "answered K f (flush db) = Inr None"
    and opened: "open_blind_spot K e iid f r g due_t (flush db) = Inr (Some b, db')"
    using run f0 unfolding run_report_blind_spot_detection_def Let_def
    by (auto simp: and_then_Inr split: option.splits if_splits)
  obtain k where k: "fg_claim_key f = Some k" using det by (auto simp: detectable_def or_else_def split: option.splits)
  note again = open_blind_spot_again [OF opened here k]
  have c: "case_part (flush db') = case_part (flush db)" and st: "incident_state (flush db') iid = incident_state (flush db) iid"
    using again [of e' r g due_t iid] by simp_all
  from c have same: "db_fragments (flush db') = db_fragments (flush db)" "db_reports (flush db') = db_reports (flush db)"
    by (simp_all add: case_part_def base_part_def report_part_def)
  from st inc obtain inc' where inc': "get_incident_by_id (flush db') iid = Some inc'" "inc_status inc' = inc_status inc"
    by (auto simp: incident_state_def)
  have "inc_id inc' = inc_id inc" using inc inc'(1) by (auto simp: get_incident_by_id_def dest!: find_SomeD)
  then have "detectable inc' f n" using det inc'(2) by (simp add: detectable_def)
  moreover have "get_fragment (flush db') fid = Some f" using f0 same(1) by (simp add: get_fragment_def)
  moreover have "find_report (flush db') i = find_report (flush db) i" for i using same(2) by (simp add: find_report_def)
  moreover have "answered K f (flush db') = Inr None"
    using ans same by (simp add: answered_def report_fragment_is_active_def)
  moreover have "open_blind_spot K e' iid f r g due_t (flush db') = Inr (None, flush db')"
    by (rule open_blind_spot_flush) (use again in blast)
  ultimately show ?thesis using inc' r later due_e
    by (simp add: run_report_blind_spot_detection_def and_then_def)
qed

definition demo_unknown :: fragment where
  "demo_unknown = demo_fragment\<lparr>fg_claim_value := Some ''unknown'', fg_location_text := [2]\<rparr>"

lemma unlocated_blind_spot_shown:
  "bs_latitude b = None \<Longrightarrow> \<exists>d. upsert_blind_spot_map_feature e b db = Inr d"
  by (simp add: upsert_blind_spot_map_feature_def upsert_map_feature_def position_of_def Let_def
      split: option.split)

theorem detection_repeated_does_nothing_witness:
  "\<exists>b db'. run_report_blind_spot_detection demo_observing demo_env ''inc'' ''f1'' 2 (Some 0) (Some 0)
      ((demo_full_db demo_incident [demo_report] [] [])\<lparr>db_fragments := [demo_unknown]\<rparr>) = Inr (Some b, db')
    \<and> run_report_blind_spot_detection demo_observing demo_env ''inc'' ''f1'' 2 (Some 0) (Some 0) db'
        = Inr (None, flush db')"
proof -
  let ?db = "(demo_full_db demo_incident [demo_report] [] [])\<lparr>db_fragments := [demo_unknown]\<rparr>"
  have quiet: "flush ?db = ?db" by (simp add: flush_def demo_full_db_def)
  have f: "get_fragment ?db ''f1'' = Some demo_unknown"
    by (simp add: get_fragment_def demo_unknown_def demo_fragment_def)
  have rows: "get_incident_by_id ?db ''inc'' = Some demo_incident" "find_report ?db ''r1'' = Some demo_report"
    by (simp_all add: get_incident_by_id_def find_report_def demo_full_db_def demo_incident_def demo_report_def)
  have here: "same_location demo_observing (fragment_place demo_unknown) (fragment_place demo_unknown) = Inr True"
    by (simp add: same_location_def located_def fragment_place_def demo_unknown_def demo_fragment_def
        normalized_location_def demo_observing_def uni_space_def spaces_def)
  have ans: "answered demo_observing demo_unknown ?db = Inr None"
    by (simp add: answered_def)
  let ?b = "new_blind_spot demo_observing demo_env 0 ''inc'' demo_unknown demo_report 0 0"
  let ?u = "?db\<lparr>db_blind_spots := [?b], id_count := Suc 0\<rparr>"
  have "bs_latitude ?b = None" by (simp add: new_blind_spot_def demo_unknown_def demo_fragment_def)
  from unlocated_blind_spot_shown [OF this]
  obtain d where "upsert_blind_spot_map_feature demo_env ?b (flush ?u) = Inr d" by blast
  then obtain db' where pub: "publish_blind_spot demo_env ''inc'' ''blind_spot.created'' ?b ?u = Inr (Some ?b, db')"
    by (simp add: publish_blind_spot_def and_then_def)
  have "id_count ?db = 0" "db_blind_spots ?db = []" by (simp_all add: demo_full_db_def)
  then have "open_blind_spot demo_observing demo_env ''inc'' demo_unknown demo_report 0 0 ?db = Inr (Some ?b, db')"
    using pub by (simp add: open_blind_spot_def and_then_def)
  moreover have "detectable demo_incident demo_unknown 2" "rp_deleted_at demo_report = None" "rp_status demo_report = ''new''"
    "fg_source_ref_id demo_unknown = Some ''r1''" "0 \<le> now demo_env"
    by (simp_all add: detectable_def demo_incident_def demo_unknown_def demo_fragment_def or_else_def demo_report_def demo_env_def)
  ultimately have run: "run_report_blind_spot_detection demo_observing demo_env ''inc'' ''f1'' 2 (Some 0) (Some 0) ?db
      = Inr (Some ?b, db')"
    unfolding run_report_blind_spot_detection_def quiet Let_def f rows(1)
    using rows(2) by (simp add: and_then_def ans)
  from detection_repeated_does_nothing [OF run f here order_refl] run show ?thesis by blast
qed

end
