(* ===== verification/ReportRules.thy ===== *)
theory ReportRules
  imports Reports ObservationLaws
begin

text \<open>
  What holds of the reports whatever the handlers do: their history, their revisions, their
  status and their priority, over every sequence of handler calls; and who may change them.
\<close>

section \<open>What the handlers do to the tables of the reports\<close>

definition report_tables :: "'a full_db_scheme \<Rightarrow> report list \<times> report_revision list" where
  "report_tables db = (db_reports db, db_report_revisions db)"

lemma report_tables_of_part: "report_part db' = report_part db \<Longrightarrow> report_tables db' = report_tables db"
  by (simp add: report_part_def report_tables_def)

lemma notify_tables [simp]:
  fixes db :: "'a full_db_scheme"
  shows "report_tables (snd (notify_accounts cfg e iid n as db)) = report_tables db"
proof (induction as arbitrary: db)
  case (Cons a as)
  show ?case using Cons
    by (auto simp: Let_def report_tables_def split: option.split)
qed (simp add: report_tables_def)

lemma report_tables_frames [simp]:
  fixes db :: "'a full_db_scheme"
  shows "report_tables (flush db) = report_tables db"
    "report_tables (record_audit e a ai ac rty rid2 rq db) = report_tables db"
    "report_tables (emit_report_event e inc t r pl db) = report_tables db"
    "report_tables (upsert_report_map_feature e r db) = report_tables db"
    "report_tables (notify_operators S e inc n db) = report_tables db"
proof -
  have emit: "report_part (snd (emit_event e i em db)) = report_part db" for i em
    using observed_parts(4) [OF emit_frame] .
  show "report_tables (flush db) = report_tables db"
    "report_tables (record_audit e a ai ac rty rid2 rq db) = report_tables db"
    by (simp_all add: report_tables_def flush_def record_audit_def)
  show "report_tables (emit_report_event e inc t r pl db) = report_tables db"
    unfolding emit_report_event_def by (rule report_tables_of_part) (rule emit)
  show "report_tables (upsert_report_map_feature e r db) = report_tables db"
    by (simp add: upsert_report_map_feature_def Let_def report_tables_def flush_def split: option.split)
  show "report_tables (notify_operators S e inc n db) = report_tables db"
    by (simp add: notify_operators_def enqueue_operator_notifications_def)
qed

text \<open>A report written back with a row of its history.\<close>

definition changed_tables ::
    "report_settings \<Rightarrow> report \<Rightarrow> report_revision \<Rightarrow> report list \<times> report_revision list
      \<Rightarrow> report list \<times> report_revision list" where
  "changed_tables S r v t = (modify_where (\<lambda>x. rp_id x = rp_id r) (\<lambda>_. r) (fst t), snd t @ [v])"

text \<open>The row of the history belongs to the report: its id, its revision, its state.\<close>

definition row_of :: "report_settings \<Rightarrow> report \<Rightarrow> report_revision \<Rightarrow> bool" where
  "row_of S r v \<longleftrightarrow> rr_report_id v = rp_id r \<and> rr_revision v = rp_revision r \<and> rr_snapshot v = history_state S r"

lemma add_revision_tables:
  fixes db :: "'a full_db_scheme"
  assumes "report_tables db = report_tables (put_report r db0)" "snapshot = history_state S r"
  shows "\<exists>v. row_of S r v \<and> report_tables (add_revision S e a reason snapshot r db) = changed_tables S r v (report_tables db0)"
  using assms
  by (intro exI [of _ "report_revision_row S e (id_count db) a reason snapshot r"])
    (simp add: add_revision_def report_tables_def changed_tables_def put_report_def row_of_def report_revision_row_def)

lemma log_change_tables:
  fixes db :: "'a full_db_scheme"
  assumes "report_tables db = report_tables (put_report r db0)" "rp_deleted_at r = None"
  shows "\<exists>v. row_of S r v \<and> report_tables (log_change S c inc reason ac r db) = changed_tables S r v (report_tables db0)"
  unfolding log_change_def using add_revision_tables [OF assms(1), of "report_state (rs_real S) r" S] assms(2)
  by (simp add: history_state_def)

lemma announce_tables [simp]:
  fixes db :: "'a full_db_scheme"
  shows "report_tables (announce_change S c inc t r db) = report_tables db"
    "report_tables (snd (announce_and_notify S c inc t ti bo r db)) = report_tables db"
  by (simp_all add: announce_change_def announce_and_notify_def Let_def)

section \<open>The guards\<close>

lemma open_report_facts:
  assumes "open_report c i n db = Inr (r, inc)"
  shows "find_report db i = Some r \<and> rp_id r = i \<and> rp_deleted_at r = None \<and> rp_revision r = n
    \<and> assert_report_access (rc_actor c) r True = Inr () \<and> get_incident_by_id db (rp_incident_id r) = Some inc"
  using assms unfolding open_report_def
  by (auto simp: and_then_Inr get_report_def incident_for_report_def find_report_def
      split: option.splits if_splits dest: find_SomeD)

text \<open>What the change of a report keeps: its identity, its owner, the time of its creation.\<close>

definition same_report :: "report \<Rightarrow> report \<Rightarrow> bool" where
  "same_report r r' \<longleftrightarrow> rp_id r' = rp_id r \<and> rp_incident_id r' = rp_incident_id r
     \<and> rp_reporter_device_id r' = rp_reporter_device_id r \<and> rp_created_at r' = rp_created_at r
     \<and> rp_is_directed_answer r' = rp_is_directed_answer r"

lemma same_report_refl [simp]: "same_report r r"
  by (simp add: same_report_def)

lemma prioritized_simps [simp]:
  "rp_id (prioritized a r) = rp_id r" "rp_incident_id (prioritized a r) = rp_incident_id r"
  "rp_reporter_device_id (prioritized a r) = rp_reporter_device_id r"
  "rp_created_at (prioritized a r) = rp_created_at r" "rp_deleted_at (prioritized a r) = rp_deleted_at r"
  "rp_is_directed_answer (prioritized a r) = rp_is_directed_answer r"
  "rp_revision (prioritized a r) = rp_revision r" "rp_status (prioritized a r) = rp_status r"
  "rp_is_urgent (prioritized a r) = rp_is_urgent r" "rp_manual_priority (prioritized a r) = rp_manual_priority r"
  by (simp_all add: prioritized_def split: prod.split)

lemma advanced_simps [simp]:
  "rp_id (advanced e r) = rp_id r" "rp_incident_id (advanced e r) = rp_incident_id r"
  "rp_reporter_device_id (advanced e r) = rp_reporter_device_id r"
  "rp_created_at (advanced e r) = rp_created_at r" "rp_deleted_at (advanced e r) = rp_deleted_at r"
  "rp_is_directed_answer (advanced e r) = rp_is_directed_answer r"
  "rp_revision (advanced e r) = rp_revision r + 1" "rp_status (advanced e r) = rp_status r"
  "rp_is_urgent (advanced e r) = rp_is_urgent r" "rp_priority (advanced e r) = rp_priority r"
  by (simp_all add: advanced_def)

lemma prioritized_urgent: "rp_is_urgent r \<Longrightarrow> rp_priority (prioritized a r) = ''high''"
  by (simp add: prioritized_def effective_priority_def priority_name_def)

lemma apply_location_keeps:
  "apply_location S e l r = Inr r' \<Longrightarrow> same_report r r' \<and> rp_revision r' = rp_revision r
     \<and> rp_deleted_at r' = rp_deleted_at r \<and> rp_status r' = rp_status r \<and> rp_is_urgent r' = rp_is_urgent r
     \<and> rp_priority r' = rp_priority r"
  unfolding apply_location_def Let_def same_report_def
  by (auto simp: map_sum_Inr split: option.splits if_splits)

text \<open>A report written over its row, one revision on, with its row of the history.\<close>

definition rewritten ::
    "report_settings \<Rightarrow> report \<Rightarrow> report \<Rightarrow> 'a full_db_scheme \<Rightarrow> 'a full_db_scheme \<Rightarrow> bool" where
  "rewritten S r0 r db db' \<longleftrightarrow>
     find_report db (rp_id r0) = Some r0 \<and> rp_deleted_at r0 = None \<and> same_report r0 r
     \<and> rp_revision r = rp_revision r0 + 1
     \<and> (\<exists>v. row_of S r v \<and> report_tables db' = changed_tables S r v (report_tables db))"

section \<open>What each handler does\<close>

lemma put_tables_cong:
  "report_tables db = report_tables db' \<Longrightarrow> report_tables (put_report r db) = report_tables (put_report r db')"
  by (simp add: report_tables_def put_report_def)

lemma patched_fields_keeps:
  "patched_fields S e p r0 = Inr r \<Longrightarrow> same_report r0 r \<and> rp_revision r = rp_revision r0
     \<and> rp_deleted_at r = rp_deleted_at r0 \<and> rp_status r = rp_status r0"
  unfolding patched_fields_def Let_def
  by (auto simp: and_then_Inr same_report_def split: option.splits dest!: apply_location_keeps)

lemma patched_contact_keeps:
  fixes db db' :: "'a full_db_scheme"
  shows "patched_contact S e inc p r0 db = Inr (r, db') \<Longrightarrow> report_tables db' = report_tables db
     \<and> same_report r0 r \<and> rp_revision r = rp_revision r0
     \<and> rp_deleted_at r = rp_deleted_at r0 \<and> rp_status r = rp_status r0"
  unfolding patched_contact_def
  by (auto simp: and_then_Inr same_report_def report_tables_def flush_def split: option.splits)

lemma bind_attachments_keeps:
  fixes db db' :: "'a full_db_scheme"
  shows "bind_attachments r0 ids db = Inr (r, db') \<Longrightarrow> report_tables db' = report_tables db
     \<and> (\<exists>n. r = r0\<lparr>rp_attachment_count := n\<rparr>)"
  unfolding bind_attachments_def
  by (auto simp: report_tables_def split: if_splits sum.splits)

lemma patched_attachments_keeps:
  fixes db db' :: "'a full_db_scheme"
  assumes "patched_attachments p r0 db = Inr (r, db')"
  shows "report_tables db' = report_tables db \<and> same_report r0 r \<and> rp_revision r = rp_revision r0
     \<and> rp_deleted_at r = rp_deleted_at r0 \<and> rp_status r = rp_status r0"
  using assms unfolding patched_attachments_def replace_attachments_def
  by (auto simp: report_tables_def flush_def same_report_def split: option.splits
      dest!: bind_attachments_keeps)

lemma same_report_trans: "same_report a b \<Longrightarrow> same_report b c \<Longrightarrow> same_report a c"
  by (simp add: same_report_def)

lemma same_advanced [simp]:
  "same_report r (advanced e r') = same_report r r'" "same_report r (prioritized a r') = same_report r r'"
  by (simp_all add: same_report_def)

definition observe_patch ::
    "report_settings \<Rightarrow> call \<Rightarrow> incident \<Rightarrow> report_patch \<Rightarrow> report \<Rightarrow> 'a full_db_scheme
      \<Rightarrow> api_error + 'a full_db_scheme" where
  "observe_patch S c inc p r db =
     (if touches_observation p
      then process_report_observation (rs_observing S) (rc_env c) inc r (Some (rc_actor c)) (rc_request_id c) db
      else Inr db)"

lemma observe_patch_tables:
  fixes db db' :: "'a full_db_scheme"
  shows "observe_patch S c inc p r db = Inr db' \<Longrightarrow> report_tables db' = report_tables db"
  unfolding observe_patch_def by (auto split: if_splits dest!: process_report_part report_tables_of_part)

lemma patch_effect:
  fixes db db' :: "'a full_db_scheme"
  assumes run: "patch_report S c i p db = Inr (j, db')"
  shows "\<exists>r0 r. rewritten S r0 r db db' \<and> rp_id r0 = i \<and> rp_revision r0 = pt_revision p
    \<and> rp_status r = rp_status r0 \<and> (rp_is_urgent r \<longrightarrow> rp_priority r = ''high'')
    \<and> assert_report_access (rc_actor c) r0 True = Inr ()"
proof -
  obtain r0 inc r1 r2 db1 r3 db2 refinement r db4 where
    opened: "open_report c i (pt_revision p) db = Inr (r0, inc)"
    and fields: "patched_fields S (rc_env c) p r0 = Inr r1"
    and contact: "patched_contact S (rc_env c) inc p r1 db = Inr (r2, db1)"
    and files: "patched_attachments p r2 db1 = Inr (r3, db2)"
    and observed: "observe_patch S c inc p r (announce_change S c inc ''report.updated'' r
        (log_change S c inc (codes ''resident_update'') ''report.updated'' r
          (put_report r (flush db2)))) = Inr db4" and r: "r = advanced (rc_env c) (prioritized refinement r3)"
    and result: "db' = db4"
    using run unfolding patch_report_def Let_def observe_patch_def [symmetric]
    by (auto simp: and_then_Inr split: if_splits prod.splits)
  define db3 where "db3 = log_change S c inc (codes ''resident_update'') ''report.updated'' r
    (put_report r (flush db2))"
  have guards: "find_report db i = Some r0" "rp_id r0 = i" "rp_deleted_at r0 = None"
    "rp_revision r0 = pt_revision p" "assert_report_access (rc_actor c) r0 True = Inr ()"
    using open_report_facts [OF opened] by auto
  have tables: "report_tables db2 = report_tables db"
    using patched_contact_keeps [OF contact] patched_attachments_keeps [OF files] by simp
  have same: "same_report r0 r3" "rp_revision r3 = rp_revision r0" "rp_deleted_at r3 = None"
    "rp_status r3 = rp_status r0"
    using patched_fields_keeps [OF fields] patched_contact_keeps [OF contact]
      patched_attachments_keeps [OF files] guards(3) by (auto intro: same_report_trans)
  have "report_tables db4 = report_tables db3"
    using observe_patch_tables [OF observed] by (simp add: db3_def)
  moreover have "\<exists>v. row_of S r v \<and> report_tables db3 = changed_tables S r v (report_tables db)"
    unfolding db3_def by (rule log_change_tables)
      (use tables same(3) in \<open>auto intro: put_tables_cong simp: r advanced_def\<close>)
  ultimately have "rewritten S r0 r db db'"
    using guards same result by (simp add: rewritten_def r)
  then show ?thesis using guards same
    by (intro exI [of _ r0] exI [of _ r]) (simp add: r prioritized_urgent)
qed

lemma follow_status_tables:
  fixes db db' :: "'a full_db_scheme"
  shows "follow_status S c inc st r db = Inr db' \<Longrightarrow> report_tables db' = report_tables db"
  unfolding follow_status_def
  by (auto split: if_splits dest!: process_report_part deactivate_report_part report_tables_of_part)

lemma status_effect:
  fixes db db' :: "'a full_db_scheme"
  assumes run: "patch_report_status S c i p db = Inr (j, db')"
  shows "\<exists>r0 r. rewritten S r0 r db db' \<and> rp_id r0 = i \<and> rp_revision r0 = sq_revision p
    \<and> rp_status r = sq_status p \<and> sq_status p \<in> set (status_after (rp_status r0))
    \<and> rp_is_urgent r = rp_is_urgent r0 \<and> rp_priority r = rp_priority r0
    \<and> (rp_status r0 = ''invalid'' \<longrightarrow> ac_role (rc_actor c) = ''admin'')
    \<and> assert_report_access (rc_actor c) r0 True = Inr ()"
proof -
  obtain r0 inc r db1 where
    opened: "open_report c i (sq_revision p) db = Inr (r0, inc)"
    and r: "r = (advanced (rc_env c) r0)\<lparr>rp_status := sq_status p\<rparr>"
    and guards: "\<not> (rp_status r0 = ''invalid'' \<and> sq_status p = ''acknowledged'' \<and> ac_role (rc_actor c) \<noteq> ''admin'')"
      "sq_status p \<in> set (status_after (rp_status r0))"
    and follow: "follow_status S c inc (rp_status r0) r (put_report r db) = Inr db1"
    and result: "announce_and_notify S c inc ''report.status_changed'' status_title status_body r
      (log_change S c inc (reason_or (sq_note p) ''status_update'') ''report.status_updated'' r db1) = (j, db')"
    using run unfolding patch_report_status_def Let_def
    by (auto simp: and_then_Inr split: if_splits prod.splits)
  have facts: "find_report db i = Some r0" "rp_id r0 = i" "rp_deleted_at r0 = None"
    "rp_revision r0 = sq_revision p" "assert_report_access (rc_actor c) r0 True = Inr ()"
    using open_report_facts [OF opened] by auto
  have "\<exists>v. row_of S r v \<and> report_tables (log_change S c inc (reason_or (sq_note p) ''status_update'')
      ''report.status_updated'' r db1) = changed_tables S r v (report_tables db)"
    by (rule log_change_tables) (use facts follow_status_tables [OF follow] in \<open>auto simp: r advanced_def\<close>)
  then have "rewritten S r0 r db db'"
    using facts arg_cong [OF result, of snd, symmetric] by (simp add: rewritten_def r same_report_def)
  moreover have "rp_status r0 = ''invalid'' \<longrightarrow> ac_role (rc_actor c) = ''admin''"
    using guards by (auto simp: status_after_def allowed_status_transitions_def)
  ultimately show ?thesis using facts guards(2)
    by (intro exI [of _ r0] exI [of _ r]) (simp add: r)
qed

lemma priority_effect:
  fixes db db' :: "'a full_db_scheme"
  assumes run: "patch_report_priority S c i p db = Inr (j, db')"
  shows "\<exists>r0 r. rewritten S r0 r db db' \<and> rp_id r0 = i \<and> rp_revision r0 = pq_revision p
    \<and> rp_status r = rp_status r0 \<and> (rp_is_urgent r \<longrightarrow> rp_priority r = ''high'')
    \<and> assert_report_access (rc_actor c) r0 True = Inr ()"
proof -
  obtain r0 inc r1 refinement r where
    opened: "open_report c i (pq_revision p) db = Inr (r0, inc)"
    and r1: "r1 = r0\<lparr>rp_manual_priority := map_option priority_name (pq_priority p)\<rparr>"
    and r: "r = advanced (rc_env c) (prioritized refinement r1)"
    and result: "announce_and_notify S c inc ''report.priority_updated'' priority_title priority_body r
      (log_change S c inc (reason_or (pq_note p) ''manual_priority'') ''report.priority_updated'' r
        (put_report r (flush db))) = (j, db')"
    using run unfolding patch_report_priority_def Let_def
    by (auto simp: and_then_Inr split: if_splits prod.splits)
  have facts: "find_report db i = Some r0" "rp_id r0 = i" "rp_deleted_at r0 = None"
    "rp_revision r0 = pq_revision p" "assert_report_access (rc_actor c) r0 True = Inr ()"
    using open_report_facts [OF opened] by auto
  have "\<exists>v. row_of S r v \<and> report_tables (log_change S c inc (reason_or (pq_note p) ''manual_priority'')
      ''report.priority_updated'' r (put_report r (flush db))) = changed_tables S r v (report_tables db)"
    by (rule log_change_tables) (use facts in \<open>auto intro!: put_tables_cong simp: r r1 advanced_def\<close>)
  then have "rewritten S r0 r db db'"
    using facts arg_cong [OF result, of snd, symmetric] by (simp add: rewritten_def r r1 same_report_def)
  then show ?thesis using facts
    by (intro exI [of _ r0] exI [of _ r]) (simp add: r r1 prioritized_urgent)
qed

lemma delete_effect:
  fixes db db' :: "'a full_db_scheme"
  assumes run: "delete_report S c i p db = Inr (j, db')"
  shows "\<exists>r0 r. rewritten S r0 r db db' \<and> rp_id r0 = i \<and> rp_revision r0 = dq_revision p
    \<and> rp_deleted_at r \<noteq> None \<and> rp_status r = rp_status r0 \<and> rp_is_urgent r = rp_is_urgent r0
    \<and> rp_priority r = rp_priority r0 \<and> assert_report_access (rc_actor c) r0 True = Inr ()"
proof -
  obtain r0 inc r db1 where
    found: "get_report db i = Inr r0" and access: "assert_report_access (rc_actor c) r0 True = Inr ()"
    and seen: "rp_revision r0 = dq_revision p"
    and r: "r = (advanced (rc_env c) r0)\<lparr>rp_deleted_at := Some (now (rc_env c))\<rparr>"
    and gone: "deactivate_report_observation (rs_observing S) (rc_env c) inc r (Some (rc_actor c))
        (rc_request_id c) ''source_report_deleted'' (put_report r db) = Inr db1"
    and result: "db' = emit_report_event (rc_env c) inc ''report.deleted'' r (tombstone (rc_env c) r)
       (record_audit (rc_env c) (Some (rc_actor c)) (Some (inc_id inc)) ''report.deleted'' ''report''
         (Some (rp_id r)) (rc_request_id c) (upsert_report_map_feature (rc_env c) r
          (add_revision S (rc_env c) (rc_actor c) (codes ''resident_deleted'') (history_state S r) r db1)))"
    using run unfolding delete_report_def Let_def
    by (auto simp: and_then_Inr split: if_splits prod.splits)
  have facts: "find_report db i = Some r0" "rp_id r0 = i" "rp_deleted_at r0 = None"
    using found by (auto simp: get_report_def find_report_def split: option.splits if_splits dest: find_SomeD)
  have "\<exists>v. row_of S r v \<and> report_tables (add_revision S (rc_env c) (rc_actor c)
      (codes ''resident_deleted'') (history_state S r) r db1) = changed_tables S r v (report_tables db)"
    by (rule add_revision_tables) (use report_tables_of_part [OF deactivate_report_part [OF gone]] in simp_all)
  then have "rewritten S r0 r db db'"
    using facts by (simp add: rewritten_def r result same_report_def)
  then show ?thesis using facts access seen
    by (intro exI [of _ r0] exI [of _ r]) (simp add: r)
qed

text \<open>The identifiers a request is given (version 7 UUIDs) name no report yet.\<close>

definition fresh_ids :: "env \<Rightarrow> 'a full_db_scheme \<Rightarrow> bool" where
  "fresh_ids e db \<longleftrightarrow> (\<forall>r\<in>set (db_reports db). rp_id r \<notin> range (new_id e))"

text \<open>A first report with its first row of the history, behind the others.\<close>

definition added ::
    "report_settings \<Rightarrow> env \<Rightarrow> actor \<Rightarrow> report \<Rightarrow> 'a full_db_scheme \<Rightarrow> 'a full_db_scheme \<Rightarrow> bool" where
  "added S e a r db db' \<longleftrightarrow>
     rp_id r \<in> range (new_id e) \<and> rp_revision r = 1 \<and> rp_deleted_at r = None \<and> rp_status r = ''new''
     \<and> rp_reporter_device_id r = ac_subject_id a \<and> (rp_is_urgent r \<longrightarrow> rp_priority r = ''high'')
     \<and> (\<exists>v. row_of S r v \<and> report_tables db' = (db_reports db @ [r], db_report_revisions db @ [v]))"

lemma modify_last:
  "list_all (\<lambda>x. \<not> P x) xs \<Longrightarrow> P r0 \<Longrightarrow> modify_where P (\<lambda>_. r) (xs @ [r0]) = xs @ [r]"
  by (induction xs) auto

lemma put_new_report:
  fixes db0 db1 :: "'a full_db_scheme"
  assumes "fresh_ids e db0" "db_reports db1 = db_reports db0 @ [r0]"
    "rp_id r0 = rp_id r" "rp_id r \<in> range (new_id e)"
  shows "db_reports (put_report r db1) = db_reports db0 @ [r]"
proof -
  have "list_all (\<lambda>x. rp_id x \<noteq> rp_id r) (db_reports db0)"
    unfolding list_all_iff using assms(1,4) unfolding fresh_ids_def by metis
  from modify_last [OF this, of r0 r] show ?thesis using assms(2,3) by (simp add: put_report_def)
qed

lemma create_effect:
  fixes db db' :: "'a full_db_scheme"
  assumes run: "create_report S e inc a p db = Inr (r, db')" and fresh: "fresh_ids e db"
  shows "added S e a r db db'"
proof -
  obtain refinement contact r0 db2 db3 where
    place: "apply_location S e (rn_location p)
       (prioritized refinement (new_report e (Suc (id_count db)) inc a p (ct_id contact))) = Inr r0"
    and db2: "db2 = db\<lparr>pending_stale := [], db_contacts := db_contacts db @ [contact],
      db_reports := db_reports db @ [r0], id_count := Suc (Suc (id_count db))\<rparr>"
    and bound: "bind_attachments r0 (rn_attachment_ids p) db2 = Inr (r, db3)"
    and result: "db' = upsert_report_map_feature e r
       (add_revision S e a (codes ''created'') (report_state (rs_real S) r) r (put_report r db3))"
    using run unfolding create_report_def Let_def
    by (auto simp: and_then_Inr flush_def split: if_splits prod.splits)
  have rows: "db_reports db2 = db_reports db @ [r0]" "db_report_revisions db2 = db_report_revisions db"
    by (simp_all add: db2)
  obtain n where r: "r = r0\<lparr>rp_attachment_count := n\<rparr>" and same: "report_tables db3 = report_tables db2"
    using bind_attachments_keeps [OF bound] by blast
  have first: "rp_id r0 \<in> range (new_id e)" "rp_revision r0 = 1" "rp_deleted_at r0 = None"
    "rp_status r0 = ''new''" "rp_reporter_device_id r0 = ac_subject_id a"
    "rp_is_urgent r0 \<longrightarrow> rp_priority r0 = ''high''"
    using apply_location_keeps [OF place] prioritized_urgent
    by (auto simp: same_report_def new_report_def)
  define v where "v = report_revision_row S e (id_count db3) a (codes ''created'') (report_state (rs_real S) r) r"
  have "report_tables (add_revision S e a (codes ''created'') (report_state (rs_real S) r) r (put_report r db3))
      = (db_reports db @ [r], db_report_revisions db @ [v])"
    using put_new_report [OF fresh, of db3 r0 r] same rows first(1)
    by (simp add: report_tables_def add_revision_def v_def r put_report_def)
  moreover have "row_of S r v"
    using first(3) by (simp add: row_of_def v_def report_revision_row_def history_state_def r)
  ultimately show ?thesis using first by (auto simp: added_def result r)
qed

lemma created_tables:
  fixes db db' :: "'a full_db_scheme"
  assumes "report_created S c inc i r db = Inr (j, db')"
  shows "report_tables db' = report_tables db"
proof -
  obtain db4 n where "report_tables db4 = report_tables db"
      "db' = (notify_operators S (rc_env c) inc n db4)\<lparr>db_idempotency :=
         finish_reservation i 201 j (db_idempotency (notify_operators S (rc_env c) inc n db4))\<rparr>"
    using assms unfolding report_created_def Let_def
    by (auto simp: and_then_Inr dest!: process_report_part report_tables_of_part)
  then show ?thesis
    using report_tables_frames(5) [of S "rc_env c" inc n db4] by (simp add: report_tables_def)
qed

lemma post_effect:
  fixes db db' :: "'a full_db_scheme"
  assumes run: "post_report S c name p key db = Inr (j, db')" and fresh: "fresh_ids (rc_env c) db"
  shows "db' = db \<or> (\<exists>r. added S (rc_env c) (rc_actor c) r db db')"
proof -
  consider "db' = db"
    | inc rows i r db1 where "create_report S (rc_env c) inc (rc_actor c) p
          (db\<lparr>db_idempotency := rows, id_count := Suc (id_count db)\<rparr>) = Inr (r, db1)"
        "report_created S c inc i r db1 = Inr (j, db')"
  proof -
    obtain inc where inc: "(case replay_or_reserve (rs_idempotency_window S) (now (rc_env c))
              (new_id (rc_env c) (id_count db)) (rc_actor c)
              (''POST:/incidents/'' @ inc_id inc @ ''/reports'') key (rs_digest S p) (db_idempotency db) of
          (Inl err, _) \<Rightarrow> Inl err
        | (Inr (Inr body), _) \<Rightarrow> Inr (body, db)
        | (Inr (Inl reservation), rows) \<Rightarrow>
            and_then (create_report S (rc_env c) inc (rc_actor c) p
                (db\<lparr>db_idempotency := rows, id_count := Suc (id_count db)\<rparr>))
              (\<lambda>(r, db1). report_created S c inc reservation r db1)) = Inr (j, db')"
      using run unfolding post_report_def by (auto simp: and_then_Inr)
    obtain out rows where "replay_or_reserve (rs_idempotency_window S) (now (rc_env c))
        (new_id (rc_env c) (id_count db)) (rc_actor c)
        (''POST:/incidents/'' @ inc_id inc @ ''/reports'') key (rs_digest S p) (db_idempotency db) = (out, rows)"
      by fastforce
    with inc that show thesis by (cases out) (auto simp: and_then_Inr split: sum.splits)
  qed
  then show ?thesis
  proof cases
    case 2
    have "fresh_ids (rc_env c) (db\<lparr>db_idempotency := rows, id_count := Suc (id_count db)\<rparr>)"
      using fresh by (simp add: fresh_ids_def)
    from create_effect [OF 2(1) this] have "added S (rc_env c) (rc_actor c) r db db'"
      using created_tables [OF 2(2)] by (simp add: added_def)
    then show ?thesis by blast
  qed simp
qed

section \<open>Any change, and the life of the reports\<close>

datatype report_change =
    Edit report_patch
  | Remove report_delete
  | Move report_status_patch
  | Rate report_priority_patch

fun run_change ::
    "report_settings \<Rightarrow> call \<Rightarrow> ident \<Rightarrow> report_change \<Rightarrow> 'a full_db_scheme
      \<Rightarrow> api_error + json \<times> 'a full_db_scheme" where
  "run_change S c i (Edit p) db = patch_report S c i p db"
| "run_change S c i (Remove p) db = delete_report S c i p db"
| "run_change S c i (Move p) db = patch_report_status S c i p db"
| "run_change S c i (Rate p) db = patch_report_priority S c i p db"

text \<open>The revision the client claims to have seen.\<close>

fun seen_revision :: "report_change \<Rightarrow> int" where
  "seen_revision (Edit p) = pt_revision p"
| "seen_revision (Remove p) = dq_revision p"
| "seen_revision (Move p) = sq_revision p"
| "seen_revision (Rate p) = pq_revision p"

definition urgent_high :: "report \<Rightarrow> bool" where
  "urgent_high r \<longleftrightarrow> (rp_is_urgent r \<longrightarrow> rp_priority r = ''high'')"

lemma change_effect:
  fixes db db' :: "'a full_db_scheme"
  assumes "run_change S c i ch db = Inr (j, db')"
  shows "\<exists>r0 r. rewritten S r0 r db db' \<and> rp_id r0 = i \<and> rp_revision r0 = seen_revision ch
    \<and> assert_report_access (rc_actor c) r0 True = Inr ()
    \<and> (urgent_high r0 \<longrightarrow> urgent_high r)
    \<and> (rp_status r = rp_status r0 \<or> rp_status r \<in> set (status_after (rp_status r0)))"
proof (cases ch)
  case (Edit p)
  show ?thesis using patch_effect assms unfolding Edit urgent_high_def by fastforce
next
  case (Remove p)
  show ?thesis using delete_effect assms unfolding Remove urgent_high_def by fastforce
next
  case (Move p)
  show ?thesis using status_effect assms unfolding Move urgent_high_def by fastforce
next
  case (Rate p)
  show ?thesis using priority_effect assms unfolding Rate urgent_high_def by fastforce
qed

text \<open>
  What may happen between two looks at the tables: a report comes in, one is changed, or
  something runs that leaves reports and their history alone.
\<close>

inductive report_step :: "report_settings \<Rightarrow> 'a full_db_scheme \<Rightarrow> 'a full_db_scheme \<Rightarrow> bool"
  for S where
  posted: "fresh_ids (rc_env c) db \<Longrightarrow> post_report S c name p key db = Inr (j, db') \<Longrightarrow> report_step S db db'"
| changed: "run_change S c i ch db = Inr (j, db') \<Longrightarrow> report_step S db db'"
| elsewhere: "report_tables db' = report_tables db \<Longrightarrow> report_step S db db'"

text \<open>The same in terms of rows: nothing, one more report, or one report a revision on.\<close>

lemma report_step_rows:
  fixes db db' :: "'a full_db_scheme"
  assumes "report_step S db db'"
  obtains (same) "report_tables db' = report_tables db"
  | (new) e a r where "fresh_ids e db" "added S e a r db db'"
  | (later) r0 r where "rewritten S r0 r db db'" "urgent_high r0 \<longrightarrow> urgent_high r"
      "rp_status r = rp_status r0 \<or> rp_status r \<in> set (status_after (rp_status r0))"
  using assms
proof cases
  case (posted c name p key j)
  from post_effect [OF posted(2,1)] posted(1) show ?thesis using same new by metis
next
  case (changed c i ch j)
  from change_effect [OF this] show ?thesis using later by blast
qed (rule same)

definition history_of :: "'a full_db_scheme \<Rightarrow> ident \<Rightarrow> report_revision list" where
  "history_of db i = filter (\<lambda>v. rr_report_id v = i) (db_report_revisions db)"

definition history_complete :: "report_settings \<Rightarrow> 'a full_db_scheme \<Rightarrow> bool" where
  "history_complete S db \<longleftrightarrow> distinct (map rp_id (db_reports db))
     \<and> (\<forall>v\<in>set (db_report_revisions db). rr_report_id v \<in> set (map rp_id (db_reports db)))
     \<and> (\<forall>r\<in>set (db_reports db). 1 \<le> rp_revision r
          \<and> map rr_revision (history_of db (rp_id r)) = [1..rp_revision r]
          \<and> rr_snapshot (last (history_of db (rp_id r))) = history_state S r)"

lemma rewritten_rows:
  fixes db db' :: "'a full_db_scheme"
  assumes "rewritten S r0 r db db'"
  obtains v where "row_of S r v" "r0 \<in> set (db_reports db)" "same_report r0 r" "rp_revision r = rp_revision r0 + 1"
    "db_reports db' = modify_where (\<lambda>x. rp_id x = rp_id r) (\<lambda>_. r) (db_reports db)"
    "db_report_revisions db' = db_report_revisions db @ [v]"
  using assms by (auto simp: rewritten_def find_report_def report_tables_def changed_tables_def
      dest: find_SomeD)

lemma rewritten_history:
  fixes db db' :: "'a full_db_scheme"
  assumes run: "rewritten S r0 r db db'" and ok: "history_complete S db"
  shows "history_complete S db'"
proof -
  obtain v where v: "row_of S r v" "r0 \<in> set (db_reports db)" "same_report r0 r" "rp_revision r = rp_revision r0 + 1"
    "db_reports db' = modify_where (\<lambda>x. rp_id x = rp_id r) (\<lambda>_. r) (db_reports db)"
    "db_report_revisions db' = db_report_revisions db @ [v]"
    by (rule rewritten_rows [OF run])
  have id: "rp_id r0 = rp_id r" using v(3) by (simp add: same_report_def)
  have ids: "map rp_id (db_reports db') = map rp_id (db_reports db)"
    unfolding v(5) by (rule map_modify_where) simp
  have old: "1 \<le> rp_revision r0 \<and> map rr_revision (history_of db (rp_id r)) = [1..rp_revision r0]"
    using ok v(2) id by (auto simp: history_complete_def)
  have mine: "history_of db' (rp_id r) = history_of db (rp_id r) @ [v]"
    using v(1,6) by (simp add: history_of_def row_of_def)
  have others: "history_of db' i = history_of db i" if "i \<noteq> rp_id r" for i
    using v(1,6) that by (simp add: history_of_def row_of_def)
  have line: "1 \<le> rp_revision x \<and> map rr_revision (history_of db' (rp_id x)) = [1..rp_revision x]
      \<and> rr_snapshot (last (history_of db' (rp_id x))) = history_state S x"
    if "x \<in> set (db_reports db')" for x
  proof (cases "rp_id x = rp_id r")
    case True
    then have "x = r" using that by (auto simp: v(5) in_modify_where_iff split: if_splits)
    then show ?thesis using mine old v(1,4) upto_rec2 [of 1 "rp_revision r"] by (simp add: row_of_def)
  next
    case False
    then have "x \<in> set (db_reports db)" using that by (auto simp: v(5) in_modify_where_iff split: if_splits)
    then show ?thesis using ok others [OF False] by (simp add: history_complete_def)
  qed
  moreover have "rr_report_id v \<in> set (map rp_id (db_reports db))"
    using v(1,2) id by (auto simp: row_of_def rev_image_eqI)
  ultimately show ?thesis using ok v(6) ids by (auto simp: history_complete_def)
qed

lemma added_history:
  fixes db db' :: "'a full_db_scheme"
  assumes run: "added S e a r db db'" and fresh: "fresh_ids e db" and ok: "history_complete S db"
  shows "history_complete S db'"
proof -
  obtain v where v: "row_of S r v" "db_reports db' = db_reports db @ [r]"
    "db_report_revisions db' = db_report_revisions db @ [v]" "rp_revision r = 1"
    using run by (auto simp: added_def report_tables_def)
  have new: "rp_id r \<notin> set (map rp_id (db_reports db))"
    using run fresh by (auto simp: added_def fresh_ids_def)
  then have "history_of db (rp_id r) = []"
    using ok unfolding history_of_def history_complete_def filter_empty_conv by metis
  moreover have "history_of db' i = (if i = rp_id r then history_of db i @ [v] else history_of db i)" for i
    using v(1,3) by (auto simp: history_of_def row_of_def)
  ultimately show ?thesis using ok new v by (auto simp: history_complete_def row_of_def)
qed

lemma history_kept:
  fixes db db' :: "'a full_db_scheme"
  assumes "report_step S db db'" "history_complete S db"
  shows "history_complete S db'"
  using assms(1)
proof (cases rule: report_step_rows)
  case same
  then show ?thesis using assms(2) by (simp add: history_complete_def history_of_def report_tables_def)
qed (use assms(2) in \<open>blast intro: added_history rewritten_history\<close>)+

definition urgent_kept :: "'a full_db_scheme \<Rightarrow> bool" where
  "urgent_kept db \<longleftrightarrow> list_all urgent_high (db_reports db)"

lemma urgent_step:
  fixes db db' :: "'a full_db_scheme"
  assumes "report_step S db db'" "urgent_kept db"
  shows "urgent_kept db'"
  using assms(1)
proof (cases rule: report_step_rows)
  case (new e a r)
  then show ?thesis using assms(2) by (auto simp: urgent_kept_def urgent_high_def added_def report_tables_def)
next
  case (later r0 r)
  obtain v where "r0 \<in> set (db_reports db)"
    "db_reports db' = modify_where (\<lambda>x. rp_id x = rp_id r) (\<lambda>_. r) (db_reports db)"
    by (rule rewritten_rows [OF later(1)])
  then show ?thesis using assms(2) later(2)
    by (auto simp: urgent_kept_def list_all_iff in_modify_where_iff split: if_splits)
qed (use assms(2) in \<open>simp add: urgent_kept_def report_tables_def\<close>)

interpretation complete: kept_by "report_step S" "history_complete S" for S
  by unfold_locales (rule history_kept)

interpretation urgent: kept_by "report_step S" urgent_kept for S
  by unfold_locales (rule urgent_step)

text \<open>What a report may become: it keeps its identity, moves on one revision at a time, and
  a deleted one stays as it is.\<close>

definition status_leads :: "string \<Rightarrow> string \<Rightarrow> bool" where
  "status_leads = (\<lambda>s t. t \<in> set (status_after s))\<^sup>*\<^sup>*"

definition later_state :: "report \<Rightarrow> report \<Rightarrow> bool" where
  "later_state x y \<longleftrightarrow> y = x \<or> (rp_revision x < rp_revision y \<and> same_report x y
     \<and> rp_deleted_at x = None \<and> status_leads (rp_status x) (rp_status y))"

lemma later_state_trans: "later_state x y \<Longrightarrow> later_state y z \<Longrightarrow> later_state x z"
  unfolding later_state_def status_leads_def by (auto simp: same_report_def)

lemma find_over:
  "find (\<lambda>x. key x = k) (modify_where (\<lambda>x. key x = key r) (\<lambda>_. r) rs)
     = (if k = key r then map_option (\<lambda>_. r) (find (\<lambda>x. key x = k) rs) else find (\<lambda>x. key x = k) rs)"
  by (induction rs) auto

lemma rewritten_find:
  fixes db db' :: "'a full_db_scheme"
  assumes "rewritten S r0 r db db'"
  shows "find_report db' i = (if i = rp_id r0 then Some r else find_report db i)"
proof -
  obtain v where rows: "same_report r0 r" "db_reports db' = modify_where (\<lambda>x. rp_id x = rp_id r) (\<lambda>_. r) (db_reports db)"
    by (rule rewritten_rows [OF assms])
  then have "find_report db' i = (if i = rp_id r then map_option (\<lambda>_. r) (find_report db i) else find_report db i)"
    by (simp add: find_report_def find_over)
  then show ?thesis using assms rows(1) by (auto simp: rewritten_def same_report_def)
qed

lemma report_found_step:
  fixes db db' :: "'a full_db_scheme"
  assumes "report_step S db db'" "find_report db i = Some x"
  shows "\<exists>y. find_report db' i = Some y \<and> later_state x y"
  using assms(1)
proof (cases rule: report_step_rows)
  case same
  then show ?thesis using assms(2) by (simp add: find_report_def report_tables_def later_state_def)
next
  case (new e a r)
  then show ?thesis using assms(2)
    by (auto simp: added_def find_report_def report_tables_def find_append later_state_def)
next
  case (later r0 r)
  then show ?thesis using assms(2)
    by (auto simp: rewritten_find [OF later(1)] rewritten_def later_state_def status_leads_def)
qed

lemma report_found_later:
  fixes db db' :: "'a full_db_scheme"
  assumes "(report_step S)\<^sup>*\<^sup>* db db'" "find_report db i = Some x"
  shows "\<exists>y. find_report db' i = Some y \<and> later_state x y"
  using assms
proof (induction rule: rtranclp_induct)
  case base
  then show ?case by (auto simp: later_state_def)
next
  case (step db1 db2)
  then show ?case by (meson later_state_trans report_found_step)
qed

text \<open>The state a successful change leaves behind.\<close>

lemma change_found:
  fixes db db' :: "'a full_db_scheme"
  assumes "run_change S c i ch db = Inr (j, db')"
  shows "\<exists>r. find_report db' i = Some r \<and> rp_revision r = seen_revision ch + 1"
  using change_effect [OF assms] rewritten_find by (fastforce simp: rewritten_def)

lemma change_needs_seen:
  fixes db db' :: "'a full_db_scheme"
  assumes "run_change S c i ch db = Inr (j, db')" "find_report db i = Some x"
  shows "rp_revision x = seen_revision ch"
  using change_effect [OF assms(1)] assms(2) by (auto simp: rewritten_def)

end
