(* ===== verification/ReportLife.thy ===== *)
theory ReportLife
  imports ReportRules
begin

text \<open>
  The life of the reports over every sequence of handler calls: their history is complete,
  urgent ones keep the high priority, a settled status stays, no update is lost, residents
  change their own reports only, a deleted report speaks for nothing, a retried creation makes
  one report.  First the small world in which the witnesses run the handlers.
\<close>

section \<open>A small world\<close>

text \<open>A report that claims nothing about a road or a place is observed without further effects.\<close>

lemma unclaimed_report_observed:
  fixes db :: "'a full_db_scheme"
  assumes none: "extract_structured_claim K r = None" and inc: "rp_incident_id r = inc_id inc"
    and empty: "db_fragments db = []" "db_blind_spots db = []" "db_jobs db = []"
  shows "\<exists>db'. process_report_observation K e inc r a rid db = Inr db'"
proof -
  let ?f = "report_values K r (blank_fragment (new_id e (id_count db)))"
  let ?db1 = "(flush db)\<lparr>db_fragments := [?f], id_count := Suc (id_count db)\<rparr>"
  have quiet: "flush ?db1 = ?db1" by (simp add: flush_def)
  have up: "upsert_report_fragment K e r db = ((?f, True, True), ?db1)"
    unfolding upsert_report_fragment_def
    by (simp add: find_report_fragment_def Let_def empty flush_def)
  have claim: "fg_claim_value ?f = None" "fg_claim_key ?f = None"
    by (simp_all add: report_values_def none)
  have sched: "schedule_detection K e inc ?f ?db1 = Inr ?db1"
    unfolding schedule_detection_def claim cancel_blind_spot_jobs_def quiet by (simp add: empty flush_def)
  have "get_fragment ?db1 (fg_id ?f) = Some ?f" "resident ?f" "db_blind_spots ?db1 = []"
    by (simp_all add: get_fragment_def resident_def empty)
  from observe_unclaimed [OF claim(2) this]
  obtain db' where "observe_change K e (inc_id inc) a rid True ?f [] [] ?db1 = Inr db'" by blast
  then show ?thesis
    unfolding process_report_observation_def up Let_def prod.case by (simp add: and_then_def sched)
qed

definition demo_settings :: report_settings where
  "demo_settings = \<lparr>rs_observing = demo_observing, rs_push = demo_push, rs_vault = demo_vault,
     rs_vault_settings = demo_vault_settings, rs_links = demo_links, rs_future_tolerance_minutes = 5,
     rs_idempotency_window = hours 24, rs_digest = (\<lambda>p. ''h''), rs_sha_json = (\<lambda>_. ''h''),
     rs_real = (\<lambda>_. JNull), rs_cursor = (\<lambda>(t, i). show_int t @ '','' @ i),
     rs_read_cursor = (\<lambda>_. None)\<rparr>"

definition demo_resident_call :: call where
  "demo_resident_call = \<lparr>rc_env = demo_env, rc_actor = \<lparr>ac_subject_type = Device, ac_subject_id = ''d1'',
      ac_role = ''resident'', ac_token_version = 1, ac_incident_ids = [''inc''], ac_username = None,
      ac_region_code = None\<rparr>, rc_header = None, rc_request_id = None\<rparr>"

definition demo_operator_call :: call where
  "demo_operator_call = demo_resident_call\<lparr>rc_actor := demo_push_actor\<rparr>"

definition demo_create :: report_create where
  "demo_create = \<lparr>rn_category = ''flood'', rn_reporter = demo_reporter, rn_content_original = [1],
     rn_content_display = None,
     rn_location = \<lparr>lc_text = [2], lc_latitude = None, lc_longitude = None, lc_accuracy_m = None,
       lc_source = ''manual'', lc_provider = None, lc_coordinate_system = None, lc_observed_at = None\<rparr>,
     rn_is_urgent = True, rn_ai_refinement_id = None, rn_attachment_ids = []\<rparr>"

lemmas demo_call_defs = demo_settings_def demo_resident_call_def demo_operator_call_def demo_create_def
  demo_env_def demo_push_actor_def

definition demo_world :: full_db where
  "demo_world = demo_full_db demo_incident [] [] []"

lemma demo_contact_made:
  "\<exists>ct. create_reporter_contact demo_vault demo_vault_settings (shifted demo_env k) demo_incident d demo_reporter = Inr ct"
proof -
  have "contact_input_values 0 demo_reporter = Inr (demo_values\<lparr>cv_consent_at := 0\<rparr>)"
    using demo_id_valid
    by (simp add: contact_input_values_def validate_values_def additional_values_def
      emergency_values_def demo_reporter_def demo_values_def demo_run Let_def)
  then show ?thesis by (simp add: create_reporter_contact_def shifted_def demo_env_def)
qed

lemma demo_create_returns:
  "\<exists>r db1. create_report demo_settings demo_env demo_incident (rc_actor demo_resident_call) demo_create
      (demo_world\<lparr>db_idempotency := rows, id_count := k\<rparr>) = Inr (r, db1)
     \<and> rp_category r = ''flood'' \<and> rp_content_original r = [1] \<and> rp_content_display r = [1] \<and> rp_location_text r = [2]
     \<and> rp_incident_id r = ''inc''
     \<and> db_fragments db1 = [] \<and> db_blind_spots db1 = [] \<and> db_jobs db1 = []"
proof -
  obtain ct where ct: "create_reporter_contact demo_vault demo_vault_settings (shifted demo_env k) demo_incident ''d1''
      demo_reporter = Inr ct"
    using demo_contact_made by blast
  then show ?thesis
    by (simp add: create_report_def demo_call_defs is_resident_def validate_report_refinement_def and_then_def
        apply_location_def new_report_def prioritized_def effective_priority_def bind_attachments_def
        demo_world_def demo_full_db_def demo_incident_def Let_def flush_def
        upsert_report_map_feature_def has_position_def add_revision_def put_report_def find_feature_def)
qed

lemma emit_report_event_frame: "observed_part (emit_report_event e inc t r pl db) = observed_part db"
  by (simp add: emit_report_event_def emit_frame)

lemma report_created_returns:
  fixes db :: "'a full_db_scheme"
  assumes "extract_structured_claim (rs_observing S) r = None" "rp_incident_id r = inc_id inc"
    "db_fragments db = []" "db_blind_spots db = []" "db_jobs db = []"
  shows "\<exists>j db'. report_created S c inc i r db = Inr (j, db')"
proof -
  let ?e = "rc_env c"
  let ?db2 = "record_audit ?e (Some (rc_actor c)) (Some (inc_id inc)) ''report.created'' ''report''
       (Some (rp_id r)) (rc_request_id c) db"
  let ?db3 = "emit_report_event ?e inc ''report.created'' r (report_payload S ?e r ?db2) ?db2"
  have same: "observed_part ?db3 = observed_part db"
    by (simp add: emit_report_event_frame)
  have "db_fragments ?db3 = []" "db_blind_spots ?db3 = []" "db_jobs ?db3 = []"
    using assms(3-5) observed_parts [OF same] by auto
  from unclaimed_report_observed [OF assms(1,2) this, of ?e "Some (rc_actor c)" "rc_request_id c"]
  show ?thesis by (auto simp: report_created_def Let_def and_then_def)
qed

lemma demo_flood_unclaimed:
  assumes "rp_category r = ''flood''" "rp_content_original r = [1]" "rp_content_display r = [1]"
    "rp_location_text r = [2]"
  shows "extract_structured_claim (rs_observing demo_settings) r = None"
  using assms by (simp add: extract_structured_claim_def)

lemma demo_fresh_key:
  "replay_or_reserve w t i a rt ''k'' d [] = (Inr (Inl i), [new_row w t i (actor_key a, rt, ''k'') d])"
  by (simp add: replay_or_reserve_def)

lemma demo_world_parts [simp]:
  "get_incident demo_world ''inc'' = Inr demo_incident" "db_idempotency demo_world = []"
  "id_count demo_world = 0" "db_reports demo_world = []" "db_report_revisions demo_world = []"
  by (simp_all add: get_incident_def demo_world_def demo_full_db_def demo_incident_def)

lemma demo_access [simp]:
  "assert_incident_access (rc_actor demo_resident_call) demo_incident (rc_header demo_resident_call) = Inr ()"
  "assert_incident_access (rc_actor demo_operator_call) demo_incident (rc_header demo_operator_call) = Inr ()"
  by (simp_all add: assert_incident_access_def demo_call_defs demo_incident_def)

lemma demo_post_returns:
  "\<exists>j db'. post_report demo_settings demo_resident_call ''inc'' demo_create ''k'' demo_world = Inr (j, db')"
proof -
  let ?e = "rc_env demo_resident_call"
  have e: "?e = demo_env" by (simp add: demo_resident_call_def)
  let ?rows = "[new_row (rs_idempotency_window demo_settings) (now ?e) (new_id ?e 0)
    (actor_key (rc_actor demo_resident_call), ''POST:/incidents/'' @ inc_id demo_incident @ ''/reports'', ''k'')
    (rs_digest demo_settings demo_create)]"
  obtain r db1 where made: "create_report demo_settings ?e demo_incident (rc_actor demo_resident_call) demo_create
      (demo_world\<lparr>db_idempotency := ?rows, id_count := Suc 0\<rparr>) = Inr (r, db1)"
    and r: "rp_category r = ''flood''" "rp_content_original r = [1]" "rp_content_display r = [1]"
      "rp_location_text r = [2]" "rp_incident_id r = ''inc''"
    and none: "db_fragments db1 = []" "db_blind_spots db1 = []" "db_jobs db1 = []"
    using demo_create_returns [of "Suc 0" ?rows] unfolding e by auto
  have "rp_incident_id r = inc_id demo_incident" using r(5) by (simp add: demo_incident_def)
  note report_created_returns [OF demo_flood_unclaimed [OF r(1-4)] this none, of demo_resident_call "new_id ?e 0"]
  then show ?thesis using made by (simp add: post_report_def and_then_def demo_fresh_key)
qed

definition demo_stored :: "string \<Rightarrow> full_db" where
  "demo_stored st = demo_full_db demo_incident [demo_report\<lparr>rp_status := st\<rparr>] [] []"

lemma demo_opened:
  "open_report demo_operator_call ''r1'' 1 (demo_stored st) = Inr (demo_report\<lparr>rp_status := st\<rparr>, demo_incident)"
  "open_report demo_resident_call ''r1'' 1 (demo_stored st) = Inr (demo_report\<lparr>rp_status := st\<rparr>, demo_incident)"
  by (simp_all add: open_report_def get_report_def find_report_def demo_stored_def demo_full_db_def demo_report_def
      and_then_def assert_report_access_def demo_call_defs is_resident_def incident_for_report_def
      get_incident_by_id_def demo_incident_def assert_incident_access_def)

lemma demo_operator_role [simp]:
  "ac_role (rc_actor demo_operator_call) = ''operator''" "\<not> operator_required (rc_actor demo_operator_call)"
  by (simp_all add: demo_operator_call_def demo_push_actor_def operator_required_def)

definition demo_rate :: report_priority_patch where
  "demo_rate = \<lparr>pq_priority = Some High, pq_revision = 1, pq_note = None\<rparr>"

definition demo_move :: report_status_patch where
  "demo_move = \<lparr>sq_status = ''acknowledged'', sq_revision = 1, sq_note = None\<rparr>"

lemma demo_rate_returns:
  "\<exists>j db'. run_change demo_settings demo_operator_call ''r1'' (Rate demo_rate) (demo_stored st) = Inr (j, db')"
  by (simp add: patch_report_priority_def demo_rate_def demo_opened and_then_def Let_def
      validate_report_refinement_def demo_report_def announce_and_notify_def)

lemma demo_move_returns:
  "\<exists>j db'. run_change demo_settings demo_operator_call ''r1'' (Move demo_move) (demo_stored ''new'') = Inr (j, db')"
  by (simp add: patch_report_status_def demo_move_def demo_opened and_then_def Let_def follow_status_def
      demo_report_def status_after_def allowed_status_transitions_def announce_and_notify_def)

lemma demo_remove_returns:
  "\<exists>j db'. run_change demo_settings demo_resident_call ''r1'' (Remove \<lparr>dq_revision = 1\<rparr>) (demo_stored st) = Inr (j, db')"
proof -
  have "find_report_fragment (flush (put_report r (demo_stored st))) i k = None" for r i k
    by (simp add: find_report_fragment_def flush_def put_report_def demo_stored_def demo_full_db_def)
  then show ?thesis
    by (simp add: delete_report_def get_report_def find_report_def demo_stored_def demo_full_db_def demo_report_def
      and_then_def assert_report_access_def demo_call_defs is_resident_def incident_for_report_def
      get_incident_by_id_def demo_incident_def assert_incident_access_def Let_def
      deactivate_report_observation_def find_report_fragment_def flush_def put_report_def)
qed

section \<open>Histories\<close>

lemma empty_history: "db_reports db = [] \<Longrightarrow> db_report_revisions db = [] \<Longrightarrow> history_complete S db"
  by (simp add: history_complete_def)

text \<open>
  C2. However reports are created, edited, moved, rated and deleted after the tables were
  empty, the history of every report holds its revisions 1, 2, ... up to the present one, in
  order and without a gap, and its last snapshot is the report as it now stands.
\<close>

theorem history_unbroken:
  fixes db db' :: "'a full_db_scheme"
  assumes "db_reports db = []" "db_report_revisions db = []"
    and "(report_step S)\<^sup>*\<^sup>* db db'" "r \<in> set (db_reports db')"
  shows "map rr_revision (history_of db' (rp_id r)) = [1..rp_revision r]
    \<and> rr_snapshot (last (history_of db' (rp_id r))) = history_state S r"
  using complete.kept_star [OF assms(3) empty_history [OF assms(1,2)]] assms(4)
  by (simp add: history_complete_def)

text \<open>
  C35. A report flagged urgent has the high priority, whatever edits, ratings and refinements
  came after: no step takes an urgent report below it.
\<close>

theorem urgent_stays_high:
  fixes db db' :: "'a full_db_scheme"
  assumes "\<forall>r\<in>set (db_reports db). rp_is_urgent r \<longrightarrow> rp_priority r = ''high''"
    and "(report_step S)\<^sup>*\<^sup>* db db'" "r \<in> set (db_reports db')" "rp_is_urgent r"
  shows "rp_priority r = ''high''"
proof -
  have "urgent_kept db" using assms(1) by (simp add: urgent_kept_def urgent_high_def list_all_iff)
  from urgent.kept_star [OF assms(2) this] show ?thesis
    using assms(3,4) by (auto simp: urgent_kept_def urgent_high_def list_all_iff)
qed

section \<open>Status\<close>

lemma resolved_leads: "status_leads ''resolved'' t \<Longrightarrow> t = ''resolved''"
  unfolding status_leads_def
  by (induction rule: rtranclp_induct) (simp_all add: status_after_def allowed_status_transitions_def)

text \<open>C36. A resolved report stays resolved: nothing that runs later gives it another status.\<close>

theorem resolved_is_final:
  fixes db db' :: "'a full_db_scheme"
  assumes "find_report db i = Some x" "rp_status x = ''resolved''" "(report_step S)\<^sup>*\<^sup>* db db'"
  shows "map_option rp_status (find_report db' i) = Some ''resolved''"
  using report_found_later [OF assms(3,1)] assms(2) resolved_leads
  by (auto simp: later_state_def)

text \<open>Only an admin takes a report out of the status \<open>invalid\<close>.\<close>

theorem invalid_restored_by_admin:
  fixes db db' :: "'a full_db_scheme"
  assumes "run_change S c i ch db = Inr (j, db')" "find_report db i = Some x" "rp_status x = ''invalid''"
    and "map_option rp_status (find_report db' i) \<noteq> Some ''invalid''"
  shows "ac_role (rc_actor c) = ''admin''"
proof (cases ch)
  case (Move p)
  obtain r0 r where "rewritten S r0 r db db'" "rp_id r0 = i" "rp_status r0 = ''invalid'' \<longrightarrow> ac_role (rc_actor c) = ''admin''"
    using status_effect assms(1) unfolding Move by fastforce
  then show ?thesis using assms(2,3) by (auto simp: rewritten_def)
next
  case (Edit p)
  obtain r0 r where "rewritten S r0 r db db'" "rp_id r0 = i" "rp_status r = rp_status r0"
    using patch_effect assms(1) unfolding Edit by fastforce
  then show ?thesis using assms(2-4) rewritten_find [of S r0 r db db' i] by (auto simp: rewritten_def)
next
  case (Rate p)
  obtain r0 r where "rewritten S r0 r db db'" "rp_id r0 = i" "rp_status r = rp_status r0"
    using priority_effect assms(1) unfolding Rate by fastforce
  then show ?thesis using assms(2-4) rewritten_find [of S r0 r db db' i] by (auto simp: rewritten_def)
next
  case (Remove p)
  obtain r0 r where "rewritten S r0 r db db'" "rp_id r0 = i" "rp_status r = rp_status r0"
    using delete_effect assms(1) unfolding Remove by fastforce
  then show ?thesis using assms(2-4) rewritten_find [of S r0 r db db' i] by (auto simp: rewritten_def)
qed

section \<open>Concurrent and foreign changes\<close>

text \<open>
  C3. Of two changes that were both made on what the client saw as the same revision of a
  report, at most one succeeds: after the first, whatever ran in between, the second is
  refused, whichever of the four handlers either of them is.
\<close>

theorem no_lost_update:
  fixes db db' db'' :: "'a full_db_scheme"
  assumes "run_change S c i ch db = Inr (j, db')" "(report_step S)\<^sup>*\<^sup>* db' db''"
    and "seen_revision ch' = seen_revision ch"
  shows "\<exists>err. run_change S c' i ch' db'' = Inl err"
proof (cases "run_change S c' i ch' db''")
  case (Inr out)
  obtain x where x: "find_report db' i = Some x" "rp_revision x = seen_revision ch + 1"
    using change_found [OF assms(1)] by blast
  obtain y where y: "find_report db'' i = Some y" "later_state x y"
    using report_found_later [OF assms(2) x(1)] by blast
  have "rp_revision y = seen_revision ch"
    using change_needs_seen [OF _ y(1), of S c' ch' "fst out" "snd out"] Inr assms(3) by simp
  then show ?thesis using x(2) y(2) by (auto simp: later_state_def)
qed simp

text \<open>C37. A change by a resident leaves the reports of every other device as they are.\<close>

theorem residents_change_their_own:
  fixes db db' :: "'a full_db_scheme"
  assumes "run_change S c i ch db = Inr (j, db')" "is_resident (rc_actor c)"
    and "find_report db k = Some x" "rp_reporter_device_id x \<noteq> ac_subject_id (rc_actor c)"
  shows "find_report db' k = Some x"
proof -
  obtain r0 r where r: "rewritten S r0 r db db'" "assert_report_access (rc_actor c) r0 True = Inr ()"
    using change_effect [OF assms(1)] by blast
  then have "rp_reporter_device_id r0 = ac_subject_id (rc_actor c)"
    using assms(2) by (auto simp: assert_report_access_def split: if_splits)
  then show ?thesis using assms(3,4) r(1) rewritten_find [OF r(1), of k] by (auto simp: rewritten_def)
qed

text \<open>What stands for the reports elsewhere: fragments, evidence, jobs.\<close>

definition spoken_part :: "'a full_db_scheme \<Rightarrow> fragment list \<times> evidence list \<times> job list" where
  "spoken_part db = (db_fragments db, db_evidence db, db_jobs db)"

lemma spoken_observed:
  assumes "observed_part db' = observed_part db"
  shows "spoken_part db' = spoken_part db"
  using observed_parts(5-7) [OF assms] by (simp add: spoken_part_def)

lemma notify_spoken [simp]:
  fixes db :: "'a full_db_scheme"
  shows "spoken_part (snd (notify_accounts cfg e iid n as db)) = spoken_part db"
proof (induction as arbitrary: db)
  case (Cons a as)
  show ?case using Cons by (auto simp: Let_def spoken_part_def split: option.split)
qed (simp add: spoken_part_def)

lemma spoken_frames [simp]:
  fixes db :: "'a full_db_scheme"
  shows "spoken_part (record_audit e a ai ac rty rid2 rq db) = spoken_part db"
    "spoken_part (flush db) = spoken_part db" "spoken_part (put_report r db) = spoken_part db"
    "spoken_part (emit_report_event e inc t r pl db) = spoken_part db"
    "spoken_part (upsert_report_map_feature e r db) = spoken_part db"
    "spoken_part (add_revision S e actr reason sn r db) = spoken_part db"
    "spoken_part (notify_operators S e inc n db) = spoken_part db"
proof -
  show "spoken_part (record_audit e a ai ac rty rid2 rq db) = spoken_part db"
    "spoken_part (flush db) = spoken_part db" "spoken_part (put_report r db) = spoken_part db"
    "spoken_part (add_revision S e actr reason sn r db) = spoken_part db"
    by (simp_all add: spoken_part_def record_audit_def flush_def put_report_def add_revision_def)
  show "spoken_part (emit_report_event e inc t r pl db) = spoken_part db"
    by (rule spoken_observed) (rule emit_report_event_frame)
  show "spoken_part (upsert_report_map_feature e r db) = spoken_part db"
    by (simp add: upsert_report_map_feature_def Let_def spoken_part_def flush_def split: option.split)
  show "spoken_part (notify_operators S e inc n db) = spoken_part db"
    by (simp add: notify_operators_def enqueue_operator_notifications_def)
qed

lemma stands_for_nothing_cong:
  assumes "spoken_part db' = spoken_part db"
  shows "stands_for_nothing i db' = stands_for_nothing i db"
  using assms by (simp add: spoken_part_def stands_for_nothing_def all_withdrawn_def uncited_def undetected_def)

lemma deactivated_for_nothing:
  fixes db db' :: "'a full_db_scheme"
  assumes "deactivate_report_observation K e inc r a rid reason (put_report r db) = Inr db'"
    "find_report_fragment db (rp_incident_id r) (rp_id r) = Some f"
    "inc_id inc = rp_incident_id r" "spoken_part db'' = spoken_part db'"
  shows "stands_for_nothing (fg_id f) db''"
proof -
  have "find_report_fragment (put_report r db) (inc_id inc) (rp_id r) = Some f"
    using assms(2,3) by (simp add: find_report_fragment_def put_report_def)
  then show ?thesis
    using deactivated_effect [OF assms(1)] stands_for_nothing_cong [OF assms(4)]
    by (simp add: stands_for_nothing_def)
qed

lemma incident_of_report: "incident_for_report db r = Inr inc \<Longrightarrow> inc_id inc = rp_incident_id r"
  by (auto simp: incident_for_report_def get_incident_by_id_def split: option.splits dest: find_SomeD)

text \<open>The changes that take back what a report says.\<close>

fun takes_back :: "report_change \<Rightarrow> bool" where
  "takes_back (Remove p) = True"
| "takes_back (Move p) = (sq_status p = ''invalid'')"
| "takes_back ch = False"

text \<open>
  C4. When a report is deleted or set to invalid, the fragment it gave the map is withdrawn
  with it: it is cited as current evidence nowhere and no detection waits to run for it.
\<close>

theorem report_taken_back_speaks_for_nothing:
  fixes db db' :: "'a full_db_scheme"
  assumes run: "run_change S c i ch db = Inr (j, db')" and taken: "takes_back ch"
    and x: "find_report db i = Some x" and f: "find_report_fragment db (rp_incident_id x) i = Some f"
  shows "stands_for_nothing (fg_id f) db'"
proof -
  have same: "r0 = x" if "get_report db i = Inr r0" for r0
    using that x by (auto simp: get_report_def split: if_splits)
  have id: "rp_id x = i" using x by (auto simp: find_report_def dest: find_SomeD)
  show ?thesis
  proof (cases ch)
    case (Remove p)
    obtain inc db1 where inc: "incident_for_report db x = Inr inc" and
      gone: "deactivate_report_observation (rs_observing S) (rc_env c) inc
        ((advanced (rc_env c) x)\<lparr>rp_deleted_at := Some (now (rc_env c))\<rparr>) (Some (rc_actor c)) (rc_request_id c)
        ''source_report_deleted'' (put_report ((advanced (rc_env c) x)\<lparr>rp_deleted_at := Some (now (rc_env c))\<rparr>) db)
        = Inr db1" and rest: "spoken_part db' = spoken_part db1"
      using run unfolding Remove run_change.simps delete_report_def Let_def
      by (auto simp: and_then_Inr dest!: same split: if_splits)
    show ?thesis
      by (rule deactivated_for_nothing [OF gone _ _ rest]) (use id f incident_of_report [OF inc] in simp_all)
  next
    case (Move p)
    obtain r0 inc db1 where inc: "open_report c i (sq_revision p) db = Inr (r0, inc)" and
      gone: "follow_status S c inc (rp_status r0) ((advanced (rc_env c) r0)\<lparr>rp_status := ''invalid''\<rparr>)
         (put_report ((advanced (rc_env c) r0)\<lparr>rp_status := ''invalid''\<rparr>) db) = Inr db1"
      and rest: "spoken_part db' = spoken_part db1"
      using run taken unfolding Move run_change.simps patch_report_status_def Let_def
      by (auto simp: and_then_Inr announce_and_notify_def announce_change_def log_change_def Let_def
          split: if_splits prod.splits)
    have r0: "r0 = x" using open_report_facts [OF inc] x by simp
    have "inc_id inc = rp_incident_id x"
      using open_report_facts [OF inc] r0 by (auto simp: get_incident_by_id_def dest: find_SomeD)
    with gone [unfolded r0] show ?thesis
      unfolding follow_status_def by (auto intro!: deactivated_for_nothing [OF _ _ _ rest] simp: id f)
  qed (use taken in simp_all)
qed

section \<open>A retried creation\<close>

lemma notify_keys [simp]:
  fixes db :: "'a full_db_scheme"
  shows "db_idempotency (snd (notify_accounts cfg e iid n as db)) = db_idempotency db"
proof (induction as arbitrary: db)
  case (Cons a as)
  show ?case using Cons by (auto simp: Let_def split: option.split)
qed simp

lemma observed_keys:
  assumes "report_part db' = report_part db"
  shows "db_idempotency db' = db_idempotency db"
  using assms by (simp add: report_part_def)

lemma create_report_keys:
  fixes db db' :: "'a full_db_scheme"
  assumes "create_report S e inc a p db = Inr (r, db')"
  shows "db_idempotency db' = db_idempotency db"
proof -
  have "db_idempotency d' = db_idempotency d"
    if "bind_attachments r0 ids d = Inr (r, d')" for r0 ids r and d d' :: "'a full_db_scheme"
    using that unfolding bind_attachments_def by (auto split: if_splits sum.splits)
  then show ?thesis
    using assms unfolding create_report_def Let_def upsert_report_map_feature_def
    by (fastforce simp: and_then_Inr flush_def add_revision_def put_report_def split: if_splits prod.splits option.splits)
qed

lemma report_created_keys:
  fixes db db' :: "'a full_db_scheme"
  assumes "report_created S c inc i r db = Inr (j, db')"
  shows "db_idempotency db' = finish_reservation i 201 j (db_idempotency db)"
proof -
  let ?e = "rc_env c"
  let ?db2 = "record_audit ?e (Some (rc_actor c)) (Some (inc_id inc)) ''report.created'' ''report''
       (Some (rp_id r)) (rc_request_id c) db"
  let ?db3 = "emit_report_event ?e inc ''report.created'' r (report_payload S ?e r ?db2) ?db2"
  have "observed_part ?db3 = observed_part db"
    by (simp add: emit_report_event_frame)
  then have same: "db_idempotency ?db3 = db_idempotency db"
    using observed_keys [OF observed_parts(4)] by blast
  obtain db4 n where "process_report_observation (rs_observing S) ?e inc r (Some (rc_actor c)) (rc_request_id c) ?db3 = Inr db4"
    "db' = (notify_operators S ?e inc n db4)\<lparr>db_idempotency :=
         finish_reservation i 201 j (db_idempotency (notify_operators S ?e inc n db4))\<rparr>"
    using assms unfolding report_created_def Let_def by (auto simp: and_then_Inr)
  then show ?thesis
    using observed_keys [OF process_report_part] same
    by (fastforce simp: notify_operators_def enqueue_operator_notifications_def)
qed

text \<open>The row a first use of a key leaves behind.\<close>

lemma first_use_keys:
  fixes db db' :: "'a full_db_scheme"
  assumes run: "post_report S c name p key db = Inr (j, db')"
    and unused: "list_all (\<lambda>x. ir_key x \<noteq> key) (db_idempotency db)"
  shows "\<exists>inc i. get_incident db name = Inr inc \<and> assert_incident_access (rc_actor c) inc (rc_header c) = Inr ()
    \<and> key \<noteq> [] \<and> length key \<le> 200
    \<and> db_idempotency db' = finish_reservation i 201 j (db_idempotency db
        @ [new_row (rs_idempotency_window S) (now (rc_env c)) i
            (actor_key (rc_actor c), ''POST:/incidents/'' @ inc_id inc @ ''/reports'', key) (rs_digest S p)])"
proof -
  obtain inc where inc: "get_incident db name = Inr inc" "assert_incident_access (rc_actor c) inc (rc_header c) = Inr ()"
    using run unfolding post_report_def by (auto simp: and_then_Inr)
  let ?route = "''POST:/incidents/'' @ inc_id inc @ ''/reports''"
  have none: "find (\<lambda>r. ir_actor_key r = k \<and> ir_route r = rt \<and> ir_key r = key) (db_idempotency db) = None" for k rt
    using unused by (auto simp: find_None_iff list_all_iff)
  have key: "key \<noteq> []" "length key \<le> 200"
    using run by (auto simp: post_report_def and_then_def inc replay_or_reserve_def split: if_split_asm)
  then have "replay_or_reserve w t i a rt key d (db_idempotency db)
      = (Inr (Inl i), db_idempotency db @ [new_row w t i (actor_key a, rt, key) d])" for w t i a rt d
    by (simp add: replay_or_reserve_def none)
  then obtain r db1 where made: "create_report S (rc_env c) inc (rc_actor c) p (db\<lparr>db_idempotency := db_idempotency db
        @ [new_row (rs_idempotency_window S) (now (rc_env c)) (new_id (rc_env c) (id_count db))
            (actor_key (rc_actor c), ?route, key) (rs_digest S p)], id_count := Suc (id_count db)\<rparr>) = Inr (r, db1)"
    "report_created S c inc (new_id (rc_env c) (id_count db)) r db1 = Inr (j, db')"
    using run by (auto simp: post_report_def and_then_Inr inc)
  show ?thesis
    using inc key create_report_keys [OF made(1)] report_created_keys [OF made(2)] by auto
qed

lemma finished_found:
  assumes "list_all (\<lambda>x. ir_key x \<noteq> key) rows"
  shows "find (\<lambda>r. ir_actor_key r = k \<and> ir_route r = rt \<and> ir_key r = key)
      (finish_reservation i st j (rows @ [new_row w t i (k, rt, key) d]))
    = Some (finish_row st j (new_row w t i (k, rt, key) d))"
  using assms
proof (induction rows)
  case Nil
  then show ?case by (simp add: finish_reservation_def finish_row_def new_row_def)
next
  case (Cons x xs)
  then show ?case by (simp add: finish_reservation_def finish_row_def)
qed

lemma finished_replays:
  assumes "list_all (\<lambda>x. ir_key x \<noteq> key) rows" "key \<noteq> []" "length key \<le> 200" "t' < t + w"
  shows "replay_or_reserve w' t' i' a rt key d
      (finish_reservation i st j (rows @ [new_row w t i (actor_key a, rt, key) d]))
    = (Inr (Inr j), finish_reservation i st j (rows @ [new_row w t i (actor_key a, rt, key) d]))"
  using assms(2-4) unfolding replay_or_reserve_def finished_found [OF assms(1)]
  by (simp add: finish_row_def new_row_def)

text \<open>
  C5. A creation that is sent again with its key and body by the same actor, while the
  reservation runs, is answered with the response of the first and changes nothing: whatever
  ran in between, as long as it left the incident's names and the table of keys alone.
\<close>

theorem retried_creation_replays:
  fixes db db' db'' :: "'a full_db_scheme"
  assumes first: "post_report S c name p key db = Inr (j, db')"
    and unused: "list_all (\<lambda>x. ir_key x \<noteq> key) (db_idempotency db)"
    and kept: "db_idempotency db'' = db_idempotency db'"
      "map (\<lambda>i. (inc_id i, inc_alias i)) (db_incidents db'') = map (\<lambda>i. (inc_id i, inc_alias i)) (db_incidents db)"
    and again: "rc_actor c' = rc_actor c" "rc_header c' = rc_header c"
      "now (rc_env c') < now (rc_env c) + rs_idempotency_window S"
  shows "post_report S c' name p key db'' = Inr (j, db'')"
proof -
  obtain inc i where inc: "get_incident db name = Inr inc"
      "assert_incident_access (rc_actor c) inc (rc_header c) = Inr ()" "key \<noteq> []" "length key \<le> 200"
    and rows: "db_idempotency db' = finish_reservation i 201 j (db_idempotency db
        @ [new_row (rs_idempotency_window S) (now (rc_env c)) i
            (actor_key (rc_actor c), ''POST:/incidents/'' @ inc_id inc @ ''/reports'', key) (rs_digest S p)])"
    using first_use_keys [OF first unused] by blast
  have "find (\<lambda>i. inc_id i = name \<or> inc_alias i = Some name) xs = Some x \<Longrightarrow>
      map (\<lambda>i. (inc_id i, inc_alias i)) ys = map (\<lambda>i. (inc_id i, inc_alias i)) xs \<Longrightarrow>
      \<exists>y. find (\<lambda>i. inc_id i = name \<or> inc_alias i = Some name) ys = Some y
        \<and> inc_id y = inc_id x \<and> inc_alias y = inc_alias x" for xs ys x
    by (induction xs arbitrary: ys) (auto simp: map_eq_Cons_conv split: if_splits)
  then obtain inc' where inc': "get_incident db'' name = Inr inc'" "inc_id inc' = inc_id inc" "inc_alias inc' = inc_alias inc"
    using inc(1) kept(2) by (fastforce simp: get_incident_def split: option.splits)
  have "assert_incident_access (rc_actor c') inc' (rc_header c') = Inr ()"
    using inc(2) unfolding assert_incident_access_def inc'(2,3) again .
  then show ?thesis
    using inc(3,4) again
    by (simp add: post_report_def and_then_def inc' kept(1) rows finished_replays [OF unused])
qed

section \<open>The theorems at work\<close>

lemma demo_posted:
  "\<exists>db' r. report_step demo_settings demo_world db' \<and> db_reports db' = [r] \<and> urgent_kept db'"
proof -
  obtain j db' where post: "post_report demo_settings demo_resident_call ''inc'' demo_create ''k'' demo_world = Inr (j, db')"
    using demo_post_returns by blast
  have fresh: "fresh_ids (rc_env demo_resident_call) demo_world" by (simp add: fresh_ids_def)
  have "db_idempotency db' \<noteq> []"
    using first_use_keys [OF post] by (auto simp: finish_reservation_def)
  then have "db' \<noteq> demo_world" by auto
  then obtain r where "added demo_settings (rc_env demo_resident_call) (rc_actor demo_resident_call) r demo_world db'"
    using post_effect [OF post fresh] by blast
  then have "db_reports db' = [r]" "urgent_kept db'"
    by (auto simp: added_def report_tables_def urgent_kept_def urgent_high_def)
  then show ?thesis using posted [OF fresh post] by blast
qed

theorem history_unbroken_witness:
  "\<exists>db' r. db_reports db' = [r] \<and> report_step demo_settings demo_world db'
     \<and> map rr_revision (history_of db' (rp_id r)) = [1..rp_revision r]"
proof -
  obtain db' r where "report_step demo_settings demo_world db'" "db_reports db' = [r]"
    using demo_posted by blast
  then show ?thesis
    using history_unbroken [of demo_world demo_settings db' r] by (auto intro: r_into_rtranclp)
qed

lemma demo_stored_report: "find_report (demo_stored st) ''r1'' = Some (demo_report\<lparr>rp_status := st\<rparr>)"
  "db_reports (demo_stored st) = [demo_report\<lparr>rp_status := st\<rparr>]"
  by (simp_all add: demo_stored_def demo_full_db_def find_report_def demo_report_def)

definition demo_urgent :: full_db where
  "demo_urgent = demo_full_db demo_incident [demo_report\<lparr>rp_is_urgent := True, rp_priority := ''high''\<rparr>] [] []"

lemma demo_urgent_rate:
  "\<exists>j db'. run_change demo_settings demo_operator_call ''r1'' (Rate demo_rate) demo_urgent = Inr (j, db')"
  by (simp add: patch_report_priority_def demo_rate_def open_report_def get_report_def find_report_def demo_urgent_def
      demo_full_db_def demo_report_def and_then_def assert_report_access_def demo_call_defs is_resident_def
      incident_for_report_def get_incident_by_id_def demo_incident_def assert_incident_access_def Let_def
      validate_report_refinement_def operator_required_def announce_and_notify_def)

theorem urgent_stays_high_witness:
  "\<exists>j db'. run_change demo_settings demo_operator_call ''r1'' (Rate demo_rate) demo_urgent = Inr (j, db')
     \<and> list_all (\<lambda>r. \<not> rp_is_urgent r \<or> rp_priority r = ''high'') (db_reports db')"
proof -
  obtain j db' where run: "run_change demo_settings demo_operator_call ''r1'' (Rate demo_rate) demo_urgent = Inr (j, db')"
    using demo_urgent_rate by blast
  have "(report_step demo_settings)\<^sup>*\<^sup>* demo_urgent db'"
    using run by (intro r_into_rtranclp) (rule changed)
  with urgent_stays_high [OF _ this] have "list_all (\<lambda>r. \<not> rp_is_urgent r \<or> rp_priority r = ''high'') (db_reports db')"
    by (simp add: demo_urgent_def demo_full_db_def list_all_iff)
  then show ?thesis using run by blast
qed

theorem resolved_is_final_witness:
  "\<exists>j db'. run_change demo_settings demo_operator_call ''r1'' (Rate demo_rate) (demo_stored ''resolved'') = Inr (j, db')
     \<and> map_option rp_status (find_report db' ''r1'') = Some ''resolved''"
proof -
  obtain j db' where run: "run_change demo_settings demo_operator_call ''r1'' (Rate demo_rate) (demo_stored ''resolved'') = Inr (j, db')"
    using demo_rate_returns by blast
  then have "(report_step demo_settings)\<^sup>*\<^sup>* (demo_stored ''resolved'') db'"
    by (intro r_into_rtranclp) (rule changed)
  with resolved_is_final [OF demo_stored_report(1) _ this] run show ?thesis by auto
qed

theorem no_lost_update_witness:
  "\<exists>j db' err. run_change demo_settings demo_operator_call ''r1'' (Move demo_move) (demo_stored ''new'') = Inr (j, db')
     \<and> run_change demo_settings demo_operator_call ''r1'' (Rate demo_rate) db' = Inl err"
proof -
  obtain j db' where run: "run_change demo_settings demo_operator_call ''r1'' (Move demo_move) (demo_stored ''new'') = Inr (j, db')"
    using demo_move_returns by blast
  from no_lost_update [OF this rtranclp.rtrancl_refl, of "Rate demo_rate"] show ?thesis
    using run by (auto simp: demo_move_def demo_rate_def)
qed

definition demo_two :: full_db where
  "demo_two = demo_full_db demo_incident [demo_report, demo_report\<lparr>rp_id := ''r2'', rp_reporter_device_id := ''d2''\<rparr>] [] []"

lemma demo_two_remove:
  "\<exists>j db'. run_change demo_settings demo_resident_call ''r1'' (Remove \<lparr>dq_revision = 1\<rparr>) demo_two = Inr (j, db')"
  by (simp add: delete_report_def get_report_def find_report_def demo_two_def demo_full_db_def demo_report_def
      and_then_def assert_report_access_def demo_call_defs is_resident_def incident_for_report_def
      get_incident_by_id_def demo_incident_def assert_incident_access_def Let_def
      deactivate_report_observation_def find_report_fragment_def flush_def put_report_def)

theorem residents_change_their_own_witness:
  "\<exists>j db' x. run_change demo_settings demo_resident_call ''r1'' (Remove \<lparr>dq_revision = 1\<rparr>) demo_two = Inr (j, db')
     \<and> find_report db' ''r2'' = Some x"
proof -
  obtain j db' where run: "run_change demo_settings demo_resident_call ''r1'' (Remove \<lparr>dq_revision = 1\<rparr>) demo_two = Inr (j, db')"
    using demo_two_remove by blast
  have "is_resident (rc_actor demo_resident_call)" by (simp add: is_resident_def demo_resident_call_def)
  moreover have "find_report demo_two ''r2'' = Some (demo_report\<lparr>rp_id := ''r2'', rp_reporter_device_id := ''d2''\<rparr>)"
    by (simp add: find_report_def demo_two_def demo_full_db_def demo_report_def)
  ultimately show ?thesis using run residents_change_their_own [OF run]
    by (auto simp: demo_report_def demo_resident_call_def)
qed

definition demo_admin_call :: call where
  "demo_admin_call = demo_resident_call\<lparr>rc_actor := demo_push_actor\<lparr>ac_role := ''admin''\<rparr>\<rparr>"

lemma demo_move_effect:
  assumes "run_change S c ''r1'' (Move demo_move) db = Inr (j, db')"
  shows "map_option rp_status (find_report db' ''r1'') = Some ''acknowledged''"
proof -
  obtain r0 r where "rewritten S r0 r db db'" "rp_id r0 = ''r1''" "rp_status r = sq_status demo_move"
    using status_effect assms by fastforce
  then show ?thesis using rewritten_find by (fastforce simp: demo_move_def)
qed

theorem invalid_restored_by_admin_witness:
  "\<exists>j db'. run_change demo_settings demo_admin_call ''r1'' (Move demo_move) (demo_stored ''invalid'') = Inr (j, db')
     \<and> ac_role (rc_actor demo_admin_call) = ''admin''"
proof -
  have "open_report demo_admin_call ''r1'' 1 (demo_stored ''invalid'') = Inr (demo_report\<lparr>rp_status := ''invalid''\<rparr>, demo_incident)"
    by (simp add: open_report_def get_report_def find_report_def and_then_def assert_report_access_def
      demo_admin_call_def demo_call_defs is_resident_def incident_for_report_def demo_stored_def demo_full_db_def
      get_incident_by_id_def demo_incident_def assert_incident_access_def demo_report_def)
  moreover have "\<not> operator_required (rc_actor demo_admin_call)"
    by (simp add: demo_admin_call_def operator_required_def)
  moreover have "\<exists>db1. follow_status demo_settings demo_admin_call demo_incident ''invalid''
      ((advanced (rc_env demo_admin_call) (demo_report\<lparr>rp_status := ''invalid''\<rparr>))\<lparr>rp_status := ''acknowledged''\<rparr>)
      (put_report ((advanced (rc_env demo_admin_call) (demo_report\<lparr>rp_status := ''invalid''\<rparr>))\<lparr>rp_status := ''acknowledged''\<rparr>)
        (demo_stored ''invalid'')) = Inr db1"
    by (simp add: follow_status_def)
      (rule unclaimed_report_observed, rule demo_flood_unclaimed,
        simp_all add: demo_report_def demo_incident_def advanced_def put_report_def demo_stored_def demo_full_db_def)
  ultimately obtain j db' where run: "run_change demo_settings demo_admin_call ''r1'' (Move demo_move) (demo_stored ''invalid'') = Inr (j, db')"
    by (auto simp: patch_report_status_def demo_move_def and_then_def Let_def demo_admin_call_def
      status_after_def allowed_status_transitions_def announce_and_notify_def)
  from invalid_restored_by_admin [OF this demo_stored_report(1)] demo_move_effect [OF run]
  show ?thesis using run by auto
qed

definition demo_spoken :: full_db where
  "demo_spoken = (demo_stored ''new'')\<lparr>db_fragments := [demo_fragment]\<rparr>"

lemma demo_spoken_remove:
  "\<exists>j db'. run_change demo_settings demo_resident_call ''r1'' (Remove \<lparr>dq_revision = 1\<rparr>) demo_spoken = Inr (j, db')"
  by (simp add: delete_report_def get_report_def find_report_def demo_spoken_def demo_stored_def demo_full_db_def demo_report_def
      and_then_def assert_report_access_def demo_call_defs is_resident_def incident_for_report_def
      get_incident_by_id_def demo_incident_def assert_incident_access_def Let_def
      deactivate_report_observation_def find_report_fragment_def flush_def put_report_def demo_fragment_def
      invalidate_fragment_evidence_def cancel_blind_spot_jobs_def put_fragment_def
      upsert_fragment_map_feature_def hide_map_feature_def find_feature_def
      deactivate_automatic_blind_spots_def reconcile_conflicts_def)

theorem report_taken_back_speaks_for_nothing_witness:
  "\<exists>j db'. run_change demo_settings demo_resident_call ''r1'' (Remove \<lparr>dq_revision = 1\<rparr>) demo_spoken = Inr (j, db')
     \<and> stands_for_nothing (fg_id demo_fragment) db'"
proof -
  obtain j db' where run: "run_change demo_settings demo_resident_call ''r1'' (Remove \<lparr>dq_revision = 1\<rparr>) demo_spoken = Inr (j, db')"
    using demo_spoken_remove by blast
  have "find_report demo_spoken ''r1'' = Some (demo_report\<lparr>rp_status := ''new''\<rparr>)"
    "find_report_fragment demo_spoken (rp_incident_id (demo_report\<lparr>rp_status := ''new''\<rparr>)) ''r1'' = Some demo_fragment"
    by (simp_all add: demo_spoken_def find_report_def demo_stored_report demo_fragment_def demo_report_def find_report_fragment_def)
  with report_taken_back_speaks_for_nothing [OF run] run show ?thesis by auto
qed

theorem retried_creation_replays_witness:
  "\<exists>j db'. post_report demo_settings demo_resident_call ''inc'' demo_create ''k'' demo_world = Inr (j, db')
     \<and> post_report demo_settings demo_resident_call ''inc'' demo_create ''k''
         (db'\<lparr>db_incidents := db_incidents demo_world\<rparr>) = Inr (j, db'\<lparr>db_incidents := db_incidents demo_world\<rparr>)"
proof -
  obtain j db' where run: "post_report demo_settings demo_resident_call ''inc'' demo_create ''k'' demo_world = Inr (j, db')"
    using demo_post_returns by blast
  have "now (rc_env demo_resident_call) < now (rc_env demo_resident_call) + rs_idempotency_window demo_settings"
    by (simp add: demo_settings_def hours_def minutes_def seconds_def)
  from retried_creation_replays [OF run, of "db'\<lparr>db_incidents := db_incidents demo_world\<rparr>" demo_resident_call] this
  show ?thesis using run by auto
qed

section \<open>A rating that never succeeds\<close>

text \<open>
  The refinement of a report is validated with the id of whoever rates the report in place of
  the device that uploaded its files.  A report with a refinement and a file can therefore be
  rated by no operator.
\<close>

lemma refined_report_with_file_not_rated:
  fixes db :: "'a full_db_scheme"
  assumes x: "find_report db i = Some x" "rp_ai_refinement_id x = Some k"
    and a: "a \<in> set (db_attachments db)" "at_report_id a = Some i"
      "at_uploader_device_id a \<noteq> ac_subject_id (rc_actor c)"
  shows "\<exists>err. patch_report_priority S c i p db = Inl err"
proof (cases "patch_report_priority S c i p db")
  case (Inr out)
  have id: "rp_id x = i" using x(1) by (auto simp: find_report_def dest: find_SomeD)
  define y where "y = x\<lparr>rp_manual_priority := map_option priority_name (pq_priority p)\<rparr>"
  obtain r0 inc refinement where opened: "open_report c i (pq_revision p) db = Inr (r0, inc)"
    and valid: "validate_report_refinement S (rc_actor c) (rp_ai_refinement_id (r0\<lparr>rp_manual_priority := map_option priority_name (pq_priority p)\<rparr>))
       (priority_query inc (r0\<lparr>rp_manual_priority := map_option priority_name (pq_priority p)\<rparr>) db) (flush db) = Inr refinement"
    using Inr unfolding patch_report_priority_def Let_def by (auto simp: and_then_Inr split: if_splits prod.splits)
  have r0: "r0 = x" using open_report_facts [OF opened] x(1) by simp
  let ?ids = "attachment_ids_of db y"
  have mem: "at_id a \<in> set ?ids"
    using a(1,2) id by (auto simp: attachment_ids_of_def y_def)
  obtain as where "load_bindable_attachments (inc_id inc) (ac_subject_id (rc_actor c)) ?ids (Some i) (flush db) = Inr as"
    using valid id x(2) unfolding validate_report_refinement_def priority_query_def r0 y_def [symmetric]
    by (auto simp: and_then_Inr y_def split: option.splits if_splits)
  then have "list_all (bindable (inc_id inc) (ac_subject_id (rc_actor c)) (Some i))
      (filter (\<lambda>a. at_id a \<in> set ?ids) (db_attachments db))"
    using mem by (auto simp: load_bindable_attachments_def Let_def flush_def split: if_splits)
  then have "bindable (inc_id inc) (ac_subject_id (rc_actor c)) (Some i) a"
    using a(1) mem by (auto simp: list_all_iff)
  then show ?thesis using a(3) by (simp add: bindable_def)
qed simp

end
