(* ===== verification/ReportReads.thy ===== *)
theory ReportReads
  imports ReportLife "HOL-Library.Multiset"
begin

text \<open>
  Reading reports (\<open>routers/reports.py\<close>): the paged list, one report, its history, a
  resident's latest report and the reveal of a reporter's contact.

  A page ends in a cursor, the time and id of its last report; the next page takes the reports
  behind it.  Residents are shown their own reports, newest first; operators all of an incident,
  by priority, urgency and time.  The locale \<open>keyset\<close> states what such paging rests on; both
  orders are interpretations of it.
\<close>

section \<open>Pages\<close>

text \<open>\<open>ORDER BY key DESC\<close>, and what \<open>LIMIT limit + 1\<close> shows of it.\<close>

definition newest :: "('r \<Rightarrow> 'k::linorder) \<Rightarrow> 'r list \<Rightarrow> 'r list" where
  "newest key rows = rev (sort_key key rows)"

definition first_page :: "('r \<Rightarrow> 'k::linorder) \<Rightarrow> nat \<Rightarrow> 'r list \<Rightarrow> 'r list \<times> bool" where
  "first_page key limit rows =
     (let shown = take (limit + 1) (newest key rows) in (take limit shown, limit < length shown))"

definition report_rank :: "report \<Rightarrow> nat" where
  "report_rank r = (if rp_priority r = ''high'' then 3 else if rp_priority r = ''medium'' then 2
     else if rp_priority r = ''low'' then 1 else 0)"

definition urgent_rank :: "report \<Rightarrow> nat" where
  "urgent_rank r = (if rp_is_urgent r then 1 else 0)"

definition resident_key :: "report \<Rightarrow> time \<times> ident" where
  "resident_key r = (rp_updated_at r, rp_id r)"

definition operator_key :: "report \<Rightarrow> nat \<times> nat \<times> time \<times> ident" where
  "operator_key r = (report_rank r, urgent_rank r, rp_updated_at r, rp_id r)"

definition invalid_cursor :: api_error where
  "invalid_cursor = ApiError 422 ''INVALID_CURSOR''"

definition decode_cursor :: "report_settings \<Rightarrow> string \<Rightarrow> api_error + time \<times> ident" where
  "decode_cursor S c = (case rs_read_cursor S c of None \<Rightarrow> Inl invalid_cursor | Some p \<Rightarrow> Inr p)"

definition encode_cursor :: "report_settings \<Rightarrow> report \<Rightarrow> string" where
  "encode_cursor S r = rs_cursor S (rp_updated_at r, rp_id r)"

text \<open>The condition a cursor adds to the query; residents may also send an empty one.\<close>

definition apply_cursor :: "report_settings \<Rightarrow> string option \<Rightarrow> api_error + (report \<Rightarrow> bool)" where
  "apply_cursor S cursor =
     (case cursor of
        None \<Rightarrow> Inr (\<lambda>_. True)
      | Some c \<Rightarrow> if c = [] then Inr (\<lambda>_. True)
          else and_then (decode_cursor S c)
            (\<lambda>(t, i). Inr (\<lambda>r. rp_updated_at r < t \<or> rp_updated_at r = t \<and> rp_id r < i)))"

definition apply_operator_cursor ::
    "report_settings \<Rightarrow> ident \<Rightarrow> string option \<Rightarrow> 'a core_db_scheme \<Rightarrow> api_error + (report \<Rightarrow> bool)" where
  "apply_operator_cursor S incident_id cursor db =
     (case cursor of
        None \<Rightarrow> Inr (\<lambda>_. True)
      | Some c \<Rightarrow> and_then (decode_cursor S c)
          (\<lambda>(t, i). case find_report db i of
             None \<Rightarrow> Inl invalid_cursor
           | Some last_shown \<Rightarrow>
               if rp_incident_id last_shown \<noteq> incident_id then Inl invalid_cursor
               else Inr (\<lambda>r. report_rank r < report_rank last_shown
                 \<or> report_rank r = report_rank last_shown \<and> urgent_rank r < urgent_rank last_shown
                 \<or> report_rank r = report_rank last_shown \<and> urgent_rank r = urgent_rank last_shown
                   \<and> (rp_updated_at r < t \<or> rp_updated_at r = t \<and> rp_id r < i))))"

record report_filters =
  fl_priority :: "string option"
  fl_category :: "string option"
  fl_status :: "string option"
  fl_urgent :: "bool option"
  fl_updated_after :: "time option"

definition passes :: "'x option \<Rightarrow> 'x \<Rightarrow> bool" where
  "passes f x \<longleftrightarrow> (case f of None \<Rightarrow> True | Some y \<Rightarrow> x = y)"

definition listed :: "actor \<Rightarrow> ident \<Rightarrow> report_filters \<Rightarrow> report \<Rightarrow> bool" where
  "listed a incident_id fl r \<longleftrightarrow> rp_incident_id r = incident_id \<and> rp_deleted_at r = None
     \<and> \<not> rp_is_directed_answer r \<and> (is_resident a \<longrightarrow> rp_reporter_device_id r = ac_subject_id a)
     \<and> passes (fl_priority fl) (rp_priority r) \<and> passes (fl_category fl) (rp_category r)
     \<and> passes (fl_status fl) (rp_status r) \<and> passes (fl_urgent fl) (rp_is_urgent r)
     \<and> (case fl_updated_after fl of None \<Rightarrow> True | Some t \<Rightarrow> t < rp_updated_at r)"

record page_of_reports =
  pg_items :: "report list"
  pg_total :: nat
  pg_next_cursor :: "string option"
  pg_has_more :: bool

definition page_with :: "report_settings \<Rightarrow> nat \<Rightarrow> report list \<times> bool \<Rightarrow> page_of_reports" where
  "page_with S n p =
     \<lparr>pg_items = fst p, pg_total = n,
      pg_next_cursor = (if snd p \<and> fst p \<noteq> [] then Some (encode_cursor S (last (fst p))) else None),
      pg_has_more = snd p\<rparr>"

definition report_page ::
    "report_settings \<Rightarrow> actor \<Rightarrow> ident \<Rightarrow> report_filters \<Rightarrow> nat \<Rightarrow> 'a core_db_scheme \<Rightarrow> string option
      \<Rightarrow> api_error + page_of_reports" where
  "report_page S a incident_id fl limit db cursor =
     (let rows = filter (listed a incident_id fl) (db_reports db) in
      if is_resident a
      then and_then (apply_cursor S cursor)
        (\<lambda>after. Inr (page_with S (length rows) (first_page resident_key limit (filter after rows))))
      else and_then (apply_operator_cursor S incident_id cursor db)
        (\<lambda>after. Inr (page_with S (length rows) (first_page operator_key limit (filter after rows)))))"

definition listed_json :: "report_settings \<Rightarrow> call \<Rightarrow> 'a full_db_scheme \<Rightarrow> report \<Rightarrow> json" where
  "listed_json S c db r = serialize_report S (rc_env c) r (Some (rc_actor c)) (contact_for_report db r)
     (attachments_of_report db (rp_id r))"

definition list_reports ::
    "report_settings \<Rightarrow> call \<Rightarrow> string \<Rightarrow> report_filters \<Rightarrow> string option \<Rightarrow> nat \<Rightarrow> 'a full_db_scheme
      \<Rightarrow> api_error + json" where
  "list_reports S c name fl cursor limit db =
     and_then (get_incident db name) (\<lambda>inc. and_then (assert_incident_access (rc_actor c) inc (rc_header c))
      (\<lambda>_. and_then (report_page S (rc_actor c) (inc_id inc) fl limit db cursor)
      (\<lambda>p. Inr (success (JArr (map (listed_json S c db) (pg_items p))) (rc_request_id c)
         [(''total'', JInt (int (pg_total p))), (''limit'', JInt (int limit)),
          (''next_cursor'', jopt JStr (pg_next_cursor p)), (''has_more'', JBool (pg_has_more p)),
          (''as_of'', JInt (now (rc_env c)))]))))"

text \<open>A client that follows the cursors until a page has none.\<close>

partial_function (option) all_pages ::
    "report_settings \<Rightarrow> actor \<Rightarrow> ident \<Rightarrow> report_filters \<Rightarrow> nat \<Rightarrow> 'a core_db_scheme \<Rightarrow> string option
      \<Rightarrow> (api_error + report list) option" where
  [code]: "all_pages S a incident_id fl limit db cursor =
     (case report_page S a incident_id fl limit db cursor of
        Inl err \<Rightarrow> Some (Inl err)
      | Inr p \<Rightarrow> (case pg_next_cursor p of
          None \<Rightarrow> Some (Inr (pg_items p))
        | Some c \<Rightarrow> Option.bind (all_pages S a incident_id fl limit db (Some c))
            (\<lambda>rest. Some (map_sum id (\<lambda>rs. pg_items p @ rs) rest))))"

section \<open>What paging by a key rests on\<close>

text \<open>
  The interface between an order and the pages cut from it: the key tells rows apart that their
  names tell apart.
  \<open>follow\<close> is one request of a client that goes on with the cursor of the last row.
\<close>

definition follow ::
    "('r \<Rightarrow> 'k::linorder) \<Rightarrow> nat \<Rightarrow> ('r \<Rightarrow> 'c) \<Rightarrow> ('c option \<Rightarrow> ('e + 'r list) option) \<Rightarrow> 'r list
      \<Rightarrow> ('e + 'r list) option" where
  "follow key limit code walk ys =
     (let (p, more) = first_page key limit ys in
      if more \<and> p \<noteq> [] then map_option (map_sum id (\<lambda>rs. p @ rs)) (walk (Some (code (last p))))
      else Some (Inr p))"

lemma newest_filter: "newest key (filter P rows) = filter P (newest key rows)"
  unfolding newest_def rev_filter [symmetric] filter_sort ..

lemma mset_newest [simp]: "mset (newest key rows) = mset rows"
  by (simp add: newest_def)

lemma set_newest [simp]: "set (newest key rows) = set rows"
  by (simp add: newest_def)

lemma length_newest [simp]: "length (newest key rows) = length rows"
  by (simp add: newest_def)

locale keyset =
  fixes key :: "'r \<Rightarrow> 'k::linorder" and name :: "'r \<Rightarrow> 'i"
  assumes key_names: "key x = key y \<Longrightarrow> name x = name y"
begin

lemma keys_distinct: "distinct (map name rows) \<Longrightarrow> distinct (map key rows)"
  by (auto simp: distinct_map intro!: inj_onI dest!: key_names dest: inj_onD)

lemma newest_strict:
  assumes "distinct (map name rows)"
  shows "sorted_wrt (\<lambda>x y. key y < key x) (newest key (filter P rows))"
proof -
  have "distinct (map key (sort_key key (filter P rows)))"
    using keys_distinct [OF assms] by (auto simp: distinct_map intro: inj_on_subset)
  moreover have "sorted (map key (sort_key key (filter P rows)))" by simp
  ultimately have "sorted_wrt (<) (map key (sort_key key (filter P rows)))"
    by (simp add: strict_sorted_iff)
  then show ?thesis by (simp add: newest_def sorted_wrt_map sorted_wrt_rev)
qed

lemma behind_last:
  assumes "sorted_wrt (\<lambda>x y. key y < key x) xs" "0 < n" "n \<le> length xs"
  shows "filter (\<lambda>r. key r < key (last (take n xs))) xs = drop n xs"
proof -
  have "take n xs \<noteq> []" using assms(2,3) by auto
  then obtain ps x where ps: "take n xs = ps @ [x]" by (metis rev_exhaust)
  have xs: "xs = (ps @ [x]) @ drop n xs" unfolding ps [symmetric] by simp
  have "sorted_wrt (\<lambda>x y. key y < key x) ((ps @ [x]) @ drop n xs)" using assms(1) xs by simp
  then have "\<forall>y\<in>set ps. key x < key y" "\<forall>y\<in>set (drop n xs). key y < key x"
    by (auto simp: sorted_wrt_append)
  then have "filter (\<lambda>r. key r < key x) (ps @ [x]) = []" "filter (\<lambda>r. key r < key x) (drop n xs) = drop n xs"
    by (auto simp: filter_empty_conv filter_id_conv)
  then have "filter (\<lambda>r. key r < key x) xs = drop n xs"
    by (subst xs) simp
  then show ?thesis by (simp add: ps)
qed

lemma follow_shows:
  assumes limit: "0 < limit" and names: "distinct (map name rows)"
    and rest: "\<And>x. x \<in> set rows \<Longrightarrow> P x \<Longrightarrow>
      walk (Some (code x)) = Some (Inr (newest key (filter (\<lambda>r. key r < key x) rows)))"
    and down: "\<And>x r. P x \<Longrightarrow> key r < key x \<Longrightarrow> P r"
  shows "follow key limit code walk (filter P rows) = Some (Inr (newest key (filter P rows)))"
proof -
  let ?xs = "newest key (filter P rows)"
  let ?x = "last (take limit ?xs)"
  show ?thesis
  proof (cases "limit < length (filter P rows)")
    case True
    then have "length (take limit ?xs) = limit" by simp
    then have full: "take limit ?xs \<noteq> []" using limit by (metis list.size(3) less_irrefl)
    have "?x \<in> set ?xs" by (rule in_set_takeD [OF last_in_set [OF full]])
    then have x: "?x \<in> set rows" "P ?x" unfolding set_newest set_filter by blast+
    have sub: "filter (\<lambda>r. key r < key ?x) rows = filter (\<lambda>r. key r < key ?x) (filter P rows)"
      unfolding filter_filter by (rule filter_cong [OF refl]) (use down [OF x(2)] in blast)
    have "limit \<le> length ?xs" using True by simp
    from behind_last [OF newest_strict [OF names] limit this]
    have "newest key (filter (\<lambda>r. key r < key ?x) rows) = drop limit ?xs"
      unfolding sub newest_filter [of key _ "filter P rows"] .
    then have "walk (Some (code ?x)) = Some (Inr (drop limit ?xs))" using rest [OF x] by simp
    moreover have "take limit (take (limit + 1) ?xs) = take limit ?xs" by simp
    ultimately show ?thesis using True full by (simp add: follow_def first_page_def Let_def)
  next
    case False
    then show ?thesis by (simp add: follow_def first_page_def Let_def)
  qed
qed

text \<open>Following the cursors shows every row once, in the order of the keys, and ends.\<close>

lemma pages_cover:
  assumes limit: "0 < limit" and names: "distinct (map name rows)"
    and first: "walk None = follow key limit code walk rows"
    and next_page: "\<And>x. x \<in> set rows \<Longrightarrow>
      walk (Some (code x)) = follow key limit code walk (filter (\<lambda>r. key r < key x) rows)"
  shows "walk None = Some (Inr (newest key rows))"
proof -
  have later: "walk (Some (code x)) = Some (Inr (newest key (filter (\<lambda>r. key r < key x) rows)))"
    if "x \<in> set rows" for x
    using that
  proof (induction "length (filter (\<lambda>r. key r < key x) rows)" arbitrary: x rule: less_induct)
    case less
    have "walk (Some (code y)) = Some (Inr (newest key (filter (\<lambda>r. key r < key y) rows)))"
      if y: "y \<in> set rows" "key y < key x" for y
    proof (rule less(1))
      have sub: "filter (\<lambda>r. key r < key y) rows = filter (\<lambda>r. key r < key y) (filter (\<lambda>r. key r < key x) rows)"
        using y(2) by (auto intro!: filter_cong)
      show "length (filter (\<lambda>r. key r < key y) rows) < length (filter (\<lambda>r. key r < key x) rows)"
        unfolding sub by (rule length_filter_less [of y]) (use y in auto)
    qed (rule y(1))
    from follow_shows [OF limit names this] show ?case
      unfolding next_page [OF less(2)] by (auto intro: less_trans)
  qed
  have "follow key limit code walk (filter (\<lambda>_. True) rows) = Some (Inr (newest key (filter (\<lambda>_. True) rows)))"
    by (rule follow_shows [OF limit names]) (use later in auto)
  then show ?thesis using first by simp
qed

end

section \<open>Both orders, and the pages of the handler\<close>

interpretation by_time: keyset resident_key rp_id
  by unfold_locales (simp add: resident_key_def)

interpretation by_priority: keyset operator_key rp_id
  by unfold_locales (simp add: operator_key_def)

text \<open>The text of a cursor reads back and is not empty (JSON in URL-safe Base64).\<close>

definition cursors_read_back :: "report_settings \<Rightarrow> bool" where
  "cursors_read_back S \<longleftrightarrow> (\<forall>p. rs_read_cursor S (rs_cursor S p) = Some p \<and> rs_cursor S p \<noteq> [])"

lemma bind_then_Some: "Option.bind m (\<lambda>x. Some (f x)) = map_option f m"
  by (cases m) simp_all

lemma all_pages_resident:
  assumes "is_resident a" "apply_cursor S cursor = Inr after"
  shows "all_pages S a i fl limit db cursor = follow resident_key limit (encode_cursor S)
    (all_pages S a i fl limit db) (filter after (filter (listed a i fl) (db_reports db)))"
  by (subst all_pages.simps)
    (simp add: report_page_def and_then_def assms page_with_def follow_def bind_then_Some case_prod_beta Let_def)

lemma all_pages_operator:
  assumes "\<not> is_resident a" "apply_operator_cursor S i cursor db = Inr after"
  shows "all_pages S a i fl limit db cursor = follow operator_key limit (encode_cursor S)
    (all_pages S a i fl limit db) (filter after (filter (listed a i fl) (db_reports db)))"
  by (subst all_pages.simps)
    (simp add: report_page_def and_then_def assms page_with_def follow_def bind_then_Some case_prod_beta Let_def)

lemma resident_cursor:
  assumes "cursors_read_back S"
  shows "apply_cursor S (Some (encode_cursor S x)) = Inr (\<lambda>r. resident_key r < resident_key x)"
  using assms
  by (auto simp: apply_cursor_def encode_cursor_def decode_cursor_def and_then_def cursors_read_back_def resident_key_def)

lemma operator_cursor:
  assumes "cursors_read_back S" "find_report db (rp_id x) = Some x" "rp_incident_id x = i"
  shows "apply_operator_cursor S i (Some (encode_cursor S x)) db = Inr (\<lambda>r. operator_key r < operator_key x)"
  using assms
  by (auto simp: apply_operator_cursor_def encode_cursor_def decode_cursor_def and_then_def cursors_read_back_def
      operator_key_def)

definition shown_before :: "actor \<Rightarrow> report \<Rightarrow> report \<Rightarrow> bool" where
  "shown_before a x y \<longleftrightarrow>
     (if is_resident a then resident_key y < resident_key x else operator_key y < operator_key x)"

lemma distinct_listed:
  "distinct (map rp_id (db_reports db)) \<Longrightarrow> distinct (map rp_id (filter (listed a i fl) (db_reports db)))"
  by (rule distinct_map_filter)

lemma resident_pages:
  assumes "cursors_read_back S" "distinct (map rp_id (db_reports db))" "0 < limit" "is_resident a"
  shows "all_pages S a i fl limit db None = Some (Inr (newest resident_key (filter (listed a i fl) (db_reports db))))"
  using by_time.pages_cover [OF assms(3) distinct_listed [OF assms(2)], of "all_pages S a i fl limit db" "encode_cursor S"]
    all_pages_resident [OF assms(4) resident_cursor [OF assms(1)], where db = db and i = i and fl = fl and limit = limit]
    all_pages_resident [OF assms(4), of S None "\<lambda>_. True" i fl limit db]
  by (simp add: apply_cursor_def)

lemma operator_pages:
  assumes "cursors_read_back S" "distinct (map rp_id (db_reports db))" "0 < limit" "\<not> is_resident a"
  shows "all_pages S a i fl limit db None = Some (Inr (newest operator_key (filter (listed a i fl) (db_reports db))))"
proof (rule by_priority.pages_cover [OF assms(3) distinct_listed [OF assms(2)], where code = "encode_cursor S"])
  show "all_pages S a i fl limit db None = follow operator_key limit (encode_cursor S) (all_pages S a i fl limit db)
      (filter (listed a i fl) (db_reports db))"
    using all_pages_operator [OF assms(4), of S i None db "\<lambda>_. True" fl limit] by (simp add: apply_operator_cursor_def)
  fix x assume "x \<in> set (filter (listed a i fl) (db_reports db))"
  then have x: "x \<in> set (db_reports db)" "rp_incident_id x = i" by (simp_all add: listed_def)
  have "find_report db (rp_id x) = Some x"
    unfolding find_report_def by (rule find_unique [OF assms(2) x(1)])
  from all_pages_operator [OF assms(4) operator_cursor [OF assms(1) this x(2)]]
  show "all_pages S a i fl limit db (Some (encode_cursor S x)) = follow operator_key limit (encode_cursor S)
      (all_pages S a i fl limit db)
      (filter (\<lambda>r. operator_key r < operator_key x) (filter (listed a i fl) (db_reports db)))" .
qed


section \<open>One report\<close>

text \<open>
  The detail shows operators the contact in the clear; a contact that cannot be opened is an
  exception.
\<close>

definition plain_shown :: "report_settings \<Rightarrow> reporter_contact \<Rightarrow> api_error + json" where
  "plain_shown S ct =
     (case serialize_contact_plain (rs_vault S) (rs_vault_settings S) ct of
        None \<Rightarrow> Inl internal_error | Some p \<Rightarrow> Inr (plain_json p))"

definition serialize_report_detail ::
    "report_settings \<Rightarrow> env \<Rightarrow> report \<Rightarrow> actor \<Rightarrow> reporter_contact option \<Rightarrow> attachment list
      \<Rightarrow> api_error + json" where
  "serialize_report_detail S e r a contact as =
     (let data = serialize_report S e r (Some a) contact as in
      case contact of
        Some ct \<Rightarrow> if ac_role a \<in> {''operator'', ''admin''}
          then map_sum id (json_set data ''reporter'') (plain_shown S ct) else Inr data
      | None \<Rightarrow> Inr data)"

text \<open>What every read of one report checks first.\<close>

definition readable :: "call \<Rightarrow> ident \<Rightarrow> 'a full_db_scheme \<Rightarrow> api_error + report \<times> incident" where
  "readable c i db =
     and_then (get_report db i) (\<lambda>r. and_then (assert_report_access (rc_actor c) r False)
      (\<lambda>_. and_then (incident_for_report db r) (\<lambda>inc.
        and_then (assert_incident_access (rc_actor c) inc (rc_header c)) (\<lambda>_. Inr (r, inc)))))"

definition read_report ::
    "report_settings \<Rightarrow> call \<Rightarrow> ident \<Rightarrow> 'a full_db_scheme \<Rightarrow> api_error + json \<times> 'a full_db_scheme" where
  "read_report S c i db =
     and_then (readable c i db) (\<lambda>(r, inc).
      and_then (serialize_report_detail S (rc_env c) r (rc_actor c) (contact_for_report db r)
          (attachments_of_report db (rp_id r)))
      (\<lambda>data. Inr (success data (rc_request_id c) [],
         if contact_for_report db r \<noteq> None \<and> ac_role (rc_actor c) \<in> {''operator'', ''admin''}
         then record_audit (rc_env c) (Some (rc_actor c)) (Some (inc_id inc)) ''report.command_detail_read''
                ''report'' (Some (rp_id r)) (rc_request_id c) db
         else db)))"

definition history_entry :: "actor \<Rightarrow> report_revision \<Rightarrow> json" where
  "history_entry a v =
     JObj [(''revision'', JInt (rr_revision v)),
       (''snapshot'', if is_resident a
          then json_without (json_without (rr_snapshot v) ''reporter_device_id'') ''manual_priority''
          else rr_snapshot v),
       (''changed_by_type'', JStr (rr_changed_by_type v)),
       (''change_reason'', jopt JText (rr_change_reason v)), (''created_at'', JInt (rr_created_at v))]"

definition report_history :: "report_settings \<Rightarrow> call \<Rightarrow> ident \<Rightarrow> 'a full_db_scheme \<Rightarrow> api_error + json" where
  "report_history S c i db =
     and_then (readable c i db) (\<lambda>(r, inc).
      Inr (success (JArr (map (history_entry (rc_actor c))
          (sort_key rr_revision (filter (\<lambda>v. rr_report_id v = rp_id r) (db_report_revisions db)))))
        (rc_request_id c) [(''current_revision'', JInt (rp_revision r))]))"

definition recent_report ::
    "report_settings \<Rightarrow> call \<Rightarrow> bool \<Rightarrow> 'a full_db_scheme \<Rightarrow> api_error + json" where
  "recent_report S c directed db =
     (if \<not> is_resident (rc_actor c) then Inl resident_required
      else case newest resident_key (filter (\<lambda>r. rp_reporter_device_id r = ac_subject_id (rc_actor c)
            \<and> rp_incident_id r \<in> set (ac_incident_ids (rc_actor c))
            \<and> rp_is_directed_answer r = directed \<and> rp_deleted_at r = None) (db_reports db)) of
        [] \<Rightarrow> Inr (success JNull (rc_request_id c) [])
      | r # _ \<Rightarrow>
          (let data = listed_json S c db r in
           and_then (case contact_for_report db r of
               None \<Rightarrow> Inr data
             | Some ct \<Rightarrow> map_sum id (json_set data ''reporter'') (plain_shown S ct))
            (\<lambda>shown. Inr (success shown (rc_request_id c) []))))"

section \<open>Revealing a contact\<close>

text \<open>The five fields of \<open>ReporterRevealField\<close>; the default is all of them.\<close>

record reveal_request =
  rq_mfa_code :: string
  rq_fields :: "string list"

definition revealed_field :: "plain_view \<Rightarrow> string \<Rightarrow> json" where
  "revealed_field p f =
     (if f = ''full_name'' then JText (pv_full_name p)
      else if f = ''mobile'' then JText (pv_mobile p)
      else if f = ''national_id'' then jopt JText (add_national_id (pv_additional p))
      else if f = ''emergency_contact'' then plain_emergency p
      else jopt JText (add_rescue_notes (pv_additional p)))"

text \<open>
  The attempt is recorded and committed whether it is allowed or not; what is raised later
  leaves that entry in place.
\<close>

definition reveal_reporter_contact ::
    "report_settings \<Rightarrow> call \<Rightarrow> ident \<Rightarrow> reveal_request \<Rightarrow> 'a full_db_scheme
      \<Rightarrow> (api_error + json) \<times> 'a full_db_scheme" where
  "reveal_reporter_contact S c i p db =
     (case readable c i db of
        Inl err \<Rightarrow> (Inl err, db)
      | Inr (r, inc) \<Rightarrow>
          (case contact_for_report db r of
             None \<Rightarrow> (Inl (ApiError 404 ''REPORTER_CONTACT_NOT_FOUND''), db)
           | Some ct \<Rightarrow>
               (let verdict = authorize_reveal (rs_vault_settings S) (rc_actor c) (rq_mfa_code p);
                    db' = record_audit (rc_env c) (Some (rc_actor c)) (Some (inc_id inc))
                      (case verdict of Inr _ \<Rightarrow> ''reporter_contact.reveal_succeeded''
                         | Inl _ \<Rightarrow> ''reporter_contact.reveal_denied'')
                      ''reporter_contact'' (Some (ct_id ct)) (rc_request_id c) db in
                (and_then verdict (\<lambda>_.
                   case serialize_contact_plain (rs_vault S) (rs_vault_settings S) ct of
                     None \<Rightarrow> Inl internal_error
                   | Some plain \<Rightarrow> Inr (success (JObj [(''report_id'', JStr (rp_id r)),
                       (''reporter'', JObj (map (\<lambda>f. (f, revealed_field plain f)) (rq_fields p)))])
                       (rc_request_id c) [])), db'))))"

section \<open>What reading rests on\<close>

text \<open>
  C34. A contact is revealed to an admin with the code only, and every attempt on a report that has a
  contact leaves exactly one entry in the audit log, which says whether it was let through.
\<close>

theorem reveal_is_audited:
  assumes "readable c i db = Inr (r, inc)" "contact_for_report db r = Some ct"
  shows "\<exists>x. db_audit (snd (reveal_reporter_contact S c i p db)) = db_audit db @ [x]
    \<and> (ac_role (rc_actor c) = ''admin'' \<and> rq_mfa_code p = vs_mfa_code (rs_vault_settings S)
       \<longleftrightarrow> au_action x = ''reporter_contact.reveal_succeeded'')
    \<and> (au_action x \<noteq> ''reporter_contact.reveal_succeeded''
       \<longrightarrow> (\<exists>err. fst (reveal_reporter_contact S c i p db) = Inl err \<and> err_status err = 403))"
  using assms by (auto simp: reveal_reporter_contact_def record_audit_def authorize_reveal_def Let_def and_then_def)

text \<open>
  A contact that the retention has emptied cannot be opened; its report can no longer be read by
  an operator, nor by its own reporter as the latest: both requests fail with a 500.
\<close>

lemma emptied_contact_breaks_reads:
  assumes "readable c i db = Inr (r, inc)" "contact_for_report db r = Some ct" "ct_full_name_ciphertext ct = Marker"
    "ac_role (rc_actor c) = ''operator''"
  shows "read_report S c i db = Inl internal_error"
proof -
  have "serialize_contact_plain (rs_vault S) (rs_vault_settings S) ct = None"
    using assms(3) by (simp add: serialize_contact_plain_def plain_contact_of_def open_column_def)
  then show ?thesis
    using assms(1,2,4) by (simp add: read_report_def and_then_def serialize_report_detail_def plain_shown_def Let_def)
qed

section \<open>The reads at work\<close>

definition demo_cursor :: "time \<times> ident \<Rightarrow> string" where
  "demo_cursor p = (if fst p < 0 then CHR ''-'' else CHR ''+'')
     # replicate (nat \<bar>fst p\<bar>) (CHR ''x'') @ CHR '':'' # snd p"

fun demo_read_cursor :: "string \<Rightarrow> (time \<times> ident) option" where
  "demo_read_cursor [] = None"
| "demo_read_cursor (s # rest) =
     (let n = length (takeWhile (\<lambda>c. c = CHR ''x'') rest)
      in Some (if s = CHR ''-'' then - int n else int n, drop (Suc n) rest))"

definition demo_paging :: report_settings where
  "demo_paging = demo_settings\<lparr>rs_cursor := demo_cursor, rs_read_cursor := demo_read_cursor\<rparr>"

lemma demo_cursors: "cursors_read_back demo_paging"
proof -
  have "takeWhile (\<lambda>c. c = CHR ''x'') (replicate n (CHR ''x'') @ CHR '':'' # i) = replicate n (CHR ''x'')" for n i
    by (induction n) simp_all
  then show ?thesis by (auto simp: cursors_read_back_def demo_paging_def demo_cursor_def Let_def)
qed

definition demo_listing :: full_db where
  "demo_listing = demo_full_db demo_incident
     [demo_report, demo_report\<lparr>rp_id := ''r2'', rp_priority := ''high''\<rparr>, demo_report\<lparr>rp_id := ''r3''\<rparr>] [] []"

definition no_filters :: report_filters where
  "no_filters = \<lparr>fl_priority = None, fl_category = None, fl_status = None, fl_urgent = None, fl_updated_after = None\<rparr>"


text \<open>
  An operator's cursor takes priority and urgency from what its report is by then.  If that report
  was rated down between two requests, the second page starts behind its new place and the reports
  between the two places are shown on no page, although nothing happened to them.
\<close>

definition demo_before :: full_db where
  "demo_before = demo_full_db demo_incident
     [demo_report\<lparr>rp_priority := ''high'', rp_updated_at := 3\<rparr>,
      demo_report\<lparr>rp_id := ''r2'', rp_priority := ''high'', rp_updated_at := 2\<rparr>] [] []"

definition demo_after :: full_db where
  "demo_after = demo_full_db demo_incident
     [demo_report\<lparr>rp_priority := ''low'', rp_updated_at := 4\<rparr>,
      demo_report\<lparr>rp_id := ''r2'', rp_priority := ''high'', rp_updated_at := 2\<rparr>] [] []"

lemma rated_cursor_skips_report:
  "\<exists>p q c. report_page demo_paging demo_push_actor ''inc'' no_filters 1 demo_before None = Inr p
     \<and> map rp_id (pg_items p) = [''r1''] \<and> pg_next_cursor p = Some c
     \<and> report_page demo_paging demo_push_actor ''inc'' no_filters 1 demo_after (Some c) = Inr q
     \<and> pg_items q = [] \<and> pg_next_cursor q = None"
  by (simp add: report_page_def demo_before_def demo_after_def demo_full_db_def demo_report_def listed_def
      no_filters_def passes_def is_resident_def demo_push_actor_def apply_operator_cursor_def and_then_def
      page_with_def first_page_def newest_def operator_key_def report_rank_def urgent_rank_def
      encode_cursor_def decode_cursor_def demo_paging_def demo_cursor_def find_report_def Let_def
      eval_nat_numeral)

definition demo_revealing :: full_db where
  "demo_revealing = demo_full_db demo_incident [demo_report]
     [build_contact demo_vault demo_vault_settings demo_actor_env demo_incident ''d1'' demo_values] []"

theorem reveal_is_audited_witness:
  "\<exists>x. db_audit (snd (reveal_reporter_contact demo_settings demo_operator_call ''r1''
      \<lparr>rq_mfa_code = ''000000'', rq_fields = [''mobile'']\<rparr> demo_revealing)) = [x]
     \<and> au_action x \<noteq> ''reporter_contact.reveal_succeeded''"
proof -
  have "readable demo_operator_call ''r1'' demo_revealing = Inr (demo_report, demo_incident)"
    by (simp add: readable_def get_report_def find_report_def demo_revealing_def demo_full_db_def demo_report_def
        and_then_def assert_report_access_def demo_call_defs is_resident_def incident_for_report_def
        get_incident_by_id_def demo_incident_def assert_incident_access_def)
  moreover have "contact_for_report demo_revealing demo_report
      = Some (build_contact demo_vault demo_vault_settings demo_actor_env demo_incident ''d1'' demo_values)"
    by (simp add: contact_for_report_def or_else_def demo_report_def demo_revealing_def demo_full_db_def
        build_contact_def demo_actor_env_def Let_def)
  moreover have "db_audit demo_revealing = []" by (simp add: demo_revealing_def demo_full_db_def)
  ultimately show ?thesis
    using reveal_is_audited [of demo_operator_call "''r1''" demo_revealing demo_report demo_incident _ demo_settings
        "\<lparr>rq_mfa_code = ''000000'', rq_fields = [''mobile'']\<rparr>"] by auto
qed

end
