(* ===== verification/Questions.thy ===== *)
theory Questions
  imports Reports
begin

text \<open>
  Directed questions (\<open>routers/questions.py\<close>, \<open>schemas/questions.py\<close>): operators mark a blind
  spot, ask the residents of a target area a question about it, and each resident's device may
  give one answer, which it can change.  An answer becomes a fragment on the map.  When the
  answers of a question agree and enough of them say the same, the blind spot is resolved; when
  they contradict each other a conflict case is opened.

  A handler returns an error or its response with the database it commits.  Expiry times carry
  their time zone.  The JSON of a target area is what an operator sent, unchecked: its strings are
  \<open>JStr\<close>, and \<open>qs_float\<close> is \<open>float\<close> on a string, None for the \<open>ValueError\<close>.
\<close>

section \<open>Requests\<close>

record question_settings =
  qs_reports :: report_settings
  qs_float :: "string \<Rightarrow> rat option"

record blind_spot_create =
  bq_claim_key :: string
  bq_title :: utext
  bq_location_text :: utext
  bq_latitude :: "rat option"
  bq_longitude :: "rat option"
  bq_coordinate_system :: "string option"
  bq_scope_type :: string
  bq_scope_data :: "json option"
  bq_severity :: string
  bq_route_impact_count :: int
  bq_min_valid_answers :: "int option"

record question_option =
  qo_id :: string
  qo_label :: utext
  qo_semantic_value :: "string option"

record question_create =
  kq_blind_spot_id :: ident
  kq_title :: utext
  kq_location_text :: utext
  kq_target_geometry :: "json option"
  kq_route_impact_count :: int
  kq_answer_type :: string
  kq_options :: "question_option list"
  kq_expires_at :: "time option"

record answer_put =
  aq_option_id :: string
  aq_revision :: int
  aq_answer_text :: "utext option"
  aq_latitude :: "rat option"
  aq_longitude :: "rat option"
  aq_coordinate_system :: "string option"
  aq_attachment_ids :: "ident list"

record fragment_create =
  gq_topic :: string
  gq_claim_key :: "string option"
  gq_claim_value :: "string option"
  gq_label :: utext
  gq_description :: utext
  gq_location_text :: utext
  gq_latitude :: "rat option"
  gq_longitude :: "rat option"
  gq_coordinate_system :: "string option"
  gq_confidence :: rat
  gq_observed_at :: "time option"

text \<open>What the validators of the schemas accept beyond the bounds of single fields.\<close>

definition location_input_ok :: "rat option \<Rightarrow> rat option \<Rightarrow> string option \<Rightarrow> bool" where
  "location_input_ok lat lon sys \<longleftrightarrow>
     (lat \<noteq> None) = (lon \<noteq> None) \<and> (lat \<noteq> None \<longrightarrow> sys \<noteq> None)
     \<and> (case lat of None \<Rightarrow> True | Some x \<Rightarrow> - 90 \<le> x \<and> x \<le> 90)
     \<and> (case lon of None \<Rightarrow> True | Some x \<Rightarrow> - 180 \<le> x \<and> x \<le> 180)
     \<and> (case sys of None \<Rightarrow> True | Some s \<Rightarrow> s \<in> set [''wgs84'', ''gcj02''])"

definition question_create_ok :: "question_create \<Rightarrow> bool" where
  "question_create_ok p \<longleftrightarrow> 2 \<le> length (kq_options p) \<and> length (kq_options p) \<le> 20
     \<and> distinct (map qo_id (kq_options p))
     \<and> list_all (\<lambda>x. qo_id x \<noteq> [] \<and> qo_label x \<noteq> [] \<and> qo_semantic_value x \<noteq> Some []) (kq_options p)
     \<and> 0 \<le> kq_route_impact_count p \<and> kq_answer_type p = ''single_choice''"

definition answer_put_ok :: "answer_put \<Rightarrow> bool" where
  "answer_put_ok p \<longleftrightarrow> aq_option_id p \<noteq> [] \<and> 0 \<le> aq_revision p \<and> distinct (aq_attachment_ids p)
     \<and> location_input_ok (aq_latitude p) (aq_longitude p) (aq_coordinate_system p)"

definition option_json :: "question_option \<Rightarrow> json" where
  "option_json x = JObj [(''id'', JStr (qo_id x)), (''label'', JText (qo_label x)),
     (''semantic_value'', jopt JStr (qo_semantic_value x))]"

section \<open>Target areas\<close>

text \<open>\<open>float(v)\<close>, None for a \<open>TypeError\<close> or \<open>ValueError\<close>; \<open>str(v)\<close>, where a value that is no string
  prints as the name of no coordinate system; \<open>list(v)\<close>, None when it has no length.\<close>

definition to_float :: "(string \<Rightarrow> rat option) \<Rightarrow> json \<Rightarrow> real option" where
  "to_float rd j = (case j of
     JInt n \<Rightarrow> Some (of_int n) | JNum q \<Rightarrow> Some (of_rat q)
   | JBool b \<Rightarrow> Some (if b then 1 else 0) | JStr s \<Rightarrow> map_option of_rat (rd s) | _ \<Rightarrow> None)"

definition printed :: "json \<Rightarrow> string" where
  "printed j = (case j of JStr s \<Rightarrow> s | _ \<Rightarrow> ''?'')"

definition json_parts :: "json \<Rightarrow> json list option" where
  "json_parts j = (case j of
     JArr xs \<Rightarrow> Some xs | JStr s \<Rightarrow> Some (map (\<lambda>c. JStr [c]) s)
   | JObj kvs \<Rightarrow> Some (map (\<lambda>kv. JStr (fst kv)) kvs) | _ \<Rightarrow> None)"

text \<open>\<open>region_code in allowed_regions\<close> for a list, a dictionary or a string.\<close>

definition region_in :: "string option \<Rightarrow> json \<Rightarrow> api_error + bool" where
  "region_in region j = (case j of
     JArr xs \<Rightarrow> Inr (jopt JStr region \<in> set xs)
   | JObj kvs \<Rightarrow> Inr (case region of None \<Rightarrow> False | Some s \<Rightarrow> s \<in> set (map fst kvs))
   | JStr t \<Rightarrow> (case region of None \<Rightarrow> Inl internal_error | Some s \<Rightarrow> Inr (contains t s))
   | _ \<Rightarrow> Inl internal_error)"

definition geometry_of :: "question \<Rightarrow> json" where
  "geometry_of q = (case qn_target_geometry q of
     None \<Rightarrow> JObj [] | Some g \<Rightarrow> if truthy g then g else JObj [])"

text \<open>\<open>str(geometry.get("coordinate_system") or coordinate_system or "")\<close>\<close>

definition system_or :: "json \<Rightarrow> string \<Rightarrow> string" where
  "system_or j d = (let s = jget j ''coordinate_system'' in if truthy s then printed s else d)"

definition into_system ::
    "string \<Rightarrow> string option \<Rightarrow> real \<Rightarrow> real \<Rightarrow> api_error + real \<times> real" where
  "into_system target sys lat lon =
     (case or_else sys None of
        None \<Rightarrow> Inr (lat, lon)
      | Some s \<Rightarrow>
          if target \<notin> set [''wgs84'', ''gcj02''] then Inr (lat, lon)
          else map_sum id (\<lambda>p. if target = ''wgs84'' then (pos_wgs84_latitude p, pos_wgs84_longitude p)
              else (pos_gcj02_latitude p, pos_gcj02_longitude p)) (normalize_position lat lon s))"

definition within_box ::
    "(string \<Rightarrow> rat option) \<Rightarrow> json list \<Rightarrow> real \<Rightarrow> real \<Rightarrow> api_error + bool" where
  "within_box rd parts lat lon =
     (case map (to_float rd) parts of
        [Some west, Some south, Some east, Some north] \<Rightarrow>
          Inr (west \<le> lon \<and> lon \<le> east \<and> south \<le> lat \<and> lat \<le> north)
      | _ \<Rightarrow> Inl internal_error)"

text \<open>
  The test of the box: None for \<open>return False\<close>, otherwise the position the code goes on with,
  which is the one it converted for the box.
\<close>

definition check_bbox ::
    "(string \<Rightarrow> rat option) \<Rightarrow> json \<Rightarrow> real option \<Rightarrow> real option \<Rightarrow> string option
      \<Rightarrow> api_error + (real option \<times> real option) option" where
  "check_bbox rd g lat lon sys =
     (let bbox = jget g ''bbox'' in
      if \<not> truthy bbox then Inr (Some (lat, lon))
      else case (lat, lon) of
        (Some la, Some lo) \<Rightarrow>
          (case json_parts bbox of
             None \<Rightarrow> Inl internal_error
           | Some parts \<Rightarrow>
               if length parts \<noteq> 4 then Inr None
               else and_then (into_system (system_or g (case sys of None \<Rightarrow> [] | Some s \<Rightarrow> s)) sys la lo)
                 (\<lambda>(la', lo'). and_then (within_box rd parts la' lo')
                   (\<lambda>inside. Inr (if inside then Some (Some la', Some lo') else None))))
      | _ \<Rightarrow> Inr None)"

definition center_of :: "json \<Rightarrow> json" where
  "center_of g =
     (if jget g ''center'' \<noteq> JNull then jget g ''center''
      else if jget g ''type'' = JStr ''Point'' then
        (case jget g ''coordinates'' of
           JArr (x # y # ys) \<Rightarrow> JObj [(''longitude'', x), (''latitude'', y),
             (''coordinate_system'', jget g ''coordinate_system'')]
         | _ \<Rightarrow> JNull)
      else JNull)"

text \<open>
  The test of the circle.  A missing or unreadable number is caught and means no match; the
  \<open>ApiError\<close> of \<open>normalize\<close> is not caught.
\<close>

definition check_radius ::
    "(string \<Rightarrow> rat option) \<Rightarrow> json \<Rightarrow> real option \<Rightarrow> real option \<Rightarrow> string option \<Rightarrow> api_error + bool" where
  "check_radius rd g lat lon sys =
     (let c = center_of g; radius = jget g ''radius_m'' in
      if c = JNull \<and> radius = JNull then Inr True
      else case (lat, lon, sys) of
        (Some la, Some lo, Some s) \<Rightarrow>
          if \<not> is_dict c \<or> radius = JNull then Inr False
          else (case (to_float rd (jget c ''latitude''), to_float rd (jget c ''longitude'')) of
             (Some clat, Some clon) \<Rightarrow>
               and_then (normalize_position la lo s)
                (\<lambda>p. and_then (normalize_position clat clon (system_or c (system_or g s)))
                (\<lambda>q. Inr (case to_float rd radius of
                    None \<Rightarrow> False
                  | Some r \<Rightarrow> haversine_m (pos_wgs84_latitude p) (pos_wgs84_longitude p)
                      (pos_wgs84_latitude q) (pos_wgs84_longitude q) \<le> r)))
           | _ \<Rightarrow> Inr False)
      | _ \<Rightarrow> Inr False)"

definition target_matches ::
    "(string \<Rightarrow> rat option) \<Rightarrow> question \<Rightarrow> rat option \<Rightarrow> rat option \<Rightarrow> string option \<Rightarrow> string option
      \<Rightarrow> api_error + bool" where
  "target_matches rd q lat lon sys region =
     (let g = geometry_of q; regions = jget g ''region_codes'' in
      and_then (if truthy regions then region_in region regions else Inr True)
       (\<lambda>allowed. if \<not> allowed then Inr False
          else and_then (check_bbox rd g (map_option of_rat lat) (map_option of_rat lon) sys)
            (\<lambda>hit. case hit of
               None \<Rightarrow> Inr False
             | Some (la, lo) \<Rightarrow> check_radius rd g la lo sys)))"

section \<open>Rows\<close>

definition named_incident :: "'a ev_db_scheme \<Rightarrow> string \<Rightarrow> api_error + incident" where
  "named_incident db name =
     (case get_incident_by_id db name of
        Some i \<Rightarrow> Inr i
      | None \<Rightarrow> (case find (\<lambda>i. inc_alias i = Some name) (db_incidents db) of
          None \<Rightarrow> Inl not_found | Some i \<Rightarrow> Inr i))"

definition find_question :: "'a core_db_scheme \<Rightarrow> ident \<Rightarrow> question option" where
  "find_question db i = find (\<lambda>q. qn_id q = i) (db_questions db)"

definition put_question :: "question \<Rightarrow> 'a core_db_scheme \<Rightarrow> 'a core_db_scheme" where
  "put_question q db = db\<lparr>db_questions := modify_where (\<lambda>x. qn_id x = qn_id q) (\<lambda>_. q) (db_questions db)\<rparr>"

definition find_blind_spot :: "'a core_db_scheme \<Rightarrow> ident \<Rightarrow> blind_spot option" where
  "find_blind_spot db i = find (\<lambda>b. bs_id b = i) (db_blind_spots db)"

definition find_answer :: "'a core_db_scheme \<Rightarrow> ident \<Rightarrow> ident \<Rightarrow> answer option" where
  "find_answer db question_id device_id =
     find (\<lambda>x. da_question_id x = question_id \<and> da_device_id x = device_id) (db_answers db)"

definition put_answer :: "answer \<Rightarrow> 'a core_db_scheme \<Rightarrow> 'a core_db_scheme" where
  "put_answer x db = db\<lparr>db_answers := modify_where (\<lambda>y. da_id y = da_id x) (\<lambda>_. x) (db_answers db)\<rparr>"

definition attachments_of_answer :: "'a core_db_scheme \<Rightarrow> ident \<Rightarrow> attachment list" where
  "attachments_of_answer db i =
     sort_key (\<lambda>a. (at_created_at a, at_id a))
       (filter (\<lambda>a. at_directed_answer_id a = Some i) (db_attachments db))"

section \<open>What is shown\<close>

definition question_data :: "question \<Rightarrow> json" where
  "question_data q = JObj
     [(''id'', JStr (qn_id q)), (''incident_id'', JStr (qn_incident_id q)),
      (''blind_spot_id'', JStr (qn_blind_spot_id q)), (''title'', JText (qn_title q)),
      (''location_text'', JText (qn_location_text q)),
      (''target_geometry'', case qn_target_geometry q of None \<Rightarrow> JNull | Some g \<Rightarrow> g),
      (''route_impact_count'', JInt (qn_route_impact_count q)),
      (''answer_type'', JStr (qn_answer_type q)), (''options'', JArr (qn_options q)),
      (''status'', JStr (qn_status q)), (''expires_at'', jopt JInt (qn_expires_at q)),
      (''revision'', JInt (qn_revision q)), (''created_at'', JInt (qn_created_at q)),
      (''updated_at'', JInt (qn_updated_at q))]"

definition answer_data :: "link_settings \<Rightarrow> env \<Rightarrow> answer \<Rightarrow> attachment list \<Rightarrow> json" where
  "answer_data ls e x as = JObj
     [(''id'', JStr (da_id x)), (''question_id'', JStr (da_question_id x)),
      (''option_id'', JStr (da_option_id x)), (''semantic_value'', JStr (da_semantic_value x)),
      (''answer_text'', JText (da_answer_text x)),
      (''observed_latitude'', jopt JNum (da_observed_latitude x)),
      (''observed_longitude'', jopt JNum (da_observed_longitude x)),
      (''observed_coordinate_system'', jopt JStr (da_observed_coordinate_system x)),
      (''attachment_ids'', JArr (map (\<lambda>a. JStr (at_id a)) as)),
      (''attachments'', JArr (map (serialize_attachment ls e) as)),
      (''revision'', JInt (da_revision x)), (''created_at'', JInt (da_created_at x)),
      (''updated_at'', JInt (da_updated_at x))]"

text \<open>A fragment as it was submitted; its \<open>created_at\<close> and \<open>updated_at\<close> are not kept.\<close>

definition shown_fragment :: "fragment \<Rightarrow> json" where
  "shown_fragment f = JObj
     [(''id'', JStr (fg_id f)), (''incident_id'', JStr (fg_incident_id f)),
      (''source_type'', JStr (fg_source_type f)), (''source_ref_id'', jopt JStr (fg_source_ref_id f)),
      (''source_cluster_id'', if fg_source_type f = ''resident_report'' then JNull
         else jopt JStr (fg_source_cluster_id f)),
      (''topic'', JStr (fg_topic f)), (''claim_key'', jopt JStr (fg_claim_key f)),
      (''claim_value'', jopt JStr (fg_claim_value f)), (''label'', JText (fg_label f)),
      (''description'', JText (fg_description f)), (''location_text'', JText (fg_location_text f)),
      (''latitude'', jopt JNum (fg_latitude f)), (''longitude'', jopt JNum (fg_longitude f)),
      (''coordinate_system'', jopt JStr (fg_coordinate_system f)), (''shape'', JStr (fg_shape f)),
      (''status'', JStr (fg_status f)), (''confidence'', JNum (fg_confidence f)),
      (''observed_at'', jopt JInt (fg_observed_at f)), (''received_at'', JInt (fg_received_at f)),
      (''revision'', JInt (fg_revision f))]"

text \<open>An event of these handlers: to the operators, to everyone, or to the device it is owned by.\<close>

definition tell ::
    "env \<Rightarrow> ident \<Rightarrow> string \<Rightarrow> ident option \<Rightarrow> string \<Rightarrow> string \<Rightarrow> ident \<Rightarrow> int \<Rightarrow> json
      \<Rightarrow> 'a ev_db_scheme \<Rightarrow> 'a ev_db_scheme" where
  "tell e iid visibility owner event_type resource_type resource_id revision payload db =
     snd (emit_event e iid ((simple_emission event_type resource_type resource_id revision payload
       visibility)\<lparr>em_owner_device_id := owner\<rparr>) db)"

text \<open>\<open>OperatorDep\<close>, then the access to the incident of the path.\<close>

definition operator_access :: "call \<Rightarrow> ident \<Rightarrow> api_error + unit" where
  "operator_access c incident_id =
     and_then (require_roles [''operator'', ''admin''] (rc_actor c))
       (\<lambda>a. ensure_incident_access a incident_id (rc_header c))"

section \<open>Blind spots and questions\<close>

definition asked_blind_spot ::
    "question_settings \<Rightarrow> env \<Rightarrow> nat \<Rightarrow> incident \<Rightarrow> blind_spot_create \<Rightarrow> blind_spot" where
  "asked_blind_spot Q e k inc p =
     \<lparr>bs_id = new_id e k, bs_incident_id = inc_id inc, bs_claim_key = bq_claim_key p,
      bs_title = bq_title p, bs_location_text = bq_location_text p, bs_latitude = bq_latitude p,
      bs_longitude = bq_longitude p, bs_coordinate_system = bq_coordinate_system p,
      bs_scope_type = bq_scope_type p, bs_scope_data = bq_scope_data p, bs_severity = bq_severity p,
      bs_route_impact_count = bq_route_impact_count p,
      bs_min_valid_answers = (case bq_min_valid_answers p of
          Some n \<Rightarrow> n | None \<Rightarrow> oc_min_answers (rs_observing (qs_reports Q))),
      bs_status = ''open'', bs_resolution_value = None, bs_revision = 1,
      bs_created_at = now e, bs_updated_at = now e\<rparr>"

definition create_blind_spot ::
    "question_settings \<Rightarrow> call \<Rightarrow> ident \<Rightarrow> blind_spot_create \<Rightarrow> 'a core_db_scheme
      \<Rightarrow> api_error + json \<times> 'a core_db_scheme" where
  "create_blind_spot Q c incident_id p db =
     (let e = rc_env c in
      and_then (operator_access c incident_id)
       (\<lambda>_. and_then (named_incident db incident_id)
       (\<lambda>inc. let b = asked_blind_spot Q e (id_count db) inc p in
         and_then (upsert_blind_spot_map_feature e b
             ((flush db)\<lparr>db_blind_spots := db_blind_spots db @ [b], id_count := Suc (id_count db)\<rparr>))
       (\<lambda>db1. Inr (success (blind_spot_data b) (rc_request_id c) [],
          tell e (inc_id inc) ''operators'' None ''blind_spot.created'' ''blind_spot'' (bs_id b)
            (bs_revision b) (blind_spot_data b)
            (record_audit e (Some (rc_actor c)) (Some (inc_id inc)) ''blind_spot.created'' ''blind_spot''
               (Some (bs_id b)) (rc_request_id c) db1))))))"

definition past :: "env \<Rightarrow> time option \<Rightarrow> bool" where
  "past e t = (case t of None \<Rightarrow> False | Some x \<Rightarrow> x \<le> now e)"

definition drafted_question :: "call \<Rightarrow> nat \<Rightarrow> incident \<Rightarrow> blind_spot \<Rightarrow> question_create \<Rightarrow> question" where
  "drafted_question c k inc b p =
     \<lparr>qn_id = new_id (rc_env c) k, qn_incident_id = inc_id inc, qn_blind_spot_id = bs_id b,
      qn_title = kq_title p, qn_location_text = kq_location_text p,
      qn_target_geometry = kq_target_geometry p, qn_route_impact_count = kq_route_impact_count p,
      qn_answer_type = kq_answer_type p, qn_options = map option_json (kq_options p),
      qn_status = ''draft'', qn_expires_at = kq_expires_at p,
      qn_created_by = Some (ac_subject_id (rc_actor c)), qn_revision = 1,
      qn_created_at = now (rc_env c), qn_updated_at = now (rc_env c)\<rparr>"

definition create_question ::
    "call \<Rightarrow> ident \<Rightarrow> question_create \<Rightarrow> 'a core_db_scheme \<Rightarrow> api_error + json \<times> 'a core_db_scheme" where
  "create_question c incident_id p db =
     and_then (operator_access c incident_id)
      (\<lambda>_. if past (rc_env c) (kq_expires_at p) then Inl (ApiError 422 ''INVALID_EXPIRY'')
       else and_then (named_incident db incident_id)
      (\<lambda>inc. case find_blind_spot db (kq_blind_spot_id p) of
          None \<Rightarrow> Inl not_found
        | Some b \<Rightarrow>
            if bs_incident_id b \<noteq> inc_id inc then Inl not_found
            else
              (let q = drafted_question c (id_count db) inc b p in
               Inr (success (question_data q) (rc_request_id c) [],
                 record_audit (rc_env c) (Some (rc_actor c)) (Some (inc_id inc)) ''question.created''
                   ''question'' (Some (qn_id q)) (rc_request_id c)
                   ((flush db)\<lparr>db_questions := db_questions db @ [q], id_count := Suc (id_count db)\<rparr>)))))"

text \<open>
  Publishing and closing.  \<open>updated_at\<close> moves when the row is written, after the event and the
  audit entry were made and before the response.
\<close>

definition change_question_status ::
    "call \<Rightarrow> ident \<Rightarrow> int \<Rightarrow> string \<Rightarrow> 'a core_db_scheme \<Rightarrow> api_error + json \<times> 'a core_db_scheme" where
  "change_question_status c i revision target db =
     (let e = rc_env c in
      and_then (require_roles [''operator'', ''admin''] (rc_actor c))
       (\<lambda>a. case find_question db i of
          None \<Rightarrow> Inl not_found
        | Some q0 \<Rightarrow>
            and_then (ensure_incident_access a (qn_incident_id q0) (rc_header c))
             (\<lambda>_. if qn_revision q0 \<noteq> revision then Inl revision_conflict
              else if target = ''published'' \<and> past e (qn_expires_at q0)
              then Inl (ApiError 422 ''QUESTION_EXPIRED'')
              else and_then (named_incident db (qn_incident_id q0))
             (\<lambda>inc. let q = q0\<lparr>qn_status := target, qn_revision := qn_revision q0 + 1\<rparr>;
                    q' = q\<lparr>qn_updated_at := now e\<rparr> in
                Inr (success (question_data q') (rc_request_id c) [],
                  tell e (inc_id inc) ''public'' None (''question.'' @ target) ''question'' (qn_id q)
                    (qn_revision q) (question_data q)
                    (record_audit e (Some a) (Some (inc_id inc)) (''question.'' @ target) ''question''
                      (Some (qn_id q)) (rc_request_id c) (put_question q' db)))))))"

definition publish_question ::
    "call \<Rightarrow> ident \<Rightarrow> int \<Rightarrow> 'a core_db_scheme \<Rightarrow> api_error + json \<times> 'a core_db_scheme" where
  "publish_question c i revision db = change_question_status c i revision ''published'' db"

definition close_question ::
    "call \<Rightarrow> ident \<Rightarrow> int \<Rightarrow> 'a core_db_scheme \<Rightarrow> api_error + json \<times> 'a core_db_scheme" where
  "close_question c i revision db = change_question_status c i revision ''closed'' db"

text \<open>The lists an operator sees; the status filter counts when it is not empty.\<close>

definition list_blind_spots ::
    "call \<Rightarrow> ident \<Rightarrow> string option \<Rightarrow> 'a core_db_scheme \<Rightarrow> api_error + json" where
  "list_blind_spots c incident_id status db =
     and_then (ensure_incident_access (rc_actor c) incident_id (rc_header c))
      (\<lambda>_. Inr (success (JArr (map blind_spot_data (sort_key (\<lambda>b. - bs_created_at b)
         (filter (\<lambda>b. bs_incident_id b = incident_id
            \<and> (case or_else status None of None \<Rightarrow> True | Some s \<Rightarrow> bs_status b = s))
           (db_blind_spots db))))) (rc_request_id c) []))"

definition list_questions ::
    "call \<Rightarrow> ident \<Rightarrow> string option \<Rightarrow> 'a core_db_scheme \<Rightarrow> api_error + json" where
  "list_questions c incident_id status db =
     and_then (operator_access c incident_id)
      (\<lambda>_. Inr (success (JArr (map question_data (sort_key (\<lambda>q. - qn_created_at q)
         (filter (\<lambda>q. qn_incident_id q = incident_id
            \<and> (case or_else status None of None \<Rightarrow> True | Some s \<Rightarrow> qn_status q = s))
           (db_questions db))))) (rc_request_id c) []))"

section \<open>Questions for a place\<close>

fun matching_among ::
    "(question \<Rightarrow> api_error + bool) \<Rightarrow> env \<Rightarrow> question list \<Rightarrow> api_error + question list" where
  "matching_among hits e [] = Inr []"
| "matching_among hits e (q # qs) =
     (if past e (qn_expires_at q) then matching_among hits e qs
      else and_then (hits q)
        (\<lambda>hit. map_sum id (\<lambda>ms. if hit then q # ms else ms) (matching_among hits e qs)))"

definition matching_questions ::
    "question_settings \<Rightarrow> env \<Rightarrow> ident \<Rightarrow> rat option \<Rightarrow> rat option \<Rightarrow> string option \<Rightarrow> string option
      \<Rightarrow> 'a core_db_scheme \<Rightarrow> api_error + question list" where
  "matching_questions Q e incident_id lat lon sys region db =
     matching_among (\<lambda>q. target_matches (qs_float Q) q lat lon sys region) e
       (sort_key (\<lambda>q. - qn_created_at q)
         (filter (\<lambda>q. qn_incident_id q = incident_id \<and> qn_status q = ''published'') (db_questions db)))"

text \<open>A resident is also shown its own answers.\<close>

definition active_data ::
    "question_settings \<Rightarrow> call \<Rightarrow> 'a core_db_scheme \<Rightarrow> question list \<Rightarrow> question \<Rightarrow> json" where
  "active_data Q c db items q =
     (if is_resident (rc_actor c) \<and> items \<noteq> []
      then json_set (question_data q) ''my_answer''
        (case find_answer db (qn_id q) (ac_subject_id (rc_actor c)) of
           None \<Rightarrow> JNull
         | Some x \<Rightarrow> answer_data (rs_links (qs_reports Q)) (rc_env c) x (attachments_of_answer db (da_id x)))
      else question_data q)"

definition active_questions ::
    "question_settings \<Rightarrow> call \<Rightarrow> ident \<Rightarrow> rat option \<Rightarrow> rat option \<Rightarrow> string option \<Rightarrow> string option
      \<Rightarrow> 'a core_db_scheme \<Rightarrow> api_error + json" where
  "active_questions Q c incident_id lat lon sys region db =
     and_then (ensure_incident_access (rc_actor c) incident_id (rc_header c))
      (\<lambda>_. and_then (matching_questions Q (rc_env c) incident_id lat lon sys region db)
      (\<lambda>items. Inr (success (JArr (map (active_data Q c db items) items)) (rc_request_id c) [])))"

definition match_questions ::
    "question_settings \<Rightarrow> call \<Rightarrow> ident \<Rightarrow> rat option \<Rightarrow> rat option \<Rightarrow> string option \<Rightarrow> string option
      \<Rightarrow> 'a core_db_scheme \<Rightarrow> api_error + json" where
  "match_questions Q c incident_id lat lon sys region db =
     and_then (ensure_incident_access (rc_actor c) incident_id (rc_header c))
      (\<lambda>_. and_then (matching_questions Q (rc_env c) incident_id lat lon sys region db)
      (\<lambda>items. Inr (success (JArr (map question_data items)) (rc_request_id c) [])))"

section \<open>Giving an answer\<close>

text \<open>\<open>str(option.get("semantic_value") or option["id"])\<close>, and the text: the resident's own, or the
  label of the option.\<close>

definition semantic_of :: "json \<Rightarrow> string" where
  "semantic_of choice = (let v = jget choice ''semantic_value'' in
     id_text (if truthy v then v else jget choice ''id''))"

definition text_of_answer :: "answer_put \<Rightarrow> json \<Rightarrow> utext" where
  "text_of_answer p choice =
     (let label = (case jget choice ''label'' of
            JText t \<Rightarrow> if t = [] then codes (semantic_of choice) else t
          | _ \<Rightarrow> codes (semantic_of choice))
      in case aq_answer_text p of None \<Rightarrow> label | Some t \<Rightarrow> if t = [] then label else t)"

definition chosen_option :: "question \<Rightarrow> string \<Rightarrow> json option" where
  "chosen_option q i = find (\<lambda>x. id_text (jget x ''id'') = i) (qn_options q)"

text \<open>The guards of \<open>put_my_answer\<close>: the question, the option chosen, the incident, the blind spot.\<close>

definition answerable ::
    "question_settings \<Rightarrow> call \<Rightarrow> ident \<Rightarrow> answer_put \<Rightarrow> 'a core_db_scheme
      \<Rightarrow> api_error + question \<times> json \<times> incident \<times> blind_spot" where
  "answerable Q c i p db =
     (let a = rc_actor c in
      if \<not> is_resident a then Inl resident_required
      else case find_question db i of
        None \<Rightarrow> Inl not_found
      | Some q \<Rightarrow>
          and_then (ensure_incident_access a (qn_incident_id q) (rc_header c))
           (\<lambda>_. if qn_status q \<noteq> ''published'' then Inl (conflict_error ''QUESTION_NOT_ACTIVE'')
            else if past (rc_env c) (qn_expires_at q) then Inl (conflict_error ''QUESTION_EXPIRED'')
            else case find (\<lambda>d. dv_id d = ac_subject_id a) (db_devices db) of
              None \<Rightarrow> Inl (ApiError 401 ''INVALID_ACCESS_TOKEN'')
            | Some d \<Rightarrow>
                and_then (target_matches (qs_float Q) q (aq_latitude p) (aq_longitude p)
                    (aq_coordinate_system p) (dv_region_code d))
                 (\<lambda>hit. if \<not> hit then Inl (ApiError 403 ''QUESTION_TARGET_MISMATCH'')
                  else case chosen_option q (aq_option_id p) of
                    None \<Rightarrow> Inl (ApiError 422 ''INVALID_QUESTION_OPTION'')
                  | Some choice \<Rightarrow>
                      and_then (named_incident db (qn_incident_id q))
                       (\<lambda>inc. case find_blind_spot db (qn_blind_spot_id q) of
                          None \<Rightarrow> Inl not_found | Some b \<Rightarrow> Inr (q, choice, inc, b)))))"

definition answered_with :: "env \<Rightarrow> answer_put \<Rightarrow> json \<Rightarrow> answer \<Rightarrow> answer" where
  "answered_with e p choice x =
     x\<lparr>da_option_id := aq_option_id p, da_semantic_value := semantic_of choice,
       da_answer_text := text_of_answer p choice, da_observed_latitude := aq_latitude p,
       da_observed_longitude := aq_longitude p,
       da_observed_coordinate_system := aq_coordinate_system p, da_updated_at := now e\<rparr>"

definition first_answer :: "env \<Rightarrow> nat \<Rightarrow> question \<Rightarrow> ident \<Rightarrow> answer_put \<Rightarrow> json \<Rightarrow> answer" where
  "first_answer e k q device_id p choice = answered_with e p choice
     \<lparr>da_id = new_id e k, da_question_id = qn_id q, da_device_id = device_id, da_option_id = [],
      da_semantic_value = [], da_answer_text = [], da_observed_latitude = None,
      da_observed_longitude = None, da_observed_coordinate_system = None, da_revision = 1,
      da_created_at = now e, da_updated_at = now e\<rparr>"

text \<open>The answer, and whether it is the device's first to the question.\<close>

definition write_answer ::
    "env \<Rightarrow> question \<Rightarrow> ident \<Rightarrow> answer_put \<Rightarrow> json \<Rightarrow> 'a core_db_scheme
      \<Rightarrow> api_error + (answer \<times> bool) \<times> 'a core_db_scheme" where
  "write_answer e q device_id p choice db =
     (case find_answer db (qn_id q) device_id of
        None \<Rightarrow>
          if aq_revision p \<noteq> 0 then Inl revision_conflict
          else (let x = first_answer e (id_count db) q device_id p choice
            in Inr ((x, True), (flush db)\<lparr>db_answers := db_answers db @ [x], id_count := Suc (id_count db)\<rparr>))
      | Some old \<Rightarrow>
          if da_revision old \<noteq> aq_revision p then Inl revision_conflict
          else (let x = (answered_with e p choice old)\<lparr>da_revision := da_revision old + 1\<rparr>
            in Inr ((x, False), put_answer x (flush db))))"

definition answer_may_use :: "ident \<Rightarrow> ident \<Rightarrow> answer \<Rightarrow> attachment \<Rightarrow> bool" where
  "answer_may_use incident_id uploader x a \<longleftrightarrow> at_incident_id a = incident_id
     \<and> at_uploader_device_id a = uploader \<and> at_report_id a = None
     \<and> at_directed_answer_id a \<in> {None, Some (da_id x)} \<and> at_metadata_status a = ''ready''
     \<and> at_malware_scan_status a \<in> set [''clean'', ''fake_clean'']"

definition replace_answer_attachments ::
    "answer \<Rightarrow> ident \<Rightarrow> ident \<Rightarrow> ident list \<Rightarrow> 'a core_db_scheme
      \<Rightarrow> api_error + attachment list \<times> 'a core_db_scheme" where
  "replace_answer_attachments x incident_id uploader ids db =
     (let rows = filter (\<lambda>a. at_id a \<in> set ids) (db_attachments db);
          requested = List.map_filter (\<lambda>i. find (\<lambda>a. at_id a = i) rows) ids in
      if length (remdups (map at_id rows)) \<noteq> length ids then Inl attachment_not_ready
      else if \<not> list_all (answer_may_use incident_id uploader x) requested then Inl attachment_not_ready
      else Inr (map (\<lambda>a. a\<lparr>at_directed_answer_id := Some (da_id x)\<rparr>) requested,
        (flush db)\<lparr>db_attachments :=
          modify_where (\<lambda>a. at_id a \<in> set ids) (\<lambda>a. a\<lparr>at_directed_answer_id := Some (da_id x)\<rparr>)
            (modify_where (\<lambda>a. at_directed_answer_id a = Some (da_id x) \<and> at_id a \<notin> set ids)
              (\<lambda>a. a\<lparr>at_directed_answer_id := None\<rparr>) (db_attachments db))\<rparr>))"

definition add_answer_revision ::
    "question_settings \<Rightarrow> env \<Rightarrow> answer \<Rightarrow> attachment list \<Rightarrow> 'a core_db_scheme \<Rightarrow> 'a core_db_scheme" where
  "add_answer_revision Q e x as db =
     db\<lparr>db_answer_revisions := db_answer_revisions db @
          [\<lparr>dr_id = new_id e (id_count db), dr_answer_id = da_id x, dr_revision = da_revision x,
            dr_snapshot = answer_data (rs_links (qs_reports Q)) e x as, dr_created_at = now e\<rparr>],
        id_count := Suc (id_count db)\<rparr>"

section \<open>The fragment of an answer\<close>

definition find_answer_fragment :: "'a core_db_scheme \<Rightarrow> ident \<Rightarrow> fragment option" where
  "find_answer_fragment db i =
     find (\<lambda>f. fg_source_type f = ''directed_answer'' \<and> fg_source_ref_id f = Some i) (db_fragments db)"

definition described :: "question \<Rightarrow> answer \<Rightarrow> utext" where
  "described q x = qn_title q @ codes '': '' @ da_answer_text x"

definition first_fragment ::
    "env \<Rightarrow> nat \<Rightarrow> incident \<Rightarrow> question \<Rightarrow> blind_spot \<Rightarrow> answer_put \<Rightarrow> answer \<Rightarrow> fragment" where
  "first_fragment e k inc q b p x =
     (blank_fragment (new_id e k))
       \<lparr>fg_incident_id := inc_id inc, fg_source_type := ''directed_answer'',
        fg_source_ref_id := Some (da_id x), fg_topic := bs_claim_key b,
        fg_claim_key := Some (bs_claim_key b), fg_claim_value := Some (da_semantic_value x),
        fg_label := da_answer_text x, fg_description := described q x,
        fg_location_text := qn_location_text q,
        fg_latitude := (if aq_latitude p \<noteq> None then aq_latitude p else bs_latitude b),
        fg_longitude := (if aq_longitude p \<noteq> None then aq_longitude p else bs_longitude b),
        fg_coordinate_system := or_else (aq_coordinate_system p) (bs_coordinate_system b),
        fg_confidence := 6 / 10, fg_observed_at := Some (now e), fg_received_at := now e\<rparr>"

definition changed_fragment :: "question \<Rightarrow> answer_put \<Rightarrow> answer \<Rightarrow> fragment \<Rightarrow> fragment" where
  "changed_fragment q p x f =
     f\<lparr>fg_claim_value := Some (da_semantic_value x), fg_label := da_answer_text x,
       fg_description := described q x,
       fg_latitude := (if aq_latitude p \<noteq> None then aq_latitude p else fg_latitude f),
       fg_longitude := (if aq_longitude p \<noteq> None then aq_longitude p else fg_longitude f),
       fg_coordinate_system := or_else (aq_coordinate_system p) (fg_coordinate_system f),
       fg_revision := fg_revision f + 1\<rparr>"

definition write_answer_fragment ::
    "env \<Rightarrow> incident \<Rightarrow> question \<Rightarrow> blind_spot \<Rightarrow> answer_put \<Rightarrow> answer \<Rightarrow> 'a core_db_scheme
      \<Rightarrow> fragment \<times> 'a core_db_scheme" where
  "write_answer_fragment e inc q b p x db0 =
     (let db = flush db0 in
      case find_answer_fragment db (da_id x) of
        None \<Rightarrow> (let f = first_fragment e (id_count db) inc q b p x
          in (f, db\<lparr>db_fragments := db_fragments db @ [f], id_count := Suc (id_count db)\<rparr>))
      | Some old \<Rightarrow> (let f = changed_fragment q p x old in (f, put_fragment f db)))"

section \<open>Weighing the answers\<close>

text \<open>More than one value: the answers contradict each other.\<close>

definition disputed :: "string option \<times> nat \<times> string set \<Rightarrow> bool" where
  "disputed k \<longleftrightarrow> 1 < card (snd (snd k))"

definition agreed :: "string option \<times> nat \<times> string set \<Rightarrow> blind_spot \<Rightarrow> bool" where
  "agreed k b \<longleftrightarrow> fst k \<noteq> None \<and> bs_min_valid_answers b \<le> int (fst (snd k))"

definition conflict_event ::
    "env \<Rightarrow> incident \<Rightarrow> string \<Rightarrow> conflict_case \<Rightarrow> 'a ev_db_scheme \<Rightarrow> 'a ev_db_scheme" where
  "conflict_event e inc event_type k db =
     tell e (inc_id inc) ''operators'' None event_type ''conflict'' (cc_id k) (cc_revision k)
       (JObj [(''conflict_id'', JStr (cc_id k)), (''fact_key'', JStr (cc_fact_key k))]) db"

text \<open>A changed answer that leaves no contradiction is still new evidence for its conflict.\<close>

definition refer_to_case ::
    "question_settings \<Rightarrow> env \<Rightarrow> incident \<Rightarrow> fragment \<Rightarrow> 'a core_db_scheme
      \<Rightarrow> api_error + conflict_case option \<times> 'a core_db_scheme" where
  "refer_to_case Q e inc f db =
     (case sort_key (\<lambda>k. - cc_created_at k)
         (filter (\<lambda>k. cc_incident_id k = inc_id inc \<and> list_ex (\<lambda>v. ce_conflict_id v = cc_id k
              \<and> ce_kind v = ''fragment'' \<and> ce_source_id v = fg_id f) (db_evidence db)) (db_cases db)) of
        [] \<Rightarrow> Inr (None, flush db)
      | k0 # ks \<Rightarrow>
          and_then (add_evidence (dt_sha (rs_observing (qs_reports Q))) e k0 [fragment_ref f] (flush db))
            (\<lambda>(ids, db1). let k = k0\<lparr>cc_revision := cc_revision k0 + 1\<rparr> in
               Inr (Some k, conflict_event e inc ''conflict.updated'' k
                 (mark_analyses_stale e k ''directed_answer_updated'' (put_case k db1)))))"

definition dispute_title :: "blind_spot \<Rightarrow> utext" where
  "dispute_title b = bs_title b @ codes '' information conflict''"

definition dispute_claim :: "incident \<Rightarrow> blind_spot \<Rightarrow> claim" where
  "dispute_claim inc b =
     \<lparr>cl_incident_id = inc_id inc, cl_fact_key = bs_claim_key b, cl_title = dispute_title b,
      cl_topic = bs_claim_key b, cl_place = blind_place b\<rparr>"

definition disputing_fragments :: "question \<Rightarrow> 'a core_db_scheme \<Rightarrow> fragment list" where
  "disputing_fragments q db =
     (let ids = map da_id (filter (\<lambda>x. da_question_id x = qn_id q \<and> da_semantic_value x \<noteq> ''unknown'')
            (db_answers db))
      in filter (\<lambda>f. fg_source_type f = ''directed_answer'' \<and> fg_source_ref_id f \<in> set (map Some ids))
           (db_fragments db))"

definition reopened_blind_spot :: "env \<Rightarrow> blind_spot \<Rightarrow> blind_spot" where
  "reopened_blind_spot e b = b\<lparr>bs_status := ''open'', bs_resolution_value := None,
     bs_revision := bs_revision b + 1, bs_updated_at := now e\<rparr>"

definition resolved_blind_spot :: "env \<Rightarrow> string option \<Rightarrow> blind_spot \<Rightarrow> blind_spot" where
  "resolved_blind_spot e v b = b\<lparr>bs_status := ''resolved'', bs_resolution_value := v,
     bs_revision := bs_revision b + 1, bs_updated_at := now e\<rparr>"

text \<open>The three branches: the case the answer leads to, the blind spot, whether it changed.\<close>

definition weigh_dispute ::
    "question_settings \<Rightarrow> env \<Rightarrow> incident \<Rightarrow> question \<Rightarrow> blind_spot \<Rightarrow> 'a core_db_scheme
      \<Rightarrow> api_error + (conflict_case option \<times> blind_spot \<times> bool) \<times> 'a core_db_scheme" where
  "weigh_dispute Q e inc q b db =
     and_then (find_or_open_structured_conflict (detection.truncate (rs_observing (qs_reports Q))) e
         (dispute_claim inc b) (disputing_fragments q db) db)
       (\<lambda>((k, opened), db1).
          let changed = (bs_status b = ''resolved'');
              b' = (if changed then reopened_blind_spot e b else b);
              db2 = (if changed then put_blind_spot b' db1 else db1)
          in Inr ((Some k, b', changed),
               if opened then conflict_event e inc ''conflict.opened'' k db2 else db2))"

definition weigh_agreement ::
    "env \<Rightarrow> string option \<Rightarrow> blind_spot \<Rightarrow> fragment \<Rightarrow> 'a core_db_scheme
      \<Rightarrow> (blind_spot \<times> bool) \<times> 'a core_db_scheme" where
  "weigh_agreement e v b f db0 =
     (let db = put_fragment (f\<lparr>fg_status := ''resolved''\<rparr>) db0 in
      if bs_status b \<noteq> ''resolved'' \<or> bs_resolution_value b \<noteq> v
      then (let b' = resolved_blind_spot e v b in ((b', True), put_blind_spot b' db))
      else ((b, False), db))"

definition weigh_lack ::
    "env \<Rightarrow> question \<Rightarrow> blind_spot \<Rightarrow> 'a core_db_scheme \<Rightarrow> (blind_spot \<times> bool) \<times> 'a core_db_scheme" where
  "weigh_lack e q b db =
     (if bs_status b = ''resolved''
      then (let b' = reopened_blind_spot e b in
        ((b', True), put_question (q\<lparr>qn_status := ''published'', qn_revision := qn_revision q + 1,
           qn_updated_at := now e\<rparr>) (put_blind_spot b' db)))
      else ((b, False), db))"

definition weigh_answers ::
    "question_settings \<Rightarrow> env \<Rightarrow> incident \<Rightarrow> question \<Rightarrow> blind_spot \<Rightarrow> fragment \<Rightarrow> bool \<Rightarrow> 'a core_db_scheme
      \<Rightarrow> api_error + (conflict_case option \<times> blind_spot \<times> bool) \<times> 'a core_db_scheme" where
  "weigh_answers Q e inc q b f created db0 =
     (let db = flush db0; k = valid_answer_consensus db (qn_id q) in
      if disputed k then weigh_dispute Q e inc q b db
      else and_then (if created then Inr (None, db) else refer_to_case Q e inc f db)
        (\<lambda>(hit, db1). let ((b', changed), db2) = (if agreed k b then weigh_agreement e (fst k) b f db1
              else weigh_lack e q b db1)
           in Inr ((hit, b', changed), db2)))"

definition show_case :: "env \<Rightarrow> conflict_case option \<Rightarrow> 'a core_db_scheme \<Rightarrow> api_error + 'a core_db_scheme" where
  "show_case e hit db = (case hit of None \<Rightarrow> Inr db | Some k \<Rightarrow> upsert_conflict_map_feature e k db)"

text \<open>Audit entry and events of an answer.\<close>

definition tell_answer ::
    "call \<Rightarrow> incident \<Rightarrow> question \<Rightarrow> answer \<Rightarrow> fragment \<Rightarrow> blind_spot \<Rightarrow> bool \<Rightarrow> bool
      \<Rightarrow> 'a ev_db_scheme \<Rightarrow> 'a ev_db_scheme" where
  "tell_answer c inc q x f b created changed db0 =
     (let e = rc_env c; device = ac_subject_id (rc_actor c);
          action = (if created then ''directed_answer.created'' else ''directed_answer.updated'');
          db1 = record_audit e (Some (rc_actor c)) (Some (inc_id inc)) action ''directed_answer''
                  (Some (da_id x)) (rc_request_id c) db0;
          db2 = tell e (inc_id inc) ''owner'' (Some device) action ''directed_answer'' (da_id x)
                  (da_revision x) (JObj [(''question_id'', JStr (qn_id q)), (''answer_id'', JStr (da_id x)),
                    (''fragment_id'', JStr (fg_id f))]) db1;
          db3 = tell e (inc_id inc) ''operators'' None
                  (if created then ''fragment.created'' else ''fragment.updated'') ''fragment'' (fg_id f)
                  (fg_revision f) (shown_fragment f) db2
      in if changed then tell e (inc_id inc) ''public'' None
             (if bs_status b = ''resolved'' then ''blind_spot.resolved'' else ''blind_spot.reopened'')
             ''blind_spot'' (bs_id b) (bs_revision b) (blind_spot_data b) db3
         else db3)"

definition answer_response ::
    "question_settings \<Rightarrow> call \<Rightarrow> answer \<Rightarrow> attachment list \<Rightarrow> fragment \<Rightarrow> blind_spot
      \<Rightarrow> conflict_case option \<Rightarrow> json" where
  "answer_response Q c x as f b hit =
     success (JObj [(''answer'', answer_data (rs_links (qs_reports Q)) (rc_env c) x as),
        (''fragment'', shown_fragment f), (''blind_spot'', blind_spot_data b),
        (''conflict_id'', jopt (\<lambda>k. JStr (cc_id k)) hit)]) (rc_request_id c) []"

definition put_my_answer ::
    "question_settings \<Rightarrow> call \<Rightarrow> ident \<Rightarrow> answer_put \<Rightarrow> 'a core_db_scheme
      \<Rightarrow> api_error + json \<times> 'a core_db_scheme" where
  "put_my_answer Q c i p db0 =
     (let e = rc_env c; device = ac_subject_id (rc_actor c) in
      and_then (answerable Q c i p db0)
       (\<lambda>(q, choice, inc, b). and_then (write_answer e q device p choice db0)
       (\<lambda>((x, created), db1). and_then (replace_answer_attachments x (qn_incident_id q) device
             (aq_attachment_ids p) db1)
       (\<lambda>(as, db2). let (f0, db3) = write_answer_fragment e inc q b p x (add_answer_revision Q e x as db2) in
          and_then (weigh_answers Q e inc q b f0 created db3)
       (\<lambda>((hit, b', changed), db4). let f = refresh_fragment db4 f0 in
          and_then (upsert_fragment_map_feature e f (flush db4))
       (\<lambda>db5. and_then (upsert_blind_spot_map_feature e b' db5)
       (\<lambda>db6. and_then (show_case e hit db6)
       (\<lambda>db7. Inr (answer_response Q c x as f b' hit,
          tell_answer c inc q x f b' created changed db7)))))))))"

section \<open>Fragments of operators\<close>

definition operator_fragment :: "call \<Rightarrow> nat \<Rightarrow> incident \<Rightarrow> fragment_create \<Rightarrow> fragment" where
  "operator_fragment c k inc p =
     (blank_fragment (new_id (rc_env c) k))
       \<lparr>fg_incident_id := inc_id inc, fg_source_type := ''operator'',
        fg_source_ref_id := Some (ac_subject_id (rc_actor c)), fg_topic := gq_topic p,
        fg_claim_key := gq_claim_key p, fg_claim_value := gq_claim_value p, fg_label := gq_label p,
        fg_description := gq_description p, fg_location_text := gq_location_text p,
        fg_latitude := gq_latitude p, fg_longitude := gq_longitude p,
        fg_coordinate_system := gq_coordinate_system p, fg_confidence := gq_confidence p,
        fg_observed_at := gq_observed_at p, fg_received_at := now (rc_env c)\<rparr>"

definition create_fragment ::
    "question_settings \<Rightarrow> call \<Rightarrow> ident \<Rightarrow> fragment_create \<Rightarrow> 'a core_db_scheme
      \<Rightarrow> api_error + json \<times> 'a core_db_scheme" where
  "create_fragment Q c incident_id p db =
     (let e = rc_env c in
      and_then (operator_access c incident_id)
       (\<lambda>_. and_then (named_incident db incident_id)
       (\<lambda>inc. let f0 = operator_fragment c (id_count db) inc p in
          and_then (detect_structured_fragment_conflict
             (detection.truncate (rs_observing (qs_reports Q))) e f0
             ((flush db)\<lparr>db_fragments := db_fragments db @ [f0], id_count := Suc (id_count db)\<rparr>))
       (\<lambda>(hit, db1). and_then (case hit of
             None \<Rightarrow> Inr db1
           | Some (k, opened) \<Rightarrow> show_case e (Some k) (flush (conflict_event e inc
               (if opened then ''conflict.opened'' else ''conflict.updated'') k db1)))
       (\<lambda>db2. let f = refresh_fragment db2 f0 in
          and_then (upsert_fragment_map_feature e f (flush db2))
       (\<lambda>db3. Inr (success (json_set (shown_fragment f) ''conflict_id''
             (jopt (\<lambda>(k, opened). JStr (cc_id k)) hit)) (rc_request_id c) [],
           record_audit e (Some (rc_actor c)) (Some (inc_id inc)) ''fragment.created'' ''fragment''
             (Some (fg_id f)) (rc_request_id c)
             (tell e (inc_id inc) ''operators'' None ''fragment.created'' ''fragment'' (fg_id f)
               (fg_revision f) (shown_fragment f) db3))))))))"

end
