(* ===== verification/QuestionLaws.thy ===== *)
theory QuestionLaws
  imports Questions ReportLife
begin

text \<open>
  What the handlers of directed questions leave alone and what they establish: the history of
  every answer is numbered without a gap, a device has one voice in a question, and an answer
  leaves its blind spot resolved exactly when the answers of its question agree and are enough.
\<close>

section \<open>What each operation leaves alone\<close>

definition asked_part ::
    "'a core_db_scheme \<Rightarrow> answer list \<times> answer_revision list \<times> question list \<times> blind_spot list" where
  "asked_part db = (db_answers db, db_answer_revisions db, db_questions db, db_blind_spots db)"

lemma asked_parts:
  assumes "asked_part db' = asked_part db"
  shows "db_answers db' = db_answers db" "db_answer_revisions db' = db_answer_revisions db"
    "db_questions db' = db_questions db" "db_blind_spots db' = db_blind_spots db"
  using assms by (simp_all add: asked_part_def)

lemma asked_emit [simp]: "asked_part (snd (emit_event e i em db)) = asked_part db"
  by (simp add: asked_part_def)

lemma asked_frames [simp]:
  "asked_part (flush db) = asked_part db"
  "asked_part (record_audit e a ai ac rty rid2 rq db) = asked_part db"
  "asked_part (tell e i vis ow et rt res rv pl db) = asked_part db"
  "asked_part (conflict_event e inc et k db) = asked_part db"
  "asked_part (mark_analyses_stale e k rs db) = asked_part db"
  "asked_part (put_case k db) = asked_part db"
  "asked_part (put_fragment f db) = asked_part db"
  "asked_part (mark_conflicting fs db) = asked_part db"
  by (simp_all add: tell_def conflict_event_def, simp_all add: asked_part_def flush_def
      mark_analyses_stale_def put_case_def put_fragment_def mark_conflicting_def)

lemma asked_tell_answer [simp]: "asked_part (tell_answer c inc q x f b cr ch db) = asked_part db"
  by (simp add: tell_answer_def Let_def)

lemma asked_review [simp]: "asked_part (snd (mark_fact_under_review e k rs db)) = asked_part db"
  by (simp add: asked_part_def flush_def mark_fact_under_review_def publish_version_def Let_def
      split: option.splits)

lemma asked_upsert: "upsert_map_feature e s db = Inr db' \<Longrightarrow> asked_part db' = asked_part db"
  by (auto simp: asked_part_def upsert_map_feature_def split: sum.splits option.splits)

lemma asked_hide [simp]: "asked_part (hide_map_feature i k rf rv st db) = asked_part db"
  by (simp add: asked_part_def hide_map_feature_def split: option.splits)

lemma asked_upserts:
  "upsert_fragment_map_feature e f db = Inr db' \<Longrightarrow> asked_part db' = asked_part db"
  "upsert_conflict_map_feature e k db = Inr db' \<Longrightarrow> asked_part db' = asked_part db"
  "upsert_blind_spot_map_feature e b db = Inr db' \<Longrightarrow> asked_part db' = asked_part db"
  "show_case e hit db = Inr db' \<Longrightarrow> asked_part db' = asked_part db"
  by (auto simp: upsert_fragment_map_feature_def upsert_conflict_map_feature_def show_case_def
      upsert_blind_spot_map_feature_def Let_def dest: asked_upsert split: if_splits option.splits)

lemma asked_one_evidence: "add_one_evidence sha e k r db = Inr (i, db') \<Longrightarrow> asked_part db' = asked_part db"
  by (auto simp: add_one_evidence_def asked_part_def split: sum.splits option.splits prod.splits)

lemma asked_evidence: "add_evidence sha e k rs db = Inr (is, db') \<Longrightarrow> asked_part db' = asked_part db"
proof (induction rs arbitrary: db "is")
  case (Cons r rs)
  then obtain i db1 is' where a: "add_one_evidence sha e k r db = Inr (i, db1)"
      "add_evidence sha e k rs db1 = Inr (is', db')"
    by (auto split: sum.splits prod.splits)
  show ?case using Cons.IH [OF a(2)] asked_one_evidence [OF a(1)] by simp
qed (auto simp: asked_part_def flush_def)

lemma asked_find_or_open:
  assumes "find_or_open_structured_conflict D e q fs db = Inr (r, db')"
  shows "asked_part db' = asked_part db"
proof -
  obtain found where f: "first_case D e (cl_place q) (candidate_cases (flush db) q fs) = Inr found"
    using assms by (auto simp: find_or_open_structured_conflict_def Let_def split: sum.splits)
  obtain k1 o1 db1 where en: "enter_case e q found (flush db) = (k1, o1, db1)" by (metis surj_pair)
  have 1: "asked_part db1 = asked_part db"
  proof (cases found)
    case None
    then show ?thesis using en by (auto simp: enter_case_def Let_def asked_part_def flush_def)
  next
    case (Some k)
    then show ?thesis using en by (auto simp: enter_case_def Let_def split: if_splits)
  qed
  obtain k2 where j: "join_case D e fs k1 o1 db1 = Inr (k2, db')"
    using assms by (auto simp: find_or_open_structured_conflict_def f en Let_def split: sum.splits)
  obtain ids db2 where add: "add_evidence (dt_sha D) e k1 (map fragment_ref fs) db1 = Inr (ids, db2)"
    using j by (auto simp: join_case_def split: sum.splits)
  have "asked_part db' = asked_part db2" using j by (auto simp: join_case_def add Let_def split: if_splits)
  then show ?thesis using asked_evidence [OF add] 1 by simp
qed

lemma asked_detect:
  "detect_structured_fragment_conflict D e f db = Inr (r, db') \<Longrightarrow> asked_part db' = asked_part db"
  by (auto simp: detect_structured_fragment_conflict_def dest: asked_find_or_open
      split: option.splits sum.splits if_splits)

lemma asked_refer:
  assumes "refer_to_case Q e inc f db = Inr (hit, db')" shows "asked_part db' = asked_part db"
  using assms unfolding refer_to_case_def
  by (auto simp del: add_evidence.simps simp: and_then_Inr Let_def dest!: asked_evidence split: list.splits)

lemma asked_attachments:
  "replace_answer_attachments x i u ids db = Inr (as, db') \<Longrightarrow> asked_part db' = asked_part db"
  by (auto simp: replace_answer_attachments_def Let_def asked_part_def flush_def split: if_splits)

lemma asked_answer_fragment:
  "write_answer_fragment e inc q b p x db = (f, db') \<Longrightarrow> asked_part db' = asked_part db"
  by (auto simp: write_answer_fragment_def Let_def asked_part_def flush_def put_fragment_def
      split: option.splits)

section \<open>What an answer does to its blind spot\<close>

text \<open>The blind spot after the answers were weighed, and whether it changed.\<close>

definition weighed ::
    "env \<Rightarrow> string option \<times> nat \<times> string set \<Rightarrow> blind_spot \<Rightarrow> blind_spot \<times> bool" where
  "weighed e k b =
     (if agreed k b \<and> \<not> disputed k
      then (if bs_status b = ''resolved'' \<and> bs_resolution_value b = fst k then (b, False)
            else (resolved_blind_spot e (fst k) b, True))
      else (if bs_status b = ''resolved'' then (reopened_blind_spot e b, True) else (b, False)))"

lemma weighed_keeps: "weighed e k b = (b', changed) \<Longrightarrow> bs_id b' = bs_id b \<and>
    bs_min_valid_answers b' = bs_min_valid_answers b \<and> (\<not> changed \<longrightarrow> b' = b)"
  by (auto simp: weighed_def resolved_blind_spot_def reopened_blind_spot_def split: if_splits)

lemma weighed_resolved: "weighed e k b = (b', changed) \<Longrightarrow>
    (bs_status b' = ''resolved'' \<longleftrightarrow> agreed k b \<and> \<not> disputed k)
    \<and> (bs_status b' = ''resolved'' \<longrightarrow> bs_resolution_value b' = fst k)"
  by (auto simp: weighed_def resolved_blind_spot_def reopened_blind_spot_def split: if_splits)

lemma consensus_cong:
  "db_answers db' = db_answers db \<Longrightarrow> valid_answer_consensus db' i = valid_answer_consensus db i"
  by (simp add: valid_answer_consensus_def)

definition answer_tables :: "'a core_db_scheme \<Rightarrow> answer list \<times> answer_revision list" where
  "answer_tables db = (db_answers db, db_answer_revisions db)"

lemma answer_tables_of: "asked_part db' = asked_part db \<Longrightarrow> answer_tables db' = answer_tables db"
  by (simp add: asked_part_def answer_tables_def)

definition blind_spots_with :: "blind_spot \<Rightarrow> bool \<Rightarrow> 'a core_db_scheme \<Rightarrow> blind_spot list" where
  "blind_spots_with b changed db =
     (if changed then modify_where (\<lambda>x. bs_id x = bs_id b) (\<lambda>_. b) (db_blind_spots db)
      else db_blind_spots db)"

lemma put_blind_spot_tables [simp]:
  "answer_tables (put_blind_spot b db) = answer_tables db"
  "answer_tables (put_question q db) = answer_tables db"
  "db_blind_spots (put_blind_spot b db) = blind_spots_with b True db"
  "db_blind_spots (put_question q db) = db_blind_spots db"
  by (simp_all add: answer_tables_def put_blind_spot_def put_question_def blind_spots_with_def)

lemma blind_spots_with_cong:
  "asked_part db' = asked_part db \<Longrightarrow> blind_spots_with b changed db' = blind_spots_with b changed db"
  by (simp add: blind_spots_with_def asked_part_def)

lemma dispute_effect:
  assumes run: "weigh_dispute Q e inc q b db = Inr ((hit, b', changed), db')" and k: "disputed k"
  shows "weighed e k b = (b', changed) \<and> answer_tables db' = answer_tables db
    \<and> db_blind_spots db' = blind_spots_with b' changed db"
proof -
  obtain c opened db1 where 1: "find_or_open_structured_conflict
        (detection.truncate (rs_observing (qs_reports Q))) e (dispute_claim inc b)
        (disputing_fragments q db) db = Inr ((c, opened), db1)"
    using run by (auto simp: weigh_dispute_def and_then_Inr)
  note f = asked_find_or_open [OF 1]
  let ?c = "bs_status b = ''resolved''"
  let ?b = "if ?c then reopened_blind_spot e b else b"
  let ?db2 = "if ?c then put_blind_spot ?b db1 else db1"
  have r: "b' = ?b" "changed = ?c" "asked_part db' = asked_part ?db2"
    using run 1 by (auto simp: weigh_dispute_def and_then_def Let_def split: if_splits)
  have "answer_tables db' = answer_tables db" "db_blind_spots db' = blind_spots_with b' changed db"
    using answer_tables_of [OF r(3)] asked_parts(4) [OF r(3)] answer_tables_of [OF f] asked_parts(4) [OF f]
      blind_spots_with_cong [OF f] r(1,2) by (auto simp: blind_spots_with_def split: if_splits)
  then show ?thesis using r k by (simp add: weighed_def)
qed

lemma weigh_effect:
  assumes run: "weigh_answers Q e inc q b f created db = Inr ((hit, b', changed), db')"
  shows "weighed e (valid_answer_consensus db (qn_id q)) b = (b', changed)
    \<and> answer_tables db' = answer_tables db \<and> db_blind_spots db' = blind_spots_with b' changed db"
proof -
  let ?k = "valid_answer_consensus db (qn_id q)"
  have fl: "asked_part (flush db) = asked_part db" by simp
  have k: "valid_answer_consensus (flush db) (qn_id q) = ?k"
    by (rule consensus_cong [OF asked_parts(1) [OF fl]])
  show ?thesis
  proof (cases "disputed ?k")
    case True
    then have "weigh_dispute Q e inc q b (flush db) = Inr ((hit, b', changed), db')"
      using run by (simp add: weigh_answers_def Let_def k)
    from dispute_effect [OF this True] show ?thesis
      using answer_tables_of [OF fl] blind_spots_with_cong [OF fl] by simp
  next
    case False
    let ?settle = "\<lambda>d. if agreed ?k b then weigh_agreement e (fst ?k) b f d else weigh_lack e q b d"
    obtain hit' db1 where 1: "(if created then Inr (None, flush db)
        else refer_to_case Q e inc f (flush db)) = Inr (hit', db1)"
      and fin: "(let ((b', changed), db2) = ?settle db1 in Inr ((hit', b', changed), db2))
        = (Inr ((hit, b', changed), db') :: api_error + _)"
      using run False unfolding weigh_answers_def Let_def k if_not_P [OF False] and_then_Inr by auto
    obtain b2 c2 d2 where s: "?settle db1 = ((b2, c2), d2)" by (metis surj_pair)
    have 2: "?settle db1 = ((b', changed), db')" using fin unfolding s by simp
    have "asked_part db1 = asked_part (flush db)" using 1 by (auto split: if_splits dest: asked_refer)
    then have same: "asked_part db1 = asked_part db" by simp
    have kept: "asked_part (put_fragment (f\<lparr>fg_status := ''resolved''\<rparr>) db1) = asked_part db"
      using same by simp
    note t = answer_tables_of [OF same] asked_parts(4) [OF same] blind_spots_with_cong [OF same]
      answer_tables_of [OF kept] asked_parts(4) [OF kept] blind_spots_with_cong [OF kept]
    show ?thesis
    proof (cases "agreed ?k b")
      case True
      then show ?thesis using 2 False t
        by (auto simp: weigh_agreement_def weighed_def Let_def blind_spots_with_def split: if_split_asm)
    next
      case no: False
      then show ?thesis using 2 False t
        by (auto simp: weigh_lack_def weighed_def Let_def blind_spots_with_def split: if_splits)
    qed
  qed
qed

section \<open>What an answer does to the answers\<close>

definition revision_of :: "answer \<Rightarrow> answer_revision \<Rightarrow> bool" where
  "revision_of x v \<longleftrightarrow> dr_answer_id v = da_id x \<and> dr_revision v = da_revision x
     \<and> jget (dr_snapshot v) ''option_id'' = JStr (da_option_id x)
     \<and> jget (dr_snapshot v) ''semantic_value'' = JStr (da_semantic_value x)
     \<and> jget (dr_snapshot v) ''answer_text'' = JText (da_answer_text x)"

lemma add_revision_effect:
  "\<exists>v. revision_of x v \<and> db_answer_revisions (add_answer_revision Q e x as db) = db_answer_revisions db @ [v]"
  by (simp add: add_answer_revision_def revision_of_def answer_data_def)

text \<open>The steps of a handler that returned.\<close>

lemma answer_run:
  assumes run: "put_my_answer Q c i p db = Inr (j, db')"
  obtains q choice inc b x created db1 b' changed v where
    "answerable Q c i p db = Inr (q, choice, inc, b)"
    "write_answer (rc_env c) q (ac_subject_id (rc_actor c)) p choice db = Inr ((x, created), db1)"
    "db_answers db' = db_answers db1" "revision_of x v"
    "db_answer_revisions db' = db_answer_revisions db1 @ [v]"
    "weighed (rc_env c) (valid_answer_consensus db' (qn_id q)) b = (b', changed)"
    "db_blind_spots db' = blind_spots_with b' changed db1"
proof -
  let ?e = "rc_env c" and ?d = "ac_subject_id (rc_actor c)"
  obtain q choice inc b where g: "answerable Q c i p db = Inr (q, choice, inc, b)"
    using run by (auto simp: put_my_answer_def and_then_Inr Let_def)
  obtain x created db1 where w: "write_answer ?e q ?d p choice db = Inr ((x, created), db1)"
    using run g by (auto simp: put_my_answer_def and_then_Inr Let_def)
  obtain as db2 where a: "replace_answer_attachments x (qn_incident_id q) ?d (aq_attachment_ids p) db1
      = Inr (as, db2)"
    using run g w by (auto simp: put_my_answer_def and_then_Inr Let_def)
  let ?dbr = "add_answer_revision Q ?e x as db2"
  obtain f0 db3 where f: "write_answer_fragment ?e inc q b p x ?dbr = (f0, db3)" by (metis surj_pair)
  obtain hit b' changed db4 where h: "weigh_answers Q ?e inc q b f0 created db3 = Inr ((hit, b', changed), db4)"
    using run g w a f by (auto simp: put_my_answer_def and_then_Inr Let_def)
  obtain db5 db6 db7 where u: "upsert_fragment_map_feature ?e (refresh_fragment db4 f0) (flush db4) = Inr db5"
      "upsert_blind_spot_map_feature ?e b' db5 = Inr db6" "show_case ?e hit db6 = Inr db7"
      "db' = tell_answer c inc q x (refresh_fragment db4 f0) b' created changed db7"
    using run g w a f h by (auto simp: put_my_answer_def and_then_Inr Let_def)
  have end_part: "asked_part db' = asked_part db4"
    using asked_upserts(1) [OF u(1)] asked_upserts(3) [OF u(2)] asked_upserts(4) [OF u(3)] u(4) by simp
  have att: "asked_part db2 = asked_part db1" by (rule asked_attachments [OF a])
  have frag: "asked_part db3 = asked_part ?dbr" by (rule asked_answer_fragment [OF f])
  obtain v where v: "revision_of x v" "db_answer_revisions ?dbr = db_answer_revisions db2 @ [v]"
    using add_revision_effect by blast
  have r: "db_answers ?dbr = db_answers db2" "db_blind_spots ?dbr = db_blind_spots db2"
    by (simp_all add: add_answer_revision_def)
  note eff = weigh_effect [OF h]
  have ans: "db_answers db' = db_answers db1"
    using asked_parts(1) [OF end_part] eff asked_parts(1) [OF frag] r(1) asked_parts(1) [OF att]
    by (simp add: answer_tables_def)
  have rev: "db_answer_revisions db' = db_answer_revisions db1 @ [v]"
    using asked_parts(2) [OF end_part] eff asked_parts(2) [OF frag] v(2) asked_parts(2) [OF att]
    by (simp add: answer_tables_def)
  have "db_answers db3 = db_answers db'" using eff asked_parts(1) [OF end_part] by (simp add: answer_tables_def)
  from consensus_cong [OF this] eff
  have wb: "weighed ?e (valid_answer_consensus db' (qn_id q)) b = (b', changed)" by simp
  have bl: "db_blind_spots db' = blind_spots_with b' changed db1"
    using asked_parts(4) [OF end_part] eff asked_parts(4) [OF frag] r(2) asked_parts(4) [OF att]
    by (simp add: blind_spots_with_def)
  show ?thesis by (rule that [OF g w ans v(1) rev wb bl])
qed

lemma answerable_rows:
  assumes "answerable Q c i p db = Inr (q, choice, inc, b)"
  shows "find_question db i = Some q" "qn_id q = i" "qn_status q = ''published''"
    "\<not> past (rc_env c) (qn_expires_at q)" "chosen_option q (aq_option_id p) = Some choice"
    "find_blind_spot db (qn_blind_spot_id q) = Some b" "bs_id b = qn_blind_spot_id q"
  using assms unfolding answerable_def Let_def
  by (auto simp: and_then_Inr find_question_def find_blind_spot_def split: if_splits option.splits
      dest: find_SomeD)

text \<open>The two ways an answer changes the table: one more row, or one row a revision on.\<close>

lemma write_answer_cases:
  assumes "write_answer e q device p choice db = Inr ((x, created), db1)"
  obtains (new) "find_answer db (qn_id q) device = None" "da_id x \<in> range (new_id e)"
      "da_revision x = 1" "da_question_id x = qn_id q" "da_device_id x = device"
      "db_answers db1 = db_answers db @ [x]" "db_answer_revisions db1 = db_answer_revisions db"
      "db_blind_spots db1 = db_blind_spots db"
  | (later) old where "old \<in> set (db_answers db)" "da_id x = da_id old"
      "da_revision x = da_revision old + 1" "da_revision old = aq_revision p"
      "da_question_id x = da_question_id old" "da_device_id x = da_device_id old"
      "db_answers db1 = modify_where (\<lambda>y. da_id y = da_id x) (\<lambda>_. x) (db_answers db)"
      "db_answer_revisions db1 = db_answer_revisions db" "db_blind_spots db1 = db_blind_spots db"
proof (cases "find_answer db (qn_id q) device")
  case None
  then show ?thesis using assms
    by (intro new) (auto simp: write_answer_def Let_def first_answer_def answered_with_def flush_def
        split: if_splits)
next
  case (Some old)
  then have "old \<in> set (db_answers db)" by (auto simp: find_answer_def dest: find_SomeD)
  then show ?thesis using assms Some
    by (intro later [of old]) (auto simp: write_answer_def Let_def answered_with_def put_answer_def flush_def
        split: if_splits)
qed

lemma blind_spot_after:
  assumes "find_blind_spot db i = Some b" "bs_id b' = bs_id b" "\<not> changed \<longrightarrow> b' = b"
    "db_blind_spots db' = blind_spots_with b' changed db1" "db_blind_spots db1 = db_blind_spots db"
  shows "find_blind_spot db' i = Some b'"
proof -
  have id: "bs_id b' = i" using assms(1,2) by (auto simp: find_blind_spot_def dest: find_SomeD)
  have "find (\<lambda>x. bs_id x = i) (modify_where (\<lambda>x. bs_id x = bs_id b') (\<lambda>_. b') bs)
      = map_option (\<lambda>_. b') (find (\<lambda>x. bs_id x = i) bs)" for bs
    by (induction bs) (auto simp: id)
  then show ?thesis using assms by (auto simp: find_blind_spot_def blind_spots_with_def)
qed

section \<open>The consensus, in terms of the answers\<close>

definition valid_answers :: "'a core_db_scheme \<Rightarrow> ident \<Rightarrow> answer list" where
  "valid_answers db i =
     filter (\<lambda>x. da_question_id x = i \<and> lower (strip (da_semantic_value x)) \<noteq> ''unknown'') (db_answers db)"

lemma first_max_None: "first_max f xs = None \<longleftrightarrow> xs = []"
  by (induction xs) (auto split: option.splits)

lemma counted_valid:
  "counted_values (filter (\<lambda>a. da_question_id a = i) (db_answers db))
     = map da_semantic_value (valid_answers db i)"
  by (simp add: counted_values_def valid_answers_def filter_filter conj_commute)

lemma one_value: "v \<in> set vs \<Longrightarrow> card (set vs) \<le> 1 \<longleftrightarrow> (\<forall>w\<in>set vs. w = v)"
proof -
  assume "v \<in> set vs"
  then have "(\<forall>w\<in>set vs. w = v) \<longleftrightarrow> (\<forall>x\<in>set vs. \<forall>y\<in>set vs. x = y)" by metis
  then show ?thesis by (simp add: card_le_Suc0_iff_eq)
qed

lemma count_all: "\<forall>w\<in>set vs. w = v \<Longrightarrow> count_list vs v = length vs"
  by (induction vs) auto

lemma consensus_agrees:
  assumes "k = valid_answer_consensus db i"
  shows "(agreed k b \<and> \<not> disputed k \<longleftrightarrow> valid_answers db i \<noteq> []
      \<and> (\<forall>x\<in>set (valid_answers db i). \<forall>y\<in>set (valid_answers db i). da_semantic_value x = da_semantic_value y)
      \<and> bs_min_valid_answers b \<le> int (length (valid_answers db i)))
    \<and> (\<not> disputed k \<longrightarrow> (\<forall>x\<in>set (valid_answers db i). fst k = Some (da_semantic_value x)))"
proof -
  let ?as = "valid_answers db i"
  let ?vs = "map da_semantic_value ?as"
  show ?thesis
  proof (cases "first_max (count_list ?vs) ?vs")
    case None
    then show ?thesis
      using assms by (simp add: valid_answer_consensus_def Let_def counted_valid agreed_def first_max_None)
  next
    case (Some v)
    then have k: "k = (Some v, count_list ?vs v, set ?vs)" and v: "v \<in> set ?vs"
      using assms first_max_mem [OF Some] by (simp_all add: valid_answer_consensus_def Let_def counted_valid)
    have one: "\<not> disputed k \<longleftrightarrow> (\<forall>w\<in>set ?vs. w = v)"
      using one_value [OF v] by (simp only: k disputed_def snd_conv not_less)
    have same: "(\<forall>w\<in>set ?vs. w = v) \<longleftrightarrow>
        (\<forall>x\<in>set ?as. \<forall>y\<in>set ?as. da_semantic_value x = da_semantic_value y)"
    proof
      assume "\<forall>x\<in>set ?as. \<forall>y\<in>set ?as. da_semantic_value x = da_semantic_value y"
      then show "\<forall>w\<in>set ?vs. w = v" using v unfolding set_map by blast
    qed simp
    show ?thesis
    proof (cases "disputed k")
      case True
      then have "\<not> (\<forall>x\<in>set ?as. \<forall>y\<in>set ?as. da_semantic_value x = da_semantic_value y)"
        using one same by blast
      then show ?thesis using True by blast
    next
      case False
      then have "\<forall>w\<in>set ?vs. w = v" using one by simp
      moreover from this have "count_list ?vs v = length ?as" using count_all [of ?vs v] by simp
      moreover have "?as \<noteq> []" using v by auto
      ultimately show ?thesis using False same by (simp add: k agreed_def)
    qed
  qed
qed

section \<open>The life of the answers\<close>

datatype question_call =
    Mark blind_spot_create
  | Ask question_create
  | Publish int
  | Close int
  | Put_answer answer_put
  | Observe fragment_create

text \<open>The handlers of the router that write; the identifier is that of the path.\<close>

fun run_question ::
    "question_settings \<Rightarrow> call \<Rightarrow> ident \<Rightarrow> question_call \<Rightarrow> 'a core_db_scheme
      \<Rightarrow> api_error + json \<times> 'a core_db_scheme" where
  "run_question Q c i (Mark p) db = create_blind_spot Q c i p db"
| "run_question Q c i (Ask p) db = create_question c i p db"
| "run_question Q c i (Publish n) db = publish_question c i n db"
| "run_question Q c i (Close n) db = close_question c i n db"
| "run_question Q c i (Put_answer p) db = put_my_answer Q c i p db"
| "run_question Q c i (Observe p) db = create_fragment Q c i p db"

definition fresh_answers :: "env \<Rightarrow> 'a core_db_scheme \<Rightarrow> bool" where
  "fresh_answers e db \<longleftrightarrow> (\<forall>x\<in>set (db_answers db). da_id x \<notin> range (new_id e))"

text \<open>
  A handler runs with new ids, or the rest of the system does anything that leaves the answers
  alone.
\<close>

inductive question_step :: "question_settings \<Rightarrow> 'a core_db_scheme \<Rightarrow> 'a core_db_scheme \<Rightarrow> bool"
  for Q where
  handled: "fresh_answers (rc_env c) db \<Longrightarrow> run_question Q c i k db = Inr (j, db') \<Longrightarrow> question_step Q db db'"
| elsewhere: "answer_tables db' = answer_tables db \<Longrightarrow> question_step Q db db'"

definition answer_history :: "'a core_db_scheme \<Rightarrow> ident \<Rightarrow> answer_revision list" where
  "answer_history db i = filter (\<lambda>v. dr_answer_id v = i) (db_answer_revisions db)"

definition asked_of :: "answer \<Rightarrow> ident \<times> ident" where
  "asked_of x = (da_question_id x, da_device_id x)"

definition history_ends_in :: "answer_revision list \<Rightarrow> answer \<Rightarrow> bool" where
  "history_ends_in vs x \<longleftrightarrow> 1 \<le> da_revision x \<and> map dr_revision vs = [1..da_revision x]
     \<and> revision_of x (last vs)"

definition answers_numbered :: "'a core_db_scheme \<Rightarrow> bool" where
  "answers_numbered db \<longleftrightarrow> distinct (map da_id (db_answers db)) \<and> distinct (map asked_of (db_answers db))
     \<and> (\<forall>v\<in>set (db_answer_revisions db). dr_answer_id v \<in> set (map da_id (db_answers db)))
     \<and> (\<forall>x\<in>set (db_answers db). history_ends_in (answer_history db (da_id x)) x)"

lemma answers_numbered_cong:
  "answer_tables db' = answer_tables db \<Longrightarrow> answers_numbered db' = answers_numbered db"
  by (simp add: answer_tables_def answers_numbered_def answer_history_def)

lemma history_first:
  "revision_of x v \<Longrightarrow> da_revision x = 1 \<Longrightarrow> history_ends_in [v] x"
  by (simp add: history_ends_in_def revision_of_def)

lemma history_later:
  "history_ends_in vs old \<Longrightarrow> revision_of x v \<Longrightarrow> da_revision x = da_revision old + 1 \<Longrightarrow>
   history_ends_in (vs @ [v]) x"
  using upto_rec2 [of 1 "da_revision x"] by (simp add: history_ends_in_def revision_of_def)

lemma answer_keeps_numbers:
  assumes ok: "answers_numbered db" and fresh: "fresh_answers e db"
    and w: "write_answer e q device p choice db = Inr ((x, created), db1)"
    and out: "db_answers db' = db_answers db1" "revision_of x v"
      "db_answer_revisions db' = db_answer_revisions db1 @ [v]"
  shows "answers_numbered db'"
  using w
proof (cases rule: write_answer_cases)
  case new
  have id: "da_id x \<notin> set (map da_id (db_answers db))" using new(2) fresh by (auto simp: fresh_answers_def)
  have "asked_of x \<notin> set (map asked_of (db_answers db))"
    using new(1,4,5) by (auto simp: find_answer_def find_None_iff asked_of_def)
  moreover have "answer_history db (da_id x) = []"
    using ok id unfolding answers_numbered_def answer_history_def filter_empty_conv by metis
  moreover have "answer_history db' i = (if i = da_id x then answer_history db i @ [v] else answer_history db i)"
    for i using out new(7) by (simp add: answer_history_def revision_of_def)
  moreover have "\<forall>y\<in>set (db_answers db). da_id y \<noteq> da_id x" using id unfolding set_map by (metis imageI)
  ultimately show ?thesis
    using ok id out new(3,6,7) history_first [OF out(2)] by (auto simp: answers_numbered_def revision_of_def)
next
  case (later old)
  let ?f = "modify_where (\<lambda>y. da_id y = da_id x) (\<lambda>_. x) (db_answers db)"
  have uniq: "y = old" if "y \<in> set (db_answers db)" "da_id y = da_id x" for y
    using ok that later(1,2) by (auto simp: answers_numbered_def distinct_map dest: inj_onD)
  have ids: "map da_id ?f = map da_id (db_answers db)" by (rule map_modify_where) simp
  have pairs: "map asked_of ?f = map asked_of (db_answers db)"
    using uniq later(5,6) by (auto simp: modify_where_def asked_of_def)
  have mine: "answer_history db' (da_id x) = answer_history db (da_id old) @ [v]"
    using out later(2,8) by (simp add: answer_history_def revision_of_def)
  have others: "answer_history db' i = answer_history db i" if "i \<noteq> da_id x" for i
    using out later(8) that by (simp add: answer_history_def revision_of_def)
  have "history_ends_in (answer_history db (da_id old)) old"
    using ok later(1) by (simp add: answers_numbered_def)
  from history_later [OF this out(2) later(3)] mine
  have new_end: "history_ends_in (answer_history db' (da_id x)) x" by simp
  have "history_ends_in (answer_history db' (da_id y)) y" if "y \<in> set ?f" for y
  proof (cases "da_id y = da_id x")
    case True
    then have "y = x" using that by (auto simp: in_modify_where_iff split: if_splits)
    then show ?thesis using new_end by simp
  next
    case False
    then have "y \<in> set (db_answers db)" using that by (auto simp: in_modify_where_iff split: if_splits)
    then show ?thesis using ok others [OF False] by (simp add: answers_numbered_def)
  qed
  moreover have "dr_answer_id v \<in> set (map da_id (db_answers db))"
    using out(2) later(1,2) by (auto simp: revision_of_def)
  ultimately show ?thesis
    using ok out later(7,8) ids pairs by (auto simp: answers_numbered_def)
qed

text \<open>The other handlers leave the answers as they are.\<close>

lemma other_calls:
  assumes "run_question Q c i k db = Inr (j, db')" "\<forall>p. k \<noteq> Put_answer p"
  shows "answer_tables db' = answer_tables db"
proof (cases k)
  case (Mark p)
  then show ?thesis using assms(1)
    by (auto simp: create_blind_spot_def Let_def and_then_Inr answer_tables_def flush_def tell_def
        dest!: asked_upserts(3) [THEN answer_tables_of])
next
  case (Observe p)
  let ?u = "\<lambda>f. (flush db)\<lparr>db_fragments := db_fragments db @ [f], id_count := Suc (id_count db)\<rparr>"
  have u: "answer_tables (?u f) = answer_tables db" for f by (simp add: answer_tables_def flush_def)
  obtain inc hit db1 db2 f db3 where r:
    "detect_structured_fragment_conflict (detection.truncate (rs_observing (qs_reports Q))) (rc_env c)
       (operator_fragment c (id_count db) inc p) (?u (operator_fragment c (id_count db) inc p)) = Inr (hit, db1)"
    "(case hit of None \<Rightarrow> Inr db1 | Some (k, opened) \<Rightarrow> show_case (rc_env c) (Some k)
        (flush (conflict_event (rc_env c) inc (if opened then ''conflict.opened'' else ''conflict.updated'') k db1)))
      = Inr db2"
    "upsert_fragment_map_feature (rc_env c) f (flush db2) = Inr db3" "asked_part db' = asked_part db3"
    using assms(1) Observe by (auto simp: create_fragment_def Let_def and_then_Inr)
  have "asked_part db2 = asked_part db1" using r(2) by (auto split: option.splits dest: asked_upserts(4))
  then show ?thesis
    using answer_tables_of [OF asked_detect [OF r(1)]] u answer_tables_of [OF asked_upserts(1) [OF r(3)]]
      answer_tables_of [OF r(4)] answer_tables_of [of db2 db1] answer_tables_of [of "flush db2" db2] by simp
qed (use assms in \<open>auto simp: create_question_def publish_question_def close_question_def
    change_question_status_def Let_def and_then_Inr answer_tables_def flush_def tell_def
    put_question_def split: option.splits if_splits\<close>)

lemma numbered_step:
  assumes "question_step Q db db'" "answers_numbered db" shows "answers_numbered db'"
  using assms(1)
proof cases
  case (handled c i k j)
  show ?thesis
  proof (cases "\<exists>p. k = Put_answer p")
    case True
    then obtain p where "put_my_answer Q c i p db = Inr (j, db')" using handled(2) by auto
    then show ?thesis
      by (rule answer_run) (rule answer_keeps_numbers [OF assms(2) handled(1)])
  next
    case False
    then show ?thesis using other_calls [OF handled(2)] answers_numbered_cong [of db' db] assms(2) by blast
  qed
next
  case elsewhere
  then show ?thesis using answers_numbered_cong [of db' db] assms(2) by blast
qed

interpretation numbered: kept_by "question_step Q" answers_numbered for Q
  by unfold_locales (rule numbered_step)

section \<open>Properties\<close>

text \<open>
  C16. However blind spots are marked, questions asked, published and closed and answers given and
  changed after the tables of answers were empty, a device has at most one answer to a question,
  and the history of every answer holds its revisions 1, 2, ... up to the present one, in order,
  the last with the option, the value and the text the answer has.
\<close>

theorem one_numbered_answer_per_device:
  fixes db0 db :: "'a core_db_scheme"
  assumes "answer_tables db0 = ([], [])" "(question_step Q)\<^sup>*\<^sup>* db0 db"
  shows "distinct (map (\<lambda>x. (da_question_id x, da_device_id x)) (db_answers db))
    \<and> (\<forall>x\<in>set (db_answers db). map dr_revision (answer_history db (da_id x)) = [1..da_revision x]
         \<and> 1 \<le> da_revision x \<and> revision_of x (last (answer_history db (da_id x))))"
proof -
  have "answers_numbered db0" using assms(1) by (simp add: answers_numbered_def answer_tables_def)
  from numbered.kept_star [OF assms(2) this] show ?thesis
    by (simp add: answers_numbered_def history_ends_in_def asked_of_def [abs_def])
qed

lemma devices_of_answers:
  assumes "answers_numbered db"
  shows "card (da_device_id ` set (valid_answers db i)) = length (valid_answers db i)"
proof -
  have "distinct (map asked_of (valid_answers db i))"
    using assms by (simp add: answers_numbered_def valid_answers_def distinct_map_filter)
  moreover have "map asked_of (valid_answers db i) = map (\<lambda>x. (i, da_device_id x)) (valid_answers db i)"
    by (auto simp: valid_answers_def asked_of_def)
  ultimately have "distinct (map (Pair i) (map da_device_id (valid_answers db i)))" by (simp add: comp_def)
  then have "distinct (map da_device_id (valid_answers db i))" by (simp only: distinct_map)
  from distinct_card [OF this] show ?thesis by simp
qed

text \<open>
  C6. Once a resident's answer is stored, the blind spot of its question is resolved if and only if
  someone answered something other than "unknown", all who did say the same, and they are at
  least as many different devices as the blind spot asks for; and it is then resolved to what
  they say.
\<close>

theorem gap_closed_by_agreeing_devices:
  fixes db0 db db' :: "'a core_db_scheme"
  assumes reach: "answer_tables db0 = ([], [])" "(question_step Q)\<^sup>*\<^sup>* db0 db"
    and fresh: "fresh_answers (rc_env c) db"
    and run: "put_my_answer Q c i p db = Inr (j, db')"
  shows "\<exists>q b. find_question db i = Some q \<and> find_blind_spot db' (qn_blind_spot_id q) = Some b
    \<and> (bs_status b = ''resolved'' \<longleftrightarrow> valid_answers db' i \<noteq> []
         \<and> (\<forall>x\<in>set (valid_answers db' i). \<forall>y\<in>set (valid_answers db' i).
              da_semantic_value x = da_semantic_value y)
         \<and> bs_min_valid_answers b \<le> int (card (da_device_id ` set (valid_answers db' i))))
    \<and> (bs_status b = ''resolved'' \<longrightarrow>
         (\<forall>x\<in>set (valid_answers db' i). bs_resolution_value b = Some (da_semantic_value x)))"
proof -
  have "question_step Q db db'" using handled [OF fresh, of Q i "Put_answer p"] run by simp
  then have "(question_step Q)\<^sup>*\<^sup>* db0 db'" using reach(2) by simp
  moreover have "answers_numbered db0" using reach(1) by (simp add: answers_numbered_def answer_tables_def)
  ultimately have devices: "card (da_device_id ` set (valid_answers db' i)) = length (valid_answers db' i)"
    by (intro devices_of_answers) (rule numbered.kept_star)
  obtain q choice inc b x created db1 b' changed v where
    g: "answerable Q c i p db = Inr (q, choice, inc, b)" and
    w: "write_answer (rc_env c) q (ac_subject_id (rc_actor c)) p choice db = Inr ((x, created), db1)" and
    k: "weighed (rc_env c) (valid_answer_consensus db' (qn_id q)) b = (b', changed)" and
    bs: "db_blind_spots db' = blind_spots_with b' changed db1"
    by (rule answer_run [OF run])
  note rows = answerable_rows [OF g] and kept = weighed_keeps [OF k]
  have "db_blind_spots db1 = db_blind_spots db" using w by (cases rule: write_answer_cases) simp_all
  from blind_spot_after [OF rows(6) _ _ bs this] kept
  have b': "find_blind_spot db' (qn_blind_spot_id q) = Some b'" by simp
  let ?k = "valid_answer_consensus db' i"
  note agree = consensus_agrees [OF refl, of db' i b] and res = weighed_resolved [OF k [unfolded rows(2)]]
  have iff: "bs_status b' = ''resolved'' \<longleftrightarrow> agreed ?k b \<and> \<not> disputed ?k" by (rule conjunct1 [OF res])
  have least: "bs_min_valid_answers b' = bs_min_valid_answers b" using kept by simp
  have "bs_status b' = ''resolved'' \<longrightarrow>
      (\<forall>x\<in>set (valid_answers db' i). bs_resolution_value b' = Some (da_semantic_value x))"
  proof (intro impI ballI)
    fix x assume "bs_status b' = ''resolved''" "x \<in> set (valid_answers db' i)"
    then show "bs_resolution_value b' = Some (da_semantic_value x)"
      using iff conjunct2 [OF agree] conjunct2 [OF res] by metis
  qed
  moreover note iff [unfolded conjunct1 [OF agree], folded devices least]
  ultimately show ?thesis using rows(1) b' by blast
qed

text \<open>A world with a blind spot that one answer can settle, and a published question about it.\<close>

definition demo_gap :: blind_spot where
  "demo_gap = \<lparr>bs_id = ''b1'', bs_incident_id = ''inc'', bs_claim_key = ''road'', bs_title = [1],
     bs_location_text = [2], bs_latitude = None, bs_longitude = None, bs_coordinate_system = None,
     bs_scope_type = ''incident'', bs_scope_data = None, bs_severity = ''medium'',
     bs_route_impact_count = 0, bs_min_valid_answers = 1, bs_status = ''open'',
     bs_resolution_value = None, bs_revision = 1, bs_created_at = 0, bs_updated_at = 0\<rparr>"

definition demo_question :: question where
  "demo_question = \<lparr>qn_id = ''q1'', qn_incident_id = ''inc'', qn_blind_spot_id = ''b1'', qn_title = [1],
     qn_location_text = [2], qn_target_geometry = None, qn_route_impact_count = 0,
     qn_answer_type = ''single_choice'',
     qn_options = map option_json [\<lparr>qo_id = ''y'', qo_label = [3], qo_semantic_value = Some ''open''\<rparr>,
       \<lparr>qo_id = ''n'', qo_label = [4], qo_semantic_value = Some ''closed''\<rparr>],
     qn_status = ''published'', qn_expires_at = None, qn_created_by = None, qn_revision = 2,
     qn_created_at = 0, qn_updated_at = 0\<rparr>"

definition demo_asked :: full_db where
  "demo_asked = demo_world\<lparr>db_blind_spots := [demo_gap], db_questions := [demo_question]\<rparr>"

definition demo_question_settings :: question_settings where
  "demo_question_settings = \<lparr>qs_reports = demo_settings, qs_float = (\<lambda>_. None)\<rparr>"

definition demo_answer :: answer_put where
  "demo_answer = \<lparr>aq_option_id = ''y'', aq_revision = 0, aq_answer_text = None, aq_latitude = None,
     aq_longitude = None, aq_coordinate_system = None, aq_attachment_ids = []\<rparr>"

lemmas demo_question_defs = demo_gap_def demo_question_def demo_asked_def demo_question_settings_def
  demo_answer_def demo_world_def demo_full_db_def

lemma upsert_without_place: "fs_latitude s = None \<Longrightarrow> \<exists>db'. upsert_map_feature e s db = Inr db'"
  by (auto simp: upsert_map_feature_def position_of_def split: option.splits)

lemma show_without_place:
  "fg_latitude f = None \<Longrightarrow> \<exists>db'. upsert_fragment_map_feature e f db = Inr db'"
  "bs_latitude b = None \<Longrightarrow> \<exists>db'. upsert_blind_spot_map_feature e b db = Inr db'"
  by (auto simp: upsert_fragment_map_feature_def upsert_blind_spot_map_feature_def Let_def
      intro: upsert_without_place)

lemma demo_answerable: "answerable demo_question_settings demo_resident_call ''q1'' demo_answer demo_asked
    = Inr (demo_question, option_json \<lparr>qo_id = ''y'', qo_label = [3], qo_semantic_value = Some ''open''\<rparr>,
        demo_incident, demo_gap)"
  by (simp add: answerable_def demo_question_defs demo_resident_call_def is_resident_def find_question_def
      ensure_incident_access_def past_def demo_device_def target_matches_def geometry_of_def and_then_def
      check_bbox_def check_radius_def center_of_def chosen_option_def option_json_def id_text_def jopt_def
      named_incident_def get_incident_by_id_def demo_incident_def find_blind_spot_def Let_def)

lemma demo_consensus:
  assumes "db_answers db = [x]" "da_question_id x = i" "da_semantic_value x = ''open''"
  shows "valid_answer_consensus db i = (Some ''open'', 1, {''open''})"
  using assms by (simp add: valid_answer_consensus_def counted_values_def lower_def strip_def is_space_def
      ascii_lower_def Let_def)

lemma demo_answer_returns:
  "\<exists>j db'. put_my_answer demo_question_settings demo_resident_call ''q1'' demo_answer demo_asked = Inr (j, db')"
proof -
  let ?c = demo_resident_call and ?Q = demo_question_settings
  let ?choice = "option_json \<lparr>qo_id = ''y'', qo_label = [3], qo_semantic_value = Some ''open''\<rparr>"
  have actor: "ac_subject_id (rc_actor ?c) = ''d1''" by (simp add: demo_resident_call_def)
  let ?x = "first_answer (rc_env ?c) 0 demo_question ''d1'' demo_answer ?choice"
  let ?db1 = "(flush demo_asked)\<lparr>db_answers := [?x], id_count := Suc 0\<rparr>"
  have w: "write_answer (rc_env ?c) demo_question ''d1'' demo_answer ?choice demo_asked
      = Inr ((?x, True), ?db1)"
    by (simp add: write_answer_def find_answer_def demo_question_defs flush_def Let_def)
  have a: "replace_answer_attachments ?x (qn_incident_id demo_question) ''d1''
      (aq_attachment_ids demo_answer) ?db1 = Inr ([], flush ?db1)"
    by (simp add: replace_answer_attachments_def demo_question_defs flush_def List.map_filter_def)
  let ?dbr = "add_answer_revision ?Q (rc_env ?c) ?x [] (flush ?db1)"
  obtain f0 db3 where f: "write_answer_fragment (rc_env ?c) demo_incident demo_question demo_gap demo_answer ?x
      ?dbr = (f0, db3)" by (metis surj_pair)
  then have f0: "db_answers db3 = [?x]" "db_fragments db3 = [f0]" "fg_latitude f0 = None"
    by (auto simp: write_answer_fragment_def find_answer_fragment_def add_answer_revision_def flush_def
        demo_question_defs first_fragment_def Let_def)
  have "da_question_id ?x = ''q1''" "da_semantic_value ?x = ''open''"
    by (simp_all add: first_answer_def answered_with_def semantic_of_def option_json_def jopt_def id_text_def
        demo_question_def Let_def)
  from demo_consensus [OF _ this, of "flush db3"] f0(1)
  have k: "valid_answer_consensus (flush db3) ''q1'' = (Some ''open'', 1, {''open''})" by (simp add: flush_def)
  let ?b = "resolved_blind_spot (rc_env ?c) (Some ''open'') demo_gap"
  let ?db4 = "put_blind_spot ?b (put_fragment (f0\<lparr>fg_status := ''resolved''\<rparr>) (flush db3))"
  have h: "weigh_answers ?Q (rc_env ?c) demo_incident demo_question demo_gap f0 True db3
      = Inr ((None, ?b, True), ?db4)"
    using k by (simp add: weigh_answers_def Let_def demo_question_def demo_gap_def disputed_def agreed_def
        weigh_agreement_def and_then_def)
  have "fg_latitude (refresh_fragment ?db4 f0) = None"
    using f0(2,3) by (simp add: refresh_fragment_def get_fragment_def put_blind_spot_def put_fragment_def flush_def)
  from show_without_place(1) [OF this] obtain db5 where
    5: "upsert_fragment_map_feature (rc_env ?c) (refresh_fragment ?db4 f0) (flush ?db4) = Inr db5" by blast
  have "bs_latitude ?b = None" by (simp add: resolved_blind_spot_def demo_gap_def)
  from show_without_place(2) [OF this] obtain db6 where
    6: "upsert_blind_spot_map_feature (rc_env ?c) ?b db5 = Inr db6" by blast
  show ?thesis
    by (simp add: put_my_answer_def demo_answerable and_then_def actor w a f h 5 6 show_case_def Let_def)
qed

theorem one_numbered_answer_per_device_witness:
  "\<exists>db' :: full_db. (\<exists>j. put_my_answer demo_question_settings demo_resident_call ''q1'' demo_answer demo_asked = Inr (j, db'))
     \<and> distinct (map (\<lambda>x. (da_question_id x, da_device_id x)) (db_answers db'))
     \<and> list_all (\<lambda>x. map dr_revision (answer_history db' (da_id x)) = [1..da_revision x]) (db_answers db')"
proof -
  obtain j and db' :: full_db where
    run: "put_my_answer demo_question_settings demo_resident_call ''q1'' demo_answer demo_asked = Inr (j, db')"
    using demo_answer_returns by blast
  have "fresh_answers (rc_env demo_resident_call) demo_asked" by (simp add: fresh_answers_def demo_question_defs)
  from handled [OF this, of demo_question_settings "''q1''" "Put_answer demo_answer" j db'] run
  have "(question_step demo_question_settings)\<^sup>*\<^sup>* demo_asked db'" by simp
  moreover have "answer_tables demo_asked = ([], [])" by (simp add: answer_tables_def demo_question_defs)
  ultimately show ?thesis
    using one_numbered_answer_per_device [of demo_asked demo_question_settings db'] run
    by (auto simp: list_all_iff)
qed

theorem gap_closed_by_agreeing_devices_witness:
  "\<exists>(db' :: full_db) b. (\<exists>j. put_my_answer demo_question_settings demo_resident_call ''q1'' demo_answer demo_asked = Inr (j, db'))
     \<and> find_blind_spot db' ''b1'' = Some b
     \<and> (bs_status b = ''resolved'' \<longleftrightarrow> valid_answers db' ''q1'' \<noteq> []
         \<and> (\<forall>x\<in>set (valid_answers db' ''q1''). \<forall>y\<in>set (valid_answers db' ''q1'').
              da_semantic_value x = da_semantic_value y)
         \<and> bs_min_valid_answers b \<le> int (card (da_device_id ` set (valid_answers db' ''q1''))))"
proof -
  obtain j and db' :: full_db where
    run: "put_my_answer demo_question_settings demo_resident_call ''q1'' demo_answer demo_asked = Inr (j, db')"
    using demo_answer_returns by blast
  have fresh: "fresh_answers (rc_env demo_resident_call) demo_asked"
    by (simp add: fresh_answers_def demo_question_defs)
  have none: "answer_tables demo_asked = ([], [])" by (simp add: answer_tables_def demo_question_defs)
  have "find_question demo_asked ''q1'' = Some demo_question"
    by (simp add: find_question_def demo_question_defs)
  then have "qn_blind_spot_id q = ''b1''" if "find_question demo_asked ''q1'' = Some q" for q
    using that by (simp add: demo_question_def)
  with gap_closed_by_agreeing_devices [OF none rtranclp.rtrancl_refl fresh run] run show ?thesis by metis
qed

section \<open>Where the handlers do less than they mean to\<close>

text \<open>
  The centre of a target area is not checked when a question is created.  A latitude that does
  not exist makes the test of the area raise instead of failing, and with it every search for
  questions near a place.
\<close>

lemma matching_raises:
  "q \<in> set qs \<Longrightarrow> \<not> past e (qn_expires_at q) \<Longrightarrow> hits q = Inl err \<Longrightarrow> \<exists>err'. matching_among hits e qs = Inl err'"
proof (induction qs)
  case (Cons r rs)
  show ?case
  proof (cases "r = q")
    case True
    then show ?thesis using Cons.prems by (simp add: and_then_def)
  next
    case False
    then obtain err' where "matching_among hits e rs = Inl err'" using Cons by auto
    then show ?thesis by (cases "hits r") (simp_all add: and_then_def)
  qed
qed simp

lemma bad_center_blocks_search:
  assumes q: "q \<in> set (db_questions db)" "qn_incident_id q = iid" "qn_status q = ''published''"
      "\<not> past e (qn_expires_at q)"
      "qn_target_geometry q = Some (JObj [(''center'', JObj [(''latitude'', JInt 95), (''longitude'', JInt 0)]),
         (''radius_m'', JInt 100)])"
    and place: "- 90 \<le> lat" "lat \<le> 90" "- 180 \<le> lon" "lon \<le> 180"
  shows "\<exists>err. matching_questions Q e iid (Some lat) (Some lon) (Some ''wgs84'') region db = Inl err"
proof -
  have "lower ''wgs84'' = ''wgs84''" by code_simp
  moreover have "- 90 \<le> (of_rat lat :: real)" "(of_rat lat :: real) \<le> 90"
      "- 180 \<le> (of_rat lon :: real)" "(of_rat lon :: real) \<le> 180"
    using of_rat_less_eq [of "- 90" lat, where 'a = real] of_rat_less_eq [of lat 90, where 'a = real]
      of_rat_less_eq [of "- 180" lon, where 'a = real] of_rat_less_eq [of lon 180, where 'a = real] place
    by (simp_all add: of_rat_minus)
  ultimately obtain p where p: "normalize_position (of_rat lat) (of_rat lon) ''wgs84'' = Inr p"
    using normalize_total [of "''wgs84''" "of_rat lat" "of_rat lon"] by blast
  have "target_matches (qs_float Q) q (Some lat) (Some lon) (Some ''wgs84'') region
      = Inl (ApiError 422 ''INVALID_COORDINATES'')"
    using p by (simp add: target_matches_def geometry_of_def q(5) and_then_def check_bbox_def check_radius_def
        center_of_def to_float_def normalize_position_def validate_coordinates_def Let_def)
  then show ?thesis unfolding matching_questions_def
    by (intro matching_raises [of q]) (use q in simp_all)
qed

text \<open>
  A question with a box and a circle tests the circle with the position it converted for the
  box, but still under the system the client named: the position is converted twice.
\<close>

lemma box_conversion_reused:
  assumes "target_matches rd q (Some lat) (Some lon) (Some ''wgs84'') region = Inr True"
    and "truthy (jget (geometry_of q) ''bbox'')" "jget (geometry_of q) ''coordinate_system'' = JStr ''gcj02''"
    and "normalize_position (of_rat lat) (of_rat lon) ''wgs84'' = Inr p"
  shows "check_radius rd (geometry_of q) (Some (pos_gcj02_latitude p)) (Some (pos_gcj02_longitude p))
    (Some ''wgs84'') = Inr True"
  using assms unfolding target_matches_def check_bbox_def into_system_def Let_def
  by (auto simp: system_or_def printed_def or_else_def and_then_Inr split: option.splits if_splits)

end
