(* ===== verification/Spec2Isabelle.thy ===== *)
theory Spec2Isabelle
  imports RateLimit Broadcast Utf8 Retention ReportReads QuestionLaws
begin

text \<open>
  \<^bold>\<open>Crisis Mosaic, the backend: a model and its correctness\<close>

  The backend collects reports about a disaster, reads from their texts what they claim about
  roads and places, keeps the contradictions between them as conflicts, lets operators decide
  these, and tells every client what changed.  All paths below are under
  \<open>src/src/crisis_mosaic/\<close>.

  \<^bold>\<open>How the parts interact.\<close>  A request passes the rate limiter and the idempotency layer
  (\<open>middleware.py\<close>), is authenticated (\<open>dependencies.get_actor\<close>) and reaches a handler.  The
  handler changes rows, writes an audit entry and an outbox row with \<open>emit_event\<close>, and
  commits, all under one write lock.  A change of a report (\<open>routers/reports.py\<close>) also writes a
  row of its history, its map feature, its observation (\<open>services/report_observations.py\<close>: a
  fragment, from which conflicts and blind spots follow) and notices for operators
  (\<open>services/notifications.py\<close>).  The worker (\<open>workers.py\<close>) publishes outbox rows in order to the
  hub (\<open>realtime.py\<close>), which offers them to the bounded queues of the connections; it also
  leases background jobs, delivers notifications and runs the retention pass.  A client that
  reconnects is first given the events it has missed from the outbox.

  \<^bold>\<open>The theories.\<close>
  \<^item> \<open>Prelude\<close>, \<open>Strings\<close>: errors, identifiers, time, JSON, tables as lists of rows; the
    locales \<open>keyed_update\<close> (changing the row with one key), \<open>growing\<close> (rows that only move up
    an order), \<open>kept_by\<close> (an invariant kept by every step); ASCII strings and path patterns.
  \<^item> \<open>Security\<close> (\<open>security.py\<close>, \<open>dependencies.py\<close>): actors and access checks.
  \<^item> \<open>Events\<close> (\<open>services/events.py\<close>): audit and outbox; numbers without gaps, one revision per
    transaction, stale briefs.
  \<^item> \<open>Priority\<close> (\<open>domain/priority.py\<close>): what makes a report urgent.
  \<^item> \<open>Idempotency\<close>, \<open>RateLimit\<close> (\<open>middleware.py\<close>, \<open>services/idempotency.py\<close>): the refinement of a
    keyed store with expiry, at most one run per key, one flight per key in every interleaving
    (\<open>idem_step\<close>); the sliding window.
  \<^item> \<open>Auth\<close> (\<open>routers/auth.py\<close>): sessions and rotating refresh tokens; the operations in any
    order are \<open>run_ops\<close>.
  \<^item> \<open>Jobs\<close> (\<open>workers.py\<close>): leases, retries, publication in order.
  \<^item> \<open>Realtime\<close> (\<open>realtime.py\<close>): visibility, handshake, replay, queues; \<open>stream_step\<close> interleaves
    the worker with one connection.  \<open>Broadcast\<close>: outbox, worker and hub as one path, on which
    the theorems of this theory rest.
  \<^item> \<open>Rows\<close>, \<open>Store\<close> (\<open>models.py\<close>): the tables, \<open>core_db\<close> and \<open>full_db\<close>, extensions of \<open>ev_db\<close>.
  \<^item> \<open>Coordinates\<close> (\<open>domain/coordinates.py\<close>), \<open>MapFeatures\<close> (\<open>services/map_features.py\<close>).
  \<^item> \<open>Conflicts\<close>, \<open>Detection\<close> (\<open>services/conflicts.py\<close>, \<open>routers/conflicts.py\<close>): evidence,
    decisions, detection of contradictions; \<open>FactHistory\<close>: every operation that writes facts is a
    run of three abstract steps (\<open>fact_step\<close>), from which the history of a fact is one unbroken,
    append-only chain.
  \<^item> \<open>Notifications\<close> (\<open>services/notifications.py\<close>, \<open>routers/notifications.py\<close>): devices,
    preferences, deliveries, receipts; nobody is told twice, under every order of operations.
  \<^item> \<open>Contacts\<close> (\<open>services/contacts.py\<close>): validation, masking and sealing of personal data; what
    is stored is well formed, opens again, and only in its place.
  \<^item> \<open>Retention\<close> (\<open>services/retention.py\<close>): the pass empties what is due, keeps what is not, and is
    idempotent; the locale \<open>repeatable\<close> states what independent idempotent steps give.
  \<^item> \<open>Patterns\<close>: regular expressions as the code uses them, as a search (\<open>found\<close>) that is proved
    to agree with a declarative reading (\<open>found_iff_matches\<close>).  \<open>Claims\<close>, \<open>Observations\<close>,
    \<open>ObservationLaws\<close> (\<open>services/report_observations.py\<close>): what a text claims, the fragment that
    follows a report, evidence, reconciliation of conflicts, blind spots.
  \<^item> \<open>Attachments\<close> (\<open>services/attachments.py\<close>, \<open>services/qiniu.py\<close>, parts of
    \<open>services/reports.py\<close>): signed links, what is shown of a file, binding files to reports.
  \<^item> \<open>Reports\<close> (\<open>services/reports.py\<close>, \<open>routers/reports.py\<close>): the handlers that change reports.
    \<open>ReportRules\<close>: what each does to the two tables of reports, and \<open>report_step\<close>, in which the
    handlers follow one another with anything between them that leaves these tables alone.
    \<open>ReportLife\<close>: complete histories, no lost update, final states, ownership, priority of urgent
    reports, withdrawal of observations, retried creations.  \<open>ReportReads\<close>: the reading handlers;
    the locale \<open>keyset\<close> states what paging by a key rests on, with both orders of the list as
    interpretations.
  \<^item> \<open>Questions\<close> (\<open>routers/questions.py\<close>): blind spots that operators mark, questions about them, the
    test of target areas, answers.  \<open>QuestionLaws\<close>: \<open>question_step\<close> lets the handlers follow one
    another; a device has one numbered answer to a question, and the answers resolve the blind spot
    exactly when they agree and are enough.
  \<^item> \<open>Base64\<close>, \<open>Utf8\<close> (\<open>static/swagger/swagger-ui-bundle.js\<close>): the codecs of the documentation
    page.

  \<^bold>\<open>Conventions.\<close>  A raised \<open>ApiError\<close> is \<open>Inl\<close> of status and code; \<open>internal_error\<close> stands for an
  exception nobody catches.  A handler runs under \<open>write_lock\<close>, so it is a function from the
  committed database to a result and the next committed database; where only success commits,
  the database comes with the result.  Interleavings are explicit where the code gives up the
  lock: \<open>idem_step\<close>, \<open>job_op\<close>, \<open>stream_step\<close>, and \<open>report_step\<close> and
  \<open>question_step\<close> between requests.  Fresh
  identifiers are \<open>new_id e k\<close> with the counter \<open>id_count\<close>; the properties that need it assume the
  generator injective or its identifiers unused, as those of UUIDs are meant to be.

  \<^bold>\<open>Parameters.\<close>  Code outside the repository is an argument: hashes and passwords, JWT
  signing, the random source (\<open>auth_services\<close>), SHA-256 and HMAC (\<open>sha\<close>, \<open>link_settings\<close>), AES-GCM
  (\<open>vault\<close>, with the law \<open>authenticated\<close>), the JSON codec (\<open>idem_config\<close>, \<open>report_settings\<close>), the
  Unicode tables (\<open>detection\<close>, \<open>observing\<close>), the clock (\<open>env\<close>), and for the worker the
  processing of a job and the event handler.

  \<^bold>\<open>Bounds.\<close>  No definition needs fuel; the recursions of the codecs and of \<open>matched_size\<close>
  end by a measure, and following the pages of the report list, a \<open>partial_function\<close>, is proved to
  end.  \<open>int\<close> stands for the unbounded integers of the program and for integer columns.  Submitted
  coordinates are rationals, computed ones real numbers: rounding is not modelled.  Bytes and
  code units of the codecs are words of 8 and 16 bits.

  \<^bold>\<open>Not modelled.\<close>  Prompts and answers of AI services, receiving, scanning and converting
  uploads, incidents and administration, the queries of the map and the list of fragments, metrics,
  configuration and start-up; texts of errors, headers and audit details.  Of the documentation
  page, a third-party bundle minified on one line, only the two codecs are: the rest is a user
  interface.
\<close>

section \<open>From the decision to the client\<close>


text \<open>
  The two ways to learn about a fact disagree: \<open>decide_conflict\<close> takes the status and the
  publicity of a version independently, so a decision that is public but "under review" sends
  its statement to every connected resident, while reading the record is refused to them.
\<close>

theorem statement_under_review_leaks:
  assumes "submit_conflict_decision e a h rid i p db = Inr (r, db')" "get_case db i = Inr cc"
    and "cq_is_public p" "cq_fact_status p = ''under_review''"
    and "inj (new_id e)" "outbox_ids_ok (new_id e) db" "pending (db_outbox db) = []"
    and "length (pending (db_outbox db')) \<le> 100 * k"
    and "c \<in> set hub" "cn_incident_id c = cc_incident_id cc" "ac_role (cn_actor c) = ''resident''"
    and "roomy (length (pending (db_outbox db'))) c"
    and "(batch_step hub_handler t ^^ k) (hub, db_outbox db') = (hub', rows')"
  shows "(\<exists>new. c\<lparr>cn_queue := cn_queue c @ new\<rparr> \<in> set hub'
      \<and> (\<exists>y \<in> set new. jget (env_data y) ''statement'' = JText (cq_conclusion p)))
    \<and> (\<exists>err. get_fact_record (cn_actor c) header (dc_fact_id r) db' = Inl err)"
proof (rule conjI)
  show "\<exists>new. c\<lparr>cn_queue := cn_queue c @ new\<rparr> \<in> set hub'
      \<and> (\<exists>y \<in> set new. jget (env_data y) ''statement'' = JText (cq_conclusion p))"
    by (rule decision_queue [OF assms(1,7,2) decision_ids [OF assms(1,5,6)] assms(8-13)])
      (use assms(3) in auto)
  show "\<exists>err. get_fact_record (cn_actor c) header (dc_fact_id r) db' = Inl err"
    using decided_fact_readable [OF assms(1)] assms(4,11)
    by (cases "get_fact_record (cn_actor c) header (dc_fact_id r) db'") (auto simp: is_resident_def)
qed

section \<open>Examples\<close>

text \<open>A resident with an unbounded queue, beside the example conflict of \<open>FactHistory\<close>.\<close>

definition demo_resident :: connection where
  "demo_resident = \<lparr>cn_id = 1, cn_actor = device_actor demo_device [''inc''],
     cn_incident_id = ''inc'', cn_expires_at = 100, cn_maxsize = 0, cn_queue = []\<rparr>"

definition demo_decision_env :: env where
  "demo_decision_env = \<lparr>now = 5, new_id = demo_ids, request_ctx = None\<rparr>"

lemma demo_broadcast:
  "inj (new_id demo_decision_env)" "outbox_ids_ok (new_id demo_decision_env) (begin_tx 1 demo_conflict_db)"
  "pending (db_outbox (begin_tx 1 demo_conflict_db)) = []"
  "get_case (begin_tx 1 demo_conflict_db) ''c'' = Inr demo_case"
  "cn_incident_id demo_resident = cc_incident_id demo_case"
  "ac_role (cn_actor demo_resident) = ''resident''" "roomy n demo_resident" "cn_queue demo_resident = []"
  by (auto simp: demo_decision_env_def demo_ids_def inj_def outbox_ids_ok_def ids_within_def
      begin_tx_def demo_conflict_db_def demo_core_db_def pending_def get_case_def demo_case_def
      demo_resident_def device_actor_def roomy_def)


theorem statement_under_review_leaks_witness:
  "\<exists>r db' k hub' rows' new. submit_conflict_decision demo_decision_env demo_operator None None ''c''
       (demo_decision\<lparr>cq_fact_status := ''under_review''\<rparr>) (begin_tx 1 demo_conflict_db) = Inr (r, db')
     \<and> (batch_step hub_handler 6 ^^ k) ([demo_resident], db_outbox db') = (hub', rows')
     \<and> demo_resident\<lparr>cn_queue := new\<rparr> \<in> set hub'
     \<and> (\<exists>y \<in> set new. jget (env_data y) ''statement'' = JText [66])
     \<and> (\<exists>err. get_fact_record (cn_actor demo_resident) None (dc_fact_id r) db' = Inl err)"
proof -
  let ?p = "demo_decision\<lparr>cq_fact_status := ''under_review''\<rparr>"
  obtain r db' where d: "submit_conflict_decision demo_decision_env demo_operator None None ''c''
      ?p (begin_tx 1 demo_conflict_db) = Inr (r, db')"
    using demo_decides_status by blast
  let ?k = "length (pending (db_outbox db'))"
  obtain hub' rows' where b: "(batch_step hub_handler 6 ^^ ?k) ([demo_resident], db_outbox db') = (hub', rows')"
    by fastforce
  have le: "?k \<le> 100 * ?k" and mem: "demo_resident \<in> set [demo_resident]"
    and p: "cq_is_public ?p" "cq_fact_status ?p = ''under_review''" "cq_conclusion ?p = [66]"
    by (simp_all add: demo_decision_def)
  from statement_under_review_leaks [OF d demo_broadcast(4) p(1,2) demo_broadcast(1,2,3) le mem
      demo_broadcast(5-7) b, of None]
  show ?thesis using d b demo_broadcast(8) p(3) by auto
qed

end
